(* ===== verification/Prelude.thy ===== *)
theory Prelude
  imports Main "HOL-Library.Word"
begin

text \<open>
  Shared vocabulary of the development.
  \<^item> the machine integers of the Rust sources as words;
  \<^item> \<open>outcome\<close>: what a Rust call can end in (a value, an \<open>Err\<close>, or a panic), with its
    sequencing operator \<open>obind\<close>, the model of the \<open>?\<close> operator;
  \<^item> \<open>checked_add\<close>, \<open>checked_mul\<close>, \<open>saturating_add\<close> and the plain \<open>+\<close> of Rust, which
    panics on overflow in a build with overflow checks (\<open>add_or_panic\<close>);
  \<^item> byte slices: bounded reads, in-place writes, little-endian codecs.
  The collection \<open>outcome_simps\<close> inverts sequenced computations, \<open>no_panic_intros\<close> proves that a
  computation cannot panic, \<open>slice_simps\<close> reads slices back after writes.
\<close>

unbundle bit_operations_syntax

named_theorems outcome_simps \<open>inversion of sequenced outcomes\<close>
named_theorems no_panic_intros \<open>introduction rules for panic freedom\<close>
named_theorems eval_simps \<open>evaluation of closed terms on numerals\<close>
named_theorems slice_simps \<open>reads and writes of byte slices\<close>

section \<open>Machine integers\<close>

type_synonym u8 = "8 word"
type_synonym u16 = "16 word"
type_synonym u32 = "32 word"
type_synonym u64 = "64 word"
type_synonym i64 = "64 word"
type_synonym bytes = "8 word list"

definition checked_add :: "'a::len word \<Rightarrow> 'a word \<Rightarrow> 'a word option" where
  "checked_add a b = (if unat a + unat b < 2 ^ LENGTH('a) then Some (a + b) else None)"

definition checked_mul :: "'a::len word \<Rightarrow> 'a word \<Rightarrow> 'a word option" where
  "checked_mul a b = (if unat a * unat b < 2 ^ LENGTH('a) then Some (a * b) else None)"

definition saturating_add :: "'a::len word \<Rightarrow> 'a word \<Rightarrow> 'a word" where
  "saturating_add a b = (if unat a + unat b < 2 ^ LENGTH('a) then a + b else - 1)"

text \<open>\<open>usize\<close> is a natural number below \<open>2 ^ 64\<close>; its checked addition says so.\<close>

definition usize_checked_add :: "nat \<Rightarrow> nat \<Rightarrow> nat option" where
  "usize_checked_add a b = (if a + b < 2 ^ 64 then Some (a + b) else None)"

section \<open>Outcomes\<close>

datatype ('e, 'a) outcome = Ok 'a | Err 'e | Panic string

primrec obind :: "('e, 'a) outcome \<Rightarrow> ('a \<Rightarrow> ('e, 'b) outcome) \<Rightarrow> ('e, 'b) outcome" where
  "obind (Ok x) f = f x"
| "obind (Err e) f = Err e"
| "obind (Panic p) f = Panic p"

primrec ok_or :: "'a option \<Rightarrow> 'e \<Rightarrow> ('e, 'a) outcome" where
  "ok_or None e = Err e"
| "ok_or (Some x) e = Ok x"

primrec ok :: "('e, 'a) outcome \<Rightarrow> 'a option" where
  "ok (Ok x) = Some x"
| "ok (Err e) = None"
| "ok (Panic p) = None"

primrec no_panic :: "('e, 'a) outcome \<Rightarrow> bool" where
  "no_panic (Ok x) \<longleftrightarrow> True"
| "no_panic (Err e) \<longleftrightarrow> True"
| "no_panic (Panic p) \<longleftrightarrow> False"

text \<open>
  A call that also changes a state (a \<open>&mut\<close> argument) returns the state whatever the outcome;
  \<open>sbind\<close> is \<open>?\<close> for such calls.
\<close>

definition sbind ::
  "('e, 'a) outcome \<times> 's \<Rightarrow> ('a \<Rightarrow> 's \<Rightarrow> ('e, 'b) outcome \<times> 's) \<Rightarrow> ('e, 'b) outcome \<times> 's" where
  "sbind m f = (case fst m of Ok x \<Rightarrow> f x (snd m) | Err e \<Rightarrow> (Err e, snd m) | Panic p \<Rightarrow> (Panic p, snd m))"

text \<open>The plain \<open>+\<close> on unsigned integers in a build with overflow checks.\<close>

definition usize_add :: "nat \<Rightarrow> nat \<Rightarrow> ('e, nat) outcome" where
  "usize_add a b = (if a + b < 2 ^ 64 then Ok (a + b) else Panic ''attempt to add with overflow'')"

definition add_or_panic :: "'a::len word \<Rightarrow> 'a word \<Rightarrow> ('e, 'a word) outcome" where
  "add_or_panic a b =
     (if unat a + unat b < 2 ^ LENGTH('a) then Ok (a + b)
      else Panic ''attempt to add with overflow'')"

definition mul_or_panic :: "'a::len word \<Rightarrow> 'a word \<Rightarrow> ('e, 'a word) outcome" where
  "mul_or_panic a b =
     (if unat a * unat b < 2 ^ LENGTH('a) then Ok (a * b)
      else Panic ''attempt to multiply with overflow'')"

section \<open>Byte slices\<close>

definition get_range :: "'a list \<Rightarrow> nat \<Rightarrow> nat \<Rightarrow> 'a list option" where
  "get_range xs off n = (if off + n \<le> length xs then Some (take n (drop off xs)) else None)"

definition put_range :: "'a list \<Rightarrow> nat \<Rightarrow> 'a list \<Rightarrow> 'a list" where
  "put_range xs off ys = take off xs @ ys @ drop (off + length ys) xs"

primrec from_le :: "bytes \<Rightarrow> nat" where
  "from_le [] = 0"
| "from_le (b # bs) = unat b + 256 * from_le bs"

primrec to_le :: "nat \<Rightarrow> nat \<Rightarrow> bytes" where
  "to_le 0 v = []"
| "to_le (Suc n) v = of_nat v # to_le n (v div 256)"

definition u16_from_le :: "bytes \<Rightarrow> u16" where
  "u16_from_le bs = of_nat (from_le bs)"

definition u32_from_le :: "bytes \<Rightarrow> u32" where
  "u32_from_le bs = of_nat (from_le bs)"

definition u64_from_le :: "bytes \<Rightarrow> u64" where
  "u64_from_le bs = of_nat (from_le bs)"

definition u16_to_le :: "u16 \<Rightarrow> bytes" where
  "u16_to_le w = to_le 2 (unat w)"

definition u32_to_le :: "u32 \<Rightarrow> bytes" where
  "u32_to_le w = to_le 4 (unat w)"

definition u64_to_le :: "u64 \<Rightarrow> bytes" where
  "u64_to_le w = to_le 8 (unat w)"

text \<open>The sub-slice \<open>bs[a..b]\<close> of a slice known to be long enough.\<close>

definition sub :: "'a list \<Rightarrow> nat \<Rightarrow> nat \<Rightarrow> 'a list" where
  "sub bs a b = take (b - a) (drop a bs)"

section \<open>UTF-8\<close>

text \<open>
  A Rust \<open>String\<close> is a valid UTF-8 byte sequence; \<open>utf8_valid\<close> is the check of
  \<open>String::from_utf8\<close> and \<open>core::str::from_utf8\<close>: no overlong form, no surrogate, nothing
  above \<open>0x10FFFF\<close>.
\<close>

definition utf8_cont :: "u8 \<Rightarrow> bool" where
  "utf8_cont b \<longleftrightarrow> 0x80 \<le> b \<and> b \<le> 0xBF"

definition utf8_second3 :: "u8 \<Rightarrow> u8 \<Rightarrow> bool" where
  "utf8_second3 a b \<longleftrightarrow>
     (a = 0xE0 \<and> 0xA0 \<le> b \<and> b \<le> 0xBF) \<or> (0xE1 \<le> a \<and> a \<le> 0xEC \<and> utf8_cont b) \<or>
     (a = 0xED \<and> 0x80 \<le> b \<and> b \<le> 0x9F) \<or> (0xEE \<le> a \<and> a \<le> 0xEF \<and> utf8_cont b)"

definition utf8_second4 :: "u8 \<Rightarrow> u8 \<Rightarrow> bool" where
  "utf8_second4 a b \<longleftrightarrow>
     (a = 0xF0 \<and> 0x90 \<le> b \<and> b \<le> 0xBF) \<or> (0xF1 \<le> a \<and> a \<le> 0xF3 \<and> utf8_cont b) \<or>
     (a = 0xF4 \<and> 0x80 \<le> b \<and> b \<le> 0x8F)"

fun utf8_valid :: "bytes \<Rightarrow> bool" where
  "utf8_valid [] = True"
| "utf8_valid (a # bs) =
     (if a < 0x80 then utf8_valid bs
      else if 0xC2 \<le> a \<and> a \<le> 0xDF then
        (case bs of b # r \<Rightarrow> utf8_cont b \<and> utf8_valid r | [] \<Rightarrow> False)
      else if 0xE0 \<le> a \<and> a \<le> 0xEF then
        (case bs of b # c # r \<Rightarrow> utf8_second3 a b \<and> utf8_cont c \<and> utf8_valid r | _ \<Rightarrow> False)
      else if 0xF0 \<le> a \<and> a \<le> 0xF4 then
        (case bs of b # c # d # r \<Rightarrow>
           utf8_second4 a b \<and> utf8_cont c \<and> utf8_cont d \<and> utf8_valid r | _ \<Rightarrow> False)
      else False)"

section \<open>Lemmas on outcomes\<close>

lemma obind_cong [fundef_cong]:
  "m = m' \<Longrightarrow> (\<And>x. m' = Ok x \<Longrightarrow> f x = g x) \<Longrightarrow> obind m f = obind m' g"
  by (cases m') auto

lemma obind_eq_Ok [outcome_simps]: "obind m f = Ok y \<longleftrightarrow> (\<exists>x. m = Ok x \<and> f x = Ok y)"
  by (cases m) auto

lemma obind_eq_Err [outcome_simps]:
  "obind m f = Err e \<longleftrightarrow> m = Err e \<or> (\<exists>x. m = Ok x \<and> f x = Err e)"
  by (cases m) auto

lemma ok_or_eq_Ok [outcome_simps]: "ok_or v e = Ok x \<longleftrightarrow> v = Some x"
  by (cases v) auto

lemma ok_or_eq_Err [outcome_simps]: "ok_or v e = Err e' \<longleftrightarrow> v = None \<and> e = e'"
  by (cases v) auto

lemma sbind_simps [simp]:
  "sbind (Ok x, s) f = f x s" "sbind (Err e, s) f = (Err e, s)" "sbind (Panic p, s) f = (Panic p, s)"
  by (simp_all add: sbind_def)

lemma sbind_cong [fundef_cong]:
  "m = m' \<Longrightarrow> (\<And>x s. m' = (Ok x, s) \<Longrightarrow> f x s = g x s) \<Longrightarrow> sbind m f = sbind m' g"
  by (cases m') (auto simp: sbind_def split: outcome.splits)

lemma sbind_eq_Ok [outcome_simps]:
  "sbind m f = (Ok y, s') \<longleftrightarrow> (\<exists>x s. m = (Ok x, s) \<and> f x s = (Ok y, s'))"
  by (cases m) (auto simp: sbind_def split: outcome.splits)

lemma no_panic_sbind [no_panic_intros]:
  "no_panic (fst m) \<Longrightarrow> (\<And>x s. m = (Ok x, s) \<Longrightarrow> no_panic (fst (f x s))) \<Longrightarrow> no_panic (fst (sbind m f))"
  by (cases m) (auto simp: sbind_def split: outcome.splits)

lemma no_panic_obind [no_panic_intros]:
  "no_panic m \<Longrightarrow> (\<And>x. m = Ok x \<Longrightarrow> no_panic (f x)) \<Longrightarrow> no_panic (obind m f)"
  by (cases m) auto

lemma no_panic_ok_or [simp, no_panic_intros]: "no_panic (ok_or v e)"
  by (cases v) auto

lemma no_panic_simps [no_panic_intros]: "no_panic (Ok x)" "no_panic (Err e)"
  by simp_all

lemma no_panic_if [no_panic_intros]:
  "(c \<Longrightarrow> no_panic m) \<Longrightarrow> (\<not> c \<Longrightarrow> no_panic m') \<Longrightarrow> no_panic (if c then m else m')"
  by simp

lemma no_panic_case_prod [no_panic_intros]:
  "(\<And>a b. p = (a, b) \<Longrightarrow> no_panic (f a b)) \<Longrightarrow> no_panic (case p of (a, b) \<Rightarrow> f a b)"
  by (cases p) simp

lemma no_panic_case_option [no_panic_intros]:
  "(v = None \<Longrightarrow> no_panic m) \<Longrightarrow> (\<And>x. v = Some x \<Longrightarrow> no_panic (f x)) \<Longrightarrow>
   no_panic (case v of None \<Rightarrow> m | Some x \<Rightarrow> f x)"
  by (cases v) simp_all

lemma no_panic_Let [no_panic_intros]: "no_panic (f x) \<Longrightarrow> no_panic (Let x f)"
  by simp

lemma no_panic_iff: "no_panic m \<longleftrightarrow> (\<forall>p. m \<noteq> Panic p)"
  by (cases m) auto

lemma no_panic_add: "unat a + unat b < 2 ^ LENGTH('a) \<Longrightarrow> no_panic (add_or_panic a (b :: 'a::len word))"
  by (simp add: add_or_panic_def)

lemma add_or_panic_Ok [outcome_simps]:
  "add_or_panic a b = Ok c \<longleftrightarrow> unat a + unat b < 2 ^ LENGTH('a) \<and> c = a + (b :: 'a::len word)"
  by (auto simp: add_or_panic_def)

lemma mul_or_panic_Ok [outcome_simps]:
  "mul_or_panic a b = Ok c \<longleftrightarrow> unat a * unat b < 2 ^ LENGTH('a) \<and> c = a * (b :: 'a::len word)"
  by (auto simp: mul_or_panic_def)

lemma usize_add_Ok [outcome_simps]: "usize_add a b = Ok c \<longleftrightarrow> a + b < 2 ^ 64 \<and> c = a + b"
  by (auto simp: usize_add_def)

lemma no_panic_usize_add: "a + b < 2 ^ 64 \<Longrightarrow> no_panic (usize_add a b)"
  by (simp add: usize_add_def)

section \<open>Lemmas on integers\<close>

lemma unat_add_small:
  "unat a + unat b < 2 ^ LENGTH('a) \<Longrightarrow> unat (a + b) = unat a + unat (b :: 'a::len word)"
  by (simp add: unat_word_ariths)

lemma unat_mul_small:
  "unat a * unat b < 2 ^ LENGTH('a) \<Longrightarrow> unat (a * b) = unat a * unat (b :: 'a::len word)"
  by (simp add: unat_word_ariths)

lemma checked_add_Some:
  "checked_add a b = Some c \<longleftrightarrow> unat a + unat b < 2 ^ LENGTH('a) \<and> c = a + (b :: 'a::len word)"
  by (auto simp: checked_add_def)

lemma checked_mul_Some:
  "checked_mul a b = Some c \<longleftrightarrow> unat a * unat b < 2 ^ LENGTH('a) \<and> c = a * (b :: 'a::len word)"
  by (auto simp: checked_mul_def)

lemma unat_checked_add:
  "checked_add a b = Some c \<Longrightarrow> unat c = unat a + unat (b :: 'a::len word)"
  by (simp add: checked_add_Some unat_add_small)

lemma unat_saturating_add:
  "unat (saturating_add a b) = min (unat a + unat b) (2 ^ LENGTH('a) - 1)"
  for a b :: "'a::len word"
proof -
  have "unat (- 1 :: 'a word) = 2 ^ LENGTH('a) - 1"
    by (simp add: unsigned_minus_1_eq_mask mask_eq_exp_minus_1)
  then show ?thesis by (auto simp: saturating_add_def unat_add_small)
qed

lemma usize_checked_add_Some:
  "usize_checked_add a b = Some c \<longleftrightarrow> a + b < 2 ^ 64 \<and> c = a + b"
  by (auto simp: usize_checked_add_def)

lemma and_not_mask_eq: "w AND NOT (mask n) = w - take_bit n (w :: 'a::len word)"
proof -
  have "w AND NOT (mask n) = push_bit n (drop_bit n w)"
    by (rule bit_eqI) (auto simp: bit_simps)
  moreover have "push_bit n (drop_bit n w) + take_bit n w = w"
    by (simp add: bits_ident)
  ultimately show ?thesis by (metis add_diff_cancel_right')
qed

lemma unat_and_not_mask:
  "unat (w AND NOT (mask n)) = unat w div 2 ^ n * 2 ^ n" for w :: "'a::len word"
proof -
  have "unat (take_bit n w) = take_bit n (unat w)"
    by (simp add: unsigned_take_bit_eq)
  then have t: "unat (take_bit n w) = unat w mod 2 ^ n"
    by (simp only: take_bit_eq_mod [of n "unat w"])
  then have "take_bit n w \<le> w" by (simp add: word_le_nat_alt)
  then have "unat (w AND NOT (mask n)) = unat w - unat w mod 2 ^ n"
    by (simp add: and_not_mask_eq unat_sub t)
  then show ?thesis by (simp add: minus_mod_eq_div_mult)
qed

lemma unat_u32_less: "unat (w :: u32) < 4294967296"
  using unsigned_less [where 'a = nat, of w] by simp

lemma unat_ucast_u32 [simp]: "unat (ucast (w :: u32) :: u64) = unat w"
proof -
  have "unat w < 2 ^ 64" using unat_u32_less [of w] by simp
  then show ?thesis by (simp add: unsigned_ucast_eq take_bit_nat_eq_self)
qed

lemma unat_u16_less: "unat (w :: u16) < 65536"
  using unsigned_less [where 'a = nat, of w] by simp

lemma unat_u8_less: "unat (w :: u8) < 256"
  using unsigned_less [where 'a = nat, of w] by simp

section \<open>Lemmas on slices\<close>

lemma get_range_Some [slice_simps]:
  "get_range xs off n = Some ys \<longleftrightarrow> off + n \<le> length xs \<and> ys = take n (drop off xs)"
  by (auto simp: get_range_def)

lemma get_range_None [slice_simps]: "get_range xs off n = None \<longleftrightarrow> length xs < off + n"
  by (auto simp: get_range_def)

lemma get_range_length: "get_range xs off n = Some ys \<Longrightarrow> length ys = n"
  by (auto simp: get_range_Some)

lemma length_put_range [slice_simps]:
  "off + length ys \<le> length xs \<Longrightarrow> length (put_range xs off ys) = length xs"
  by (simp add: put_range_def)

lemma nth_put_range:
  "off + length ys \<le> length xs \<Longrightarrow> i < length xs \<Longrightarrow>
   put_range xs off ys ! i = (if off \<le> i \<and> i < off + length ys then ys ! (i - off) else xs ! i)"
  by (auto simp: put_range_def nth_append min_def)

lemma get_put_same [slice_simps]:
  "off + length ys \<le> length xs \<Longrightarrow> get_range (put_range xs off ys) off (length ys) = Some ys"
  by (simp add: get_range_def put_range_def)

lemma get_put_disjoint:
  assumes "off + length ys \<le> length xs" and "a + n \<le> off \<or> off + length ys \<le> a"
  shows "get_range (put_range xs off ys) a n = get_range xs a n"
proof (cases "a + n \<le> length xs")
  case True
  have "take n (drop a (put_range xs off ys)) = take n (drop a xs)"
  proof (rule nth_equalityI)
    show "length (take n (drop a (put_range xs off ys))) = length (take n (drop a xs))"
      using assms(1) by (simp add: length_put_range)
    fix i assume "i < length (take n (drop a (put_range xs off ys)))"
    then have "i < n" by simp
    with True assms show "take n (drop a (put_range xs off ys)) ! i = take n (drop a xs) ! i"
      by (auto simp: length_put_range nth_put_range)
  qed
  with True assms(1) show ?thesis by (simp add: get_range_def length_put_range)
next
  case False
  with assms(1) show ?thesis by (simp add: get_range_def length_put_range)
qed

lemma put_range_put_range:
  "off + length xs + length ys \<le> length zs \<Longrightarrow>
   put_range (put_range zs off xs) (off + length xs) ys = put_range zs off (xs @ ys)"
  by (simp add: put_range_def ac_simps)

lemma put_range_Nil [simp]: "put_range zs off [] = zs"
  by (simp add: put_range_def)

lemma get_range_append1 [slice_simps]:
  "off + n \<le> length xs \<Longrightarrow> get_range (xs @ ys) off n = get_range xs off n"
  by (simp add: get_range_def)

lemma get_range_append2 [slice_simps]:
  "length xs \<le> off \<Longrightarrow> get_range (xs @ ys) off n = get_range ys (off - length xs) n"
  by (auto simp: get_range_def)

lemma get_range_all [slice_simps]: "n = length xs \<Longrightarrow> get_range xs 0 n = Some xs"
  by (simp add: get_range_def)

lemma get_range_nth: "get_range xs off n = Some ys \<Longrightarrow> i < n \<Longrightarrow> ys ! i = xs ! (off + i)"
  by (auto simp: get_range_Some)

lemma length_sub [simp]: "b \<le> length bs \<Longrightarrow> length (sub bs a b) = b - a"
  by (simp add: sub_def)

lemma sub_get_range:
  "get_range xs off n = Some ys \<Longrightarrow> a \<le> b \<Longrightarrow> b \<le> n \<Longrightarrow>
   get_range xs (off + a) (b - a) = Some (sub ys a b)"
  by (auto simp: get_range_Some sub_def take_drop add.commute min_def)

section \<open>Little-endian codecs\<close>

lemma length_to_le [simp]: "length (to_le n v) = n"
  by (induction n arbitrary: v) auto

lemma from_le_bound: "from_le bs < 256 ^ length bs"
proof (induction bs)
  case (Cons b bs)
  have "unat b < 256" by (rule unat_u8_less)
  with Cons show ?case by simp
qed simp

lemma unat_of_nat_u8: "unat (of_nat v :: u8) = v mod 256"
  by (simp add: unat_of_nat)

lemma from_le_to_le: "from_le (to_le n v) = v mod 256 ^ n"
proof (induction n arbitrary: v)
  case (Suc n)
  have "v mod (256 * 256 ^ n) = 256 * (v div 256 mod 256 ^ n) + v mod 256"
    by (rule mod_mult2_eq)
  with Suc show ?case by (simp add: unat_of_nat_u8)
qed simp

lemma to_le_from_le: "to_le (length bs) (from_le bs) = bs"
proof (induction bs)
  case (Cons b bs)
  have "(of_nat (unat b + 256 * from_le bs) :: u8) = b"
  proof (rule word_unat_eq_iff [THEN iffD2])
    show "unat (of_nat (unat b + 256 * from_le bs) :: u8) = unat b"
      using unat_u8_less [of b] by (simp only: unat_of_nat_u8) simp
  qed
  moreover have "(unat b + 256 * from_le bs) div 256 = from_le bs"
    using unat_u8_less [of b] by simp
  ultimately show ?case using Cons by simp
qed simp

lemma u16_le_roundtrip [simp]: "u16_from_le (u16_to_le w) = w"
  using unat_u16_less [of w] by (simp add: u16_from_le_def u16_to_le_def from_le_to_le)

lemma length_u16_to_le [simp]: "length (u16_to_le w) = 2"
  by (simp add: u16_to_le_def)

lemma u32_le_roundtrip [simp]: "u32_from_le (u32_to_le w) = w"
  using unat_u32_less [of w] by (simp add: u32_from_le_def u32_to_le_def from_le_to_le)

lemma u64_le_roundtrip [simp]: "u64_from_le (u64_to_le w) = w"
  using unsigned_less [where 'a = nat, of w] by (simp add: u64_from_le_def u64_to_le_def from_le_to_le)

lemma length_u32_to_le [simp]: "length (u32_to_le w) = 4"
  by (simp add: u32_to_le_def)

lemma length_u64_to_le [simp]: "length (u64_to_le w) = 8"
  by (simp add: u64_to_le_def)

lemma unat_u32_from_le: "length bs = 4 \<Longrightarrow> unat (u32_from_le bs) = from_le bs"
  using from_le_bound [of bs] by (simp add: u32_from_le_def unat_of_nat)

lemma unat_u16_from_le: "length bs = 2 \<Longrightarrow> unat (u16_from_le bs) = from_le bs"
  using from_le_bound [of bs] by (simp add: u16_from_le_def unat_of_nat)

lemma unat_u64_from_le: "length bs = 8 \<Longrightarrow> unat (u64_from_le bs) = from_le bs"
  using from_le_bound [of bs] by (simp add: u64_from_le_def unat_of_nat)

lemma le_bytes_roundtrip:
  "length bs = 2 \<Longrightarrow> u16_to_le (u16_from_le bs) = bs"
  "length bs = 4 \<Longrightarrow> u32_to_le (u32_from_le bs) = bs"
  "length bs = 8 \<Longrightarrow> u64_to_le (u64_from_le bs) = bs"
  using to_le_from_le [of bs]
  by (simp_all add: u16_to_le_def u32_to_le_def u64_to_le_def unat_u16_from_le unat_u32_from_le
                    unat_u64_from_le)

section \<open>Evaluation on numerals\<close>

lemma replicate_numeral [eval_simps]: "replicate (numeral k) x = x # replicate (pred_numeral k) x"
  by (simp add: numeral_eq_Suc)

lemma to_le_numeral [eval_simps]: "to_le (numeral k) v = of_nat v # to_le (pred_numeral k) (v div 256)"
  by (simp only: numeral_eq_Suc [of k] to_le.simps)

section \<open>UTF-8\<close>

lemma utf8_valid_ascii: "(\<And>b. b \<in> set bs \<Longrightarrow> b < 0x80) \<Longrightarrow> utf8_valid bs"
  by (induction bs) auto

end
