(* ===== verification/Iform.thy ===== *)
theory Iform
  imports Prelude
begin

text \<open>
  \<open>quantum-jit/src/iform.rs\<close>: the instruction representation shared by the decoder, the lifter and
  the emitter. An \<open>i32\<close> displacement and an \<open>i64\<close> immediate are words read as signed numbers.
\<close>

datatype gp_reg =
    Rax | Rcx | Rdx | Rbx | Rsp | Rbp | Rsi | Rdi
  | R8 | R9 | R10 | R11 | R12 | R13 | R14 | R15

definition gp_regs :: "gp_reg list" where
  "gp_regs = [Rax, Rcx, Rdx, Rbx, Rsp, Rbp, Rsi, Rdi, R8, R9, R10, R11, R12, R13, R14, R15]"

primrec gp_index :: "gp_reg \<Rightarrow> u8" where
  "gp_index Rax = 0" | "gp_index Rcx = 1" | "gp_index Rdx = 2" | "gp_index Rbx = 3"
| "gp_index Rsp = 4" | "gp_index Rbp = 5" | "gp_index Rsi = 6" | "gp_index Rdi = 7"
| "gp_index R8 = 8" | "gp_index R9 = 9" | "gp_index R10 = 10" | "gp_index R11 = 11"
| "gp_index R12 = 12" | "gp_index R13 = 13" | "gp_index R14 = 14" | "gp_index R15 = 15"

definition from_index :: "u8 \<Rightarrow> gp_reg option" where
  "from_index i = (if i < 16 then Some (gp_regs ! unat i) else None)"

datatype op_size = B1 | B2 | B4 | B8

datatype seg = Fs | Gs

record mem_operand =
  m_base :: "gp_reg option"
  m_index :: "gp_reg option"
  m_scale :: u8
  m_disp :: u32
  m_size :: op_size
  m_seg :: "seg option"

datatype operand =
    Reg gp_reg op_size
  | XmmReg u8 op_size
  | Imm i64 op_size
  | MemOp mem_operand
  | RipRel u32 op_size

datatype cond =
    Cond_O | Cond_NO | Cond_B | Cond_NB | Cond_E | Cond_NE | Cond_BE | Cond_A
  | Cond_S | Cond_NS | Cond_P | Cond_NP | Cond_L | Cond_NL | Cond_LE | Cond_G

text \<open>
  The enum \<open>Op\<close> has 119 variants. The model groups them under the headings of the source, one
  small datatype per group, and names each variant by an abbreviation (\<open>Op_Mov\<close> for \<open>Op::Mov\<close>),
  which also serves as a pattern.
\<close>

datatype (plugins only: code) data_op =
    D_Mov | D_Movzx | D_Movsx | D_Movsxd | D_Lea | D_Xchg | D_Push | D_Pop | D_Pushfq | D_Popfq
  | D_Cmov cond

datatype (plugins only: code) arith_op =
    A_Add | A_Adc | A_Sub | A_Sbb | A_Inc | A_Dec | A_Neg | A_Mul | A_Imul | A_Div | A_Idiv
  | A_Cdq | A_Cqo | A_Cwde

datatype (plugins only: code) logic_op =
    L_And | L_Or | L_Xor | L_Not | L_Test | L_Cmp | L_Shl | L_Shr | L_Sar | L_Rol | L_Ror
  | L_Rcl | L_Rcr

datatype (plugins only: code) bit_op =
    T_Bt | T_Bts | T_Btr | T_Btc | T_Bsf | T_Bsr | T_Xadd | T_Cmpxchg | T_Set cond

datatype (plugins only: code) flow_op =
    F_Call | F_CallIndirect | F_Ret | F_RetImm | F_Jmp | F_JmpIndirect | F_Jcc cond | F_Leave
  | F_Enter | F_Int3 | F_Int | F_Ud2 | F_Hlt | F_Syscall | F_Cpuid | F_Rdtsc

datatype (plugins only: code) misc_op =
    M_Cld | M_Std | M_Clc | M_Stc | M_Cmc | M_Movs | M_Stos | M_Lods | M_Cmps | M_Scas | M_Nop

datatype (plugins only: code) scalar_op =
    S_MovqXmm | S_MovsdXmm | S_MovssXmm | S_MovdqXmm | S_PxorXmm | S_PandXmm | S_PorXmm
  | S_AddScalar | S_SubScalar | S_MulScalar | S_DivScalar | S_CvtIntToScalar | S_CvtScalarToInt
  | S_CvtScalarToIntTrunc | S_CvtSsToSd | S_CvtSdToSs | S_UcomisScalar | S_MinScalar
  | S_MaxScalar | S_SqrtScalar | S_Bswap

datatype (plugins only: code) packed_op =
    P_PaddQ | P_PsubQ | P_PaddD | P_PsubD | P_PaddW | P_PsubW | P_PaddB | P_PsubB | P_AddPacked
  | P_SubPacked | P_MulPacked | P_DivPacked | P_PcmpeqLane op_size | P_PsllImm op_size
  | P_PsrlImm op_size | P_PsraImm op_size | P_PshufD | P_PmullW | P_PslldqImm | P_PsrldqImm
  | P_PunpckLow op_size | P_PunpckHigh op_size | P_PmovmskB

datatype (plugins only: code) op =
    OpData data_op | OpArith arith_op | OpLogic logic_op | OpBit bit_op
  | OpFlow flow_op | OpMisc misc_op | OpScalar scalar_op | OpPacked packed_op
  | Op_Unhandled

abbreviation Op_Mov :: op where "Op_Mov \<equiv> OpData D_Mov"
abbreviation Op_Movzx :: op where "Op_Movzx \<equiv> OpData D_Movzx"
abbreviation Op_Movsx :: op where "Op_Movsx \<equiv> OpData D_Movsx"
abbreviation Op_Movsxd :: op where "Op_Movsxd \<equiv> OpData D_Movsxd"
abbreviation Op_Lea :: op where "Op_Lea \<equiv> OpData D_Lea"
abbreviation Op_Xchg :: op where "Op_Xchg \<equiv> OpData D_Xchg"
abbreviation Op_Push :: op where "Op_Push \<equiv> OpData D_Push"
abbreviation Op_Pop :: op where "Op_Pop \<equiv> OpData D_Pop"
abbreviation Op_Pushfq :: op where "Op_Pushfq \<equiv> OpData D_Pushfq"
abbreviation Op_Popfq :: op where "Op_Popfq \<equiv> OpData D_Popfq"
abbreviation Op_Cmov :: "cond \<Rightarrow> op" where "Op_Cmov x \<equiv> OpData (D_Cmov x)"
abbreviation Op_Add :: op where "Op_Add \<equiv> OpArith A_Add"
abbreviation Op_Adc :: op where "Op_Adc \<equiv> OpArith A_Adc"
abbreviation Op_Sub :: op where "Op_Sub \<equiv> OpArith A_Sub"
abbreviation Op_Sbb :: op where "Op_Sbb \<equiv> OpArith A_Sbb"
abbreviation Op_Inc :: op where "Op_Inc \<equiv> OpArith A_Inc"
abbreviation Op_Dec :: op where "Op_Dec \<equiv> OpArith A_Dec"
abbreviation Op_Neg :: op where "Op_Neg \<equiv> OpArith A_Neg"
abbreviation Op_Mul :: op where "Op_Mul \<equiv> OpArith A_Mul"
abbreviation Op_Imul :: op where "Op_Imul \<equiv> OpArith A_Imul"
abbreviation Op_Div :: op where "Op_Div \<equiv> OpArith A_Div"
abbreviation Op_Idiv :: op where "Op_Idiv \<equiv> OpArith A_Idiv"
abbreviation Op_Cdq :: op where "Op_Cdq \<equiv> OpArith A_Cdq"
abbreviation Op_Cqo :: op where "Op_Cqo \<equiv> OpArith A_Cqo"
abbreviation Op_Cwde :: op where "Op_Cwde \<equiv> OpArith A_Cwde"
abbreviation Op_And :: op where "Op_And \<equiv> OpLogic L_And"
abbreviation Op_Or :: op where "Op_Or \<equiv> OpLogic L_Or"
abbreviation Op_Xor :: op where "Op_Xor \<equiv> OpLogic L_Xor"
abbreviation Op_Not :: op where "Op_Not \<equiv> OpLogic L_Not"
abbreviation Op_Test :: op where "Op_Test \<equiv> OpLogic L_Test"
abbreviation Op_Cmp :: op where "Op_Cmp \<equiv> OpLogic L_Cmp"
abbreviation Op_Shl :: op where "Op_Shl \<equiv> OpLogic L_Shl"
abbreviation Op_Shr :: op where "Op_Shr \<equiv> OpLogic L_Shr"
abbreviation Op_Sar :: op where "Op_Sar \<equiv> OpLogic L_Sar"
abbreviation Op_Rol :: op where "Op_Rol \<equiv> OpLogic L_Rol"
abbreviation Op_Ror :: op where "Op_Ror \<equiv> OpLogic L_Ror"
abbreviation Op_Rcl :: op where "Op_Rcl \<equiv> OpLogic L_Rcl"
abbreviation Op_Rcr :: op where "Op_Rcr \<equiv> OpLogic L_Rcr"
abbreviation Op_Bt :: op where "Op_Bt \<equiv> OpBit T_Bt"
abbreviation Op_Bts :: op where "Op_Bts \<equiv> OpBit T_Bts"
abbreviation Op_Btr :: op where "Op_Btr \<equiv> OpBit T_Btr"
abbreviation Op_Btc :: op where "Op_Btc \<equiv> OpBit T_Btc"
abbreviation Op_Bsf :: op where "Op_Bsf \<equiv> OpBit T_Bsf"
abbreviation Op_Bsr :: op where "Op_Bsr \<equiv> OpBit T_Bsr"
abbreviation Op_Xadd :: op where "Op_Xadd \<equiv> OpBit T_Xadd"
abbreviation Op_Cmpxchg :: op where "Op_Cmpxchg \<equiv> OpBit T_Cmpxchg"
abbreviation Op_Set :: "cond \<Rightarrow> op" where "Op_Set x \<equiv> OpBit (T_Set x)"
abbreviation Op_Call :: op where "Op_Call \<equiv> OpFlow F_Call"
abbreviation Op_CallIndirect :: op where "Op_CallIndirect \<equiv> OpFlow F_CallIndirect"
abbreviation Op_Ret :: op where "Op_Ret \<equiv> OpFlow F_Ret"
abbreviation Op_RetImm :: op where "Op_RetImm \<equiv> OpFlow F_RetImm"
abbreviation Op_Jmp :: op where "Op_Jmp \<equiv> OpFlow F_Jmp"
abbreviation Op_JmpIndirect :: op where "Op_JmpIndirect \<equiv> OpFlow F_JmpIndirect"
abbreviation Op_Jcc :: "cond \<Rightarrow> op" where "Op_Jcc x \<equiv> OpFlow (F_Jcc x)"
abbreviation Op_Leave :: op where "Op_Leave \<equiv> OpFlow F_Leave"
abbreviation Op_Enter :: op where "Op_Enter \<equiv> OpFlow F_Enter"
abbreviation Op_Int3 :: op where "Op_Int3 \<equiv> OpFlow F_Int3"
abbreviation Op_Int :: op where "Op_Int \<equiv> OpFlow F_Int"
abbreviation Op_Ud2 :: op where "Op_Ud2 \<equiv> OpFlow F_Ud2"
abbreviation Op_Hlt :: op where "Op_Hlt \<equiv> OpFlow F_Hlt"
abbreviation Op_Syscall :: op where "Op_Syscall \<equiv> OpFlow F_Syscall"
abbreviation Op_Cpuid :: op where "Op_Cpuid \<equiv> OpFlow F_Cpuid"
abbreviation Op_Rdtsc :: op where "Op_Rdtsc \<equiv> OpFlow F_Rdtsc"
abbreviation Op_Cld :: op where "Op_Cld \<equiv> OpMisc M_Cld"
abbreviation Op_Std :: op where "Op_Std \<equiv> OpMisc M_Std"
abbreviation Op_Clc :: op where "Op_Clc \<equiv> OpMisc M_Clc"
abbreviation Op_Stc :: op where "Op_Stc \<equiv> OpMisc M_Stc"
abbreviation Op_Cmc :: op where "Op_Cmc \<equiv> OpMisc M_Cmc"
abbreviation Op_Movs :: op where "Op_Movs \<equiv> OpMisc M_Movs"
abbreviation Op_Stos :: op where "Op_Stos \<equiv> OpMisc M_Stos"
abbreviation Op_Lods :: op where "Op_Lods \<equiv> OpMisc M_Lods"
abbreviation Op_Cmps :: op where "Op_Cmps \<equiv> OpMisc M_Cmps"
abbreviation Op_Scas :: op where "Op_Scas \<equiv> OpMisc M_Scas"
abbreviation Op_Nop :: op where "Op_Nop \<equiv> OpMisc M_Nop"
abbreviation Op_MovqXmm :: op where "Op_MovqXmm \<equiv> OpScalar S_MovqXmm"
abbreviation Op_MovsdXmm :: op where "Op_MovsdXmm \<equiv> OpScalar S_MovsdXmm"
abbreviation Op_MovssXmm :: op where "Op_MovssXmm \<equiv> OpScalar S_MovssXmm"
abbreviation Op_MovdqXmm :: op where "Op_MovdqXmm \<equiv> OpScalar S_MovdqXmm"
abbreviation Op_PxorXmm :: op where "Op_PxorXmm \<equiv> OpScalar S_PxorXmm"
abbreviation Op_PandXmm :: op where "Op_PandXmm \<equiv> OpScalar S_PandXmm"
abbreviation Op_PorXmm :: op where "Op_PorXmm \<equiv> OpScalar S_PorXmm"
abbreviation Op_AddScalar :: op where "Op_AddScalar \<equiv> OpScalar S_AddScalar"
abbreviation Op_SubScalar :: op where "Op_SubScalar \<equiv> OpScalar S_SubScalar"
abbreviation Op_MulScalar :: op where "Op_MulScalar \<equiv> OpScalar S_MulScalar"
abbreviation Op_DivScalar :: op where "Op_DivScalar \<equiv> OpScalar S_DivScalar"
abbreviation Op_CvtIntToScalar :: op where "Op_CvtIntToScalar \<equiv> OpScalar S_CvtIntToScalar"
abbreviation Op_CvtScalarToInt :: op where "Op_CvtScalarToInt \<equiv> OpScalar S_CvtScalarToInt"
abbreviation Op_CvtScalarToIntTrunc :: op where "Op_CvtScalarToIntTrunc \<equiv> OpScalar S_CvtScalarToIntTrunc"
abbreviation Op_CvtSsToSd :: op where "Op_CvtSsToSd \<equiv> OpScalar S_CvtSsToSd"
abbreviation Op_CvtSdToSs :: op where "Op_CvtSdToSs \<equiv> OpScalar S_CvtSdToSs"
abbreviation Op_UcomisScalar :: op where "Op_UcomisScalar \<equiv> OpScalar S_UcomisScalar"
abbreviation Op_MinScalar :: op where "Op_MinScalar \<equiv> OpScalar S_MinScalar"
abbreviation Op_MaxScalar :: op where "Op_MaxScalar \<equiv> OpScalar S_MaxScalar"
abbreviation Op_SqrtScalar :: op where "Op_SqrtScalar \<equiv> OpScalar S_SqrtScalar"
abbreviation Op_Bswap :: op where "Op_Bswap \<equiv> OpScalar S_Bswap"
abbreviation Op_PaddQ :: op where "Op_PaddQ \<equiv> OpPacked P_PaddQ"
abbreviation Op_PsubQ :: op where "Op_PsubQ \<equiv> OpPacked P_PsubQ"
abbreviation Op_PaddD :: op where "Op_PaddD \<equiv> OpPacked P_PaddD"
abbreviation Op_PsubD :: op where "Op_PsubD \<equiv> OpPacked P_PsubD"
abbreviation Op_PaddW :: op where "Op_PaddW \<equiv> OpPacked P_PaddW"
abbreviation Op_PsubW :: op where "Op_PsubW \<equiv> OpPacked P_PsubW"
abbreviation Op_PaddB :: op where "Op_PaddB \<equiv> OpPacked P_PaddB"
abbreviation Op_PsubB :: op where "Op_PsubB \<equiv> OpPacked P_PsubB"
abbreviation Op_AddPacked :: op where "Op_AddPacked \<equiv> OpPacked P_AddPacked"
abbreviation Op_SubPacked :: op where "Op_SubPacked \<equiv> OpPacked P_SubPacked"
abbreviation Op_MulPacked :: op where "Op_MulPacked \<equiv> OpPacked P_MulPacked"
abbreviation Op_DivPacked :: op where "Op_DivPacked \<equiv> OpPacked P_DivPacked"
abbreviation Op_PcmpeqLane :: "op_size \<Rightarrow> op" where "Op_PcmpeqLane x \<equiv> OpPacked (P_PcmpeqLane x)"
abbreviation Op_PsllImm :: "op_size \<Rightarrow> op" where "Op_PsllImm x \<equiv> OpPacked (P_PsllImm x)"
abbreviation Op_PsrlImm :: "op_size \<Rightarrow> op" where "Op_PsrlImm x \<equiv> OpPacked (P_PsrlImm x)"
abbreviation Op_PsraImm :: "op_size \<Rightarrow> op" where "Op_PsraImm x \<equiv> OpPacked (P_PsraImm x)"
abbreviation Op_PshufD :: op where "Op_PshufD \<equiv> OpPacked P_PshufD"
abbreviation Op_PmullW :: op where "Op_PmullW \<equiv> OpPacked P_PmullW"
abbreviation Op_PslldqImm :: op where "Op_PslldqImm \<equiv> OpPacked P_PslldqImm"
abbreviation Op_PsrldqImm :: op where "Op_PsrldqImm \<equiv> OpPacked P_PsrldqImm"
abbreviation Op_PunpckLow :: "op_size \<Rightarrow> op" where "Op_PunpckLow x \<equiv> OpPacked (P_PunpckLow x)"
abbreviation Op_PunpckHigh :: "op_size \<Rightarrow> op" where "Op_PunpckHigh x \<equiv> OpPacked (P_PunpckHigh x)"
abbreviation Op_PmovmskB :: op where "Op_PmovmskB \<equiv> OpPacked P_PmovmskB"

record inst =
  i_op :: op
  i_operands :: "operand option list"
  i_len :: u8
  i_guest_rip :: u64

definition inst_empty :: "op \<Rightarrow> u64 \<Rightarrow> u8 \<Rightarrow> inst" where
  "inst_empty op rip len =
     \<lparr>i_op = op, i_operands = [None, None, None], i_len = len, i_guest_rip = rip\<rparr>"

section \<open>Register numbers\<close>

lemma gp_index_less [simp]: "gp_index r < 16"
  by (cases r) simp_all

lemma from_index_gp_index [simp]: "from_index (gp_index r) = Some r"
  by (cases r) (simp_all add: from_index_def gp_regs_def)

lemma u8_cases_16:
  assumes "(i :: u8) < 16"
  shows "i \<in> set [0, 1, 2, 3, 4, 5, 6, 7, 8, 9, 10, 11, 12, 13, 14, 15]"
proof -
  have "unat i < 16" using assms by (simp add: word_less_nat_alt)
  then have "unat i = 0 \<or> unat i = 1 \<or> unat i = 2 \<or> unat i = 3 \<or> unat i = 4 \<or> unat i = 5 \<or>
      unat i = 6 \<or> unat i = 7 \<or> unat i = 8 \<or> unat i = 9 \<or> unat i = 10 \<or> unat i = 11 \<or>
      unat i = 12 \<or> unat i = 13 \<or> unat i = 14 \<or> unat i = 15"
    by presburger
  then show ?thesis by (simp add: word_unat_eq_iff)
qed

lemma gp_index_from_index: "from_index i = Some r \<Longrightarrow> gp_index r = i"
  using u8_cases_16 [of i] by (auto simp: from_index_def gp_regs_def split: if_splits)

lemma from_index_Some: "from_index i = Some r \<longleftrightarrow> i = gp_index r"
  using gp_index_from_index from_index_gp_index by metis

lemma from_index_total: "i < 16 \<Longrightarrow> \<exists>r. from_index i = Some r"
  by (simp add: from_index_def)

end
