(* ===== verification/Decoder.thy ===== *)
theory Decoder
  imports Iform
begin

text \<open>
  \<open>quantum-jit/src/decoder.rs\<close>: the x86 instruction decoder, in 64-bit long mode and in legacy 32-bit
  mode. The \<open>decoder\<close> record is the Rust struct; every reading operation returns its result and the
  decoder after it. The two opcode tables are if-chains in the order of the \<open>match\<close> arms, cut into
  consecutive pieces that each take the rest of the chain as \<open>otherwise\<close>. The arms that only differ in
  opcode, sizes and operand order share \<open>rm_r\<close>, \<open>r_rm\<close>, \<open>xmm_rm\<close> and \<open>rm_xmm\<close>. An \<open>unwrap\<close> on
  \<open>None\<close> and an \<open>unreachable!()\<close> are panics.
\<close>

section \<open>State and prefixes\<close>

datatype decode_error = Truncated | Reserved

type_synonym 'a dec_outcome = "(decode_error, 'a) outcome"

record rex =
  rex_w :: bool
  rex_r :: bool
  rex_x :: bool
  rex_b :: bool
  rex_present :: bool

record prefixes =
  p_lock :: bool
  p_repe :: bool
  p_repne :: bool
  p_osize :: bool
  p_asize :: bool
  p_seg :: "seg option"
  p_rex :: rex

definition default_rex :: rex where
  "default_rex = \<lparr>rex_w = False, rex_r = False, rex_x = False, rex_b = False, rex_present = False\<rparr>"

definition default_prefixes :: prefixes where
  "default_prefixes = \<lparr>p_lock = False, p_repe = False, p_repne = False, p_osize = False,
     p_asize = False, p_seg = None, p_rex = default_rex\<rparr>"

record decoder =
  d_bytes :: bytes
  d_pos :: nat
  d_guest_rip :: u64
  d_long_mode :: bool

type_synonym 'a dec = "'a dec_outcome \<times> decoder"

definition Decoder_new :: "bytes \<Rightarrow> u64 \<Rightarrow> decoder" where
  "Decoder_new bytes guest_rip =
     \<lparr>d_bytes = bytes, d_pos = 0, d_guest_rip = guest_rip, d_long_mode = True\<rparr>"

definition Decoder_new_legacy32 :: "bytes \<Rightarrow> u64 \<Rightarrow> decoder" where
  "Decoder_new_legacy32 bytes guest_eip =
     \<lparr>d_bytes = bytes, d_pos = 0, d_guest_rip = guest_eip, d_long_mode = False\<rparr>"

definition d_rip :: "decoder \<Rightarrow> u64" where
  "d_rip d = d_guest_rip d + of_nat (d_pos d)"

definition d_remaining :: "decoder \<Rightarrow> nat" where
  "d_remaining d = length (d_bytes d) - d_pos d"

section \<open>Reading bytes\<close>

definition d_read_u8 :: "decoder \<Rightarrow> u8 dec" where
  "d_read_u8 d =
     (if d_pos d < length (d_bytes d)
      then (Ok (d_bytes d ! d_pos d), d\<lparr>d_pos := d_pos d + 1\<rparr>)
      else (Err Truncated, d))"

definition d_peek_u8 :: "decoder \<Rightarrow> u8 dec_outcome" where
  "d_peek_u8 d = (if d_pos d < length (d_bytes d) then Ok (d_bytes d ! d_pos d) else Err Truncated)"

definition d_read_u16 :: "decoder \<Rightarrow> u16 dec" where
  "d_read_u16 d =
     (case get_range (d_bytes d) (d_pos d) 2 of
        None \<Rightarrow> (Err Truncated, d)
      | Some s \<Rightarrow> (Ok (u16_from_le s), d\<lparr>d_pos := d_pos d + 2\<rparr>))"

definition d_read_u32 :: "decoder \<Rightarrow> u32 dec" where
  "d_read_u32 d =
     (case get_range (d_bytes d) (d_pos d) 4 of
        None \<Rightarrow> (Err Truncated, d)
      | Some s \<Rightarrow> (Ok (u32_from_le s), d\<lparr>d_pos := d_pos d + 4\<rparr>))"

definition d_read_u64 :: "decoder \<Rightarrow> u64 dec" where
  "d_read_u64 d =
     (case get_range (d_bytes d) (d_pos d) 8 of
        None \<Rightarrow> (Err Truncated, d)
      | Some s \<Rightarrow> (Ok (u64_from_le s), d\<lparr>d_pos := d_pos d + 8\<rparr>))"

text \<open>\<open>read_i8\<close>, \<open>read_i16\<close> and \<open>read_i32\<close> followed by the widening \<open>as i64\<close> of their callers.\<close>

definition d_read_i8 :: "decoder \<Rightarrow> i64 dec" where
  "d_read_i8 d = sbind (d_read_u8 d) (\<lambda>b d. (Ok (scast b), d))"

definition d_read_i16 :: "decoder \<Rightarrow> i64 dec" where
  "d_read_i16 d = sbind (d_read_u16 d) (\<lambda>b d. (Ok (scast b), d))"

definition d_read_i32 :: "decoder \<Rightarrow> i64 dec" where
  "d_read_i32 d = sbind (d_read_u32 d) (\<lambda>b d. (Ok (scast b), d))"

definition d_read_u8_i64 :: "decoder \<Rightarrow> i64 dec" where
  "d_read_u8_i64 d = sbind (d_read_u8 d) (\<lambda>b d. (Ok (ucast b), d))"

section \<open>Prefixes\<close>

definition rex_of :: "u8 \<Rightarrow> rex" where
  "rex_of b = \<lparr>rex_w = (b AND 8 \<noteq> 0), rex_r = (b AND 4 \<noteq> 0), rex_x = (b AND 2 \<noteq> 0),
     rex_b = (b AND 1 \<noteq> 0), rex_present = True\<rparr>"

text \<open>What a legacy prefix byte does to the prefix set; \<open>None\<close> for any other byte.\<close>

definition legacy_prefix :: "u8 \<Rightarrow> prefixes \<Rightarrow> prefixes option" where
  "legacy_prefix b p =
     (if b = 0xF0 then Some (p\<lparr>p_lock := True\<rparr>)
      else if b = 0xF2 then Some (p\<lparr>p_repne := True\<rparr>)
      else if b = 0xF3 then Some (p\<lparr>p_repe := True\<rparr>)
      else if b = 0x66 then Some (p\<lparr>p_osize := True\<rparr>)
      else if b = 0x67 then Some (p\<lparr>p_asize := True\<rparr>)
      else if b = 0x2E \<or> b = 0x3E \<or> b = 0x26 \<or> b = 0x36 then Some p
      else if b = 0x64 then Some (p\<lparr>p_seg := Some Fs\<rparr>)
      else if b = 0x65 then Some (p\<lparr>p_seg := Some Gs\<rparr>)
      else None)"

function read_prefixes_loop :: "prefixes \<Rightarrow> decoder \<Rightarrow> prefixes dec" where
  "read_prefixes_loop p d =
     (case d_peek_u8 d of
        Err e \<Rightarrow> (Err e, d)
      | Panic s \<Rightarrow> (Panic s, d)
      | Ok b \<Rightarrow>
          (case legacy_prefix b p of
             Some p' \<Rightarrow> read_prefixes_loop p' (d\<lparr>d_pos := d_pos d + 1\<rparr>)
           | None \<Rightarrow>
               if 0x40 \<le> b \<and> b \<le> 0x4F \<and> d_long_mode d
               then (Ok (p\<lparr>p_rex := rex_of b\<rparr>), d\<lparr>d_pos := d_pos d + 1\<rparr>)
               else (Ok p, d)))"
  by pat_completeness auto
termination
  by (relation "measure (\<lambda>(p, d). length (d_bytes d) - d_pos d)")
     (auto simp: d_peek_u8_def split: if_splits)

declare read_prefixes_loop.simps [simp del]

definition read_prefixes :: "decoder \<Rightarrow> prefixes dec" where
  "read_prefixes d = read_prefixes_loop default_prefixes d"

section \<open>Operands\<close>

definition op_size_default32 :: "decoder \<Rightarrow> prefixes \<Rightarrow> op_size" where
  "op_size_default32 d p =
     (if d_long_mode d \<and> rex_w (p_rex p) then B8 else if p_osize p then B2 else B4)"

definition op_size_default64 :: "decoder \<Rightarrow> prefixes \<Rightarrow> op_size" where
  "op_size_default64 d p = (if p_osize p then B2 else if d_long_mode d then B8 else B4)"

definition bool_u8 :: "bool \<Rightarrow> u8" where
  "bool_u8 b = (if b then 1 else 0)"

text \<open>The index \<open>(flag as u8) << 3 | field\<close>, and the register it names (\<open>unwrap\<close>).\<close>

definition ext_index :: "bool \<Rightarrow> u8 \<Rightarrow> u8" where
  "ext_index flag field = push_bit 3 (bool_u8 flag) OR field"

definition gp_unwrap :: "u8 \<Rightarrow> gp_reg dec_outcome" where
  "gp_unwrap i =
     (case from_index i of
        Some r \<Rightarrow> Ok r
      | None \<Rightarrow> Panic ''called `Option::unwrap()` on a `None` value'')"

definition decode_sib ::
  "prefixes \<Rightarrow> u8 \<Rightarrow> decoder \<Rightarrow> (gp_reg option \<times> gp_reg option \<times> u8) dec" where
  "decode_sib p md d =
     sbind (d_read_u8 d) (\<lambda>sib d.
     let scale = push_bit (unat (drop_bit 6 sib)) (1 :: u8);
         index_idx = drop_bit 3 sib AND 7; base_idx = sib AND 7 in
     sbind (if index_idx = 4 \<and> \<not> rex_x (p_rex p) then (Ok None, d)
            else sbind (gp_unwrap (ext_index (rex_x (p_rex p)) index_idx), d) (\<lambda>r d. (Ok (Some r), d)))
       (\<lambda>index d.
     sbind (if md = 0 \<and> base_idx = 5 then (Ok None, d)
            else sbind (gp_unwrap (ext_index (rex_b (p_rex p)) base_idx), d) (\<lambda>r d. (Ok (Some r), d)))
       (\<lambda>base d. (Ok (base, index, scale), d))))"

definition decode_rm_memory :: "prefixes \<Rightarrow> u8 \<Rightarrow> u8 \<Rightarrow> op_size \<Rightarrow> decoder \<Rightarrow> operand dec" where
  "decode_rm_memory p md rm sz d =
     (if md = 0 \<and> rm = 5 then
        sbind (d_read_u32 d) (\<lambda>disp d.
        if d_long_mode d then (Ok (RipRel disp sz), d)
        else (Ok (MemOp \<lparr>m_base = None, m_index = None, m_scale = 1, m_disp = disp, m_size = sz,
                         m_seg = p_seg p\<rparr>), d))
      else
        sbind (if rm = 4 then decode_sib p md d
               else sbind (gp_unwrap (ext_index (rex_b (p_rex p)) rm), d)
                      (\<lambda>r d. (Ok (Some r, None, 1), d)))
          (\<lambda>(base, index, scale) d.
        sbind (if md = 0 \<and> rm = 4 \<and> base = None then d_read_u32 d
               else if md = 1 then sbind (d_read_u8 d) (\<lambda>b d. (Ok (scast b), d))
               else if md = 2 then d_read_u32 d
               else (Ok 0, d))
          (\<lambda>disp d.
        (Ok (MemOp \<lparr>m_base = base, m_index = index, m_scale = scale, m_disp = disp, m_size = sz,
                    m_seg = p_seg p\<rparr>), d))))"

definition decode_modrm :: "prefixes \<Rightarrow> op_size \<Rightarrow> decoder \<Rightarrow> (operand \<times> u8) dec" where
  "decode_modrm p sz d =
     sbind (d_read_u8 d) (\<lambda>modrm d.
     let md = drop_bit 6 modrm; reg = drop_bit 3 modrm AND 7; rm = modrm AND 7 in
     sbind (if md = 3
            then sbind (gp_unwrap (ext_index (rex_b (p_rex p)) rm), d) (\<lambda>r d. (Ok (Reg r sz), d))
            else decode_rm_memory p md rm sz d)
       (\<lambda>rm_op d. (Ok (rm_op, reg), d)))"

definition decode_modrm_xmm :: "prefixes \<Rightarrow> op_size \<Rightarrow> decoder \<Rightarrow> (operand \<times> u8) dec" where
  "decode_modrm_xmm p sz d =
     sbind (d_read_u8 d) (\<lambda>modrm d.
     let md = drop_bit 6 modrm; reg = drop_bit 3 modrm AND 7; rm = modrm AND 7 in
     sbind (if md = 3 then (Ok (XmmReg (ext_index (rex_b (p_rex p)) rm) sz), d)
            else decode_rm_memory p md rm sz d)
       (\<lambda>rm_op d. (Ok (rm_op, ext_index (rex_r (p_rex p)) reg), d)))"

definition reg_operand :: "prefixes \<Rightarrow> u8 \<Rightarrow> op_size \<Rightarrow> operand dec_outcome" where
  "reg_operand p reg_field sz =
     obind (gp_unwrap (ext_index (rex_r (p_rex p)) reg_field)) (\<lambda>r. Ok (Reg r sz))"

definition opcode_reg_operand :: "prefixes \<Rightarrow> u8 \<Rightarrow> op_size \<Rightarrow> operand dec_outcome" where
  "opcode_reg_operand p low3 sz =
     obind (gp_unwrap (ext_index (rex_b (p_rex p)) low3)) (\<lambda>r. Ok (Reg r sz))"

definition read_imm :: "op_size \<Rightarrow> decoder \<Rightarrow> i64 dec" where
  "read_imm sz d =
     (case sz of B1 \<Rightarrow> d_read_i8 d | B2 \<Rightarrow> d_read_i16 d | B4 \<Rightarrow> d_read_i32 d | B8 \<Rightarrow> d_read_u64 d)"

text \<open>The immediate of a word-or-doubleword form.\<close>

definition imm_z :: "op_size \<Rightarrow> op_size" where
  "imm_z sz = (if sz = B2 then B2 else B4)"

section \<open>Instructions\<close>

definition make :: "op \<Rightarrow> operand option list \<Rightarrow> u64 \<Rightarrow> inst" where
  "make op operands rip = \<lparr>i_op = op, i_operands = operands, i_len = 0, i_guest_rip = rip\<rparr>"

definition unhandled :: "u64 \<Rightarrow> inst" where
  "unhandled rip =
     \<lparr>i_op = Op_Unhandled, i_operands = [None, None, None], i_len = 0, i_guest_rip = rip\<rparr>"

definition emit0 :: "op \<Rightarrow> u64 \<Rightarrow> decoder \<Rightarrow> inst dec" where
  "emit0 op rip d = (Ok (make op [None, None, None] rip), d)"

definition emit1 :: "op \<Rightarrow> operand \<Rightarrow> u64 \<Rightarrow> decoder \<Rightarrow> inst dec" where
  "emit1 op a rip d = (Ok (make op [Some a, None, None] rip), d)"

definition emit2 :: "op \<Rightarrow> operand \<Rightarrow> operand \<Rightarrow> u64 \<Rightarrow> decoder \<Rightarrow> inst dec" where
  "emit2 op a b rip d = (Ok (make op [Some a, Some b, None] rip), d)"

definition emit_unhandled :: "u64 \<Rightarrow> decoder \<Rightarrow> inst dec" where
  "emit_unhandled rip d = (Ok (unhandled rip), d)"

definition rm_r :: "op \<Rightarrow> op_size \<Rightarrow> op_size \<Rightarrow> prefixes \<Rightarrow> u64 \<Rightarrow> decoder \<Rightarrow> inst dec" where
  "rm_r op rm_size r_size p rip d =
     sbind (decode_modrm p rm_size d) (\<lambda>(rm, reg) d.
     sbind (reg_operand p reg r_size, d) (\<lambda>r d. emit2 op rm r rip d))"

definition r_rm :: "op \<Rightarrow> op_size \<Rightarrow> op_size \<Rightarrow> prefixes \<Rightarrow> u64 \<Rightarrow> decoder \<Rightarrow> inst dec" where
  "r_rm op rm_size r_size p rip d =
     sbind (decode_modrm p rm_size d) (\<lambda>(rm, reg) d.
     sbind (reg_operand p reg r_size, d) (\<lambda>r d. emit2 op r rm rip d))"

definition xmm_rm :: "op \<Rightarrow> op_size \<Rightarrow> op_size \<Rightarrow> prefixes \<Rightarrow> u64 \<Rightarrow> decoder \<Rightarrow> inst dec" where
  "xmm_rm op rm_size x_size p rip d =
     sbind (decode_modrm_xmm p rm_size d) (\<lambda>(rm, reg) d. emit2 op (XmmReg reg x_size) rm rip d)"

definition rm_xmm :: "op \<Rightarrow> op_size \<Rightarrow> op_size \<Rightarrow> prefixes \<Rightarrow> u64 \<Rightarrow> decoder \<Rightarrow> inst dec" where
  "rm_xmm op rm_size x_size p rip d =
     sbind (decode_modrm_xmm p rm_size d) (\<lambda>(rm, reg) d. emit2 op rm (XmmReg reg x_size) rip d)"

definition opcode_reg :: "op \<Rightarrow> u8 \<Rightarrow> op_size \<Rightarrow> prefixes \<Rightarrow> u64 \<Rightarrow> decoder \<Rightarrow> inst dec" where
  "opcode_reg op low3 sz p rip d =
     sbind (opcode_reg_operand p low3 sz, d) (\<lambda>r d. emit1 op r rip d)"

definition rel_imm :: "op \<Rightarrow> op_size \<Rightarrow> u64 \<Rightarrow> decoder \<Rightarrow> inst dec" where
  "rel_imm op sz rip d = sbind (read_imm sz d) (\<lambda>imm d. emit1 op (Imm imm sz) rip d)"

definition rewidth :: "operand \<Rightarrow> op_size \<Rightarrow> operand" where
  "rewidth opd sz =
     (case opd of
        Reg r _ \<Rightarrow> Reg r sz
      | XmmReg r _ \<Rightarrow> XmmReg r sz
      | MemOp m \<Rightarrow> MemOp (m\<lparr>m_size := sz\<rparr>)
      | RipRel dd _ \<Rightarrow> RipRel dd sz
      | Imm v _ \<Rightarrow> Imm v sz)"

definition unreachable :: "decoder \<Rightarrow> 'a dec" where
  "unreachable d = (Panic ''internal error: entered unreachable code'', d)"

definition cond_from_low4 :: "u8 \<Rightarrow> cond dec_outcome" where
  "cond_from_low4 low4 =
     (if low4 < 16 then
        Ok ([Cond_O, Cond_NO, Cond_B, Cond_NB, Cond_E, Cond_NE, Cond_BE, Cond_A,
             Cond_S, Cond_NS, Cond_P, Cond_NP, Cond_L, Cond_NL, Cond_LE, Cond_G] ! unat low4)
      else Panic ''internal error: entered unreachable code'')"

section \<open>Instruction groups\<close>

text \<open>The operation an arithmetic group number (0 to 7) names.\<close>

definition group1_op :: "u8 \<Rightarrow> op dec_outcome" where
  "group1_op n =
     (if n < 8 then Ok ([Op_Add, Op_Or, Op_Adc, Op_Sbb, Op_And, Op_Sub, Op_Xor, Op_Cmp] ! unat n)
      else Panic ''internal error: entered unreachable code'')"

definition decode_arith_form :: "u8 \<Rightarrow> prefixes \<Rightarrow> op \<Rightarrow> u64 \<Rightarrow> decoder \<Rightarrow> inst dec" where
  "decode_arith_form opcode p op rip d =
     (let form = opcode AND 7; sz = op_size_default32 d p in
      if form = 0 then rm_r op B1 B1 p rip d
      else if form = 1 then rm_r op sz sz p rip d
      else if form = 2 then r_rm op B1 B1 p rip d
      else if form = 3 then r_rm op sz sz p rip d
      else if form = 4 then
        sbind (d_read_i8 d) (\<lambda>imm d. emit2 op (Reg Rax B1) (Imm imm B1) rip d)
      else if form = 5 then
        sbind (read_imm (imm_z sz) d) (\<lambda>imm d. emit2 op (Reg Rax sz) (Imm imm (imm_z sz)) rip d)
      else emit_unhandled rip d)"

definition decode_group1 :: "prefixes \<Rightarrow> op_size \<Rightarrow> op_size \<Rightarrow> u64 \<Rightarrow> decoder \<Rightarrow> inst dec" where
  "decode_group1 p sz imm_size rip d =
     sbind (decode_modrm p sz d) (\<lambda>(rm, ext) d.
     sbind (group1_op ext, d) (\<lambda>op d.
     sbind (read_imm imm_size d) (\<lambda>imm d. emit2 op rm (Imm imm imm_size) rip d)))"

datatype shift_amount = ShiftOne | ShiftCl | ShiftImm8

definition group2_op :: "u8 \<Rightarrow> op dec_outcome" where
  "group2_op n =
     (if n < 8 then Ok ([Op_Rol, Op_Ror, Op_Rcl, Op_Rcr, Op_Shl, Op_Shr, Op_Shl, Op_Sar] ! unat n)
      else Panic ''internal error: entered unreachable code'')"

definition decode_group2 :: "prefixes \<Rightarrow> op_size \<Rightarrow> shift_amount \<Rightarrow> u64 \<Rightarrow> decoder \<Rightarrow> inst dec" where
  "decode_group2 p sz amount rip d =
     sbind (decode_modrm p sz d) (\<lambda>(rm, ext) d.
     sbind (group2_op ext, d) (\<lambda>op d.
     sbind (case amount of
              ShiftOne \<Rightarrow> (Ok (Imm 1 B1), d)
            | ShiftCl \<Rightarrow> (Ok (Reg Rcx B1), d)
            | ShiftImm8 \<Rightarrow> sbind (d_read_u8_i64 d) (\<lambda>v d. (Ok (Imm v B1), d)))
       (\<lambda>amt d. emit2 op rm amt rip d)))"

definition decode_group3 :: "prefixes \<Rightarrow> op_size \<Rightarrow> u64 \<Rightarrow> decoder \<Rightarrow> inst dec" where
  "decode_group3 p sz rip d =
     sbind (decode_modrm p sz d) (\<lambda>(rm, ext) d.
     if ext = 0 \<or> ext = 1 then
       (let imm_size = (if sz = B1 then B1 else if sz = B2 then B2 else B4) in
        sbind (read_imm imm_size d) (\<lambda>imm d. emit2 Op_Test rm (Imm imm imm_size) rip d))
     else if ext = 2 then emit1 Op_Not rm rip d
     else if ext = 3 then emit1 Op_Neg rm rip d
     else if ext = 4 then emit1 Op_Mul rm rip d
     else if ext = 5 then emit1 Op_Imul rm rip d
     else if ext = 6 then emit1 Op_Div rm rip d
     else if ext = 7 then emit1 Op_Idiv rm rip d
     else unreachable d)"

definition decode_group4 :: "prefixes \<Rightarrow> u64 \<Rightarrow> decoder \<Rightarrow> inst dec" where
  "decode_group4 p rip d =
     sbind (decode_modrm p B1 d) (\<lambda>(rm, ext) d.
     if ext = 0 then emit1 Op_Inc rm rip d
     else if ext = 1 then emit1 Op_Dec rm rip d
     else emit_unhandled rip d)"

definition decode_group5 :: "prefixes \<Rightarrow> u64 \<Rightarrow> decoder \<Rightarrow> inst dec" where
  "decode_group5 p rip d =
     (let sz = op_size_default32 d p; call_size = op_size_default64 d p in
      sbind (decode_modrm p sz d) (\<lambda>(rm, ext) d.
      if ext = 0 then emit1 Op_Inc rm rip d
      else if ext = 1 then emit1 Op_Dec rm rip d
      else if ext = 2 then emit1 Op_CallIndirect (rewidth rm call_size) rip d
      else if ext = 4 then emit1 Op_JmpIndirect (rewidth rm call_size) rip d
      else if ext = 6 then emit1 Op_Push (rewidth rm call_size) rip d
      else emit_unhandled rip d))"

section \<open>The primary opcode table\<close>

definition decode_primary_40_6B :: "u8 \<Rightarrow> prefixes \<Rightarrow> u64 \<Rightarrow> decoder \<Rightarrow> inst dec \<Rightarrow> inst dec" where
  "decode_primary_40_6B opcode p rip d otherwise =
     (let sz = op_size_default32 d p; sz64 = op_size_default64 d p in
      if 0x40 \<le> opcode \<and> opcode \<le> 0x47 \<and> \<not> d_long_mode d then opcode_reg Op_Inc (opcode - 0x40) sz p rip d
      else if 0x48 \<le> opcode \<and> opcode \<le> 0x4F \<and> \<not> d_long_mode d then opcode_reg Op_Dec (opcode - 0x48) sz p rip d
      else if 0x50 \<le> opcode \<and> opcode \<le> 0x57 then opcode_reg Op_Push (opcode - 0x50) sz64 p rip d
      else if 0x58 \<le> opcode \<and> opcode \<le> 0x5F then opcode_reg Op_Pop (opcode - 0x58) sz64 p rip d
      else if opcode = 0x63 then r_rm Op_Movsxd B4 (if rex_w (p_rex p) then B8 else B4) p rip d
      else if opcode = 0x68 then sbind (d_read_i32 d) (\<lambda>imm d. emit1 Op_Push (Imm imm sz64) rip d)
      else if opcode = 0x6A then sbind (d_read_i8 d) (\<lambda>imm d. emit1 Op_Push (Imm imm sz64) rip d)
      else if opcode = 0x69 then
        sbind (decode_modrm p sz d) (\<lambda>(rm, reg) d.
        sbind (reg_operand p reg sz, d) (\<lambda>r d.
        sbind (if sz = B2 then d_read_i16 d else d_read_i32 d) (\<lambda>imm d.
        (Ok (make Op_Imul [Some r, Some rm, Some (Imm imm sz)] rip), d))))
      else if opcode = 0x6B then
        sbind (decode_modrm p sz d) (\<lambda>(rm, reg) d.
        sbind (reg_operand p reg sz, d) (\<lambda>r d.
        sbind (d_read_i8 d) (\<lambda>imm d.
        (Ok (make Op_Imul [Some r, Some rm, Some (Imm imm sz)] rip), d))))
      else otherwise)"

definition decode_primary_70_8F :: "u8 \<Rightarrow> prefixes \<Rightarrow> u64 \<Rightarrow> decoder \<Rightarrow> inst dec \<Rightarrow> inst dec" where
  "decode_primary_70_8F opcode p rip d otherwise =
     (let sz = op_size_default32 d p; sz64 = op_size_default64 d p in
      if 0x70 \<le> opcode \<and> opcode \<le> 0x7F then
        sbind (cond_from_low4 (opcode AND 0xF), d) (\<lambda>c d. rel_imm (Op_Jcc c) B1 rip d)
      else if opcode = 0x80 then decode_group1 p B1 B1 rip d
      else if opcode = 0x81 then decode_group1 p sz (imm_z sz) rip d
      else if opcode = 0x83 then decode_group1 p sz B1 rip d
      else if opcode = 0x84 then rm_r Op_Test B1 B1 p rip d
      else if opcode = 0x85 then rm_r Op_Test sz sz p rip d
      else if opcode = 0x86 then rm_r Op_Xchg B1 B1 p rip d
      else if opcode = 0x87 then rm_r Op_Xchg sz sz p rip d
      else if opcode = 0x88 then rm_r Op_Mov B1 B1 p rip d
      else if opcode = 0x89 then rm_r Op_Mov sz sz p rip d
      else if opcode = 0x8A then r_rm Op_Mov B1 B1 p rip d
      else if opcode = 0x8B then r_rm Op_Mov sz sz p rip d
      else if opcode = 0x8D then r_rm Op_Lea sz sz p rip d
      else if opcode = 0x8F then
        sbind (decode_modrm p sz64 d) (\<lambda>(rm, ext) d.
        if ext \<noteq> 0 then emit_unhandled rip d else emit1 Op_Pop rm rip d)
      else otherwise)"

definition decode_primary_90_BF :: "u8 \<Rightarrow> prefixes \<Rightarrow> u64 \<Rightarrow> decoder \<Rightarrow> inst dec \<Rightarrow> inst dec" where
  "decode_primary_90_BF opcode p rip d otherwise =
     (let sz = op_size_default32 d p in
      if opcode = 0x90 then emit0 Op_Nop rip d
      else if 0x91 \<le> opcode \<and> opcode \<le> 0x97 then
        sbind (opcode_reg_operand p (opcode - 0x90) sz, d) (\<lambda>other d. emit2 Op_Xchg (Reg Rax sz) other rip d)
      else if opcode = 0x98 then emit0 Op_Cwde rip d
      else if opcode = 0x99 then emit0 (if rex_w (p_rex p) then Op_Cqo else Op_Cdq) rip d
      else if opcode = 0x9C then emit0 Op_Pushfq rip d
      else if opcode = 0x9D then emit0 Op_Popfq rip d
      else if opcode = 0xA8 then
        sbind (d_read_i8 d) (\<lambda>imm d. emit2 Op_Test (Reg Rax B1) (Imm imm B1) rip d)
      else if opcode = 0xA9 then
        sbind (read_imm (imm_z sz) d) (\<lambda>imm d. emit2 Op_Test (Reg Rax sz) (Imm imm (imm_z sz)) rip d)
      else if 0xB0 \<le> opcode \<and> opcode \<le> 0xB7 then
        sbind (opcode_reg_operand p (opcode - 0xB0) B1, d) (\<lambda>r d.
        sbind (d_read_i8 d) (\<lambda>imm d. emit2 Op_Mov r (Imm imm B1) rip d))
      else if 0xB8 \<le> opcode \<and> opcode \<le> 0xBF then
        (let msz = (if rex_w (p_rex p) then B8 else if p_osize p then B2 else B4) in
         sbind (opcode_reg_operand p (opcode - 0xB8) msz, d) (\<lambda>r d.
         sbind (read_imm msz d) (\<lambda>imm d. emit2 Op_Mov r (Imm imm msz) rip d)))
      else otherwise)"

text \<open>A string instruction carries its lane size and its repeat flag as immediates.\<close>

definition string_op :: "op \<Rightarrow> i64 \<Rightarrow> prefixes \<Rightarrow> u64 \<Rightarrow> decoder \<Rightarrow> inst dec" where
  "string_op op size_bytes p rip d =
     emit2 op (Imm size_bytes B1) (Imm (if p_repe p then 1 else 0) B1) rip d"

definition decode_primary_C0_CD :: "u8 \<Rightarrow> prefixes \<Rightarrow> u64 \<Rightarrow> decoder \<Rightarrow> inst dec \<Rightarrow> inst dec" where
  "decode_primary_C0_CD opcode p rip d otherwise =
     (let sz = op_size_default32 d p in
      if opcode = 0xC0 then decode_group2 p B1 ShiftImm8 rip d
      else if opcode = 0xC1 then decode_group2 p sz ShiftImm8 rip d
      else if opcode = 0xC2 then
        sbind (d_read_u16 d) (\<lambda>imm d. emit1 Op_RetImm (Imm (ucast imm) B2) rip d)
      else if opcode = 0xA4 then string_op Op_Movs 1 p rip d
      else if opcode = 0xA5 then string_op Op_Movs (if rex_w (p_rex p) then 8 else 4) p rip d
      else if opcode = 0xAA then string_op Op_Stos 1 p rip d
      else if opcode = 0xAB then string_op Op_Stos (if rex_w (p_rex p) then 8 else 4) p rip d
      else if opcode = 0xC3 then emit0 Op_Ret rip d
      else if opcode = 0xC6 then
        sbind (decode_modrm p B1 d) (\<lambda>(rm, ext) d.
        if ext \<noteq> 0 then emit_unhandled rip d
        else sbind (d_read_i8 d) (\<lambda>imm d. emit2 Op_Mov rm (Imm imm B1) rip d))
      else if opcode = 0xC7 then
        sbind (decode_modrm p sz d) (\<lambda>(rm, ext) d.
        if ext \<noteq> 0 then emit_unhandled rip d
        else sbind (read_imm (imm_z sz) d) (\<lambda>imm d. emit2 Op_Mov rm (Imm imm (imm_z sz)) rip d))
      else if opcode = 0xC9 then emit0 Op_Leave rip d
      else if opcode = 0xCC then emit0 Op_Int3 rip d
      else if opcode = 0xCD then sbind (d_read_u8_i64 d) (\<lambda>imm d. emit1 Op_Int (Imm imm B1) rip d)
      else otherwise)"

definition decode_primary_D0_FF :: "u8 \<Rightarrow> prefixes \<Rightarrow> u64 \<Rightarrow> decoder \<Rightarrow> inst dec \<Rightarrow> inst dec" where
  "decode_primary_D0_FF opcode p rip d otherwise =
     (let sz = op_size_default32 d p in
      if opcode = 0xD0 then decode_group2 p B1 ShiftOne rip d
      else if opcode = 0xD1 then decode_group2 p sz ShiftOne rip d
      else if opcode = 0xD2 then decode_group2 p B1 ShiftCl rip d
      else if opcode = 0xD3 then decode_group2 p sz ShiftCl rip d
      else if opcode = 0xE8 then rel_imm Op_Call B4 rip d
      else if opcode = 0xE9 then rel_imm Op_Jmp B4 rip d
      else if opcode = 0xEB then rel_imm Op_Jmp B1 rip d
      else if opcode = 0xF4 then emit0 Op_Hlt rip d
      else if opcode = 0xF5 then emit0 Op_Cmc rip d
      else if opcode = 0xF6 then decode_group3 p B1 rip d
      else if opcode = 0xF7 then decode_group3 p sz rip d
      else if opcode = 0xF8 then emit0 Op_Clc rip d
      else if opcode = 0xF9 then emit0 Op_Stc rip d
      else if opcode = 0xFC then emit0 Op_Cld rip d
      else if opcode = 0xFD then emit0 Op_Std rip d
      else if opcode = 0xFE then decode_group4 p rip d
      else if opcode = 0xFF then decode_group5 p rip d
      else otherwise)"

definition decode_primary :: "u8 \<Rightarrow> prefixes \<Rightarrow> u64 \<Rightarrow> decoder \<Rightarrow> inst dec" where
  "decode_primary opcode p rip d =
     (if opcode \<le> 0x3D \<and> opcode AND 7 \<le> 5 then
        sbind (group1_op (drop_bit 3 opcode), d) (\<lambda>op d. decode_arith_form opcode p op rip d)
      else
        decode_primary_40_6B opcode p rip d
        (decode_primary_70_8F opcode p rip d
        (decode_primary_90_BF opcode p rip d
        (decode_primary_C0_CD opcode p rip d
        (decode_primary_D0_FF opcode p rip d
        (emit_unhandled rip d))))))"

section \<open>The secondary opcode table\<close>

text \<open>Scalar forms: \<open>F2\<close> selects double, \<open>F3\<close> single precision.\<close>

definition scalar_size :: "prefixes \<Rightarrow> op_size" where
  "scalar_size p = (if p_repne p then B8 else B4)"

definition gpr_size :: "prefixes \<Rightarrow> op_size" where
  "gpr_size p = (if rex_w (p_rex p) then B8 else B4)"

definition shift_imm_op :: "u8 \<Rightarrow> op_size \<Rightarrow> op option" where
  "shift_imm_op ext lane =
     (if ext = 2 then Some (Op_PsrlImm lane)
      else if ext = 3 \<and> lane = B8 then Some Op_PsrldqImm
      else if ext = 4 \<and> (lane = B2 \<or> lane = B4) then Some (Op_PsraImm lane)
      else if ext = 6 then Some (Op_PsllImm lane)
      else if ext = 7 \<and> lane = B8 then Some Op_PslldqImm
      else None)"

definition decode_shift_imm :: "op_size \<Rightarrow> prefixes \<Rightarrow> u64 \<Rightarrow> decoder \<Rightarrow> inst dec" where
  "decode_shift_imm lane p rip d =
     sbind (d_read_u8 d) (\<lambda>modrm d.
     let md = drop_bit 6 modrm; ext = drop_bit 3 modrm AND 7; rm = modrm AND 7 in
     if md \<noteq> 3 then emit_unhandled rip d
     else
       sbind (d_read_u8_i64 d) (\<lambda>imm d.
       case shift_imm_op ext lane of
         None \<Rightarrow> emit_unhandled rip d
       | Some op \<Rightarrow> emit2 op (XmmReg (ext_index (rex_b (p_rex p)) rm) B8) (Imm imm B1) rip d))"

definition decode_secondary_moves :: "u8 \<Rightarrow> prefixes \<Rightarrow> u64 \<Rightarrow> decoder \<Rightarrow> inst dec \<Rightarrow> inst dec" where
  "decode_secondary_moves opcode p rip d otherwise =
     (if opcode = 0x05 then emit0 Op_Syscall rip d
      else if opcode = 0x0B then emit0 Op_Ud2 rip d
      else if opcode = 0x31 then emit0 Op_Rdtsc rip d
      else if opcode = 0xA2 \<and> \<not> p_osize p \<and> \<not> p_repe p \<and> \<not> p_repne p then emit0 Op_Cpuid rip d
      else if opcode = 0x10 \<and> (p_repne p \<or> p_repe p) then
        xmm_rm (if p_repne p then Op_MovsdXmm else Op_MovssXmm) (scalar_size p) (scalar_size p) p rip d
      else if opcode = 0x11 \<and> (p_repne p \<or> p_repe p) then
        rm_xmm (if p_repne p then Op_MovsdXmm else Op_MovssXmm) (scalar_size p) (scalar_size p) p rip d
      else if opcode = 0x6E \<and> p_osize p then
        sbind (decode_modrm p (gpr_size p) d) (\<lambda>(rm, reg) d.
        emit2 Op_MovqXmm (XmmReg reg (gpr_size p)) rm rip d)
      else if opcode = 0x7E \<and> p_osize p then
        sbind (decode_modrm p (gpr_size p) d) (\<lambda>(rm, reg) d.
        emit2 Op_MovqXmm rm (XmmReg reg (gpr_size p)) rip d)
      else if opcode = 0x7E \<and> p_repe p then xmm_rm Op_MovqXmm B8 B8 p rip d
      else if opcode = 0x6F \<and> (p_osize p \<or> p_repe p) then xmm_rm Op_MovdqXmm B8 B8 p rip d
      else if opcode = 0x7F \<and> (p_osize p \<or> p_repe p) then rm_xmm Op_MovdqXmm B8 B8 p rip d
      else if opcode = 0x71 \<and> p_osize p then decode_shift_imm B2 p rip d
      else if opcode = 0x72 \<and> p_osize p then decode_shift_imm B4 p rip d
      else if opcode = 0x73 \<and> p_osize p then decode_shift_imm B8 p rip d
      else otherwise)"

definition decode_pmovmskb :: "prefixes \<Rightarrow> u64 \<Rightarrow> decoder \<Rightarrow> inst dec" where
  "decode_pmovmskb p rip d =
     sbind (d_read_u8 d) (\<lambda>modrm d.
     let md = drop_bit 6 modrm; reg = drop_bit 3 modrm AND 7; rm = modrm AND 7 in
     if md \<noteq> 3 then emit_unhandled rip d
     else
       sbind (gp_unwrap (ext_index (rex_r (p_rex p)) reg), d) (\<lambda>g d.
       emit2 Op_PmovmskB (Reg g B4) (XmmReg (ext_index (rex_b (p_rex p)) rm) B8) rip d))"

definition decode_secondary_packed :: "u8 \<Rightarrow> prefixes \<Rightarrow> u64 \<Rightarrow> decoder \<Rightarrow> inst dec \<Rightarrow> inst dec" where
  "decode_secondary_packed opcode p rip d otherwise =
     (if \<not> p_osize p then otherwise
      else if opcode = 0x60 then xmm_rm (Op_PunpckLow B1) B8 B8 p rip d
      else if opcode = 0x61 then xmm_rm (Op_PunpckLow B2) B8 B8 p rip d
      else if opcode = 0x62 then xmm_rm (Op_PunpckLow B4) B8 B8 p rip d
      else if opcode = 0x68 then xmm_rm (Op_PunpckHigh B1) B8 B8 p rip d
      else if opcode = 0x69 then xmm_rm (Op_PunpckHigh B2) B8 B8 p rip d
      else if opcode = 0x6A then xmm_rm (Op_PunpckHigh B4) B8 B8 p rip d
      else if opcode = 0x6C then xmm_rm (Op_PunpckLow B8) B8 B8 p rip d
      else if opcode = 0x6D then xmm_rm (Op_PunpckHigh B8) B8 B8 p rip d
      else if opcode = 0xD7 then decode_pmovmskb p rip d
      else if opcode = 0xD5 then xmm_rm Op_PmullW B8 B8 p rip d
      else if opcode = 0x70 then
        sbind (decode_modrm_xmm p B8 d) (\<lambda>(rm, reg) d.
        sbind (d_read_u8_i64 d) (\<lambda>imm d.
        (Ok (make Op_PshufD [Some (XmmReg reg B8), Some rm, Some (Imm imm B1)] rip), d)))
      else if opcode = 0x74 then xmm_rm (Op_PcmpeqLane B1) B8 B8 p rip d
      else if opcode = 0x75 then xmm_rm (Op_PcmpeqLane B2) B8 B8 p rip d
      else if opcode = 0x76 then xmm_rm (Op_PcmpeqLane B4) B8 B8 p rip d
      else if opcode = 0xEF then xmm_rm Op_PxorXmm B8 B8 p rip d
      else if opcode = 0xDB then xmm_rm Op_PandXmm B8 B8 p rip d
      else if opcode = 0xEB then xmm_rm Op_PorXmm B8 B8 p rip d
      else otherwise)"

definition packed_size :: "prefixes \<Rightarrow> op_size" where
  "packed_size p = (if p_osize p then B8 else B4)"

definition decode_secondary_float :: "u8 \<Rightarrow> prefixes \<Rightarrow> u64 \<Rightarrow> decoder \<Rightarrow> inst dec \<Rightarrow> inst dec" where
  "decode_secondary_float opcode p rip d otherwise =
     (let scalar = (p_repne p \<or> p_repe p); ss = scalar_size p; ps = packed_size p; gs = gpr_size p in
      if opcode = 0x58 \<and> scalar then xmm_rm Op_AddScalar ss ss p rip d
      else if opcode = 0x59 \<and> scalar then xmm_rm Op_MulScalar ss ss p rip d
      else if opcode = 0x5C \<and> scalar then xmm_rm Op_SubScalar ss ss p rip d
      else if opcode = 0x5E \<and> scalar then xmm_rm Op_DivScalar ss ss p rip d
      else if opcode = 0x58 then xmm_rm Op_AddPacked ps ps p rip d
      else if opcode = 0x59 then xmm_rm Op_MulPacked ps ps p rip d
      else if opcode = 0x5C then xmm_rm Op_SubPacked ps ps p rip d
      else if opcode = 0x5E then xmm_rm Op_DivPacked ps ps p rip d
      else if opcode = 0x2A \<and> scalar then
        sbind (decode_modrm p gs d) (\<lambda>(rm, reg) d. emit2 Op_CvtIntToScalar (XmmReg reg ss) rm rip d)
      else if opcode = 0x2C \<and> scalar then
        sbind (decode_modrm_xmm p ss d) (\<lambda>(rm, reg) d.
        sbind (reg_operand p reg gs, d) (\<lambda>r d. emit2 Op_CvtScalarToIntTrunc r rm rip d))
      else if opcode = 0x2D \<and> scalar then
        sbind (decode_modrm_xmm p ss d) (\<lambda>(rm, reg) d.
        sbind (reg_operand p reg gs, d) (\<lambda>r d. emit2 Op_CvtScalarToInt r rm rip d))
      else if opcode = 0x5A \<and> p_repne p then xmm_rm Op_CvtSdToSs B8 B4 p rip d
      else if opcode = 0x5A \<and> p_repe p then xmm_rm Op_CvtSsToSd B4 B8 p rip d
      else if (opcode = 0x2E \<or> opcode = 0x2F) \<and> \<not> scalar then xmm_rm Op_UcomisScalar ps ps p rip d
      else if opcode = 0x51 \<and> scalar then xmm_rm Op_SqrtScalar ss ss p rip d
      else if opcode = 0x5D \<and> scalar then xmm_rm Op_MinScalar ss ss p rip d
      else if opcode = 0x5F \<and> scalar then xmm_rm Op_MaxScalar ss ss p rip d
      else otherwise)"

definition group8_op :: "u8 \<Rightarrow> op option" where
  "group8_op ext =
     (if ext = 4 then Some Op_Bt else if ext = 5 then Some Op_Bts
      else if ext = 6 then Some Op_Btr else if ext = 7 then Some Op_Btc else None)"

definition decode_secondary_integer :: "u8 \<Rightarrow> prefixes \<Rightarrow> u64 \<Rightarrow> decoder \<Rightarrow> inst dec \<Rightarrow> inst dec" where
  "decode_secondary_integer opcode p rip d otherwise =
     (let sz = op_size_default32 d p in
      if opcode = 0x1F then sbind (decode_modrm p B4 d) (\<lambda>_ d. emit0 Op_Nop rip d)
      else if 0x40 \<le> opcode \<and> opcode \<le> 0x4F then
        sbind (cond_from_low4 (opcode AND 0xF), d) (\<lambda>c d. r_rm (Op_Cmov c) sz sz p rip d)
      else if 0x80 \<le> opcode \<and> opcode \<le> 0x8F then
        sbind (cond_from_low4 (opcode AND 0xF), d) (\<lambda>c d. rel_imm (Op_Jcc c) B4 rip d)
      else if 0x90 \<le> opcode \<and> opcode \<le> 0x9F then
        sbind (cond_from_low4 (opcode AND 0xF), d) (\<lambda>c d.
        sbind (decode_modrm p B1 d) (\<lambda>(rm, _) d. emit1 (Op_Set c) rm rip d))
      else if opcode = 0xA3 then rm_r Op_Bt sz sz p rip d
      else if opcode = 0xAF then r_rm Op_Imul sz sz p rip d
      else if opcode = 0xB0 then rm_r Op_Cmpxchg B1 B1 p rip d
      else if opcode = 0xB1 then rm_r Op_Cmpxchg sz sz p rip d
      else if opcode = 0xB6 then r_rm Op_Movzx B1 sz p rip d
      else if opcode = 0xB7 then r_rm Op_Movzx B2 sz p rip d
      else if opcode = 0xBA then
        sbind (decode_modrm p sz d) (\<lambda>(rm, ext) d.
        sbind (d_read_i8 d) (\<lambda>imm d.
        case group8_op ext of
          None \<Rightarrow> emit_unhandled rip d
        | Some op \<Rightarrow> emit2 op rm (Imm imm B1) rip d))
      else if opcode = 0xBC then r_rm Op_Bsf sz sz p rip d
      else if opcode = 0xBD then r_rm Op_Bsr sz sz p rip d
      else if opcode = 0xBE then r_rm Op_Movsx B1 sz p rip d
      else if opcode = 0xBF then r_rm Op_Movsx B2 sz p rip d
      else if opcode = 0xC0 then rm_r Op_Xadd B1 B1 p rip d
      else if opcode = 0xC1 then rm_r Op_Xadd sz sz p rip d
      else if 0xC8 \<le> opcode \<and> opcode \<le> 0xCF then opcode_reg Op_Bswap (opcode - 0xC8) (gpr_size p) p rip d
      else otherwise)"

definition decode_secondary_padd :: "u8 \<Rightarrow> prefixes \<Rightarrow> u64 \<Rightarrow> decoder \<Rightarrow> inst dec \<Rightarrow> inst dec" where
  "decode_secondary_padd opcode p rip d otherwise =
     (if \<not> p_osize p then otherwise
      else if opcode = 0xD4 then xmm_rm Op_PaddQ B8 B8 p rip d
      else if opcode = 0xFB then xmm_rm Op_PsubQ B8 B8 p rip d
      else if opcode = 0xFE then xmm_rm Op_PaddD B8 B8 p rip d
      else if opcode = 0xFA then xmm_rm Op_PsubD B8 B8 p rip d
      else if opcode = 0xFD then xmm_rm Op_PaddW B8 B8 p rip d
      else if opcode = 0xF9 then xmm_rm Op_PsubW B8 B8 p rip d
      else if opcode = 0xFC then xmm_rm Op_PaddB B8 B8 p rip d
      else if opcode = 0xF8 then xmm_rm Op_PsubB B8 B8 p rip d
      else otherwise)"

definition decode_secondary :: "prefixes \<Rightarrow> u64 \<Rightarrow> decoder \<Rightarrow> inst dec" where
  "decode_secondary p rip d =
     sbind (d_read_u8 d) (\<lambda>opcode d.
       decode_secondary_moves opcode p rip d
       (decode_secondary_packed opcode p rip d
       (decode_secondary_float opcode p rip d
       (decode_secondary_integer opcode p rip d
       (decode_secondary_padd opcode p rip d
       (emit_unhandled rip d))))))"

section \<open>One instruction\<close>

definition decoder_next :: "decoder \<Rightarrow> inst dec" where
  "decoder_next d =
     (let start = d_pos d; inst_rip = d_guest_rip d + of_nat start in
      sbind (read_prefixes d) (\<lambda>p d.
      sbind (d_read_u8 d) (\<lambda>opcode d.
      sbind (if opcode = 0x0F then decode_secondary p inst_rip d else decode_primary opcode p inst_rip d)
        (\<lambda>inst d.
      (Ok (inst\<lparr>i_len := of_nat (d_pos d - start), i_guest_rip := inst_rip\<rparr>), d)))))"

end
