(* ===== verification/Decoder_Correct.thy ===== *)
theory Decoder_Correct
  imports Decoder
begin

text \<open>
  Correctness of the decoder. \<open>dec_post\<close> is a Hoare triple over one decoding step (it never panics,
  never reports \<open>Reserved\<close>, only moves forward and stays inside the bytes); \<open>dec_local\<close> says that a
  successful step depends on nothing but the bytes it consumed. Both are closed under sequencing, so
  the opcode tables go through by introduction rules.
\<close>

named_theorems post_intros \<open>postconditions of decoding steps\<close>
named_theorems local_intros \<open>locality of decoding steps\<close>

section \<open>Bit fields\<close>

lemma and7_less [simp]: "(x :: u8) AND 7 < 8"
proof -
  have "x AND 7 \<le> 7" by (rule word_and_le1)
  then show ?thesis by (simp add: word_le_nat_alt word_less_nat_alt)
qed

lemma less8_less16: "(x :: u8) < 8 \<Longrightarrow> x < 16"
  by (simp add: word_less_nat_alt)

lemma ext_index_less [simp]: "x < 16 \<Longrightarrow> ext_index b x < 16"
  using u8_cases_16 [of x] by (cases b) (auto simp: ext_index_def bool_u8_def)

lemma drop_bit6_less: "unat (drop_bit 6 (x :: u8)) < 4"
proof -
  have "unat (drop_bit 6 x) = unat x div 64" by (simp add: drop_bit_eq_div unat_div)
  then show ?thesis using unat_u8_less [of x] by simp
qed

lemma drop_bit3_less: "(x :: u8) \<le> 0x3D \<Longrightarrow> drop_bit 3 x < 8"
proof -
  assume "x \<le> 0x3D"
  then have "unat x \<le> 61" by (simp add: word_le_nat_alt)
  moreover have "unat (drop_bit 3 x) = unat x div 8" by (simp add: drop_bit_eq_div unat_div)
  ultimately have "unat (drop_bit 3 x) < 8" by simp
  then show ?thesis by (simp add: word_less_nat_alt)
qed

lemma low4_less [simp]: "(x :: u8) AND 0xF < 16"
proof -
  have "x AND 0xF \<le> 0xF" by (rule word_and_le1)
  then show ?thesis by (simp add: word_le_nat_alt word_less_nat_alt)
qed

lemma scale_values: "push_bit (unat (drop_bit 6 (x :: u8))) (1 :: u8) \<in> {1, 2, 4, 8}"
proof -
  have "unat (drop_bit 6 x) \<in> {0, 1, 2, 3}" using drop_bit6_less [of x] by auto
  then show ?thesis by auto
qed

lemma opcode_ranges:
  "64 \<le> x \<Longrightarrow> x \<le> 71 \<Longrightarrow> x - 64 < (16 :: u8)" "72 \<le> x \<Longrightarrow> x \<le> 79 \<Longrightarrow> x - 72 < (16 :: u8)"
  "80 \<le> x \<Longrightarrow> x \<le> 87 \<Longrightarrow> x - 80 < (16 :: u8)" "88 \<le> x \<Longrightarrow> x \<le> 95 \<Longrightarrow> x - 88 < (16 :: u8)"
  "145 \<le> x \<Longrightarrow> x \<le> 151 \<Longrightarrow> x - 144 < (16 :: u8)" "176 \<le> x \<Longrightarrow> x \<le> 183 \<Longrightarrow> x - 176 < (16 :: u8)"
  "184 \<le> x \<Longrightarrow> x \<le> 191 \<Longrightarrow> x - 184 < (16 :: u8)" "200 \<le> x \<Longrightarrow> x \<le> 207 \<Longrightarrow> x - 200 < (16 :: u8)"
  by (simp_all add: word_less_nat_alt word_le_nat_alt unat_sub)

section \<open>Postconditions\<close>

definition same_input :: "decoder \<Rightarrow> decoder \<Rightarrow> bool" where
  "same_input d d' \<longleftrightarrow> d_bytes d' = d_bytes d \<and> d_guest_rip d' = d_guest_rip d \<and>
     d_long_mode d' = d_long_mode d \<and> d_pos d \<le> d_pos d' \<and>
     (d_pos d \<le> length (d_bytes d) \<longrightarrow> d_pos d' \<le> length (d_bytes d))"

definition dec_post :: "decoder \<Rightarrow> ('a \<Rightarrow> bool) \<Rightarrow> 'a dec \<Rightarrow> bool" where
  "dec_post d Q m \<longleftrightarrow> same_input d (snd m) \<and>
     (case fst m of Ok x \<Rightarrow> Q x | Err e \<Rightarrow> e = Truncated | Panic _ \<Rightarrow> False)"

lemma same_input_refl [simp]: "same_input d d"
  by (simp add: same_input_def)

lemma same_input_trans: "same_input d d' \<Longrightarrow> same_input d' d'' \<Longrightarrow> same_input d d''"
  by (auto simp: same_input_def)

text \<open>
  The rules are in weakest-precondition form: each reduces a triple to the condition its postcondition
  must meet.
\<close>

lemma post_ret [post_intros]: "Q x \<Longrightarrow> dec_post d Q (Ok x, d)"
  by (simp add: dec_post_def)

lemma post_bind [post_intros]:
  assumes "dec_post d (\<lambda>x. \<forall>d'. dec_post d' Q (f x d')) m"
  shows "dec_post d Q (sbind m f)"
  using assms same_input_trans
  by (cases m, rename_tac r s, case_tac r) (fastforce simp: dec_post_def)+

lemma post_if [post_intros]:
  "(c \<Longrightarrow> dec_post d Q m) \<Longrightarrow> (\<not> c \<Longrightarrow> dec_post d Q m') \<Longrightarrow> dec_post d Q (if c then m else m')"
  by simp

lemma post_Let [post_intros]: "dec_post d Q (f x) \<Longrightarrow> dec_post d Q (Let x f)"
  by simp

lemma post_prod [post_intros]: "dec_post d Q (f a b d) \<Longrightarrow> dec_post d Q (case_prod f (a, b) d)"
  by simp

lemma post_option [post_intros]:
  "(v = None \<Longrightarrow> dec_post d Q m) \<Longrightarrow> (\<And>x. v = Some x \<Longrightarrow> dec_post d Q (f x)) \<Longrightarrow>
   dec_post d Q (case v of None \<Rightarrow> m | Some x \<Rightarrow> f x)"
  by (cases v) simp_all

lemma post_weaken: "dec_post d R m \<Longrightarrow> (\<And>x. R x \<Longrightarrow> Q x) \<Longrightarrow> dec_post d Q m"
  by (auto simp: dec_post_def split: outcome.splits)

lemma post_reads [post_intros]:
  "(\<And>x. Q1 x) \<Longrightarrow> dec_post d Q1 (d_read_u8 d)" "(\<And>x. Q2 x) \<Longrightarrow> dec_post d Q2 (d_read_u16 d)"
  "(\<And>x. Q3 x) \<Longrightarrow> dec_post d Q3 (d_read_u32 d)" "(\<And>x. Q4 x) \<Longrightarrow> dec_post d Q4 (d_read_u64 d)"
  by (simp_all add: dec_post_def d_read_u8_def d_read_u16_def d_read_u32_def d_read_u64_def
      same_input_def get_range_def)

lemma post_read_i [post_intros]:
  "(\<And>x. Q x) \<Longrightarrow> dec_post d Q (d_read_i8 d)" "(\<And>x. Q x) \<Longrightarrow> dec_post d Q (d_read_i16 d)"
  "(\<And>x. Q x) \<Longrightarrow> dec_post d Q (d_read_i32 d)" "(\<And>x. Q x) \<Longrightarrow> dec_post d Q (d_read_u8_i64 d)"
  unfolding d_read_i8_def d_read_i16_def d_read_i32_def d_read_u8_i64_def
  by (intro post_intros allI; simp)+

lemma post_read_imm [post_intros]: "(\<And>x. Q x) \<Longrightarrow> dec_post d Q (read_imm sz d)"
  by (cases sz) (simp_all add: read_imm_def post_intros)

lemma post_gp_unwrap [post_intros]:
  "i < 16 \<Longrightarrow> (\<And>r. gp_index r = i \<Longrightarrow> Q r) \<Longrightarrow> dec_post d Q (gp_unwrap i, d)"
  using from_index_total [of i] by (auto simp: gp_unwrap_def dec_post_def dest: gp_index_from_index)

section \<open>Well-formed operands\<close>

fun wf_operand :: "operand \<Rightarrow> bool" where
  "wf_operand (XmmReg i _) \<longleftrightarrow> i < 16"
| "wf_operand (MemOp m) \<longleftrightarrow> m_scale m \<in> {1, 2, 4, 8} \<and> m_index m \<noteq> Some Rsp"
| "wf_operand _ \<longleftrightarrow> True"

definition wf_inst :: "inst \<Rightarrow> bool" where
  "wf_inst i \<longleftrightarrow> length (i_operands i) = 3 \<and> (\<forall>a. Some a \<in> set (i_operands i) \<longrightarrow> wf_operand a)"

lemma wf_rewidth [simp]: "wf_operand (rewidth a sz) \<longleftrightarrow> wf_operand a"
  by (cases a) (simp_all add: rewidth_def)

lemma ext_index_Rsp:
  "x < 8 \<Longrightarrow> gp_index r = ext_index b x \<Longrightarrow> \<not> (x = 4 \<and> \<not> b) \<Longrightarrow> r \<noteq> Rsp"
  using u8_cases_16 [OF less8_less16, of x] by (cases b) (auto simp: ext_index_def bool_u8_def)

lemma post_decode_sib [post_intros]:
  assumes "\<And>base index scale. scale \<in> {1, 2, 4, 8} \<Longrightarrow> index \<noteq> Some Rsp \<Longrightarrow> Q (base, index, scale)"
  shows "dec_post d Q (decode_sib p md d)"
  unfolding decode_sib_def Let_def
  by (intro post_intros allI assms scale_values)
     (auto simp: less8_less16 dest!: ext_index_Rsp [rotated])

lemma post_decode_rm_memory [post_intros]:
  assumes "rm < 8" "\<And>a. wf_operand a \<Longrightarrow> Q a"
  shows "dec_post d Q (decode_rm_memory p md rm sz d)"
  unfolding decode_rm_memory_def
  by (intro post_intros allI assms(2)) (use assms(1) in \<open>auto simp: less8_less16\<close>)

lemma post_decode_modrm [post_intros]:
  assumes "\<And>rm reg. wf_operand rm \<Longrightarrow> reg < 8 \<Longrightarrow> Q (rm, reg)"
  shows "dec_post d Q (decode_modrm p sz d)"
  unfolding decode_modrm_def Let_def
  by (intro post_intros allI assms) (auto simp: less8_less16)

lemma post_decode_modrm_xmm [post_intros]:
  assumes "\<And>rm reg. wf_operand rm \<Longrightarrow> reg < 16 \<Longrightarrow> Q (rm, reg)"
  shows "dec_post d Q (decode_modrm_xmm p sz d)"
  unfolding decode_modrm_xmm_def Let_def
  by (intro post_intros allI assms) (auto simp: less8_less16)

section \<open>Instructions are well formed and decoding cannot panic\<close>

lemma post_reg_operand [post_intros]:
  assumes "reg < 16" "\<And>r. Q (Reg r sz)"
  shows "dec_post d Q (reg_operand p reg sz, d)" "dec_post d Q (opcode_reg_operand p reg sz, d)"
  using assms from_index_total [OF ext_index_less [OF assms(1)]]
  by (auto simp: reg_operand_def opcode_reg_operand_def gp_unwrap_def dec_post_def split: option.splits)

lemma post_tables [post_intros]:
  "i < 16 \<Longrightarrow> (\<And>c. Q1 c) \<Longrightarrow> dec_post d Q1 (cond_from_low4 i, d)"
  "i < 8 \<Longrightarrow> (\<And>c. Q2 c) \<Longrightarrow> dec_post d Q2 (group1_op i, d)"
  "i < 8 \<Longrightarrow> (\<And>c. Q2 c) \<Longrightarrow> dec_post d Q2 (group2_op i, d)"
  by (simp_all add: cond_from_low4_def group1_op_def group2_op_def dec_post_def)

lemma post_emit [post_intros]:
  "dec_post d wf_inst (emit0 op rip d)" "dec_post d wf_inst (emit_unhandled rip d)"
  "wf_operand a \<Longrightarrow> dec_post d wf_inst (emit1 op a rip d)"
  "wf_operand a \<Longrightarrow> wf_operand b \<Longrightarrow> dec_post d wf_inst (emit2 op a b rip d)"
  by (simp_all add: emit0_def emit_unhandled_def emit1_def emit2_def dec_post_def wf_inst_def make_def
      unhandled_def)

lemma wf_make3: "wf_operand a \<Longrightarrow> wf_operand b \<Longrightarrow> wf_operand c \<Longrightarrow>
    wf_inst (make op [Some a, Some b, Some c] rip)"
  by (simp add: wf_inst_def make_def)

lemma post_forms [post_intros]:
  "dec_post d wf_inst (rm_r op s1 s2 p rip d)" "dec_post d wf_inst (r_rm op s1 s2 p rip d)"
  "dec_post d wf_inst (xmm_rm op s1 s2 p rip d)" "dec_post d wf_inst (rm_xmm op s1 s2 p rip d)"
  "dec_post d wf_inst (rel_imm op s1 rip d)"
  unfolding rm_r_def r_rm_def xmm_rm_def rm_xmm_def rel_imm_def
  by ((intro post_intros allI; simp add: less8_less16)+)

lemma post_opcode_reg [post_intros]: "i < 16 \<Longrightarrow> dec_post d wf_inst (opcode_reg op i sz p rip d)"
  unfolding opcode_reg_def by (intro post_intros allI; simp)

lemma post_string_op [post_intros]: "dec_post d wf_inst (string_op op n p rip d)"
  unfolding string_op_def by (intro post_intros; simp)

lemma u8_cases_8: "(x :: u8) < 8 \<Longrightarrow> x \<in> {0, 1, 2, 3, 4, 5, 6, 7}"
  using u8_cases_16 [OF less8_less16, of x] by auto

lemma post_unreachable [post_intros]: "False \<Longrightarrow> dec_post d Q (unreachable d)"
  by simp

lemma post_decode_group2 [post_intros]: "dec_post d wf_inst (decode_group2 p sz amount rip d)"
  unfolding decode_group2_def
  by (cases amount) (simp_all, (intro post_intros allI; simp)+)

lemma post_decode_group3 [post_intros]: "dec_post d wf_inst (decode_group3 p sz rip d)"
  unfolding decode_group3_def by (intro post_intros allI; auto dest!: u8_cases_8)

lemma post_groups [post_intros]:
  "dec_post d wf_inst (decode_group1 p sz isz rip d)" "dec_post d wf_inst (decode_group4 p rip d)"
  "dec_post d wf_inst (decode_group5 p rip d)" "dec_post d wf_inst (decode_arith_form opcode p op rip d)"
  unfolding decode_group1_def decode_group4_def decode_group5_def decode_arith_form_def
  by ((intro post_intros allI; simp)+)

lemma post_primary_pieces [post_intros]:
  assumes "dec_post d wf_inst w"
  shows "dec_post d wf_inst (decode_primary_40_6B opcode p rip d w)"
    "dec_post d wf_inst (decode_primary_70_8F opcode p rip d w)"
    "dec_post d wf_inst (decode_primary_90_BF opcode p rip d w)"
    "dec_post d wf_inst (decode_primary_C0_CD opcode p rip d w)"
    "dec_post d wf_inst (decode_primary_D0_FF opcode p rip d w)"
  unfolding decode_primary_40_6B_def decode_primary_70_8F_def decode_primary_90_BF_def
    decode_primary_C0_CD_def decode_primary_D0_FF_def
  by ((intro post_intros allI assms wf_make3; simp add: opcode_ranges less8_less16)+)

lemma post_decode_primary [post_intros]: "dec_post d wf_inst (decode_primary opcode p rip d)"
  unfolding decode_primary_def by (intro post_intros allI; simp add: drop_bit3_less)

lemma post_simd_forms [post_intros]:
  "dec_post d wf_inst (decode_shift_imm lane p rip d)" "dec_post d wf_inst (decode_pmovmskb p rip d)"
  unfolding decode_shift_imm_def decode_pmovmskb_def
  by ((intro post_intros allI; simp add: less8_less16)+)

lemma post_secondary_pieces [post_intros]:
  assumes "dec_post d wf_inst w"
  shows "dec_post d wf_inst (decode_secondary_moves opcode p rip d w)"
    "dec_post d wf_inst (decode_secondary_packed opcode p rip d w)"
    "dec_post d wf_inst (decode_secondary_float opcode p rip d w)"
    "dec_post d wf_inst (decode_secondary_integer opcode p rip d w)"
    "dec_post d wf_inst (decode_secondary_padd opcode p rip d w)"
  unfolding decode_secondary_moves_def decode_secondary_packed_def decode_secondary_float_def
    decode_secondary_integer_def decode_secondary_padd_def
  by ((intro post_intros allI assms wf_make3; simp add: opcode_ranges less8_less16)+)

lemma post_decode_secondary [post_intros]: "dec_post d wf_inst (decode_secondary p rip d)"
  unfolding decode_secondary_def by (intro post_intros allI)

lemma post_read_prefixes [post_intros]:
  assumes "\<And>p. Q p"
  shows "dec_post d Q (read_prefixes d)"
proof -
  have "dec_post d Q (read_prefixes_loop p d)" for p
  proof (induction p d rule: read_prefixes_loop.induct)
    case (1 p d)
    show ?case
    proof (cases "d_pos d < length (d_bytes d)")
      case True
      let ?d = "d\<lparr>d_pos := d_pos d + 1\<rparr>"
      have s: "same_input d ?d" using True by (simp add: same_input_def)
      have "dec_post d Q (read_prefixes_loop p' ?d)" if "legacy_prefix (d_bytes d ! d_pos d) p = Some p'" for p'
        using 1 [of "d_bytes d ! d_pos d" p'] that True same_input_trans [OF s]
        by (simp add: d_peek_u8_def dec_post_def)
      with True s assms show ?thesis
        by (subst read_prefixes_loop.simps)
           (auto simp: d_peek_u8_def dec_post_def split: option.splits)
    next
      case False
      then show ?thesis by (subst read_prefixes_loop.simps) (simp add: d_peek_u8_def dec_post_def)
    qed
  qed
  then show ?thesis by (simp add: read_prefixes_def)
qed

lemma post_decoder_next: "dec_post d wf_inst (decoder_next d)"
  unfolding decoder_next_def Let_def
proof (intro post_bind post_read_prefixes allI post_reads, goal_cases)
  case (1 p d1 opcode d2)
  have "dec_post d2 wf_inst (if opcode = 15 then decode_secondary p r d2 else decode_primary opcode p r d2)" for r
    by (intro post_intros)
  then show ?case
    by (rule post_weaken) (auto intro!: post_ret simp: wf_inst_def)
qed

section \<open>Locality\<close>

text \<open>
  \<open>agree d bs n\<close>: the byte string \<open>bs\<close> and the decoder's input have the same first \<open>n\<close> bytes.
\<close>

definition agree :: "decoder \<Rightarrow> bytes \<Rightarrow> nat \<Rightarrow> bool" where
  "agree d bs n \<longleftrightarrow> n \<le> length bs \<and> take n bs = take n (d_bytes d)"

definition dec_local :: "(decoder \<Rightarrow> 'a dec) \<Rightarrow> bool" where
  "dec_local f \<longleftrightarrow> (\<forall>d x d'. f d = (Ok x, d') \<longrightarrow>
     d_bytes d' = d_bytes d \<and> d_pos d \<le> d_pos d' \<and>
     (\<forall>bs. agree d bs (d_pos d') \<longrightarrow> f (d\<lparr>d_bytes := bs\<rparr>) = (Ok x, d'\<lparr>d_bytes := bs\<rparr>)))"

lemma agree_le:
  assumes "agree d bs n" "m \<le> n"
  shows "agree d bs m"
proof -
  have "take m (take n bs) = take m (take n (d_bytes d))" using assms(1) by (simp add: agree_def)
  then have "take m bs = take m (d_bytes d)" by (simp only: take_take min_absorb1 [OF assms(2)])
  with assms show ?thesis by (simp add: agree_def)
qed

lemma agree_get_range:
  assumes "agree d bs (a + n)" "a + n \<le> length (d_bytes d)"
  shows "get_range bs a n = get_range (d_bytes d) a n"
proof -
  have "drop a (take (a + n) bs) = drop a (take (a + n) (d_bytes d))"
    using assms(1) by (simp add: agree_def)
  then have "take n (drop a bs) = take n (drop a (d_bytes d))" by (simp add: drop_take)
  with assms show ?thesis by (simp add: get_range_def agree_def)
qed

lemma agree_nth:
  assumes "agree d bs (Suc i)" "i < length (d_bytes d)"
  shows "i < length bs" and "bs ! i = d_bytes d ! i"
proof -
  show "i < length bs" using assms(1) by (simp add: agree_def)
  have "take (Suc i) bs ! i = take (Suc i) (d_bytes d) ! i" using assms(1) by (simp add: agree_def)
  then show "bs ! i = d_bytes d ! i" by simp
qed

lemma local_out [local_intros]: "dec_local (\<lambda>d. (r, d))"
  by (simp add: dec_local_def)

lemma local_bind [local_intros]:
  assumes "dec_local f" "\<And>x. dec_local (g x)"
  shows "dec_local (\<lambda>d. sbind (f d) (\<lambda>x d. g x d))"
  unfolding dec_local_def
proof (intro allI impI, goal_cases)
  case (1 d y d')
  then obtain x d1 where f: "f d = (Ok x, d1)" and g: "g x d1 = (Ok y, d')"
    by (auto simp: sbind_eq_Ok)
  have f1: "d_bytes d1 = d_bytes d" "d_pos d \<le> d_pos d1"
    and f2: "agree d bs (d_pos d1) \<Longrightarrow> f (d\<lparr>d_bytes := bs\<rparr>) = (Ok x, d1\<lparr>d_bytes := bs\<rparr>)" for bs
    using assms(1) f unfolding dec_local_def by blast+
  have g1: "d_bytes d' = d_bytes d1" "d_pos d1 \<le> d_pos d'"
    and g2: "agree d1 bs (d_pos d') \<Longrightarrow> g x (d1\<lparr>d_bytes := bs\<rparr>) = (Ok y, d'\<lparr>d_bytes := bs\<rparr>)" for bs
    using assms(2) [of x] g unfolding dec_local_def by blast+
  have "sbind (f (d\<lparr>d_bytes := bs\<rparr>)) (\<lambda>x d. g x d) = (Ok y, d'\<lparr>d_bytes := bs\<rparr>)"
    if a: "agree d bs (d_pos d')" for bs
  proof -
    have "agree d bs (d_pos d1)" using agree_le [OF a g1(2)] .
    moreover have "agree d1 bs (d_pos d')" using a f1(1) by (simp add: agree_def)
    ultimately show ?thesis using f2 g2 by simp
  qed
  with f1 g1 show ?case by simp
qed

lemma local_if [local_intros]:
  "dec_local f \<Longrightarrow> dec_local g \<Longrightarrow> dec_local (\<lambda>d. if c then f d else g d)"
  by (cases c) simp_all

lemma local_if_mode [local_intros]:
  "dec_local f \<Longrightarrow> dec_local g \<Longrightarrow> dec_local (\<lambda>d. if d_long_mode d then f d else g d)"
  "dec_local f \<Longrightarrow> dec_local g \<Longrightarrow>
   dec_local (\<lambda>d. if a \<and> b \<and> \<not> d_long_mode d then f d else g d)"
  by (auto simp: dec_local_def split: if_splits)

lemma local_Let [local_intros]: "dec_local (f x) \<Longrightarrow> dec_local (\<lambda>d. Let x (\<lambda>y. f y d))"
  by simp

lemma local_Let_size [local_intros]:
  assumes "\<And>s. dec_local (f s)"
  shows "dec_local (\<lambda>d. Let (op_size_default32 d p) (\<lambda>s. f s d))"
    and "dec_local (\<lambda>d. Let (op_size_default64 d p) (\<lambda>s. f s d))"
proof -
  have e: "op_size_default32 (d\<lparr>d_bytes := bs\<rparr>) p = op_size_default32 d p"
    "op_size_default64 (d\<lparr>d_bytes := bs\<rparr>) p = op_size_default64 d p" for d bs
    by (simp_all add: op_size_default32_def op_size_default64_def)
  show "dec_local (\<lambda>d. Let (op_size_default32 d p) (\<lambda>s. f s d))"
    "dec_local (\<lambda>d. Let (op_size_default64 d p) (\<lambda>s. f s d))"
    using assms unfolding dec_local_def Let_def e by blast+
qed

lemma local_prod [local_intros]: "(\<And>a b. dec_local (f a b)) \<Longrightarrow> dec_local (case_prod f x)"
  by (cases x) simp

lemma local_option [local_intros]:
  "dec_local f \<Longrightarrow> (\<And>x. dec_local (g x)) \<Longrightarrow>
   dec_local (\<lambda>d. case v of None \<Rightarrow> f d | Some x \<Rightarrow> g x d)"
  by (cases v) simp_all

lemma local_reads [local_intros]:
  "dec_local d_read_u8" "dec_local d_read_u16" "dec_local d_read_u32" "dec_local d_read_u64"
  unfolding dec_local_def d_read_u8_def d_read_u16_def d_read_u32_def d_read_u64_def
  by (auto simp: agree_nth agree_get_range get_range_Some get_range_None split: if_splits option.splits)

lemma local_read_i [local_intros]:
  "dec_local d_read_i8" "dec_local d_read_i16" "dec_local d_read_i32" "dec_local d_read_u8_i64"
  unfolding d_read_i8_def d_read_i16_def d_read_i32_def d_read_u8_i64_def
  by (intro local_intros)+

lemma local_read_imm [local_intros]: "dec_local (read_imm sz)"
  unfolding read_imm_def by (cases sz) (simp_all add: local_intros)

lemma local_operands [local_intros]:
  "dec_local (decode_sib p md)" "dec_local (decode_rm_memory p md rm sz)"
  "dec_local (decode_modrm p sz)" "dec_local (decode_modrm_xmm p sz)"
proof -
  show s: "dec_local (decode_sib p md)" for p md
    unfolding decode_sib_def by (intro local_intros)
  show m: "dec_local (decode_rm_memory p md rm sz)" for p md rm sz
    unfolding decode_rm_memory_def by (intro local_intros s)
  show "dec_local (decode_modrm p sz)" "dec_local (decode_modrm_xmm p sz)"
    unfolding decode_modrm_def decode_modrm_xmm_def by (intro local_intros m)+
qed

lemma local_emit [local_intros]:
  "dec_local (emit0 op rip)" "dec_local (emit1 op a rip)" "dec_local (emit2 op a b rip)"
  "dec_local (emit_unhandled rip)" "dec_local unreachable"
  unfolding emit0_def emit1_def emit2_def emit_unhandled_def unreachable_def by (intro local_intros)+

lemma local_forms [local_intros]:
  "dec_local (rm_r op s1 s2 p rip)" "dec_local (r_rm op s1 s2 p rip)"
  "dec_local (xmm_rm op s1 s2 p rip)" "dec_local (rm_xmm op s1 s2 p rip)"
  "dec_local (rel_imm op s1 rip)" "dec_local (opcode_reg op i s1 p rip)" "dec_local (string_op op n p rip)"
  unfolding rm_r_def r_rm_def xmm_rm_def rm_xmm_def rel_imm_def opcode_reg_def string_op_def
  by (intro local_intros)+

lemma local_shift_amount [local_intros]:
  "dec_local f \<Longrightarrow> dec_local g \<Longrightarrow> dec_local h \<Longrightarrow>
   dec_local (\<lambda>d. case amount of ShiftOne \<Rightarrow> f d | ShiftCl \<Rightarrow> g d | ShiftImm8 \<Rightarrow> h d)"
  by (cases amount) simp_all

lemma local_groups [local_intros]:
  "dec_local (decode_group1 p sz isz rip)" "dec_local (decode_group2 p sz amount rip)"
  "dec_local (decode_group3 p sz rip)" "dec_local (decode_group4 p rip)" "dec_local (decode_group5 p rip)"
  "dec_local (decode_arith_form opcode p op rip)" "dec_local (decode_shift_imm lane p rip)"
  "dec_local (decode_pmovmskb p rip)"
  unfolding decode_group1_def decode_group2_def decode_group3_def decode_group4_def decode_group5_def
    decode_arith_form_def decode_shift_imm_def decode_pmovmskb_def
  by (intro local_intros)+

lemma local_primary_pieces [local_intros]:
  assumes "dec_local w"
  shows "dec_local (\<lambda>d. decode_primary_40_6B opcode p rip d (w d))"
    "dec_local (\<lambda>d. decode_primary_70_8F opcode p rip d (w d))"
    "dec_local (\<lambda>d. decode_primary_90_BF opcode p rip d (w d))"
    "dec_local (\<lambda>d. decode_primary_C0_CD opcode p rip d (w d))"
    "dec_local (\<lambda>d. decode_primary_D0_FF opcode p rip d (w d))"
  unfolding decode_primary_40_6B_def decode_primary_70_8F_def decode_primary_90_BF_def
    decode_primary_C0_CD_def decode_primary_D0_FF_def
  by (intro local_intros assms)+

lemma local_secondary_pieces [local_intros]:
  assumes "dec_local w"
  shows "dec_local (\<lambda>d. decode_secondary_moves opcode p rip d (w d))"
    "dec_local (\<lambda>d. decode_secondary_packed opcode p rip d (w d))"
    "dec_local (\<lambda>d. decode_secondary_float opcode p rip d (w d))"
    "dec_local (\<lambda>d. decode_secondary_integer opcode p rip d (w d))"
    "dec_local (\<lambda>d. decode_secondary_padd opcode p rip d (w d))"
  unfolding decode_secondary_moves_def decode_secondary_packed_def decode_secondary_float_def
    decode_secondary_integer_def decode_secondary_padd_def
  by (intro local_intros assms)+

lemma local_decode [local_intros]:
  "dec_local (decode_primary opcode p rip)" "dec_local (decode_secondary p rip)"
  unfolding decode_primary_def decode_secondary_def by (intro local_intros)+

text \<open>
  The prefix loop looks one byte ahead; that byte is the opcode, which the next step consumes.
\<close>

lemma upd_commute: "d\<lparr>d_bytes := bs, d_pos := n\<rparr> = d\<lparr>d_pos := n, d_bytes := bs\<rparr>" for d :: decoder
  by (cases d) simp

lemma read_prefixes_loop_step:
  "read_prefixes_loop p d =
     (if d_pos d < length (d_bytes d) then
        (case legacy_prefix (d_bytes d ! d_pos d) p of
           Some p' \<Rightarrow> read_prefixes_loop p' (d\<lparr>d_pos := d_pos d + 1\<rparr>)
         | None \<Rightarrow>
             if 0x40 \<le> d_bytes d ! d_pos d \<and> d_bytes d ! d_pos d \<le> 0x4F \<and> d_long_mode d
             then (Ok (p\<lparr>p_rex := rex_of (d_bytes d ! d_pos d)\<rparr>), d\<lparr>d_pos := d_pos d + 1\<rparr>)
             else (Ok p, d))
      else (Err Truncated, d))"
  by (subst read_prefixes_loop.simps) (simp add: d_peek_u8_def)

lemma read_prefixes_loop_local:
  assumes "read_prefixes_loop p d = (Ok q, d')" "agree d bs (Suc (d_pos d'))"
  shows "d_bytes d' = d_bytes d" and "d_pos d \<le> d_pos d'"
    and "read_prefixes_loop p (d\<lparr>d_bytes := bs\<rparr>) = (Ok q, d'\<lparr>d_bytes := bs\<rparr>)"
  using assms
proof (induction p d rule: read_prefixes_loop.induct)
  case (1 p d)
  let ?b = "d_bytes d ! d_pos d" and ?d = "d\<lparr>d_pos := d_pos d + 1\<rparr>"
  have ex: "d_pos d < length (d_bytes d)" and step: "(case legacy_prefix ?b p of
        Some p' \<Rightarrow> read_prefixes_loop p' ?d
      | None \<Rightarrow> if 0x40 \<le> ?b \<and> ?b \<le> 0x4F \<and> d_long_mode d
               then (Ok (p\<lparr>p_rex := rex_of ?b\<rparr>), ?d) else (Ok p, d)) = (Ok q, d')"
    if "read_prefixes_loop p d = (Ok q, d')"
    using that unfolding read_prefixes_loop_step [of p d] by (auto split: if_splits)
  have all: "d_bytes d' = d_bytes d \<and> d_pos d \<le> d_pos d' \<and>
      read_prefixes_loop p (d\<lparr>d_bytes := bs\<rparr>) = (Ok q, d'\<lparr>d_bytes := bs\<rparr>)"
    if r: "read_prefixes_loop p d = (Ok q, d')" and a: "agree d bs (Suc (d_pos d'))"
  proof (cases "legacy_prefix ?b p")
    case None
    have le: "d_pos d \<le> d_pos d'" and db: "d_bytes d' = d_bytes d"
      using step [OF r] None by (auto split: if_splits)
    have "agree d bs (Suc (d_pos d))" using agree_le [OF a] le by simp
    note n = agree_nth [OF this ex [OF r]]
    show ?thesis
    proof (cases "0x40 \<le> ?b \<and> ?b \<le> 0x4F \<and> d_long_mode d")
      case True
      then have "q = p\<lparr>p_rex := rex_of ?b\<rparr>" "d' = ?d" using step [OF r] None by simp_all
      with True None le db n show ?thesis
        by (simp add: read_prefixes_loop_step [of p "d\<lparr>d_bytes := bs\<rparr>"])
    next
      case False
      have "q = p" "d' = d"
        using step [OF r] by (simp_all only: None option.case if_not_P [OF False] prod.inject outcome.inject)
      with None le db n show ?thesis
        by (simp add: read_prefixes_loop_step [of p "d\<lparr>d_bytes := bs\<rparr>"] if_not_P [OF False])
    qed
  next
    case (Some p')
    have r': "read_prefixes_loop p' ?d = (Ok q, d')" using step [OF r] Some by simp
    have a': "agree ?d bs (Suc (d_pos d'))" using a by (simp add: agree_def)
    have pk: "d_peek_u8 d = Ok ?b" using ex [OF r] by (simp add: d_peek_u8_def)
    note ih = 1(1) [OF pk Some r' a'] 1(2) [OF pk Some r' a'] 1(3) [OF pk Some r' a']
    have "agree d bs (Suc (d_pos d))" using agree_le [OF a] ih(2) by simp
    note n = agree_nth [OF this ex [OF r]]
    show ?thesis
      using ih n Some
      by (simp add: read_prefixes_loop_step [of p "d\<lparr>d_bytes := bs\<rparr>"] upd_commute)
  qed
  {
    case 1 then show ?case using all by blast
  next
    case 2 then show ?case using all by blast
  next
    case 3 then show ?case using all by blast
  }
qed

lemma local_prefixes_opcode:
  assumes "\<And>p opcode. dec_local (k p opcode)"
  shows "dec_local (\<lambda>d. sbind (read_prefixes d) (\<lambda>p d. sbind (d_read_u8 d) (\<lambda>opcode d. k p opcode d)))"
  unfolding dec_local_def
proof (intro allI impI, goal_cases)
  case (1 d x d')
  then obtain p d1 where l: "read_prefixes_loop default_prefixes d = (Ok p, d1)"
    and r: "sbind (d_read_u8 d1) (\<lambda>opcode d. k p opcode d) = (Ok x, d')"
    by (auto simp: sbind_eq_Ok read_prefixes_def)
  have loc: "dec_local (\<lambda>d. sbind (d_read_u8 d) (\<lambda>opcode d. k p opcode d))"
    by (intro local_intros assms)
  obtain b d2 where b: "d_read_u8 d1 = (Ok b, d2)" and kb: "k p b d2 = (Ok x, d')"
    using r by (auto simp: sbind_eq_Ok)
  have pos: "Suc (d_pos d1) \<le> d_pos d'"
  proof -
    have "d_pos d2 \<le> d_pos d'" using assms [of p b] kb unfolding dec_local_def by blast
    moreover have "d_pos d2 = Suc (d_pos d1)" using b by (auto simp: d_read_u8_def split: if_splits)
    ultimately show ?thesis by simp
  qed
  have l1: "d_bytes d1 = d_bytes d" "d_pos d \<le> d_pos d1"
    and l3: "agree d bs (Suc (d_pos d1)) \<Longrightarrow>
      read_prefixes_loop default_prefixes (d\<lparr>d_bytes := bs\<rparr>) = (Ok p, d1\<lparr>d_bytes := bs\<rparr>)" for bs
  proof -
    have len: "Suc (d_pos d1) \<le> length (d_bytes d1)" using b by (auto simp: d_read_u8_def split: if_splits)
    have "dec_post d (\<lambda>_. True) (read_prefixes d)" by (rule post_read_prefixes) simp
    then have "d_bytes d1 = d_bytes d" using l by (simp add: dec_post_def same_input_def read_prefixes_def)
    then have "agree d (d_bytes d) (Suc (d_pos d1))" using len by (simp add: agree_def)
    from read_prefixes_loop_local(1,2) [OF l this] show "d_bytes d1 = d_bytes d" "d_pos d \<le> d_pos d1" .
    show "agree d bs (Suc (d_pos d1)) \<Longrightarrow>
      read_prefixes_loop default_prefixes (d\<lparr>d_bytes := bs\<rparr>) = (Ok p, d1\<lparr>d_bytes := bs\<rparr>)" for bs
      by (rule read_prefixes_loop_local(3) [OF l])
  qed
  have r1: "d_bytes d' = d_bytes d1" "d_pos d1 \<le> d_pos d'"
    and r3: "agree d1 bs (d_pos d') \<Longrightarrow>
      sbind (d_read_u8 (d1\<lparr>d_bytes := bs\<rparr>)) (\<lambda>opcode d. k p opcode d) = (Ok x, d'\<lparr>d_bytes := bs\<rparr>)" for bs
    using loc r unfolding dec_local_def by blast+
  have "sbind (read_prefixes (d\<lparr>d_bytes := bs\<rparr>)) (\<lambda>p d. sbind (d_read_u8 d) (\<lambda>opcode d. k p opcode d))
      = (Ok x, d'\<lparr>d_bytes := bs\<rparr>)" if a: "agree d bs (d_pos d')" for bs
  proof -
    have "agree d bs (Suc (d_pos d1))" using agree_le [OF a pos] .
    moreover have "agree d1 bs (d_pos d')" using a l1 by (simp add: agree_def)
    ultimately show ?thesis using l3 r3 by (simp add: read_prefixes_def)
  qed
  with l1 r1 show ?case by simp
qed

text \<open>One instruction with the start position and address as parameters.\<close>

definition next_at :: "nat \<Rightarrow> u64 \<Rightarrow> decoder \<Rightarrow> inst dec" where
  "next_at start rip d =
     sbind (read_prefixes d) (\<lambda>p d.
     sbind (d_read_u8 d) (\<lambda>opcode d.
     sbind (if opcode = 0x0F then decode_secondary p rip d else decode_primary opcode p rip d)
       (\<lambda>inst d. (Ok (inst\<lparr>i_len := of_nat (d_pos d - start), i_guest_rip := rip\<rparr>), d))))"

lemma decoder_next_at: "decoder_next d = next_at (d_pos d) (d_guest_rip d + of_nat (d_pos d)) d"
  by (simp add: decoder_next_def next_at_def Let_def)

lemma local_next_at: "dec_local (next_at start rip)"
proof -
  have "dec_local (\<lambda>d. (Ok (inst\<lparr>i_len := of_nat (d_pos d - start), i_guest_rip := rip\<rparr>), d))" for inst
    by (simp add: dec_local_def)
  then show ?thesis
    unfolding next_at_def by (intro local_prefixes_opcode local_intros)
qed

lemma next_progress:
  assumes "decoder_next d = (Ok i, d')"
  shows "d_pos d < d_pos d'" and "i_len i = of_nat (d_pos d' - d_pos d)"
    and "i_guest_rip i = d_guest_rip d + of_nat (d_pos d)"
proof -
  let ?r = "d_guest_rip d + of_nat (d_pos d)"
  obtain p d1 b d2 j where p: "read_prefixes d = (Ok p, d1)" and b: "d_read_u8 d1 = (Ok b, d2)"
    and j: "(if b = 0x0F then decode_secondary p ?r d2 else decode_primary b p ?r d2) = (Ok j, d')"
    and i: "i = j\<lparr>i_len := of_nat (d_pos d' - d_pos d), i_guest_rip := ?r\<rparr>"
    using assms by (auto simp: decoder_next_def Let_def sbind_eq_Ok)
  have "dec_post d (\<lambda>_. True) (read_prefixes d)" by (rule post_read_prefixes) simp
  then have "d_pos d \<le> d_pos d1" using p by (simp add: dec_post_def same_input_def)
  moreover have "d_pos d2 = Suc (d_pos d1)" using b by (auto simp: d_read_u8_def split: if_splits)
  moreover have "dec_post d2 wf_inst (if b = 0x0F then decode_secondary p ?r d2 else decode_primary b p ?r d2)"
    by (intro post_intros)
  then have "d_pos d2 \<le> d_pos d'" unfolding j by (simp add: dec_post_def same_input_def)
  ultimately show "d_pos d < d_pos d'" by simp
  show "i_len i = of_nat (d_pos d' - d_pos d)" "i_guest_rip i = ?r" by (simp_all add: i)
qed

end
