(* ===== verification/Decoder_Encode.thy ===== *)
theory Decoder_Encode
  imports Decoder_Correct
begin

text \<open>
  The decoder's operand reader and its arithmetic opcodes against an encoder written from the x86
  manual's encoding rules: an operand is decoded exactly from its encodings.
\<close>

section \<open>An encoder of register and memory operands\<close>

text \<open>
  The encodings of the x86 manual: a register number is a REX bit over three bits in ModRM or SIB;
  \<open>mod\<close> selects no displacement, a signed byte or 32 bits; a SIB byte is present when there is an
  index, or a base whose low bits are 100; the low bits 101 with \<open>mod\<close> 0 mean a bare 32-bit
  displacement (RIP-relative in long mode without SIB).
\<close>

definition low3 :: "gp_reg \<Rightarrow> u8" where
  "low3 r = take_bit 3 (gp_index r)"

definition high1 :: "gp_reg \<Rightarrow> bool" where
  "high1 r \<longleftrightarrow> 8 \<le> gp_index r"

definition pack233 :: "u8 \<Rightarrow> u8 \<Rightarrow> u8 \<Rightarrow> u8" where
  "pack233 a b c = push_bit 6 (take_bit 2 a) OR push_bit 3 (take_bit 3 b) OR take_bit 3 c"

definition scale_bits :: "u8 \<Rightarrow> u8" where
  "scale_bits s = (if s = 8 then 3 else if s = 4 then 2 else if s = 2 then 1 else 0)"

definition index3 :: "gp_reg option \<Rightarrow> u8" where
  "index3 i = (case i of None \<Rightarrow> 4 | Some r \<Rightarrow> low3 r)"

definition disp_bytes :: "u8 \<Rightarrow> u32 \<Rightarrow> bytes" where
  "disp_bytes md disp = (if md = 1 then [ucast disp] else if md = 2 then u32_to_le disp else [])"

definition mem_bytes :: "u8 \<Rightarrow> u8 \<Rightarrow> mem_operand \<Rightarrow> bytes" where
  "mem_bytes reg md m =
     (case m_base m of
        None \<Rightarrow> [pack233 0 reg 4, pack233 (scale_bits (m_scale m)) (index3 (m_index m)) 5] @ u32_to_le (m_disp m)
      | Some b \<Rightarrow>
          (if m_index m \<noteq> None \<or> low3 b = 4
           then [pack233 md reg 4, pack233 (scale_bits (m_scale m)) (index3 (m_index m)) (low3 b)]
           else [pack233 md reg (low3 b)]) @ disp_bytes md (m_disp m))"

fun rm_bytes :: "u8 \<Rightarrow> u8 \<Rightarrow> operand \<Rightarrow> bytes" where
  "rm_bytes reg md (Reg r _) = [pack233 3 reg (low3 r)]"
| "rm_bytes reg md (MemOp m) = mem_bytes reg md m"
| "rm_bytes reg md (RipRel disp _) = pack233 0 reg 5 # u32_to_le disp"
| "rm_bytes reg md _ = []"

text \<open>When an operand of width \<open>sz\<close> has the encoding with \<open>mod = md\<close> under given prefixes.\<close>

definition mem_encodable :: "prefixes \<Rightarrow> u8 \<Rightarrow> op_size \<Rightarrow> mem_operand \<Rightarrow> bool" where
  "mem_encodable p md sz m \<longleftrightarrow>
     m_size m = sz \<and> m_seg m = p_seg p \<and> m_scale m \<in> {1, 2, 4, 8} \<and>
     (case m_index m of None \<Rightarrow> m_scale m = 1 \<and> \<not> rex_x (p_rex p)
                      | Some i \<Rightarrow> i \<noteq> Rsp \<and> rex_x (p_rex p) = high1 i) \<and>
     (case m_base m of
        None \<Rightarrow> True
      | Some b \<Rightarrow> rex_b (p_rex p) = high1 b \<and>
          (md = 0 \<and> m_disp m = 0 \<and> low3 b \<noteq> 5 \<or>
           md = 1 \<and> scast (ucast (m_disp m) :: u8) = m_disp m \<or> md = 2))"

fun rm_encodable :: "prefixes \<Rightarrow> bool \<Rightarrow> u8 \<Rightarrow> op_size \<Rightarrow> operand \<Rightarrow> bool" where
  "rm_encodable p long md sz (Reg r s) \<longleftrightarrow> s = sz \<and> rex_b (p_rex p) = high1 r"
| "rm_encodable p long md sz (MemOp m) \<longleftrightarrow> mem_encodable p md sz m"
| "rm_encodable p long md sz (RipRel disp s) \<longleftrightarrow> s = sz \<and> long"
| "rm_encodable p long md sz _ \<longleftrightarrow> False"

lemma and7_take_bit: "x AND 7 = take_bit 3 (x :: u8)"
  by (simp add: take_bit_eq_mask mask_numeral)

lemma less_take_bit:
  "x < 8 \<Longrightarrow> take_bit 3 (x :: u8) = x" "x < 4 \<Longrightarrow> take_bit 2 (x :: u8) = x"
  by (simp_all add: word_less_nat_alt word_unat_eq_iff unsigned_take_bit_eq take_bit_nat_eq_self)

lemma pack233_fields:
  "drop_bit 6 (pack233 a b c) = take_bit 2 a"
  "drop_bit 3 (pack233 a b c) AND 7 = take_bit 3 b"
  "pack233 a b c AND 7 = take_bit 3 c"
  unfolding pack233_def and7_take_bit by (rule bit_eqI, auto simp: bit_simps)+

lemma low3_values:
  "low3 r = (case r of Rax \<Rightarrow> 0 | Rcx \<Rightarrow> 1 | Rdx \<Rightarrow> 2 | Rbx \<Rightarrow> 3 | Rsp \<Rightarrow> 4 | Rbp \<Rightarrow> 5 | Rsi \<Rightarrow> 6 | Rdi \<Rightarrow> 7
     | R8 \<Rightarrow> 0 | R9 \<Rightarrow> 1 | R10 \<Rightarrow> 2 | R11 \<Rightarrow> 3 | R12 \<Rightarrow> 4 | R13 \<Rightarrow> 5 | R14 \<Rightarrow> 6 | R15 \<Rightarrow> 7)"
  by (cases r) (simp_all add: low3_def)

lemma take_bit_low3 [simp]: "take_bit 3 (low3 r) = low3 r"
  by (simp add: low3_def)

lemma ext_index_low3 [simp]: "ext_index (high1 r) (low3 r) = gp_index r"
  by (cases r) (simp_all add: low3_values ext_index_def bool_u8_def high1_def word_le_nat_alt)

lemma gp_unwrap_index [simp]: "gp_unwrap (gp_index r) = Ok r"
  by (simp add: gp_unwrap_def)

lemma scale_bits_inv: "s \<in> {1, 2, 4, 8} \<Longrightarrow> push_bit (unat (take_bit 2 (scale_bits s))) (1 :: u8) = s"
  by (auto simp: scale_bits_def)

section \<open>Reading what was encoded\<close>

definition d_rest :: "decoder \<Rightarrow> bytes" where
  "d_rest d = drop (d_pos d) (d_bytes d)"

definition adv :: "nat \<Rightarrow> decoder \<Rightarrow> decoder" where
  "adv n d = d\<lparr>d_pos := d_pos d + n\<rparr>"

lemma adv_simps [simp]:
  "adv n (adv m d) = adv (m + n) d" "adv 0 d = d" "d_long_mode (adv n d) = d_long_mode d"
  "d_pos (adv n d) = d_pos d + n" "d_guest_rip (adv n d) = d_guest_rip d"
  by (simp_all add: adv_def add.assoc)

lemma d_rest_adv: "d_rest d = xs @ ys \<Longrightarrow> d_rest (adv (length xs) d) = ys"
  by (simp add: d_rest_def adv_def add.commute [of "d_pos d"] flip: drop_drop)

lemma d_rest_length:
  assumes "d_rest d = xs @ ys" "xs \<noteq> []"
  shows "d_pos d + length xs \<le> length (d_bytes d)"
proof -
  have "length (d_bytes d) - d_pos d = length xs + length ys"
    using arg_cong [OF assms(1), of length] by (simp add: d_rest_def)
  moreover have "length xs > 0" using assms(2) by simp
  ultimately show ?thesis by linarith
qed

lemma read_u8_rest:
  assumes "d_rest d = b # r"
  shows "d_read_u8 d = (Ok b, adv (Suc 0) d)" and "d_rest (adv (Suc 0) d) = r"
proof -
  have l: "d_pos d + 1 \<le> length (d_bytes d)" using d_rest_length [of d "[b]" r] assms by simp
  moreover have "d_bytes d ! d_pos d = b"
    using assms l by (metis Cons_nth_drop_Suc Suc_eq_plus1 Suc_le_eq d_rest_def list.inject)
  ultimately show "d_read_u8 d = (Ok b, adv (Suc 0) d)" by (simp add: d_read_u8_def adv_def)
  show "d_rest (adv (Suc 0) d) = r" using d_rest_adv [of d "[b]" r] assms by simp
qed

lemma read_u32_rest:
  assumes "d_rest d = u32_to_le v @ r"
  shows "d_read_u32 d = (Ok v, adv 4 d)" and "d_rest (adv 4 d) = r"
proof -
  have "u32_to_le v \<noteq> []" using length_u32_to_le [of v] by (metis list.size(3) zero_neq_numeral)
  then have "d_pos d + 4 \<le> length (d_bytes d)" using d_rest_length [OF assms] by simp
  moreover have "take 4 (drop (d_pos d) (d_bytes d)) = u32_to_le v"
    using assms by (simp add: d_rest_def)
  ultimately show "d_read_u32 d = (Ok v, adv 4 d)" by (simp add: d_read_u32_def get_range_def adv_def)
  show "d_rest (adv 4 d) = r" using d_rest_adv [OF assms] by simp
qed

section \<open>Every encoding of an operand\<close>

text \<open>
  All the encodings of the manual's 32- and 64-bit address forms as an inductive relation between a
  ModRM/SIB/displacement byte string and the operand it names: the register form; the bare 32-bit
  displacement, RIP-relative in long mode and absolute outside it; a base without SIB; a SIB byte with
  a base, whether or not the form needs one, and with any scale bits, also when the index field 100
  means no index; a SIB byte without base.
\<close>

definition disp_enc :: "u8 \<Rightarrow> u32 \<Rightarrow> bytes \<Rightarrow> bool" where
  "disp_enc md disp bs \<longleftrightarrow>
     md = 0 \<and> disp = 0 \<and> bs = [] \<or> md = 1 \<and> (\<exists>b :: u8. disp = scast b \<and> bs = [b]) \<or>
     md = 2 \<and> bs = u32_to_le disp"

definition index_enc :: "prefixes \<Rightarrow> gp_reg option \<Rightarrow> u8 \<Rightarrow> bool" where
  "index_enc p idx i3 =
     (case idx of None \<Rightarrow> i3 = 4 \<and> \<not> rex_x (p_rex p)
      | Some i \<Rightarrow> i3 = low3 i \<and> rex_x (p_rex p) = high1 i \<and> i \<noteq> Rsp)"

inductive mem_enc :: "prefixes \<Rightarrow> bool \<Rightarrow> op_size \<Rightarrow> u8 \<Rightarrow> u8 \<Rightarrow> operand \<Rightarrow> bytes \<Rightarrow> bool"
  for p long sz where
  RipRelative: "long \<Longrightarrow> mem_enc p long sz 0 5 (RipRel disp sz) (u32_to_le disp)"
| Absolute: "\<not> long \<Longrightarrow>
    mem_enc p long sz 0 5
      (MemOp \<lparr>m_base = None, m_index = None, m_scale = 1, m_disp = disp, m_size = sz, m_seg = p_seg p\<rparr>)
      (u32_to_le disp)"
| Based: "rex_b (p_rex p) = high1 b \<Longrightarrow> low3 b \<noteq> 4 \<Longrightarrow> \<not> (md = 0 \<and> low3 b = 5) \<Longrightarrow> disp_enc md disp bs \<Longrightarrow>
    mem_enc p long sz md (low3 b)
      (MemOp \<lparr>m_base = Some b, m_index = None, m_scale = 1, m_disp = disp, m_size = sz, m_seg = p_seg p\<rparr>) bs"
| Sib: "rex_b (p_rex p) = high1 b \<Longrightarrow> \<not> (md = 0 \<and> low3 b = 5) \<Longrightarrow> index_enc p idx i3 \<Longrightarrow> ss < 4 \<Longrightarrow>
    disp_enc md disp bs \<Longrightarrow>
    mem_enc p long sz md 4
      (MemOp \<lparr>m_base = Some b, m_index = idx, m_scale = 2 ^ unat ss, m_disp = disp, m_size = sz, m_seg = p_seg p\<rparr>)
      (pack233 ss i3 (low3 b) # bs)"
| SibNoBase: "index_enc p idx i3 \<Longrightarrow> ss < 4 \<Longrightarrow>
    mem_enc p long sz 0 4
      (MemOp \<lparr>m_base = None, m_index = idx, m_scale = 2 ^ unat ss, m_disp = disp, m_size = sz, m_seg = p_seg p\<rparr>)
      (pack233 ss i3 5 # u32_to_le disp)"

inductive rm_enc :: "prefixes \<Rightarrow> bool \<Rightarrow> op_size \<Rightarrow> u8 \<Rightarrow> operand \<Rightarrow> bytes \<Rightarrow> bool"
  for p long sz reg where
  Register: "rex_b (p_rex p) = high1 r \<Longrightarrow> rm_enc p long sz reg (Reg r sz) [pack233 3 reg (low3 r)]"
| Memory: "mem_enc p long sz md rm opd bs \<Longrightarrow> rm_enc p long sz reg opd (pack233 md reg rm # bs)"

lemma read_u8_iff: "d_read_u8 d = (Ok b, d') \<longleftrightarrow> (\<exists>r. d_rest d = b # r \<and> d' = adv (Suc 0) d)"
proof
  assume a: "d_read_u8 d = (Ok b, d')"
  then have "d_rest d = b # drop (Suc (d_pos d)) (d_bytes d)"
    by (auto simp: d_read_u8_def d_rest_def Cons_nth_drop_Suc split: if_splits)
  with a show "\<exists>r. d_rest d = b # r \<and> d' = adv (Suc 0) d"
    by (auto simp: d_read_u8_def adv_def split: if_splits)
qed (auto simp: read_u8_rest)

lemma read_u32_iff: "d_read_u32 d = (Ok v, d') \<longleftrightarrow> (\<exists>r. d_rest d = u32_to_le v @ r \<and> d' = adv 4 d)"
proof
  assume a: "d_read_u32 d = (Ok v, d')"
  then have "d_pos d + 4 \<le> length (d_bytes d)" "v = u32_from_le (take 4 (d_rest d))" "d' = adv 4 d"
    by (auto simp: d_read_u32_def get_range_def adv_def d_rest_def split: if_splits option.splits)
  moreover from this have "u32_to_le v = take 4 (d_rest d)"
    by (auto simp: d_rest_def intro!: le_bytes_roundtrip)
  ultimately show "\<exists>r. d_rest d = u32_to_le v @ r \<and> d' = adv 4 d"
    by (intro exI [of _ "drop 4 (d_rest d)"]) simp
qed (auto simp: read_u32_rest)

lemma pack233_eta: "pack233 (drop_bit 6 h) (drop_bit 3 h AND 7) (h AND 7) = h"
proof (rule bit_eqI)
  fix n :: nat
  have "6 + (n - 6) = n" if "\<not> n - 3 < 3" using that by simp
  then show "bit (pack233 (drop_bit 6 h) (drop_bit 3 h AND 7) (h AND 7)) n \<longleftrightarrow> bit h n"
    unfolding pack233_def and7_take_bit 
    by (cases "n - 3 < 3") (auto simp: bit_simps dest: bit_imp_le_length)
qed

lemma field_bounds: "drop_bit 6 (h :: u8) < 4" "h AND 7 < 8"
proof -
  show "drop_bit 6 h < 4" using unat_u8_less [of h]
    by (simp add: word_less_nat_alt drop_bit_eq_div unat_word_ariths)
  show "h AND 7 < 8" unfolding and7_take_bit
    by (simp add: word_less_nat_alt take_bit_eq_mod unat_word_ariths)
qed

lemma gp_unwrap_iff: "x < 8 \<Longrightarrow> gp_unwrap (ext_index f x) = Ok r \<longleftrightarrow> low3 r = x \<and> high1 r = f"
  by (cases r; cases f; drule u8_cases_8)
     (auto simp: gp_unwrap_def from_index_def gp_regs_def ext_index_def bool_u8_def low3_values high1_def word_le_nat_alt)

lemma scale_power: "ss < 4 \<Longrightarrow> push_bit (unat ss) (1 :: u8) = 2 ^ unat ss"
  by (simp add: push_bit_eq_mult)

lemma low3_less: "low3 r < 8"
  by (cases r) (simp_all add: low3_values)

text \<open>The SIB byte, both ways.\<close>

definition base_enc :: "prefixes \<Rightarrow> u8 \<Rightarrow> gp_reg option \<Rightarrow> u8 \<Rightarrow> bool" where
  "base_enc p md base b3 =
     (case base of None \<Rightarrow> md = 0 \<and> b3 = 5
      | Some b \<Rightarrow> b3 = low3 b \<and> rex_b (p_rex p) = high1 b \<and> \<not> (md = 0 \<and> low3 b = 5))"

lemma index_choice:
  assumes "i3 < 8"
  shows "(if i3 = 4 \<and> \<not> rex_x (p_rex p) then (Ok None, d)
          else sbind (gp_unwrap (ext_index (rex_x (p_rex p)) i3), d) (\<lambda>r d. (Ok (Some r), d))) = (Ok idx, d') \<longleftrightarrow>
         index_enc p idx i3 \<and> d' = (d :: decoder)"
proof -
  have sp: "low3 i = 4 \<and> \<not> high1 i \<longleftrightarrow> i = Rsp" for i
    by (cases i) (simp_all add: low3_values high1_def word_le_nat_alt)
  show ?thesis
    using gp_unwrap_iff [OF assms, of "rex_x (p_rex p)"] sp
    by (cases idx) (auto simp: index_enc_def outcome_simps)
qed

lemma base_choice:
  assumes "b3 < 8"
  shows "(if md = 0 \<and> b3 = 5 then (Ok None, d)
          else sbind (gp_unwrap (ext_index (rex_b (p_rex p)) b3), d) (\<lambda>r d. (Ok (Some r), d))) = (Ok base, d') \<longleftrightarrow>
         base_enc p md base b3 \<and> d' = (d :: decoder)"
  using gp_unwrap_iff [OF assms, of "rex_b (p_rex p)"]
  by (cases base) (auto simp: base_enc_def outcome_simps)

lemma enc_less: "index_enc p idx i3 \<Longrightarrow> i3 < 8" "base_enc p md base b3 \<Longrightarrow> b3 < 8"
  using low3_less by (auto simp: index_enc_def base_enc_def split: option.splits)

lemma decode_sib_iff:
  "decode_sib p md d = (Ok (base, idx, s), d') \<longleftrightarrow>
   (\<exists>ss i3 b3 r. d_rest d = pack233 ss i3 b3 # r \<and> ss < 4 \<and> s = 2 ^ unat ss \<and>
      index_enc p idx i3 \<and> base_enc p md base b3 \<and> d' = adv (Suc 0) d)"
proof -
  have f: "drop_bit 3 (h :: u8) AND 7 < 8" for h using field_bounds(2) .
  have "decode_sib p md d = (Ok (base, idx, s), d') \<longleftrightarrow>
    (\<exists>h r. d_rest d = h # r \<and> s = push_bit (unat (drop_bit 6 h)) 1 \<and> index_enc p idx (drop_bit 3 h AND 7) \<and>
       base_enc p md base (h AND 7) \<and> d' = adv (Suc 0) d)"
    unfolding decode_sib_def Let_def
    by (auto simp: sbind_eq_Ok read_u8_iff index_choice [OF f] base_choice [OF field_bounds(2)])
  also have "\<dots> \<longleftrightarrow> (\<exists>ss i3 b3 r. d_rest d = pack233 ss i3 b3 # r \<and> ss < 4 \<and> s = 2 ^ unat ss \<and>
      index_enc p idx i3 \<and> base_enc p md base b3 \<and> d' = adv (Suc 0) d)" (is "?l \<longleftrightarrow> ?r")
  proof
    assume ?l
    then obtain h r where h: "d_rest d = h # r" "s = push_bit (unat (drop_bit 6 h)) 1"
      "index_enc p idx (drop_bit 3 h AND 7)" "base_enc p md base (h AND 7)" "d' = adv (Suc 0) d" by blast
    show ?r
      by (rule exI [of _ "drop_bit 6 h"], rule exI [of _ "drop_bit 3 h AND 7"], rule exI [of _ "h AND 7"],
          rule exI [of _ r])
         (use h field_bounds(1) [of h] in \<open>simp add: pack233_eta scale_power\<close>)
  next
    assume ?r
    then obtain ss i3 b3 r where e: "d_rest d = pack233 ss i3 b3 # r" "ss < 4" "s = 2 ^ unat ss"
      "index_enc p idx i3" "base_enc p md base b3" "d' = adv (Suc 0) d" by blast
    show ?l
      by (rule exI [of _ "pack233 ss i3 b3"], rule exI [of _ r])
         (use e enc_less(1) [OF e(4)] enc_less(2) [OF e(5)] in \<open>simp add: pack233_fields less_take_bit scale_power\<close>)
  qed
  finally show ?thesis .
qed

lemma read_disp_iff:
  assumes "md < 3"
  shows "(if md = 0 \<and> rm = 4 \<and> base = None then d_read_u32 d
      else if md = 1 then sbind (d_read_u8 d) (\<lambda>b d. (Ok (scast b), d))
      else if md = 2 then d_read_u32 d else (Ok 0, d)) = (Ok disp, d') \<longleftrightarrow>
    (\<exists>bs r. d_rest d = bs @ r \<and> d' = adv (length bs) d \<and>
       (if md = 0 \<and> rm = 4 \<and> base = None then bs = u32_to_le disp else disp_enc md disp bs))"
proof -
  consider "md = 0" | "md = 1" | "md = 2"
    using u8_cases_8 [of md] assms by (auto simp: word_less_nat_alt)
  then show ?thesis
  proof cases
    case 1
    then show ?thesis
      by (cases "rm = 4 \<and> base = None") (auto simp: disp_enc_def read_u32_iff)
  next
    case 2
    have "(\<exists>bs r. d_rest d = bs @ r \<and> d' = adv (length bs) d \<and> disp_enc 1 disp bs) \<longleftrightarrow>
          (\<exists>b r. d_rest d = b # r \<and> d' = adv (Suc 0) d \<and> disp = scast b)" (is "_ \<longleftrightarrow> ?r")
    proof
      assume ?r
      then obtain b r where "d_rest d = [b] @ r" "d' = adv (length [b]) d" "disp_enc 1 disp [b]"
        by (auto simp: disp_enc_def)
      then show "\<exists>bs r. d_rest d = bs @ r \<and> d' = adv (length bs) d \<and> disp_enc 1 disp bs" by blast
    qed (auto simp: disp_enc_def)
    with 2 show ?thesis by (auto simp: sbind_eq_Ok read_u8_iff)
  next
    case 3
    then show ?thesis by (auto simp: disp_enc_def read_u32_iff)
  qed
qed

text \<open>A memory operand, both ways.\<close>

lemma mem_enc_sib:
  "mem_enc p long sz md 4 opd bs \<longleftrightarrow>
   (\<exists>ss i3 b3 base idx disp ds. opd = MemOp \<lparr>m_base = base, m_index = idx, m_scale = 2 ^ unat ss,
        m_disp = disp, m_size = sz, m_seg = p_seg p\<rparr> \<and>
      ss < 4 \<and> index_enc p idx i3 \<and> base_enc p md base b3 \<and> bs = pack233 ss i3 b3 # ds \<and>
      (if md = 0 \<and> base = None then ds = u32_to_le disp else disp_enc md disp ds))" (is "?l \<longleftrightarrow> ?r")
proof
  assume ?l
  then show ?r
    by (cases rule: mem_enc.cases) (fastforce simp: base_enc_def)+
next
  assume ?r
  then obtain ss i3 b3 base idx disp ds where e: "opd = MemOp \<lparr>m_base = base, m_index = idx, m_scale = 2 ^ unat ss,
        m_disp = disp, m_size = sz, m_seg = p_seg p\<rparr>" "ss < 4" "index_enc p idx i3" "base_enc p md base b3"
      "bs = pack233 ss i3 b3 # ds" "if md = 0 \<and> base = None then ds = u32_to_le disp else disp_enc md disp ds"
    by blast
  show ?l
  proof (cases base)
    case None
    with e show ?thesis by (auto simp: base_enc_def intro: SibNoBase)
  next
    case (Some b)
    with e show ?thesis by (auto simp: base_enc_def intro!: Sib)
  qed
qed

lemma mem_enc_nosib:
  assumes "rm \<noteq> 4" "\<not> (md = 0 \<and> rm = 5)"
  shows "mem_enc p long sz md rm opd bs \<longleftrightarrow>
   (\<exists>b disp. opd = MemOp \<lparr>m_base = Some b, m_index = None, m_scale = 1, m_disp = disp, m_size = sz, m_seg = p_seg p\<rparr> \<and>
      low3 b = rm \<and> high1 b = rex_b (p_rex p) \<and> disp_enc md disp bs)"
  using assms by (auto simp: mem_enc.simps)

lemma mem_enc_bare:
  "mem_enc p long sz 0 5 opd bs \<longleftrightarrow>
   (\<exists>disp. bs = u32_to_le disp \<and>
      opd = (if long then RipRel disp sz
             else MemOp \<lparr>m_base = None, m_index = None, m_scale = 1, m_disp = disp, m_size = sz, m_seg = p_seg p\<rparr>))"
  by (auto simp: mem_enc.simps)

lemma decode_rm_memory_sib:
  assumes md: "md < 3" and sib: "rm = 4"
  shows "decode_rm_memory p md rm sz d = (Ok opd, d') \<longleftrightarrow>
    (\<exists>bs r. d_rest d = bs @ r \<and> mem_enc p (d_long_mode d) sz md rm opd bs \<and> d' = adv (length bs) d)"
proof -
  let ?opd = "\<lambda>base idx s disp. MemOp \<lparr>m_base = base, m_index = idx, m_scale = s, m_disp = disp, m_size = sz,
    m_seg = p_seg p\<rparr>"
  let ?tail = "\<lambda>base disp ds. if md = 0 \<and> base = None then ds = u32_to_le disp else disp_enc md disp ds"
  have "decode_rm_memory p md rm sz d = (Ok opd, d') \<longleftrightarrow>
    (\<exists>base idx s disp d1. decode_sib p md d = (Ok (base, idx, s), d1) \<and> opd = ?opd base idx s disp \<and>
       (\<exists>ds r. d_rest d1 = ds @ r \<and> d' = adv (length ds) d1 \<and> ?tail base disp ds))"
  proof -
    have n: "\<not> (md = 0 \<and> rm = 5)" using sib by simp
    show ?thesis
      unfolding decode_rm_memory_def if_not_P [OF n] if_P [OF sib]
      unfolding sbind_eq_Ok split_paired_Ex prod.case read_disp_iff [OF md] prod.inject outcome.inject
      unfolding sib by (simp only: simp_thms) blast
  qed
  also have "\<dots> \<longleftrightarrow> (\<exists>base idx disp ss i3 b3 ds r. d_rest d = pack233 ss i3 b3 # ds @ r \<and> ss < 4 \<and>
       index_enc p idx i3 \<and> base_enc p md base b3 \<and> opd = ?opd base idx (2 ^ unat ss) disp \<and>
       d' = adv (Suc (length ds)) d \<and> ?tail base disp ds)" (is "?a \<longleftrightarrow> ?b")
  proof
    assume ?a
    then show ?b by (fastforce simp: decode_sib_iff dest: read_u8_rest(2))
  next
    assume ?b
    then obtain base idx disp ss i3 b3 ds r where e: "d_rest d = pack233 ss i3 b3 # ds @ r" "ss < 4"
       "index_enc p idx i3" "base_enc p md base b3" "opd = ?opd base idx (2 ^ unat ss) disp"
       "d' = adv (Suc (length ds)) d" "?tail base disp ds" by blast
    have "decode_sib p md d = (Ok (base, idx, 2 ^ unat ss), adv (Suc 0) d)"
      using e by (auto simp: decode_sib_iff)
    moreover have "\<exists>ds r. d_rest (adv (Suc 0) d) = ds @ r \<and> d' = adv (length ds) (adv (Suc 0) d) \<and> ?tail base disp ds"
      using e read_u8_rest(2) [OF e(1)] by (intro exI [of _ ds] exI [of _ r] conjI) simp_all
    ultimately show ?a using e(5) by blast
  qed
  also have "\<dots> \<longleftrightarrow> (\<exists>bs r. d_rest d = bs @ r \<and> mem_enc p (d_long_mode d) sz md rm opd bs \<and> d' = adv (length bs) d)"
    unfolding sib mem_enc_sib
  proof (intro iffI; elim exE conjE)
    fix base idx disp ss i3 b3 ds r
    assume "d_rest d = pack233 ss i3 b3 # ds @ r" "ss < 4" "index_enc p idx i3" "base_enc p md base b3"
      "opd = ?opd base idx (2 ^ unat ss) disp" "d' = adv (Suc (length ds)) d" "?tail base disp ds"
    then show "\<exists>bs r. d_rest d = bs @ r \<and> (\<exists>ss i3 b3 base idx disp ds. opd = ?opd base idx (2 ^ unat ss) disp \<and>
        ss < 4 \<and> index_enc p idx i3 \<and> base_enc p md base b3 \<and> bs = pack233 ss i3 b3 # ds \<and> ?tail base disp ds) \<and>
        d' = adv (length bs) d"
      by (intro exI [of _ "pack233 ss i3 b3 # ds"] exI [of _ r]) auto
  next
    fix bs r ss i3 b3 base idx disp ds
    assume a: "d_rest d = bs @ r" "d' = adv (length bs) d" "opd = ?opd base idx (2 ^ unat ss) disp" "ss < 4"
      "index_enc p idx i3" "base_enc p md base b3" "bs = pack233 ss i3 b3 # ds" "?tail base disp ds"
    then have "d_rest d = pack233 ss i3 b3 # ds @ r" "d' = adv (Suc (length ds)) d" by simp_all
    with a(3-6,8) show "\<exists>base idx disp ss i3 b3 ds r. d_rest d = pack233 ss i3 b3 # ds @ r \<and> ss < 4 \<and>
       index_enc p idx i3 \<and> base_enc p md base b3 \<and> opd = ?opd base idx (2 ^ unat ss) disp \<and>
       d' = adv (Suc (length ds)) d \<and> ?tail base disp ds" by blast
  qed
  finally show ?thesis .
qed

lemma decode_rm_memory_iff:
  assumes "md < 3" "rm < 8"
  shows "decode_rm_memory p md rm sz d = (Ok opd, d') \<longleftrightarrow>
    (\<exists>bs r. d_rest d = bs @ r \<and> mem_enc p (d_long_mode d) sz md rm opd bs \<and> d' = adv (length bs) d)"
proof -
  consider (bare) "md = 0 \<and> rm = 5" | (sib) "rm = 4" | (base) "rm \<noteq> 4" "\<not> (md = 0 \<and> rm = 5)" by blast
  then show ?thesis
  proof cases
    case bare
    then show ?thesis
      by (auto simp: decode_rm_memory_def sbind_eq_Ok read_u32_iff mem_enc_bare)
  next
    case sib
    then show ?thesis by (rule decode_rm_memory_sib [OF assms(1)])
  next
    case base
    have "decode_rm_memory p md rm sz d = (Ok opd, d') \<longleftrightarrow>
      (\<exists>b disp ds r. low3 b = rm \<and> high1 b = rex_b (p_rex p) \<and> d_rest d = ds @ r \<and> d' = adv (length ds) d \<and>
         disp_enc md disp ds \<and>
         opd = MemOp \<lparr>m_base = Some b, m_index = None, m_scale = 1, m_disp = disp, m_size = sz, m_seg = p_seg p\<rparr>)"
      unfolding decode_rm_memory_def if_not_P [OF base(1)] if_not_P [OF base(2)]
      unfolding sbind_eq_Ok split_paired_Ex prod.case read_disp_iff [OF assms(1)] prod.inject outcome.inject
        gp_unwrap_iff [OF assms(2)]
      using base(1) by (simp add: gp_unwrap_iff [OF assms(2)]) blast
    then show ?thesis unfolding mem_enc_nosib [OF base] by fastforce
  qed
qed

lemma mem_enc_fields: "mem_enc p long sz md rm opd bs \<Longrightarrow> md < 3 \<and> rm < 8"
  by (erule mem_enc.cases) (auto simp: disp_enc_def low3_less)

text \<open>The whole operand, both ways.\<close>

lemma decode_modrm_iff:
  "decode_modrm p sz d = (Ok (opd, reg), d') \<longleftrightarrow>
   reg < 8 \<and> (\<exists>bs r. d_rest d = bs @ r \<and> rm_enc p (d_long_mode d) sz reg opd bs \<and> d' = adv (length bs) d)"
  (is "?l \<longleftrightarrow> ?r")
proof
  assume ?l
  then obtain h r where h: "d_rest d = h # r" and reg: "reg = drop_bit 3 h AND 7"
    and k: "(if drop_bit 6 h = 3
        then sbind (gp_unwrap (ext_index (rex_b (p_rex p)) (h AND 7)), adv (Suc 0) d) (\<lambda>r d. (Ok (Reg r sz), d))
        else decode_rm_memory p (drop_bit 6 h) (h AND 7) sz (adv (Suc 0) d)) = (Ok opd, d')"
    by (auto simp: decode_modrm_def Let_def sbind_eq_Ok read_u8_iff)
  have eta: "pack233 (drop_bit 6 h) reg (h AND 7) = h" unfolding reg by (rule pack233_eta)
  have "\<exists>bs r. d_rest d = bs @ r \<and> rm_enc p (d_long_mode d) sz reg opd bs \<and> d' = adv (length bs) d"
  proof (cases "drop_bit 6 h = 3")
    case True
    then obtain g where g: "gp_unwrap (ext_index (rex_b (p_rex p)) (h AND 7)) = Ok g" "opd = Reg g sz" "d' = adv (Suc 0) d"
      using k by (auto simp: sbind_eq_Ok)
    then have "low3 g = h AND 7" "high1 g = rex_b (p_rex p)" using gp_unwrap_iff [OF field_bounds(2)] by auto
    then have "rm_enc p (d_long_mode d) sz reg (Reg g sz) [h]"
      using Register [of p g "d_long_mode d" sz reg] eta True by simp
    with g h show ?thesis by (intro exI [of _ "[h]"] exI [of _ r]) auto
  next
    case False
    then have "drop_bit 6 h < 3" using field_bounds(1) [of h]
      by (simp add: word_less_nat_alt word_unat_eq_iff)
    with k False obtain bs r' where b: "d_rest (adv (Suc 0) d) = bs @ r'"
      "mem_enc p (d_long_mode d) sz (drop_bit 6 h) (h AND 7) opd bs" "d' = adv (Suc (length bs)) d"
      by (auto simp: decode_rm_memory_iff field_bounds(2))
    then have "rm_enc p (d_long_mode d) sz reg opd (h # bs)" using Memory [OF b(2), of reg] eta by simp
    with b h read_u8_rest(2) [OF h] show ?thesis by (intro exI [of _ "h # bs"] exI [of _ r']) auto
  qed
  then show ?r using field_bounds(2) by (auto simp: reg)
next
  assume ?r
  then obtain bs r where e: "reg < 8" "d_rest d = bs @ r" "rm_enc p (d_long_mode d) sz reg opd bs"
    "d' = adv (length bs) d" by blast
  from e(3) show ?l
  proof cases
    case (Register g)
    then have r0: "d_rest d = pack233 3 reg (low3 g) # r" using e(2) by simp
    show ?thesis
      using Register e by (simp add: decode_modrm_def read_u8_rest(1) [OF r0] Let_def pack233_fields less_take_bit)
  next
    case (Memory md rm ms)
    note f = mem_enc_fields [OF Memory(2)]
    have r0: "d_rest d = pack233 md reg rm # ms @ r" using e(2) Memory by simp
    have m: "decode_rm_memory p md rm sz (adv (Suc 0) d) = (Ok opd, adv (Suc (length ms)) d)"
      using f Memory(2) read_u8_rest(2) [OF r0] by (subst decode_rm_memory_iff) auto
    have md: "md < 4" "md \<noteq> 3" using f by (auto simp: word_less_nat_alt)
    show ?thesis
      using m md f e Memory(1)
      by (simp add: decode_modrm_def read_u8_rest(1) [OF r0] Let_def pack233_fields less_take_bit)
  qed
qed

text \<open>The canonical encodings are encodings.\<close>

lemma mem_bytes_enc:
  assumes "mem_encodable p md sz m"
  shows "rm_enc p long sz reg (MemOp m) (mem_bytes reg md m)"
proof -
  let ?ss = "scale_bits (m_scale m)"
  have m: "m = \<lparr>m_base = m_base m, m_index = m_index m, m_scale = 2 ^ unat ?ss, m_disp = m_disp m, m_size = sz,
      m_seg = p_seg p\<rparr>" and ss: "?ss < 4"
    using assms by (cases m; auto simp: mem_encodable_def scale_bits_def)+
  have ix: "index_enc p (m_index m) (index3 (m_index m))"
    using assms by (auto simp: mem_encodable_def index_enc_def index3_def split: option.splits)
  have "rm_enc p long sz reg (MemOp \<lparr>m_base = m_base m, m_index = m_index m, m_scale = 2 ^ unat ?ss,
      m_disp = m_disp m, m_size = sz, m_seg = p_seg p\<rparr>) (mem_bytes reg md m)"
  proof (cases "m_base m")
    case None
    with Memory [OF SibNoBase [OF ix ss]] show ?thesis by (simp add: mem_bytes_def)
  next
    case (Some b)
    have e: "rex_b (p_rex p) = high1 b" "\<not> (md = 0 \<and> low3 b = 5)" "disp_enc md (m_disp m) (disp_bytes md (m_disp m))"
      using assms Some by (auto simp: mem_encodable_def disp_enc_def disp_bytes_def intro: exI [of _ "ucast (m_disp m)"])
    show ?thesis
    proof (cases "m_index m \<noteq> None \<or> low3 b = 4")
      case True
      with Some Memory [OF Sib [OF e(1,2) ix ss e(3)]] show ?thesis by (simp add: mem_bytes_def)
    next
      case False
      then have "m_index m = None" "?ss = 0" "low3 b \<noteq> 4"
        using assms by (auto simp: mem_encodable_def scale_bits_def)
      with Some Memory [OF Based [OF e(1) _ e(2,3)]] False show ?thesis by (simp add: mem_bytes_def)
    qed
  qed
  then show ?thesis by (simp only: m [symmetric])
qed

lemma rm_bytes_enc: "rm_encodable p long md sz opd \<Longrightarrow> rm_enc p long sz reg opd (rm_bytes reg md opd)"
  by (cases opd) (auto simp: mem_bytes_enc intro: Register Memory [OF RipRelative])

lemma decode_modrm_enc:
  "reg < 8 \<Longrightarrow> d_rest d = bs @ r \<Longrightarrow> rm_enc p (d_long_mode d) sz reg opd bs \<Longrightarrow>
   decode_modrm p sz d = (Ok (opd, reg), adv (length bs) d)"
  by (auto simp: decode_modrm_iff)

lemma decode_modrm_encode:
  assumes "rm_encodable p (d_long_mode d) md sz opd" "reg < 8" "d_rest d = rm_bytes reg md opd @ r"
  shows "decode_modrm p sz d = (Ok (opd, reg), adv (length (rm_bytes reg md opd)) d)"
  using assms(2,3) rm_bytes_enc [OF assms(1), of reg] by (rule decode_modrm_enc)

section \<open>Arithmetic instructions\<close>

definition rex_byte :: "bool \<Rightarrow> bool \<Rightarrow> bool \<Rightarrow> bool \<Rightarrow> u8" where
  "rex_byte w r x b = 0x40 OR push_bit 3 (bool_u8 w) OR push_bit 2 (bool_u8 r) OR push_bit 1 (bool_u8 x) OR bool_u8 b"

lemma rex_byte_facts:
  "rex_of (rex_byte w r x b) = \<lparr>rex_w = w, rex_r = r, rex_x = x, rex_b = b, rex_present = True\<rparr>"
  "legacy_prefix (rex_byte w r x b) p = None" "0x40 \<le> rex_byte w r x b" "rex_byte w r x b \<le> 0x4F"
  by (cases w; cases r; cases x; cases b; simp add: rex_byte_def rex_of_def legacy_prefix_def bool_u8_def)+

definition rex_prefixes :: "bool \<Rightarrow> bool \<Rightarrow> bool \<Rightarrow> bool \<Rightarrow> prefixes" where
  "rex_prefixes w r x b =
     default_prefixes\<lparr>p_rex := \<lparr>rex_w = w, rex_r = r, rex_x = x, rex_b = b, rex_present = True\<rparr>\<rparr>"

lemma read_prefixes_rex:
  assumes "d_rest d = rex_byte w r x b # rest" "d_long_mode d"
  shows "read_prefixes d = (Ok (rex_prefixes w r x b), adv (Suc 0) d)"
proof -
  have "d_pos d < length (d_bytes d)" "d_bytes d ! d_pos d = rex_byte w r x b"
    using read_u8_rest(1) [OF assms(1)] by (auto simp: d_read_u8_def split: if_splits)
  with assms(2) show ?thesis
    by (simp add: read_prefixes_def read_prefixes_loop_step rex_byte_facts rex_prefixes_def adv_def)
qed

text \<open>The eight arithmetic operations in the order of their opcodes.\<close>

definition alu_ops :: "op list" where
  "alu_ops = [Op_Add, Op_Or, Op_Adc, Op_Sbb, Op_And, Op_Sub, Op_Xor, Op_Cmp]"

lemma alu_opcode:
  assumes "n < 8" "f = 1 \<or> f = 3"
  shows "8 * n + f \<noteq> (0x0F :: u8)" and "8 * n + f \<le> (0x3D :: u8)" and "(8 * n + f) AND 7 = (f :: u8)"
    and "group1_op (drop_bit 3 (8 * n + f)) = Ok (alu_ops ! unat n)"
  using assms(2) u8_cases_8 [OF assms(1)] by (auto simp: group1_op_def alu_ops_def)

lemma decode_alu:
  assumes n: "n < 8" and f: "f = 1 \<or> f = 3" and lm: "d_long_mode d"
    and r: "d_rest d = rex_byte True (high1 g) x b # (8 * n + f) # rm_bytes (low3 g) md opd @ rest"
    and e: "rm_encodable (rex_prefixes True (high1 g) x b) True md B8 opd"
  shows "decoder_next d = (Ok \<lparr>i_op = alu_ops ! unat n,
      i_operands = (if f = 1 then [Some opd, Some (Reg g B8), None] else [Some (Reg g B8), Some opd, None]),
      i_len = of_nat (2 + length (rm_bytes (low3 g) md opd)), i_guest_rip = d_rip d\<rparr>,
      adv (2 + length (rm_bytes (low3 g) md opd)) d)"
proof -
  let ?p = "rex_prefixes True (high1 g) x b"
  note p = read_prefixes_rex [OF r lm]
  note r1 = read_u8_rest(2) [OF r]
  note r2 = read_u8_rest [OF r1]
  have m: "decode_modrm ?p B8 (adv (Suc (Suc 0)) d) =
      (Ok (opd, low3 g), adv (2 + length (rm_bytes (low3 g) md opd)) d)"
    using decode_modrm_encode [of ?p "adv (Suc (Suc 0)) d" md B8 opd "low3 g" rest] e r2(2) lm low3_less by simp
  have s: "op_size_default32 (adv (Suc (Suc 0)) d) ?p = B8"
    using lm by (simp add: op_size_default32_def rex_prefixes_def)
  have g: "reg_operand ?p (low3 g) B8 = Ok (Reg g B8)"
    by (simp add: reg_operand_def rex_prefixes_def)
  have a: "(8 * n + f) AND 7 \<le> 5" using alu_opcode(3) [OF n f] f by auto
  show ?thesis
    using f
    by (auto simp: decoder_next_def Let_def p r2(1) alu_opcode [OF n f] a decode_primary_def
        decode_arith_form_def s rm_r_def r_rm_def m g emit2_def make_def d_rip_def)
qed

section \<open>Moves of XMM registers\<close>

text \<open>In an instruction on XMM registers a register field names an XMM register.\<close>

definition xmm_form :: "operand \<Rightarrow> operand" where
  "xmm_form opd = (case opd of Reg g s \<Rightarrow> XmmReg (gp_index g) s | _ \<Rightarrow> opd)"

lemma ext_index_sum: "reg < 8 \<Longrightarrow> ext_index r reg = (if r then 8 else 0) + reg"
  by (drule u8_cases_8) (auto simp: ext_index_def bool_u8_def)

lemma decode_modrm_xmm_enc:
  assumes "reg < 8" "d_rest d = bs @ rest" "rm_enc p (d_long_mode d) sz reg opd bs"
  shows "decode_modrm_xmm p sz d =
    (Ok (xmm_form opd, (if rex_r (p_rex p) then 8 else 0) + reg), adv (length bs) d)"
  using assms(3)
proof cases
  case (Register g)
  then have r0: "d_rest d = pack233 3 reg (low3 g) # rest" using assms(2) by simp
  show ?thesis
    using Register assms(1)
    by (simp add: decode_modrm_xmm_def read_u8_rest(1) [OF r0] Let_def pack233_fields less_take_bit xmm_form_def
        ext_index_sum)
next
  case (Memory md rm ms)
  note f = mem_enc_fields [OF Memory(2)]
  have r0: "d_rest d = pack233 md reg rm # ms @ rest" using assms(2) Memory by simp
  have m: "decode_rm_memory p md rm sz (adv (Suc 0) d) = (Ok opd, adv (Suc (length ms)) d)"
    using f Memory(2) read_u8_rest(2) [OF r0] by (subst decode_rm_memory_iff) auto
  have md: "md < 4" "md \<noteq> 3" using f by (auto simp: word_less_nat_alt)
  have "xmm_form opd = opd" using Memory(2) by cases (simp_all add: xmm_form_def)
  then show ?thesis
    using m md f assms(1) Memory(1)
    by (simp add: decode_modrm_xmm_def read_u8_rest(1) [OF r0] Let_def pack233_fields less_take_bit ext_index_sum)
qed

lemma read_prefixes_66_rex:
  assumes "d_rest d = 0x66 # rex_byte w r x b # rest" "d_long_mode d"
  shows "read_prefixes d = (Ok ((rex_prefixes w r x b)\<lparr>p_osize := True\<rparr>), adv (Suc (Suc 0)) d)"
proof -
  have "d_pos d < length (d_bytes d)" "d_bytes d ! d_pos d = 0x66"
    using read_u8_rest(1) [OF assms(1)] by (auto simp: d_read_u8_def split: if_splits)
  moreover have "Suc (d_pos d) < length (d_bytes d)" "d_bytes d ! Suc (d_pos d) = rex_byte w r x b"
    using read_u8_rest(1) [OF read_u8_rest(2) [OF assms(1)]] by (auto simp: d_read_u8_def adv_def split: if_splits)
  ultimately show ?thesis
    using assms(2)
    by (simp add: read_prefixes_def read_prefixes_loop_step [of default_prefixes] read_prefixes_loop_step [of "default_prefixes\<lparr>p_osize := True\<rparr>"]
        rex_byte_facts rex_prefixes_def adv_def legacy_prefix_def [of "0x66"])
qed

lemma secondary_xmm_move:
  assumes "opc \<in> {0x6E, 0x7E, 0x6F}" "reg < 8" "sz = (if w \<or> opc = 0x6F then B8 else B4)"
    and e: "rm_enc ((rex_prefixes w r x b)\<lparr>p_osize := True\<rparr>) True sz reg opd bs"
    and r: "d_rest d = opc # bs @ rest" and lm: "d_long_mode d"
  shows "decode_secondary ((rex_prefixes w r x b)\<lparr>p_osize := True\<rparr>) rip d =
    (Ok \<lparr>i_op = (if opc = 0x6F then Op_MovdqXmm else Op_MovqXmm),
      i_operands = (if opc = 0x6E then [Some (XmmReg reg sz), Some opd, None]
                    else if opc = 0x7E then [Some opd, Some (XmmReg reg sz), None]
                    else [Some (XmmReg ((if r then 8 else 0) + reg) sz), Some (xmm_form opd), None]),
      i_len = 0, i_guest_rip = rip\<rparr>, adv (Suc (length bs)) d)"
proof -
  let ?p = "(rex_prefixes w r x b)\<lparr>p_osize := True\<rparr>"
  note r1 = read_u8_rest [OF r]
  have m: "decode_modrm ?p sz (adv (Suc 0) d) = (Ok (opd, reg), adv (Suc (length bs)) d)"
    using decode_modrm_enc [OF assms(2) r1(2), of ?p sz opd] lm e by simp
  have x: "decode_modrm_xmm ?p sz (adv (Suc 0) d) =
      (Ok (xmm_form opd, (if r then 8 else 0) + reg), adv (Suc (length bs)) d)"
    using decode_modrm_xmm_enc [OF assms(2) r1(2), of ?p sz opd] lm e by (simp add: rex_prefixes_def)
  have g: "gpr_size ?p = (if w then B8 else B4)" by (simp add: gpr_size_def rex_prefixes_def)
  have o: "p_osize ?p" by simp
  note defs = decode_secondary_def r1(1) decode_secondary_moves_def emit2_def make_def
  show ?thesis
    using assms(1)
  proof (elim insertE emptyE)
    assume c: "opc = 0x6E"
    then have "gpr_size ?p = sz" using assms(3) g by simp
    with c m o show ?thesis by (simp add: defs)
  next
    assume c: "opc = 0x7E"
    then have "gpr_size ?p = sz" using assms(3) g by simp
    with c m o show ?thesis by (simp add: defs)
  next
    assume c: "opc = 0x6F"
    then have "sz = B8" using assms(3) by simp
    with c x o show ?thesis by (simp add: defs xmm_rm_def)
  qed
qed

section \<open>Properties\<close>

text \<open>
  C19: decoding is total and safe. From any position inside the input the decoder returns an
  instruction or \<open>Truncated\<close>, never a panic and never \<open>Reserved\<close>; it stays inside the input, does
  not change it, and an instruction it returns has consumed at least one byte, is stamped with its
  address and its length (modulo 256, the width of \<open>len\<close>), and has well-formed operands: XMM
  numbers below 16, scales 1, 2, 4 or 8, and never RSP as an index.
\<close>

theorem decoder_next_safe:
  assumes "d_pos d \<le> length (d_bytes d)" "decoder_next d = (res, d')"
  shows "no_panic res \<and> res \<noteq> Err Reserved \<and> d_bytes d' = d_bytes d \<and> d_long_mode d' = d_long_mode d \<and>
     d_pos d \<le> d_pos d' \<and> d_pos d' \<le> length (d_bytes d) \<and>
     (\<forall>i. res = Ok i \<longrightarrow> d_pos d < d_pos d' \<and> i_len i = of_nat (d_pos d' - d_pos d) \<and>
        i_guest_rip i = d_guest_rip d + of_nat (d_pos d) \<and> wf_inst i)"
proof -
  have p: "dec_post d wf_inst (res, d')" using post_decoder_next [of d] assms(2) by simp
  have "no_panic res \<and> res \<noteq> Err Reserved" using p by (auto simp: dec_post_def split: outcome.splits)
  moreover have "\<forall>i. res = Ok i \<longrightarrow> wf_inst i" using p by (auto simp: dec_post_def)
  ultimately show ?thesis
    using p assms next_progress [of d _ d'] by (auto simp: dec_post_def same_input_def)
qed

theorem decoder_next_safe_witness:
  "no_panic (fst (decoder_next (Decoder_new [0x0F] 0x1000))) \<and>
   fst (decoder_next (Decoder_new [0x0F] 0x1000)) \<noteq> Err Reserved"
  using decoder_next_safe [of "Decoder_new [0x0F] 0x1000" "fst (decoder_next (Decoder_new [0x0F] 0x1000))"
      "snd (decoder_next (Decoder_new [0x0F] 0x1000))"]
  by (simp add: Decoder_new_def)

text \<open>
  C20: an instruction depends only on the bytes it consumes. If decoding succeeds and another input
  has the same bytes up to the end of the instruction, decoding there gives the same instruction at
  the same position, whatever follows.
\<close>

theorem decoder_next_local:
  assumes "decoder_next d = (Ok i, d')" "agree d bs (d_pos d')"
  shows "decoder_next (d\<lparr>d_bytes := bs\<rparr>) = (Ok i, d'\<lparr>d_bytes := bs\<rparr>)"
  using local_next_at [of "d_pos d" "d_guest_rip d + of_nat (d_pos d)"] assms
  unfolding dec_local_def decoder_next_at by simp

theorem decoder_next_local_witness:
  "decoder_next (Decoder_new [0x90] 0) = (Ok (make Op_Nop [None, None, None] 0\<lparr>i_len := 1\<rparr>), adv 1 (Decoder_new [0x90] 0)) \<and>
   fst (decoder_next (Decoder_new [0x90, 0xC3] 0)) = Ok (make Op_Nop [None, None, None] 0\<lparr>i_len := 1\<rparr>)"
proof -
  have n: "decoder_next (Decoder_new [0x90] 0) =
      (Ok (make Op_Nop [None, None, None] 0\<lparr>i_len := 1\<rparr>), adv 1 (Decoder_new [0x90] 0))"
    by (simp add: decoder_next_def Let_def read_prefixes_def read_prefixes_loop_step Decoder_new_def
        legacy_prefix_def d_read_u8_def decode_primary_def decode_primary_40_6B_def
        decode_primary_70_8F_def decode_primary_90_BF_def emit0_def make_def adv_def)
  have a: "agree (Decoder_new [0x90] 0) [0x90, 0xC3] (d_pos (adv 1 (Decoder_new [0x90] 0)))"
    by (simp add: agree_def Decoder_new_def)
  have e: "Decoder_new [0x90] 0\<lparr>d_bytes := [0x90, 0xC3]\<rparr> = Decoder_new [0x90, 0xC3] 0"
    by (simp add: Decoder_new_def)
  show ?thesis using n decoder_next_local [OF n a] by (simp add: e)
qed

text \<open>
  C21: operands decode exactly. \<open>decode_modrm\<close> returns an operand and a \<open>reg\<close> field if and only if
  the bytes ahead start with an encoding of that operand and field under the x86 rules for 32- and
  64-bit addresses (register form, RIP-relative or absolute displacement, base without SIB, SIB with or
  without base, required or redundant, any scale bits), and it consumes exactly the bytes of that
  encoding. The address-size prefix plays no part: the code ignores it here.
\<close>

theorem decode_modrm_roundtrip:
  "decode_modrm p sz d = (Ok (opd, reg), d') \<longleftrightarrow>
   reg < 8 \<and> (\<exists>bs rest. drop (d_pos d) (d_bytes d) = bs @ rest \<and> rm_enc p (d_long_mode d) sz reg opd bs \<and>
     d' = d\<lparr>d_pos := d_pos d + length bs\<rparr>)"
  unfolding decode_modrm_iff d_rest_def adv_def ..

theorem decode_modrm_roundtrip_witness:
  "decode_modrm (rex_prefixes True False True False) B8 (Decoder_new [0x44, 0xE0, 0xF8] 0) =
     (Ok (MemOp \<lparr>m_base = Some Rax, m_index = Some R12, m_scale = 8, m_disp = - 8, m_size = B8, m_seg = None\<rparr>, 0),
      (Decoder_new [0x44, 0xE0, 0xF8] 0)\<lparr>d_pos := 3\<rparr>)"
proof -
  let ?m = "\<lparr>m_base = Some Rax, m_index = Some R12, m_scale = 8, m_disp = - 8 :: u32, m_size = B8, m_seg = None\<rparr>"
  let ?p = "rex_prefixes True False True False" and ?d = "Decoder_new [0x44, 0xE0, 0xF8] 0"
  have e: "mem_encodable ?p 1 B8 ?m"
    by (simp add: mem_encodable_def rex_prefixes_def default_prefixes_def high1_def)
  have b: "mem_bytes 0 1 ?m = [0x44, 0xE0, 0xF8]"
    by (simp add: mem_bytes_def low3_values index3_def scale_bits_def disp_bytes_def pack233_def)
  have "drop (d_pos ?d) (d_bytes ?d) = [0x44, 0xE0, 0xF8] @ [] \<and> rm_enc ?p (d_long_mode ?d) B8 0 (MemOp ?m) [0x44, 0xE0, 0xF8] \<and>
      ?d\<lparr>d_pos := 3\<rparr> = ?d\<lparr>d_pos := d_pos ?d + length [0x44, 0xE0, 0xF8 :: u8]\<rparr>"
    using mem_bytes_enc [OF e, of True 0] by (simp add: b Decoder_new_def)
  then have "\<exists>bs rest. drop (d_pos ?d) (d_bytes ?d) = bs @ rest \<and> rm_enc ?p (d_long_mode ?d) B8 0 (MemOp ?m) bs \<and>
      ?d\<lparr>d_pos := 3\<rparr> = ?d\<lparr>d_pos := d_pos ?d + length bs\<rparr>" by (intro exI)
  then show ?thesis by (intro decode_modrm_roundtrip [THEN iffD2] conjI) simp_all
qed

text \<open>
  C22: the arithmetic instructions decode as the manual says. In long mode, \<open>REX.W\<close>, opcode
  \<open>8 * n + 1\<close> or \<open>8 * n + 3\<close> and an encoded operand decode to the \<open>n\<close>-th of ADD, OR, ADC, SBB,
  AND, SUB, XOR, CMP on 64-bit operands, destination first, with the full length.
\<close>

theorem decode_alu_correct:
  assumes "n < 8" "f = 1 \<or> f = 3" "d_long_mode d"
    and "drop (d_pos d) (d_bytes d) =
      rex_byte True (high1 g) x b # (8 * n + f) # rm_bytes (low3 g) md opd @ rest"
    and "rm_encodable (rex_prefixes True (high1 g) x b) True md B8 opd"
  shows "fst (decoder_next d) = Ok \<lparr>i_op = alu_ops ! unat n,
      i_operands = (if f = 1 then [Some opd, Some (Reg g B8), None] else [Some (Reg g B8), Some opd, None]),
      i_len = of_nat (2 + length (rm_bytes (low3 g) md opd)), i_guest_rip = d_rip d\<rparr>"
  using decode_alu [of n f d g x b md opd rest] assms by (simp add: d_rest_def)

theorem decode_alu_correct_witness:
  "fst (decoder_next (Decoder_new [0x4C, 0x31, 0xC0] 0)) =
     Ok \<lparr>i_op = Op_Xor, i_operands = [Some (Reg Rax B8), Some (Reg R8 B8), None], i_len = 3, i_guest_rip = 0\<rparr>"
proof -
  let ?d = "Decoder_new [0x4C, 0x31, 0xC0] 0"
  have b: "drop (d_pos ?d) (d_bytes ?d) =
      rex_byte True (high1 R8) False False # (8 * 6 + 1) # rm_bytes (low3 R8) 0 (Reg Rax B8) @ []"
    by (simp add: Decoder_new_def rex_byte_def high1_def bool_u8_def low3_values pack233_def)
  show ?thesis
    using decode_alu_correct [OF _ _ _ b]
    by (simp add: Decoder_new_def rex_prefixes_def high1_def alu_ops_def d_rip_def)
qed

text \<open>
  C23: \<open>REX.R\<close> is dropped on the moves between general and XMM registers. In long mode, for every
  REX prefix and every encoded operand, \<open>66 REX 0F 6E\<close> and \<open>66 REX 0F 7E\<close> (MOVD and MOVQ) decode
  with the XMM operand numbered by the three ModRM bits alone, so that with \<open>REX.R\<close> set they name
  XMM 0 to 7 where the architecture names XMM 8 to 15; with opcode 6F (MOVDQA) the same bytes decode
  with the bit: XMM \<open>8 + reg\<close>.
\<close>

theorem movq_xmm_drops_rex_r:
  assumes "d_long_mode d" "opc \<in> {0x6E, 0x7E, 0x6F}" "reg < 8"
    and "sz = (if w \<or> opc = 0x6F then B8 else B4)"
    and "rm_enc ((rex_prefixes w r x b)\<lparr>p_osize := True\<rparr>) True sz reg opd bs"
    and "drop (d_pos d) (d_bytes d) = 0x66 # rex_byte w r x b # 0x0F # opc # bs @ rest"
  shows "fst (decoder_next d) = Ok \<lparr>i_op = (if opc = 0x6F then Op_MovdqXmm else Op_MovqXmm),
      i_operands = (if opc = 0x6E then [Some (XmmReg reg sz), Some opd, None]
                    else if opc = 0x7E then [Some opd, Some (XmmReg reg sz), None]
                    else [Some (XmmReg ((if r then 8 else 0) + reg) sz), Some (xmm_form opd), None]),
      i_len = of_nat (4 + length bs), i_guest_rip = d_rip d\<rparr>"
proof -
  let ?p = "(rex_prefixes w r x b)\<lparr>p_osize := True\<rparr>"
  have r0: "d_rest d = 0x66 # rex_byte w r x b # 0x0F # opc # bs @ rest" using assms(6) by (simp add: d_rest_def)
  note p = read_prefixes_66_rex [OF r0 assms(1)]
  have a: "adv (Suc 0) (adv (Suc 0) d) = adv (Suc (Suc 0)) d" by simp
  note r1 = read_u8_rest [OF read_u8_rest(2) [OF read_u8_rest(2) [OF r0], unfolded a]]
  have "decoder_next d = sbind (decode_secondary ?p (d_rip d) (adv (Suc (Suc (Suc 0))) d))
      (\<lambda>inst d'. (Ok (inst\<lparr>i_len := of_nat (d_pos d' - d_pos d), i_guest_rip := d_rip d\<rparr>), d'))"
    by (simp add: decoder_next_def Let_def p r1(1) d_rip_def)
  then show ?thesis
    using secondary_xmm_move [OF assms(2-5), of "adv (Suc (Suc (Suc 0))) d" rest "d_rip d"] assms(1,2) r1(2)
    by auto
qed

theorem movq_xmm_drops_rex_r_witness:
  "fst (decoder_next (Decoder_new [0x66, 0x4C, 0x0F, 0x6E, 0xC0] 0)) =
     Ok \<lparr>i_op = Op_MovqXmm, i_operands = [Some (XmmReg 0 B8), Some (Reg Rax B8), None], i_len = 5, i_guest_rip = 0\<rparr>"
proof -
  let ?d = "Decoder_new [0x66, 0x4C, 0x0F, 0x6E, 0xC0] 0"
  have e: "rm_enc ((rex_prefixes True True False False)\<lparr>p_osize := True\<rparr>) True B8 0 (Reg Rax B8) [0xC0]"
    using Register [of "(rex_prefixes True True False False)\<lparr>p_osize := True\<rparr>" Rax True B8 0]
    by (simp add: rex_prefixes_def high1_def low3_values pack233_def)
  have b: "drop (d_pos ?d) (d_bytes ?d) = 0x66 # rex_byte True True False False # 0x0F # 0x6E # [0xC0] @ []"
    by (simp add: Decoder_new_def rex_byte_def bool_u8_def)
  show ?thesis
    using movq_xmm_drops_rex_r [OF _ _ _ _ e b] by (simp add: Decoder_new_def d_rip_def)
qed

text \<open>
  The high-byte registers are not representable. Without a REX prefix the register number 4 of a
  byte operand is AH; \<open>MOV al, ah\<close> (88 E0) decodes to a byte move from RSP, the register that number
  names only under a REX prefix.
\<close>

theorem high_byte_register_decodes_as_rsp:
  "fst (decoder_next (Decoder_new [0x88, 0xE0] 0)) =
     Ok \<lparr>i_op = Op_Mov, i_operands = [Some (Reg Rax B1), Some (Reg Rsp B1), None], i_len = 2, i_guest_rip = 0\<rparr>"
  by (simp add: decoder_next_def Let_def read_prefixes_def read_prefixes_loop_step Decoder_new_def
      legacy_prefix_def default_prefixes_def default_rex_def d_read_u8_def decode_primary_def decode_primary_40_6B_def
      decode_primary_70_8F_def rm_r_def decode_modrm_def reg_operand_def
      ext_index_def bool_u8_def gp_unwrap_def from_index_def gp_regs_def emit2_def make_def)

end
