(* ===== verification/Quantum_Core.thy ===== *)
theory Quantum_Core
  imports Prelude
begin

text \<open>
  \<open>quantum-core\<close>: the error type every crate returns, the NTSTATUS constants and the Windows
  \<open>HANDLE\<close>. A result \<open>Result<T>\<close> of the crates is \<open>(error, 'a) outcome\<close>, with the panics of the
  code as a third case.
\<close>

section \<open>Errors\<close>

datatype nt_status = NtStatus u32

definition SUCCESS :: nt_status where "SUCCESS = NtStatus 0x00000000"
definition UNSUCCESSFUL :: nt_status where "UNSUCCESSFUL = NtStatus 0xC0000001"
definition NOT_IMPLEMENTED :: nt_status where "NOT_IMPLEMENTED = NtStatus 0xC0000002"
definition INVALID_PARAMETER :: nt_status where "INVALID_PARAMETER = NtStatus 0xC000000D"
definition NO_MEMORY :: nt_status where "NO_MEMORY = NtStatus 0xC0000017"
definition ACCESS_VIOLATION :: nt_status where "ACCESS_VIOLATION = NtStatus 0xC0000005"

datatype error =
    Malformed (what: string) (at: nat)
  | Unsupported string
  | Host (syscall: string) (code: int)
  | Nt nt_status

type_synonym 'a result = "(error, 'a) outcome"

section \<open>Handles\<close>

datatype handle = Handle u64

definition INVALID_HANDLE :: handle where "INVALID_HANDLE = Handle (- 1)"
definition NULL_HANDLE :: handle where "NULL_HANDLE = Handle 0"

fun is_invalid :: "handle \<Rightarrow> bool" where
  "is_invalid (Handle h) \<longleftrightarrow> Handle h = INVALID_HANDLE \<or> Handle h = NULL_HANDLE"

end
