(* ===== verification/Pe.thy ===== *)
theory Pe
  imports Quantum_Core
begin

text \<open>
  \<open>quantum-loader/src/pe.rs\<close>: the PE/COFF header parser. \<open>PeFile_parse\<close> reads the DOS header,
  the COFF header, the PE32 or PE32+ optional header and checks the section table's range;
  \<open>section_iter_next\<close> is the section iterator. Byte offsets are \<open>usize\<close> values: the sums the
  parser compares or slices with are \<open>usize_add\<close>, which panics at \<open>2 ^ 64\<close>, and a sum that
  is only passed on to a read is covered by the larger sum of that read.
\<close>

section \<open>Constants and data\<close>

definition DOS_SIG :: u16 where "DOS_SIG = 0x5A4D"
definition PE_SIG :: u32 where "PE_SIG = 0x00004550"
definition OPT_MAGIC_PE32 :: u16 where "OPT_MAGIC_PE32 = 0x010B"
definition OPT_MAGIC_PE32PLUS :: u16 where "OPT_MAGIC_PE32PLUS = 0x020B"

datatype pe_kind = Pe32 | Pe32Plus

record coff_header =
  machine :: u16
  number_of_sections :: u16
  time_date_stamp :: u32
  pointer_to_symbol_table :: u32
  number_of_symbols :: u32
  size_of_optional_header :: u16
  coff_characteristics :: u16

record data_directory =
  virtual_address :: u32
  dir_size :: u32

record optional_header =
  opt_kind :: pe_kind
  address_of_entry_point :: u32
  image_base :: u64
  section_alignment :: u32
  file_alignment :: u32
  opt_size_of_image :: u32
  opt_size_of_headers :: u32
  opt_subsystem :: u16
  number_of_rva_and_sizes :: u32
  opt_data_directories :: "data_directory list"

record section_header =
  sh_name :: bytes
  virtual_size :: u32
  sh_virtual_address :: u32
  size_of_raw_data :: u32
  pointer_to_raw_data :: u32
  sh_characteristics :: u32

record pe_file =
  pe_bytes :: bytes
  pe_header_offset :: nat
  coff :: coff_header
  opt :: optional_header
  sections_offset :: nat

text \<open>Indices into the data directories.\<close>

definition DIR_EXPORT :: nat where "DIR_EXPORT = 0"
definition DIR_IMPORT :: nat where "DIR_IMPORT = 1"
definition DIR_RESOURCE :: nat where "DIR_RESOURCE = 2"
definition DIR_EXCEPTION :: nat where "DIR_EXCEPTION = 3"
definition DIR_BASERELOC :: nat where "DIR_BASERELOC = 5"
definition DIR_DEBUG :: nat where "DIR_DEBUG = 6"
definition DIR_TLS :: nat where "DIR_TLS = 9"
definition DIR_LOAD_CONFIG :: nat where "DIR_LOAD_CONFIG = 10"
definition DIR_DELAY_IMPORT :: nat where "DIR_DELAY_IMPORT = 13"

lemmas dir_index_defs = DIR_EXPORT_def DIR_IMPORT_def DIR_RESOURCE_def DIR_EXCEPTION_def
  DIR_BASERELOC_def DIR_DEBUG_def DIR_TLS_def DIR_LOAD_CONFIG_def DIR_DELAY_IMPORT_def

definition default_directory :: data_directory where
  "default_directory = \<lparr>virtual_address = 0, dir_size = 0\<rparr>"

text \<open>The printable name: up to the first NUL, \<open>?\<close> when that is not UTF-8.\<close>

definition name_str :: "bytes \<Rightarrow> bytes" where
  "name_str name =
     (let s = takeWhile (\<lambda>b. b \<noteq> 0) name in if utf8_valid s then s else [0x3F])"

section \<open>Scalar reads\<close>

definition read_u16 :: "bytes \<Rightarrow> nat \<Rightarrow> u16 result" where
  "read_u16 b off =
     obind (usize_add off 2) (\<lambda>_.
     obind (ok_or (get_range b off 2) (Malformed ''u16 read'' off)) (\<lambda>s. Ok (u16_from_le s)))"

definition read_u32 :: "bytes \<Rightarrow> nat \<Rightarrow> u32 result" where
  "read_u32 b off =
     obind (usize_add off 4) (\<lambda>_.
     obind (ok_or (get_range b off 4) (Malformed ''u32 read'' off)) (\<lambda>s. Ok (u32_from_le s)))"

definition read_u64 :: "bytes \<Rightarrow> nat \<Rightarrow> u64 result" where
  "read_u64 b off =
     obind (usize_add off 8) (\<lambda>_.
     obind (ok_or (get_range b off 8) (Malformed ''u64 read'' off)) (\<lambda>s. Ok (u64_from_le s)))"

section \<open>Header parsing\<close>

definition read_coff :: "bytes \<Rightarrow> nat \<Rightarrow> coff_header result" where
  "read_coff bytes coff_off =
     obind (read_u16 bytes coff_off) (\<lambda>m.
     obind (read_u16 bytes (coff_off + 2)) (\<lambda>ns.
     obind (read_u32 bytes (coff_off + 4)) (\<lambda>ts.
     obind (read_u32 bytes (coff_off + 8)) (\<lambda>pst.
     obind (read_u32 bytes (coff_off + 12)) (\<lambda>nsym.
     obind (read_u16 bytes (coff_off + 16)) (\<lambda>soh.
     obind (read_u16 bytes (coff_off + 18)) (\<lambda>ch.
     Ok \<lparr>machine = m, number_of_sections = ns, time_date_stamp = ts,
         pointer_to_symbol_table = pst, number_of_symbols = nsym,
         size_of_optional_header = soh, coff_characteristics = ch\<rparr>)))))))"

definition read_directory :: "bytes \<Rightarrow> nat \<Rightarrow> data_directory result" where
  "read_directory bytes entry_off =
     obind (read_u32 bytes entry_off) (\<lambda>va.
     obind (read_u32 bytes (entry_off + 4)) (\<lambda>sz.
     Ok \<lparr>virtual_address = va, dir_size = sz\<rparr>))"

primrec read_directories :: "bytes \<Rightarrow> nat \<Rightarrow> nat \<Rightarrow> nat \<Rightarrow> data_directory list result" where
  "read_directories bytes data_dir_off i 0 = Ok []"
| "read_directories bytes data_dir_off i (Suc n) =
     obind (read_directory bytes (data_dir_off + i * 8)) (\<lambda>d.
     obind (read_directories bytes data_dir_off (Suc i) n) (\<lambda>ds. Ok (d # ds)))"

definition read_image_base :: "bytes \<Rightarrow> nat \<Rightarrow> pe_kind \<Rightarrow> (u64 \<times> nat) result" where
  "read_image_base bytes off kind =
     (case kind of
        Pe32 \<Rightarrow> obind (read_u32 bytes (off + 28)) (\<lambda>ib. Ok (ucast ib, off + 32))
      | Pe32Plus \<Rightarrow> obind (read_u64 bytes (off + 24)) (\<lambda>ib. Ok (ib, off + 32)))"

definition parse_optional :: "bytes \<Rightarrow> nat \<Rightarrow> pe_kind \<Rightarrow> optional_header result" where
  "parse_optional bytes off kind =
     obind (read_u32 bytes (off + 16)) (\<lambda>aoep.
     obind (read_image_base bytes off kind) (\<lambda>(ib, fixed_off).
     obind (read_u32 bytes fixed_off) (\<lambda>sa.
     obind (read_u32 bytes (fixed_off + 4)) (\<lambda>fa.
     obind (read_u32 bytes (fixed_off + 24)) (\<lambda>soi.
     obind (read_u32 bytes (fixed_off + 28)) (\<lambda>soh.
     obind (read_u16 bytes (fixed_off + 36)) (\<lambda>ss.
     (let (n_off, dd_off) = (case kind of Pe32 \<Rightarrow> (fixed_off + 60, fixed_off + 64)
                                         | Pe32Plus \<Rightarrow> (fixed_off + 76, fixed_off + 80)) in
      obind (read_u32 bytes n_off) (\<lambda>n.
      obind (read_directories bytes dd_off 0 (min (unat n) 16)) (\<lambda>ds.
      Ok \<lparr>opt_kind = kind, address_of_entry_point = aoep, image_base = ib,
          section_alignment = sa, file_alignment = fa, opt_size_of_image = soi,
          opt_size_of_headers = soh, opt_subsystem = ss, number_of_rva_and_sizes = n,
          opt_data_directories = ds @ replicate (16 - length ds) default_directory\<rparr>))))))))))"

definition magic_kind :: "u16 \<Rightarrow> nat \<Rightarrow> pe_kind result" where
  "magic_kind magic opt_off =
     (if magic = OPT_MAGIC_PE32 then Ok Pe32
      else if magic = OPT_MAGIC_PE32PLUS then Ok Pe32Plus
      else Err (Malformed ''optional header magic'' opt_off))"

definition PeFile_parse :: "bytes \<Rightarrow> pe_file result" where
  "PeFile_parse bytes =
     obind (read_u16 bytes 0) (\<lambda>dos_sig.
     if dos_sig \<noteq> DOS_SIG then Err (Malformed ''DOS signature'' 0)
     else obind (read_u32 bytes 0x3C) (\<lambda>lfanew.
     let e_lfanew = unat lfanew in
     obind (read_u32 bytes e_lfanew) (\<lambda>pe_sig.
     if pe_sig \<noteq> PE_SIG then Err (Malformed ''PE signature'' e_lfanew)
     else
     let coff_off = e_lfanew + 4 in
     obind (read_coff bytes coff_off) (\<lambda>c.
     let opt_off = coff_off + 20 in
     obind (read_u16 bytes opt_off) (\<lambda>magic.
     obind (magic_kind magic opt_off) (\<lambda>kind.
     obind (parse_optional bytes opt_off kind) (\<lambda>oh.
     obind (usize_add opt_off (unat (size_of_optional_header c))) (\<lambda>s_off.
     obind (usize_add s_off (40 * unat (number_of_sections c))) (\<lambda>s_end.
     if s_end > length bytes then Err (Malformed ''section table'' s_off)
     else Ok \<lparr>pe_bytes = bytes, pe_header_offset = e_lfanew, coff = c, opt = oh,
              sections_offset = s_off\<rparr>)))))))))"

section \<open>The section iterator\<close>

record section_iter =
  it_bytes :: bytes
  it_offset :: nat
  it_remaining :: u16

definition sections :: "pe_file \<Rightarrow> section_iter" where
  "sections pe = \<lparr>it_bytes = pe_bytes pe, it_offset = sections_offset pe,
                  it_remaining = number_of_sections (coff pe)\<rparr>"

definition read_section :: "bytes \<Rightarrow> nat \<Rightarrow> section_header option" where
  "read_section b off =
     Option.bind (get_range b off 8) (\<lambda>name.
     Option.bind (ok (read_u32 b (off + 8))) (\<lambda>vs.
     Option.bind (ok (read_u32 b (off + 12))) (\<lambda>va.
     Option.bind (ok (read_u32 b (off + 16))) (\<lambda>rs.
     Option.bind (ok (read_u32 b (off + 20))) (\<lambda>rp.
     Option.bind (ok (read_u32 b (off + 36))) (\<lambda>ch.
     Some \<lparr>sh_name = name, virtual_size = vs, sh_virtual_address = va, size_of_raw_data = rs,
           pointer_to_raw_data = rp, sh_characteristics = ch\<rparr>))))))"

definition section_iter_next :: "section_iter \<Rightarrow> (section_header \<times> section_iter) option" where
  "section_iter_next it =
     (if it_remaining it = 0 then None
      else Option.bind (read_section (it_bytes it) (it_offset it)) (\<lambda>sh.
             Some (sh, it\<lparr>it_offset := it_offset it + 40, it_remaining := it_remaining it - 1\<rparr>)))"

lemma section_iter_next_decreases:
  "section_iter_next it = Some (sh, it') \<Longrightarrow> unat (it_remaining it') < unat (it_remaining it)"
  by (auto simp: section_iter_next_def unat_minus_one unat_gt_0 bind_eq_Some_conv
           split: if_splits)

text \<open>What a \<open>for\<close> loop over the iterator sees.\<close>

function section_headers :: "section_iter \<Rightarrow> section_header list" where
  "section_headers it =
     (case section_iter_next it of None \<Rightarrow> [] | Some (sh, it') \<Rightarrow> sh # section_headers it')"
  by pat_completeness auto
termination
  by (relation "measure (\<lambda>it. unat (it_remaining it))")
     (auto dest: section_iter_next_decreases)

declare section_headers.simps [simp del]

section \<open>Properties of the parser\<close>

lemma no_panic_reads:
  "off + 2 < 2 ^ 64 \<Longrightarrow> no_panic (read_u16 b off)"
  "off + 4 < 2 ^ 64 \<Longrightarrow> no_panic (read_u32 b off)"
  "off + 8 < 2 ^ 64 \<Longrightarrow> no_panic (read_u64 b off)"
  unfolding read_u16_def read_u32_def read_u64_def by (intro no_panic_intros no_panic_usize_add; assumption)+

text \<open>When a read succeeds: no overflow, in bounds, and the little-endian value.\<close>

lemma read_Ok:
  "read_u16 b off = Ok v \<longleftrightarrow>
     off + 2 < 2 ^ 64 \<and> off + 2 \<le> length b \<and> v = u16_from_le (take 2 (drop off b))"
  "read_u32 b off = Ok w \<longleftrightarrow>
     off + 4 < 2 ^ 64 \<and> off + 4 \<le> length b \<and> w = u32_from_le (take 4 (drop off b))"
  "read_u64 b off = Ok x \<longleftrightarrow>
     off + 8 < 2 ^ 64 \<and> off + 8 \<le> length b \<and> x = u64_from_le (take 8 (drop off b))"
  by (auto simp: read_u16_def read_u32_def read_u64_def outcome_simps slice_simps)

lemma no_panic_read_directories:
  "off + i * 8 + n * 8 < 2 ^ 64 \<Longrightarrow> no_panic (read_directories b off i n)"
proof (induction n arbitrary: i)
  case (Suc n)
  have "no_panic (read_directory b (off + i * 8))"
    unfolding read_directory_def using Suc.prems by (intro no_panic_intros no_panic_reads) simp_all
  moreover have "no_panic (read_directories b off (Suc i) n)"
    using Suc.prems by (intro Suc.IH) simp
  ultimately show ?case by (simp add: no_panic_obind)
qed simp

lemma length_read_directories: "read_directories b off i n = Ok ds \<Longrightarrow> length ds = n"
  by (induction n arbitrary: i ds) (auto simp: outcome_simps)

lemma no_panic_parse_optional:
  "off + 240 < 2 ^ 64 \<Longrightarrow> no_panic (parse_optional b off kind)"
  by (cases kind)
     (auto simp: parse_optional_def read_image_base_def outcome_simps
           intro!: no_panic_intros no_panic_reads no_panic_read_directories)

lemma parse_optional_directories:
  "parse_optional b off kind = Ok oh \<Longrightarrow> length (opt_data_directories oh) = 16"
  by (cases kind) (auto simp: parse_optional_def outcome_simps dest!: length_read_directories)

lemma parse_Ok_facts:
  assumes "PeFile_parse bytes = Ok pe"
  shows "pe_bytes pe = bytes"
    and "sections_offset pe + 40 * unat (number_of_sections (coff pe)) \<le> length bytes"
    and "sections_offset pe + 40 * unat (number_of_sections (coff pe)) < 2 ^ 64"
    and "length (opt_data_directories (opt pe)) = 16"
    and "sections_offset pe = pe_header_offset pe + 24 + unat (size_of_optional_header (coff pe))"
  using assms parse_optional_directories
  by (auto simp: PeFile_parse_def outcome_simps Let_def split: if_splits)

text \<open>Every error of the header readers is \<open>Malformed\<close>.\<close>

definition malformed_only :: "'a result \<Rightarrow> bool" where
  "malformed_only m \<longleftrightarrow> (\<forall>e. m = Err e \<longrightarrow> (\<exists>w a. e = Malformed w a))"

lemma malformed_only_intros:
  "malformed_only (Ok x)"
  "malformed_only (Err (Malformed w a))"
  "malformed_only m \<Longrightarrow> (\<And>x. malformed_only (f x)) \<Longrightarrow> malformed_only (obind m f)"
  "(c \<Longrightarrow> malformed_only m) \<Longrightarrow> (\<not> c \<Longrightarrow> malformed_only m') \<Longrightarrow> malformed_only (if c then m else m')"
  "malformed_only (ok_or v (Malformed w a))"
  "malformed_only (usize_add i j)"
  by (auto simp: malformed_only_def outcome_simps usize_add_def split: if_splits)

lemma malformed_only_reads:
  "malformed_only (read_u16 b off)" "malformed_only (read_u32 b off)" "malformed_only (read_u64 b off)"
  unfolding read_u16_def read_u32_def read_u64_def by (intro malformed_only_intros)+

lemma malformed_only_directories: "malformed_only (read_directories b off i n)"
  by (induction n arbitrary: i)
     (auto simp: read_directory_def intro!: malformed_only_intros malformed_only_reads)

lemma malformed_only_optional: "malformed_only (parse_optional b off kind)"
  by (cases kind)
     (auto simp: parse_optional_def read_image_base_def
           intro!: malformed_only_intros malformed_only_reads malformed_only_directories)

lemma parse_errors_malformed: "PeFile_parse bytes = Err e \<Longrightarrow> \<exists>w a. e = Malformed w a"
proof -
  have "malformed_only (PeFile_parse bytes)"
    unfolding PeFile_parse_def read_coff_def magic_kind_def Let_def
    by (intro malformed_only_intros malformed_only_reads malformed_only_optional)
  then show "PeFile_parse bytes = Err e \<Longrightarrow> \<exists>w a. e = Malformed w a"
    by (simp add: malformed_only_def)
qed

lemma read_section_Some:
  "off + 40 \<le> length b \<Longrightarrow> off + 40 < 2 ^ 64 \<Longrightarrow> \<exists>sh. read_section b off = Some sh"
  by (auto simp: read_section_def read_u32_def get_range_def usize_add_def)

lemma section_headers_complete:
  assumes "it_offset it + 40 * unat (it_remaining it) \<le> length (it_bytes it)"
    and "it_offset it + 40 * unat (it_remaining it) < 2 ^ 64"
  shows "map Some (section_headers it) =
         map (\<lambda>i. read_section (it_bytes it) (it_offset it + 40 * i)) [0..<unat (it_remaining it)]"
  using assms
proof (induction it rule: section_headers.induct)
  case (1 it)
  show ?case
  proof (cases "it_remaining it = 0")
    case True
    then show ?thesis by (simp add: section_headers.simps section_iter_next_def)
  next
    case False
    then obtain n where n: "unat (it_remaining it) = Suc n" "unat (it_remaining it - 1) = n"
      by (metis unat_gt_0 gr0_implies_Suc unat_minus_one diff_Suc_1)
    with "1.prems" obtain sh where sh: "read_section (it_bytes it) (it_offset it) = Some sh"
      using read_section_Some [of "it_offset it" "it_bytes it"] by auto
    let ?it = "it\<lparr>it_offset := it_offset it + 40, it_remaining := it_remaining it - 1\<rparr>"
    from False sh have nx: "section_iter_next it = Some (sh, ?it)"
      by (simp add: section_iter_next_def)
    have "map Some (section_headers ?it) =
          map (\<lambda>i. read_section (it_bytes it) (it_offset it + 40 * Suc i)) [0..<n]"
      using "1.IH" [OF nx refl] "1.prems" n by (simp add: add.assoc)
    with nx sh n show ?thesis
      by (simp add: section_headers.simps [of it] upt_conv_Cons map_Suc_upt [symmetric] o_def
               del: upt_Suc)
  qed
qed

section \<open>Round trip with a reference encoder\<close>

text \<open>
  The PE format as a serialiser: where each header field sits in the file. The encoder is a
  specification (the repository only reads PE files); the round trip says that the parser finds
  every field of every image laid out this way, for both optional-header kinds.
\<close>

definition encode_coff :: "coff_header \<Rightarrow> bytes" where
  "encode_coff c =
     u16_to_le (machine c) @ u16_to_le (number_of_sections c) @ u32_to_le (time_date_stamp c) @
     u32_to_le (pointer_to_symbol_table c) @ u32_to_le (number_of_symbols c) @
     u16_to_le (size_of_optional_header c) @ u16_to_le (coff_characteristics c)"

definition encode_directory :: "data_directory \<Rightarrow> bytes" where
  "encode_directory d = u32_to_le (virtual_address d) @ u32_to_le (dir_size d)"

definition encode_directories :: "data_directory list \<Rightarrow> bytes" where
  "encode_directories ds = concat (map encode_directory ds)"

definition encode_base :: "optional_header \<Rightarrow> bytes" where
  "encode_base oh =
     (case opt_kind oh of
        Pe32 \<Rightarrow> u16_to_le OPT_MAGIC_PE32 @ replicate 14 0 @ u32_to_le (address_of_entry_point oh) @
                replicate 8 0 @ u32_to_le (ucast (image_base oh))
      | Pe32Plus \<Rightarrow> u16_to_le OPT_MAGIC_PE32PLUS @ replicate 14 0 @
                u32_to_le (address_of_entry_point oh) @ replicate 4 0 @ u64_to_le (image_base oh))"

definition encode_opt :: "optional_header \<Rightarrow> bytes" where
  "encode_opt oh =
     encode_base oh @ u32_to_le (section_alignment oh) @ u32_to_le (file_alignment oh) @
     replicate 16 0 @ u32_to_le (opt_size_of_image oh) @ u32_to_le (opt_size_of_headers oh) @
     replicate 4 0 @ u16_to_le (opt_subsystem oh) @
     replicate (case opt_kind oh of Pe32 \<Rightarrow> 22 | Pe32Plus \<Rightarrow> 38) 0 @
     u32_to_le (number_of_rva_and_sizes oh) @ encode_directories (opt_data_directories oh)"

definition encode_section :: "section_header \<Rightarrow> bytes" where
  "encode_section sh =
     sh_name sh @ u32_to_le (virtual_size sh) @ u32_to_le (sh_virtual_address sh) @
     u32_to_le (size_of_raw_data sh) @ u32_to_le (pointer_to_raw_data sh) @ replicate 12 0 @
     u32_to_le (sh_characteristics sh)"

definition encode_sections :: "section_header list \<Rightarrow> bytes" where
  "encode_sections shs = concat (map encode_section shs)"

definition encode_dos :: "bytes \<Rightarrow> bytes" where
  "encode_dos pad =
     u16_to_le DOS_SIG @ replicate 58 0 @ u32_to_le (of_nat (64 + length pad)) @ pad"

definition encode_pe ::
  "bytes \<Rightarrow> coff_header \<Rightarrow> optional_header \<Rightarrow> section_header list \<Rightarrow> bytes \<Rightarrow> bytes" where
  "encode_pe pad c oh shs tail =
     encode_dos pad @ u32_to_le PE_SIG @ encode_coff c @ encode_opt oh @ encode_sections shs @ tail"

definition encodable :: "bytes \<Rightarrow> coff_header \<Rightarrow> optional_header \<Rightarrow> section_header list \<Rightarrow> bool" where
  "encodable pad c oh shs \<longleftrightarrow>
     64 + length pad < 2 ^ 32 \<and>
     unat (size_of_optional_header c) = (case opt_kind oh of Pe32 \<Rightarrow> 224 | Pe32Plus \<Rightarrow> 240) \<and>
     unat (number_of_sections c) = length shs \<and>
     (opt_kind oh = Pe32 \<longrightarrow> image_base oh < 2 ^ 32) \<and>
     number_of_rva_and_sizes oh = 16 \<and> length (opt_data_directories oh) = 16 \<and>
     list_all (\<lambda>sh. length (sh_name sh) = 8) shs"

lemma length_encoders [simp]:
  "length (encode_coff c) = 20"
  "length (encode_directory d) = 8"
  "length (encode_directories ds) = 8 * length ds"
  "length (encode_base oh) = 32"
  "length (encode_dos pad) = 64 + length pad"
proof -
  show "length (encode_base oh) = 32" by (cases "opt_kind oh") (simp_all add: encode_base_def)
  show "length (encode_directories ds) = 8 * length ds"
    by (induction ds) (simp_all add: encode_directories_def encode_directory_def)
qed (simp_all add: encode_coff_def encode_directory_def encode_dos_def)

lemma length_encode_opt:
  "length (encode_opt oh) =
     (case opt_kind oh of Pe32 \<Rightarrow> 96 | Pe32Plus \<Rightarrow> 112) + 8 * length (opt_data_directories oh)"
  by (cases "opt_kind oh") (simp_all add: encode_opt_def)

lemma length_encode_sections:
  "list_all (\<lambda>sh. length (sh_name sh) = 8) shs \<Longrightarrow> length (encode_sections shs) = 40 * length shs"
  by (induction shs) (simp_all add: encode_sections_def encode_section_def)

text \<open>Reads inside a concatenation, by the position of the part they fall in.\<close>

lemma read_append2:
  "length xs \<le> off \<Longrightarrow> off + 2 < 2 ^ 64 \<Longrightarrow> read_u16 (xs @ ys) off = (case read_u16 ys (off - length xs) of
     Ok v \<Rightarrow> Ok v | _ \<Rightarrow> Err (Malformed ''u16 read'' off))"
  "length xs \<le> off \<Longrightarrow> off + 4 < 2 ^ 64 \<Longrightarrow> read_u32 (xs @ ys) off = (case read_u32 ys (off - length xs) of
     Ok v \<Rightarrow> Ok v | _ \<Rightarrow> Err (Malformed ''u32 read'' off))"
  "length xs \<le> off \<Longrightarrow> off + 8 < 2 ^ 64 \<Longrightarrow> read_u64 (xs @ ys) off = (case read_u64 ys (off - length xs) of
     Ok v \<Rightarrow> Ok v | _ \<Rightarrow> Err (Malformed ''u64 read'' off))"
  by (auto simp: read_u16_def read_u32_def read_u64_def get_range_def usize_add_def)

lemma read_here:
  "read_u16 (u16_to_le a @ ys) 0 = Ok a"
  "read_u32 (u32_to_le b @ ys) 0 = Ok b"
  "read_u64 (u64_to_le c @ ys) 0 = Ok c"
  by (simp_all add: read_u16_def read_u32_def read_u64_def get_range_def usize_add_def)

lemma read_here_end:
  "read_u16 (u16_to_le a) 0 = Ok a"
  "read_u32 (u32_to_le b) 0 = Ok b"
  "read_u64 (u64_to_le c) 0 = Ok c"
  using read_here [where ys = "[]"] by simp_all

lemmas read_simps = read_append2 read_here read_here_end

lemma read_coff_encode:
  "length pre = off \<Longrightarrow> off + 20 < 2 ^ 64 \<Longrightarrow> read_coff (pre @ encode_coff c @ rest) off = Ok c"
  by (simp add: read_coff_def encode_coff_def read_simps)

lemma read_directories_encode:
  "length pre = off + 8 * i \<Longrightarrow> length pre + 8 * length ds < 2 ^ 64 \<Longrightarrow>
   read_directories (pre @ encode_directories ds @ rest) off i (length ds) = Ok ds"
proof (induction ds arbitrary: pre i)
  case (Cons d ds)
  have "read_directory (pre @ encode_directory d @ encode_directories ds @ rest) (off + i * 8) = Ok d"
    using Cons.prems by (simp add: read_directory_def encode_directory_def read_simps)
  moreover have "read_directories ((pre @ encode_directory d) @ encode_directories ds @ rest) off
                   (Suc i) (length ds) = Ok ds"
    using Cons.prems by (intro Cons.IH) simp_all
  ultimately show ?case by (simp add: encode_directories_def)
qed simp

lemma ucast_small_base: "(ib :: u64) < 2 ^ 32 \<Longrightarrow> ucast (ucast ib :: u32) = ib"
  by (rule word_unat_eq_iff [THEN iffD2])
     (simp add: unsigned_ucast_eq unat_eq_nat_uint [symmetric] word_less_nat_alt take_bit_nat_eq_self
               unsigned_take_bit_eq)

lemma parse_optional_encode:
  assumes "length pre = off" "off + 240 < 2 ^ 64" "number_of_rva_and_sizes oh = 16"
    and "length (opt_data_directories oh) = 16"
    and "opt_kind oh = Pe32 \<Longrightarrow> image_base oh < 2 ^ 32"
  shows "parse_optional (pre @ encode_opt oh @ rest) off (opt_kind oh) = Ok oh"
proof -
  let ?k = "case opt_kind oh of Pe32 \<Rightarrow> 96 | Pe32Plus \<Rightarrow> 112"
  obtain mid where mid: "encode_opt oh = mid @ encode_directories (opt_data_directories oh)"
    and len: "length mid = ?k"
    by (cases "opt_kind oh") (auto simp: encode_opt_def)
  have dirs: "read_directories (pre @ encode_opt oh @ rest) (off + ?k) 0 16
              = Ok (opt_data_directories oh)"
    using read_directories_encode [of "pre @ mid" "off + ?k" 0 "opt_data_directories oh" rest] assms(2)
    by (cases "opt_kind oh") (simp_all add: mid len assms)
  show ?thesis
  proof (cases "opt_kind oh")
    case Pe32
    with assms dirs show ?thesis
      by (cases oh) (simp add: add.commute [of 96] parse_optional_def read_image_base_def encode_opt_def encode_base_def read_simps
                    ucast_small_base)
  next
    case Pe32Plus
    with assms dirs show ?thesis
      by (cases oh) (simp add: add.commute [of 112] parse_optional_def read_image_base_def encode_opt_def encode_base_def read_simps)
  qed
qed

lemma read_section_encode:
  "length pre = off \<Longrightarrow> off + 40 < 2 ^ 64 \<Longrightarrow> length (sh_name sh) = 8 \<Longrightarrow>
   read_section (pre @ encode_section sh @ rest) off = Some sh"
  by (simp add: read_section_def encode_section_def read_simps get_range_def)

lemma read_sections_encode:
  "length pre = off \<Longrightarrow> off + 40 * length shs < 2 ^ 64 \<Longrightarrow>
   list_all (\<lambda>sh. length (sh_name sh) = 8) shs \<Longrightarrow> i < length shs \<Longrightarrow>
   read_section (pre @ encode_sections shs @ rest) (off + 40 * i) = Some (shs ! i)"
proof (induction shs arbitrary: pre off i)
  case (Cons sh shs)
  have split: "encode_sections (sh # shs) = encode_section sh @ encode_sections shs"
    by (simp add: encode_sections_def)
  show ?case
  proof (cases i)
    case 0
    with Cons.prems show ?thesis by (simp add: split read_section_encode)
  next
    case (Suc j)
    have "read_section ((pre @ encode_section sh) @ encode_sections shs @ rest) ((off + 40) + 40 * j)
          = Some (shs ! j)"
      using Cons.prems Suc by (intro Cons.IH) (simp_all add: encode_section_def)
    with Suc show ?thesis by (simp add: split add.assoc)
  qed
qed simp

lemma parse_encode:
  assumes "encodable pad c oh shs"
  shows "PeFile_parse (encode_pe pad c oh shs tail) =
    Ok \<lparr>pe_bytes = encode_pe pad c oh shs tail, pe_header_offset = 64 + length pad, coff = c,
        opt = oh, sections_offset = 88 + length pad + unat (size_of_optional_header c)\<rparr>"
proof -
  let ?b = "encode_pe pad c oh shs tail"
  let ?l = "64 + length pad"
  have lf: "unat (of_nat ?l :: u32) = ?l"
    using assms by (simp only: encodable_def unat_of_nat) simp
  have small: "64 + length pad < 4294967296"
    using assms by (simp add: encodable_def)
  have dos: "read_u16 ?b 0 = Ok DOS_SIG" "read_u32 ?b 0x3C = Ok (of_nat ?l)"
    by (simp_all add: encode_pe_def encode_dos_def read_simps)
  have sig: "read_u32 ?b ?l = Ok PE_SIG"
    using small by (simp add: encode_pe_def read_simps)
  have cf: "read_coff ?b (?l + 4) = Ok c"
    using read_coff_encode [of "encode_dos pad @ u32_to_le PE_SIG" "?l + 4" c] small
    by (simp add: encode_pe_def)
  have op: "parse_optional ?b (?l + 24) (opt_kind oh) = Ok oh"
    using parse_optional_encode [of "encode_dos pad @ u32_to_le PE_SIG @ encode_coff c" "?l + 24" oh] assms small
    by (auto simp: encode_pe_def encodable_def)
  have mg: "obind (read_u16 ?b (?l + 24)) (\<lambda>m. magic_kind m (?l + 24)) = Ok (opt_kind oh)"
    using small by (cases "opt_kind oh")
       (simp_all add: encode_pe_def encode_opt_def encode_base_def read_simps magic_kind_def
                      OPT_MAGIC_PE32_def OPT_MAGIC_PE32PLUS_def)
  then obtain m where m: "read_u16 ?b (?l + 24) = Ok m" "magic_kind m (?l + 24) = Ok (opt_kind oh)"
    by (auto simp: outcome_simps)
  have len: "?l + 24 + unat (size_of_optional_header c) + 40 * unat (number_of_sections c) \<le> length ?b"
    using assms length_encode_sections [of shs]
    by (cases "opt_kind oh") (simp_all add: encode_pe_def length_encode_opt encodable_def)
  have "?l + 24 + unat (size_of_optional_header c) + 40 * unat (number_of_sections c) < 2 ^ 64"
    using small unat_u16_less [of "size_of_optional_header c"] unat_u16_less [of "number_of_sections c"]
    by simp
  then show ?thesis
    using dos sig cf m op len lf
    by (simp add: PeFile_parse_def Let_def usize_add_def add.assoc not_less [symmetric] del: of_nat_add)
qed

text \<open>
  C6: the header parser inverts the PE layout. For every image laid out as the format says (either
  optional-header kind, any DOS stub, any section list, anything after the headers) parsing succeeds
  and returns exactly the COFF header, the optional header with its sixteen directories and, through
  the section iterator, exactly the section headers that were written.
\<close>

theorem parse_encode_roundtrip:
  assumes "encodable pad c oh shs"
  shows "\<exists>pe. PeFile_parse (encode_pe pad c oh shs tail) = Ok pe \<and> coff pe = c \<and> opt pe = oh \<and>
              section_headers (sections pe) = shs"
proof -
  let ?b = "encode_pe pad c oh shs tail"
  obtain pe where pe: "PeFile_parse ?b = Ok pe" "coff pe = c" "opt pe = oh"
      "sections_offset pe = 88 + length pad + unat (size_of_optional_header c)"
    using parse_encode [OF assms, of tail] by simp
  let ?pre = "encode_dos pad @ u32_to_le PE_SIG @ encode_coff c @ encode_opt oh"
  have "length ?pre = sections_offset pe"
    using assms pe(4) by (cases "opt_kind oh") (simp_all add: encodable_def length_encode_opt)
  moreover have "list_all (\<lambda>sh. length (sh_name sh) = 8) shs"
    using assms by (simp add: encodable_def)
  moreover have n: "unat (number_of_sections (coff pe)) = length shs"
    using assms pe(2) by (simp add: encodable_def)
  ultimately have rd: "read_section ?b (sections_offset pe + 40 * i) = Some (shs ! i)"
      if "i < length shs" for i
    using read_sections_encode [of ?pre _ shs i tail] that parse_Ok_facts(3) [OF pe(1)] n
    by (simp add: encode_pe_def)
  have "map Some (section_headers (sections pe)) =
        map (\<lambda>i. read_section ?b (sections_offset pe + 40 * i)) [0..<length shs]"
    using section_headers_complete [of "sections pe"] parse_Ok_facts [OF pe(1)] n
    by (simp add: sections_def)
  also have "\<dots> = map Some (map ((!) shs) [0..<length shs])"
    by (auto simp: rd)
  also have "\<dots> = map Some shs" by (simp only: map_nth)
  finally have "section_headers (sections pe) = shs"
    by (simp only: inj_map_eq_map [OF inj_Some])
  with pe show ?thesis by blast
qed

text \<open>A PE32+ image with one section, as the repository's tests build it.\<close>

definition example_coff :: coff_header where
  "example_coff = \<lparr>machine = 0x8664, number_of_sections = 1, time_date_stamp = 0,
     pointer_to_symbol_table = 0, number_of_symbols = 0, size_of_optional_header = 240,
     coff_characteristics = 0x22\<rparr>"

definition example_opt :: optional_header where
  "example_opt = \<lparr>opt_kind = Pe32Plus, address_of_entry_point = 0x1000, image_base = 0x140000000,
     section_alignment = 0x1000, file_alignment = 0x200, opt_size_of_image = 0x2000,
     opt_size_of_headers = 0x400, opt_subsystem = 3, number_of_rva_and_sizes = 16,
     opt_data_directories = replicate 16 default_directory\<rparr>"

definition example_section :: section_header where
  "example_section = \<lparr>sh_name = [0x2E, 0x74, 0x65, 0x78, 0x74, 0, 0, 0], virtual_size = 0x100,
     sh_virtual_address = 0x1000, size_of_raw_data = 0x200, pointer_to_raw_data = 0x200,
     sh_characteristics = 0x60000020\<rparr>"

theorem parse_encode_roundtrip_witness:
  "encodable [] example_coff example_opt [example_section] \<and>
   (\<exists>pe. PeFile_parse (encode_pe [] example_coff example_opt [example_section] []) = Ok pe \<and>
         coff pe = example_coff \<and> opt pe = example_opt \<and>
         section_headers (sections pe) = [example_section])"
proof -
  have h: "encodable [] example_coff example_opt [example_section]"
    by (simp add: encodable_def example_coff_def example_opt_def example_section_def)
  show ?thesis using h parse_encode_roundtrip [OF h, of "[]"] by blast
qed

section \<open>Where the format puts the headers\<close>

text \<open>
  The positions of the PE format, over the bytes alone: the header offset at 0x3C, the section count
  and the optional header's size in the COFF header, and the size of the optional header in front of
  its directories by magic. \<open>section_record\<close> is the 40-byte record of the section table; its twelve
  bytes for COFF relocations and line numbers, which the parser skips, are \<open>res\<close>.
\<close>

definition le_field :: "bytes \<Rightarrow> nat \<Rightarrow> nat \<Rightarrow> nat" where
  "le_field b off n = from_le (take n (drop off b))"

definition pe_lfanew :: "bytes \<Rightarrow> nat" where
  "pe_lfanew b = le_field b 0x3C 4"

definition pe_section_count :: "bytes \<Rightarrow> nat" where
  "pe_section_count b = le_field b (pe_lfanew b + 6) 2"

definition pe_section_table :: "bytes \<Rightarrow> nat" where
  "pe_section_table b = pe_lfanew b + 24 + le_field b (pe_lfanew b + 20) 2"

definition optional_base :: "bytes \<Rightarrow> nat option" where
  "optional_base magic = (if magic = [0x0B, 0x01] then Some 96 else if magic = [0x0B, 0x02] then Some 112 else None)"

definition optional_fits :: "bytes \<Rightarrow> nat \<Rightarrow> bool" where
  "optional_fits b off =
     (case optional_base (take 2 (drop off b)) of None \<Rightarrow> False
      | Some base \<Rightarrow> off + base + 8 * min (le_field b (off + base - 4) 4) 16 \<le> length b)"

definition pe_headers_ok :: "bytes \<Rightarrow> bool" where
  "pe_headers_ok b \<longleftrightarrow>
     64 \<le> length b \<and> take 2 b = [0x4D, 0x5A] \<and>
     pe_lfanew b + 26 \<le> length b \<and> take 4 (drop (pe_lfanew b) b) = [0x50, 0x45, 0, 0] \<and>
     optional_fits b (pe_lfanew b + 24) \<and>
     pe_section_table b + 40 * pe_section_count b \<le> length b"

definition section_record :: "section_header \<Rightarrow> bytes \<Rightarrow> bytes" where
  "section_record sh res =
     sh_name sh @ u32_to_le (virtual_size sh) @ u32_to_le (sh_virtual_address sh) @
     u32_to_le (size_of_raw_data sh) @ u32_to_le (pointer_to_raw_data sh) @ res @
     u32_to_le (sh_characteristics sh)"

lemma ok_eq_Some: "ok m = Some x \<longleftrightarrow> m = Ok x"
  by (cases m) auto

lemma from_le_eq_bytes:
  "length bs = 2 \<Longrightarrow> u16_from_le bs = w \<longleftrightarrow> bs = u16_to_le w"
  "length bs = 4 \<Longrightarrow> u32_from_le bs = v \<longleftrightarrow> bs = u32_to_le v"
  using le_bytes_roundtrip [of bs] by auto

lemma signature_bytes:
  "u16_to_le DOS_SIG = [0x4D, 0x5A]" "u32_to_le PE_SIG = [0x50, 0x45, 0, 0]"
  "u16_to_le OPT_MAGIC_PE32 = [0x0B, 0x01]" "u16_to_le OPT_MAGIC_PE32PLUS = [0x0B, 0x02]"
  by (simp_all add: u16_to_le_def u32_to_le_def DOS_SIG_def PE_SIG_def OPT_MAGIC_PE32_def
                    OPT_MAGIC_PE32PLUS_def eval_simps)

lemma read_section_record:
  assumes "read_section b off = Some sh"
  shows "\<exists>res. length (sh_name sh) = 8 \<and> length res = 12 \<and> take 40 (drop off b) = section_record sh res"
proof -
  have len: "off + 40 \<le> length b"
    using assms by (auto simp: read_section_def bind_eq_Some_conv ok_eq_Some read_Ok slice_simps)
  have split: "take 40 (drop off b) =
      take 8 (drop off b) @ take 4 (drop (off + 8) b) @ take 4 (drop (off + 12) b) @
      take 4 (drop (off + 16) b) @ take 4 (drop (off + 20) b) @ take 12 (drop (off + 24) b) @
      take 4 (drop (off + 36) b)"
    using take_add [of 8 32 "drop off b"] take_add [of 4 28 "drop (off + 8) b"]
      take_add [of 4 24 "drop (off + 12) b"] take_add [of 4 20 "drop (off + 16) b"]
      take_add [of 4 16 "drop (off + 20) b"] take_add [of 12 4 "drop (off + 24) b"]
    by (simp add: ac_simps)
  have "section_record sh (take 12 (drop (off + 24) b)) = take 40 (drop off b)" "length (sh_name sh) = 8"
    using assms len
    by (auto simp: read_section_def bind_eq_Some_conv ok_eq_Some read_Ok slice_simps section_record_def
                   split le_bytes_roundtrip)
  with len show ?thesis by (intro exI [of _ "take 12 (drop (off + 24) b)"]) simp
qed

lemma read_coff_Ok:
  assumes "read_coff b off = Ok c"
  shows "off + 20 \<le> length b" "unat (number_of_sections c) = le_field b (off + 2) 2"
    "unat (size_of_optional_header c) = le_field b (off + 16) 2"
  using assms by (auto simp: read_coff_def outcome_simps read_Ok unat_u16_from_le le_field_def)

lemma parse_Ok_positions:
  assumes "PeFile_parse b = Ok pe"
  shows "pe_header_offset pe = pe_lfanew b"
    and "unat (number_of_sections (coff pe)) = pe_section_count b"
    and "sections_offset pe = pe_section_table b"
proof -
  show l: "pe_header_offset pe = pe_lfanew b"
    using assms
    by (auto simp: PeFile_parse_def outcome_simps Let_def read_Ok unat_u32_from_le pe_lfanew_def
                   le_field_def split: if_splits)
  have "read_coff b (pe_header_offset pe + 4) = Ok (coff pe)"
    using assms by (auto simp: PeFile_parse_def outcome_simps Let_def split: if_splits)
  then have "unat (number_of_sections (coff pe)) = le_field b (pe_header_offset pe + 6) 2"
    and s: "unat (size_of_optional_header (coff pe)) = le_field b (pe_header_offset pe + 20) 2"
    using read_coff_Ok(2,3) [of b "pe_header_offset pe + 4" "coff pe"]
    by (simp_all add: add.commute [of "pe_header_offset pe"])
  then show "unat (number_of_sections (coff pe)) = pe_section_count b"
    and "sections_offset pe = pe_section_table b"
    using parse_Ok_facts(5) [OF assms] by (simp_all add: l pe_section_count_def pe_section_table_def)
qed

text \<open>
  C7: an accepted file's section table is read completely and from the places the format gives. When
  parsing succeeds, a loop over \<open>sections\<close> yields exactly as many headers as the two bytes six past
  the PE signature say, although \<open>next\<close> silently ends on any short read, and the \<open>i\<close>-th 40-byte
  record of the table (which starts \<open>SizeOfOptionalHeader\<close> bytes after the COFF header and lies inside
  the file) is exactly the format's record of the \<open>i\<close>-th header: name, the five 32-bit fields in
  their places, and the twelve skipped bytes.
\<close>

theorem parse_sections_complete:
  assumes "PeFile_parse bytes = Ok pe"
  shows "length (section_headers (sections pe)) = pe_section_count bytes \<and>
         pe_section_table bytes + 40 * pe_section_count bytes \<le> length bytes \<and>
         (\<forall>i < pe_section_count bytes. \<exists>res.
            length (sh_name (section_headers (sections pe) ! i)) = 8 \<and> length res = 12 \<and>
            take 40 (drop (pe_section_table bytes + 40 * i) bytes) =
              section_record (section_headers (sections pe) ! i) res)"
proof -
  let ?n = "pe_section_count bytes" and ?t = "pe_section_table bytes"
  have eq: "map Some (section_headers (sections pe)) =
        map (\<lambda>i. read_section bytes (?t + 40 * i)) [0..<?n]"
    using section_headers_complete [of "sections pe"] parse_Ok_facts [OF assms] parse_Ok_positions [OF assms]
    by (simp add: sections_def)
  then have len: "length (section_headers (sections pe)) = ?n"
    by (metis length_map length_upt minus_nat.diff_0)
  have "read_section bytes (?t + 40 * i) = Some (section_headers (sections pe) ! i)"
    if "i < ?n" for i
    using arg_cong [OF eq, of "\<lambda>xs. xs ! i"] that len by simp
  then have "\<exists>res. length (sh_name (section_headers (sections pe) ! i)) = 8 \<and> length res = 12 \<and>
      take 40 (drop (?t + 40 * i) bytes) = section_record (section_headers (sections pe) ! i) res"
    if "i < ?n" for i
    using that by (intro read_section_record)
  with len parse_Ok_facts(2) [OF assms] show ?thesis
    unfolding parse_Ok_positions [OF assms] by blast
qed

theorem parse_sections_complete_witness:
  "\<exists>pe. PeFile_parse (encode_pe [] example_coff example_opt [example_section] []) = Ok pe \<and>
     length (section_headers (sections pe)) =
       pe_section_count (encode_pe [] example_coff example_opt [example_section] [])"
proof -
  have "encodable [] example_coff example_opt [example_section]"
    by (simp add: encodable_def example_coff_def example_opt_def example_section_def)
  then obtain pe where pe: "PeFile_parse (encode_pe [] example_coff example_opt [example_section] []) = Ok pe"
    using parse_encode [of "[]" example_coff example_opt "[example_section]" "[]"] by auto
  with parse_sections_complete [OF pe] show ?thesis by auto
qed

lemma obind_ex: "(\<exists>y. obind m f = Ok y) \<longleftrightarrow> (\<exists>x. m = Ok x \<and> (\<exists>y. f x = Ok y))"
  by (auto simp: outcome_simps)

lemma read_directories_ex:
  assumes "off + i * 8 \<le> length b" "off + i * 8 + n * 8 < 2 ^ 64"
  shows "(\<exists>ds. read_directories b off i n = Ok ds) \<longleftrightarrow> off + i * 8 + n * 8 \<le> length b"
  using assms
proof (induction n arbitrary: i)
  case (Suc n)
  have "(\<exists>ds. read_directories b off i (Suc n) = Ok ds) \<longleftrightarrow>
        off + i * 8 + 8 \<le> length b \<and> (\<exists>ds. read_directories b off (Suc i) n = Ok ds)"
    using Suc.prems by (auto simp: outcome_simps read_directory_def read_Ok)
  with Suc.IH [of "Suc i"] Suc.prems show ?case by auto
qed simp

lemma read_image_base_Ok:
  "read_image_base b off kind = Ok (ib, fo) \<longleftrightarrow>
     off + 32 < 2 ^ 64 \<and> off + 32 \<le> length b \<and> fo = off + 32 \<and>
     ib = (case kind of Pe32 \<Rightarrow> ucast (u32_from_le (take 4 (drop (off + 28) b)))
           | Pe32Plus \<Rightarrow> u64_from_le (take 8 (drop (off + 24) b)))"
  by (cases kind) (auto simp: read_image_base_def outcome_simps read_Ok)

lemma parse_optional_ex:
  assumes "off + 240 < 2 ^ 64" and base_def: "base = (case kind of Pe32 \<Rightarrow> 96 | Pe32Plus \<Rightarrow> 112)"
  shows "(\<exists>oh. parse_optional b off kind = Ok oh) \<longleftrightarrow>
         off + base + 8 * min (le_field b (off + base - 4) 4) 16 \<le> length b"
proof -
  let ?n = "min (le_field b (off + base - 4) 4) 16"
  have "(\<exists>oh. parse_optional b off kind = Ok oh) \<longleftrightarrow>
        off + base \<le> length b \<and> (\<exists>ds. read_directories b (off + base) 0 ?n = Ok ds)"
  proof (cases kind)
    case Pe32
    then have "off + base - 4 = 92 + off" "off + base = 96 + off" by (simp_all add: base_def)
    with Pe32 assms(1) show ?thesis
      by (auto simp: add.commute [of off 96] parse_optional_def read_image_base_Ok obind_ex read_Ok le_field_def unat_u32_from_le)
  next
    case Pe32Plus
    then have "off + base - 4 = 108 + off" "off + base = 112 + off" by (simp_all add: base_def)
    with Pe32Plus assms(1) show ?thesis
      by (auto simp: add.commute [of off 112] parse_optional_def read_image_base_Ok obind_ex read_Ok le_field_def unat_u32_from_le)
  qed
  also have "\<dots> \<longleftrightarrow> off + base \<le> length b \<and> off + base + 8 * ?n \<le> length b"
  proof -
    have "off + base + ?n * 8 < 2 ^ 64" using assms(1) by (cases kind) (auto simp: base_def)
    then show ?thesis
      using read_directories_ex [of "off + base" 0 b ?n] by (auto simp: mult.commute)
  qed
  finally show ?thesis by auto
qed

lemma no_panic_parse: "no_panic (PeFile_parse bytes)"
proof -
  have l: "unat (w :: u32) + 264 + 65536 + 40 * 65536 < 2 ^ 64" for w
    using unat_u32_less [of w] by simp
  have c: "no_panic (read_coff b (unat (w :: u32) + 4))" for b w
    unfolding read_coff_def using l [of w] by (intro no_panic_intros no_panic_reads) simp_all
  have s: "no_panic (usize_add (unat (w :: u32) + 24) (unat (v :: u16)))"
    "usize_add (unat w + 24) (unat v) = Ok i \<Longrightarrow> no_panic (usize_add i (40 * unat (u :: u16)))" for w u v i
    using l [of w] unat_u16_less [of u] unat_u16_less [of v]
    by (intro no_panic_usize_add; simp add: outcome_simps)+
  have o: "no_panic (parse_optional b (unat (w :: u32) + 24) k)" for b w k
    using l [of w] by (intro no_panic_parse_optional) simp
  have m: "no_panic (magic_kind x i)" for x i by (simp add: magic_kind_def)
  have r: "no_panic (read_u32 b (unat (w :: u32)))" "no_panic (read_u16 b (unat w + 24))" for b w
    using l [of w] by (intro no_panic_reads; simp)+
  have d: "no_panic (read_u16 b 0)" "no_panic (read_u32 b 60)" for b
    by (intro no_panic_reads; simp)+
  show ?thesis
    by (auto simp: PeFile_parse_def Let_def c o m d r s(1) add.assoc intro!: no_panic_intros intro: s(2))
qed

lemma magic_kind_optional:
  assumes "off + 240 < 2 ^ 64" "off + 2 \<le> length b"
  shows "(\<exists>kind. magic_kind (u16_from_le (take 2 (drop off b))) off = Ok kind \<and>
                 (\<exists>oh. parse_optional b off kind = Ok oh)) \<longleftrightarrow> optional_fits b off"
proof -
  have m: "u16_from_le (take 2 (drop off b)) = w \<longleftrightarrow> take 2 (drop off b) = u16_to_le w" for w
    using assms(2) by (intro from_le_eq_bytes) simp
  show ?thesis
    using parse_optional_ex [OF assms(1) refl, of b Pe32] parse_optional_ex [OF assms(1) refl, of b Pe32Plus]
    by (simp add: magic_kind_def m signature_bytes optional_fits_def optional_base_def)
qed

lemma parse_accepts_iff: "(\<exists>pe. PeFile_parse b = Ok pe) \<longleftrightarrow> pe_headers_ok b"
proof (cases "64 \<le> length b")
  case True
  let ?l = "pe_lfanew b"
  let ?c = "?l + 24"
  have lf: "unat (u32_from_le (take 4 (drop 60 b))) = ?l"
    using True by (simp add: unat_u32_from_le pe_lfanew_def le_field_def)
  have "?l < 2 ^ 32"
    using from_le_bound [of "take 4 (drop 60 b)"] True by (simp add: pe_lfanew_def le_field_def)
  then have l: "?c + 240 < 2 ^ 64" by simp
  have dos: "read_u16 b 0 = Ok (u16_from_le (take 2 b))"
    "read_u32 b 60 = Ok (u32_from_le (take 4 (drop 60 b)))"
    "u16_from_le (take 2 b) = DOS_SIG \<longleftrightarrow> take 2 b = [0x4D, 0x5A]"
    using True by (simp_all add: read_Ok from_le_eq_bytes signature_bytes)
  have pe: "u32_from_le (take 4 (drop ?l b)) = PE_SIG \<longleftrightarrow> take 4 (drop ?l b) = [0x50, 0x45, 0, 0]"
    if "?l + 4 \<le> length b" using that by (simp add: from_le_eq_bytes signature_bytes)
  have tb: "?l + unat (size_of_optional_header c) < 2 ^ 64 - 24"
    "?l + (unat (size_of_optional_header c) + 40 * unat (number_of_sections c)) < 2 ^ 64 - 24" for c
    using \<open>?l < 2 ^ 32\<close> unat_u16_less [of "size_of_optional_header c"] unat_u16_less [of "number_of_sections c"]
    by simp_all
  have "(\<exists>pe. PeFile_parse b = Ok pe) \<longleftrightarrow>
        take 2 b = [0x4D, 0x5A] \<and> ?l + 4 \<le> length b \<and> take 4 (drop ?l b) = [0x50, 0x45, 0, 0] \<and>
        (\<exists>c. read_coff b (?l + 4) = Ok c \<and>
          ?c + 2 \<le> length b \<and> optional_fits b ?c \<and>
          ?c + unat (size_of_optional_header c) + 40 * unat (number_of_sections c) \<le> length b)"
  proof (cases "take 2 b = [0x4D, 0x5A] \<and> ?l + 4 \<le> length b \<and> take 4 (drop ?l b) = [0x50, 0x45, 0, 0]")
    case True
    with dos pe l have "read_u32 b ?l = Ok PE_SIG" by (simp add: read_Ok)
    with True dos lf show ?thesis
      using tb l magic_kind_optional [OF l, of b]
      by (auto simp: PeFile_parse_def Let_def obind_ex usize_add_Ok read_Ok add.commute [of ?l 24])
  next
    case False
    with dos lf pe show ?thesis by (auto simp: PeFile_parse_def Let_def obind_ex read_Ok)
  qed
  also have "\<dots> \<longleftrightarrow> pe_headers_ok b"
  proof -
    have ex: "\<exists>c. read_coff b (?l + 4) = Ok c" if "?l + 26 \<le> length b"
      using that l by (simp add: read_coff_def obind_ex read_Ok)
    have tbl: "?c + unat (size_of_optional_header c) = pe_section_table b"
      "unat (number_of_sections c) = pe_section_count b" if "read_coff b (?l + 4) = Ok c" for c
      using read_coff_Ok(2,3) [OF that]
      by (simp_all add: pe_section_table_def pe_section_count_def add.commute [of ?l])
    show ?thesis
      using True ex by (auto simp: pe_headers_ok_def tbl)
  qed
  finally show ?thesis .
next
  case False
  then show ?thesis by (auto simp: PeFile_parse_def outcome_simps read_Ok pe_headers_ok_def split: if_splits)
qed

text \<open>
  C11: the parser fails loudly and never panics. With the \<open>usize\<close> additions panicking on overflow,
  every byte string either is accepted or gives a \<open>Malformed\<close> error, and it is accepted exactly
  when the format's conditions hold of its bytes: the two signatures in place, the optional header
  known by its magic and inside the file with all the directories it announces, and the whole section
  table inside the file.
\<close>

theorem parse_total_no_panic:
  "if pe_headers_ok bytes then \<exists>pe. PeFile_parse bytes = Ok pe
   else \<exists>w a. PeFile_parse bytes = Err (Malformed w a)"
proof -
  have "no_panic (PeFile_parse bytes)" by (rule no_panic_parse)
  moreover have "\<exists>w a. e = Malformed w a" if "PeFile_parse bytes = Err e" for e
    using that parse_errors_malformed by blast
  ultimately show ?thesis
    using parse_accepts_iff [of bytes] by (cases "PeFile_parse bytes") auto
qed

end
