(* ===== verification/Mem.thy ===== *)
theory Mem
  imports Quantum_Core
begin

text \<open>
  \<open>quantum-runtime/src/mem.rs\<close> and the constants of \<open>sys.rs\<close>: guest memory regions and the
  \<open>MemoryManager\<close> trait. The Darwin system calls are not part of the repository, so they are a
  parameter: a \<open>host\<close> record of functions over an arbitrary kernel state \<open>'k\<close>, which every call
  receives and returns. A region owns its bytes; a fresh region has the bytes the kernel mapped.
  The trait is the record \<open>memory_manager\<close>; \<open>mach_vm_manager\<close> is its implementation, and the
  locale \<open>memory_manager_laws\<close> is what the loader relies on.
\<close>

section \<open>Protection bits\<close>

datatype protection = Protection (bits: u8)

definition PROT_NONE :: protection where "PROT_NONE = Protection 0"
definition PROT_R :: protection where "PROT_R = Protection 1"
definition PROT_RW :: protection where "PROT_RW = Protection 3"
definition PROT_RX :: protection where "PROT_RX = Protection 5"
definition PROT_RWX :: protection where "PROT_RWX = Protection 7"

definition readable :: "protection \<Rightarrow> bool" where
  "readable p \<longleftrightarrow> bits p AND 1 \<noteq> 0"

definition writable :: "protection \<Rightarrow> bool" where
  "writable p \<longleftrightarrow> bits p AND 2 \<noteq> 0"

definition executable :: "protection \<Rightarrow> bool" where
  "executable p \<longleftrightarrow> bits p AND 4 \<noteq> 0"

definition KERN_SUCCESS :: int where "KERN_SUCCESS = 0"
definition VM_PROT_READ :: int where "VM_PROT_READ = 1"
definition VM_PROT_WRITE :: int where "VM_PROT_WRITE = 2"
definition VM_PROT_EXECUTE :: int where "VM_PROT_EXECUTE = 4"
definition VM_FLAGS_FIXED :: int where "VM_FLAGS_FIXED = 0"
definition VM_FLAGS_ANYWHERE :: int where "VM_FLAGS_ANYWHERE = 1"
definition MAP_FAILED :: u64 where "MAP_FAILED = - 1"

definition host_vm_prot :: "protection \<Rightarrow> int" where
  "host_vm_prot p =
     (let v0 = 0;
          v1 = (if readable p then v0 OR VM_PROT_READ else v0);
          v2 = (if writable p then v1 OR VM_PROT_WRITE else v1)
      in if executable p then v2 OR VM_PROT_EXECUTE else v2)"

section \<open>Regions and the trait\<close>

record region =
  r_base :: u64
  r_mem :: bytes
  r_is_jit :: bool

abbreviation r_len :: "region \<Rightarrow> nat" where
  "r_len r \<equiv> length (r_mem r)"

definition from_raw :: "u64 \<Rightarrow> nat \<Rightarrow> (nat \<Rightarrow> u8) \<Rightarrow> bool \<Rightarrow> region" where
  "from_raw base len contents is_jit =
     \<lparr>r_base = base, r_mem = map contents [0..<len], r_is_jit = is_jit\<rparr>"

record 'k host =
  h_vm_allocate :: "'k \<Rightarrow> u64 \<Rightarrow> nat \<Rightarrow> int \<Rightarrow> int \<times> u64 \<times> (nat \<Rightarrow> u8) \<times> 'k"
  h_vm_deallocate :: "'k \<Rightarrow> u64 \<Rightarrow> nat \<Rightarrow> 'k"
  h_vm_protect :: "'k \<Rightarrow> u64 \<Rightarrow> nat \<Rightarrow> int \<Rightarrow> int \<times> 'k"
  h_mmap_jit :: "'k \<Rightarrow> nat \<Rightarrow> u64 \<times> (nat \<Rightarrow> u8) \<times> 'k"
  h_errno :: "'k \<Rightarrow> int"
  h_jit_write_protect :: "'k \<Rightarrow> bool \<Rightarrow> 'k"
  h_icache_invalidate :: "'k \<Rightarrow> u64 \<Rightarrow> nat \<Rightarrow> 'k"

record 'k memory_manager =
  mm_allocate :: "'k \<Rightarrow> u64 option \<Rightarrow> nat \<Rightarrow> protection \<Rightarrow> region result \<times> 'k"
  mm_allocate_jit :: "'k \<Rightarrow> nat \<Rightarrow> region result \<times> 'k"
  mm_protect :: "'k \<Rightarrow> u64 \<Rightarrow> nat \<Rightarrow> protection \<Rightarrow> unit result \<times> 'k"
  mm_flip_jit :: "'k \<Rightarrow> u64 \<Rightarrow> nat \<Rightarrow> bool \<Rightarrow> 'k"

section \<open>The Mach implementation\<close>

definition mach_allocate ::
  "'k host \<Rightarrow> 'k \<Rightarrow> u64 option \<Rightarrow> nat \<Rightarrow> protection \<Rightarrow> region result \<times> 'k" where
  "mach_allocate H k hint sz prot =
     (let addr0 = (case hint of None \<Rightarrow> 0 | Some a \<Rightarrow> a);
          flags = (if hint \<noteq> None then VM_FLAGS_FIXED else VM_FLAGS_ANYWHERE);
          (kr, addr, contents, k1) = h_vm_allocate H k addr0 sz flags
      in if kr \<noteq> KERN_SUCCESS then (Err (Host ''mach_vm_allocate'' kr), k1)
         else
           (let (kr2, k2) = (if prot \<noteq> PROT_RW
                             then h_vm_protect H k1 addr sz (host_vm_prot prot)
                             else (KERN_SUCCESS, k1))
            in if kr2 \<noteq> KERN_SUCCESS
               then (Err (Host ''mach_vm_protect'' kr2), h_vm_deallocate H k2 addr sz)
               else if addr = 0 then (Err (Host ''mach_vm_allocate(null)'' 0), k2)
               else (Ok (from_raw addr sz contents False), k2)))"

definition mach_allocate_jit :: "'k host \<Rightarrow> 'k \<Rightarrow> nat \<Rightarrow> region result \<times> 'k" where
  "mach_allocate_jit H k sz =
     (let (ptr, contents, k1) = h_mmap_jit H k sz
      in if ptr = MAP_FAILED then (Err (Host ''mmap(MAP_JIT)'' (h_errno H k1)), k1)
         else if ptr = 0 then (Err (Host ''mmap(MAP_JIT,null)'' 0), k1)
         else (Ok (from_raw ptr sz contents True), k1))"

definition mach_protect ::
  "'k host \<Rightarrow> 'k \<Rightarrow> u64 \<Rightarrow> nat \<Rightarrow> protection \<Rightarrow> unit result \<times> 'k" where
  "mach_protect H k addr sz prot =
     (let (kr, k1) = h_vm_protect H k addr sz (host_vm_prot prot)
      in if kr \<noteq> KERN_SUCCESS then (Err (Host ''mach_vm_protect'' kr), k1) else (Ok (), k1))"

definition mach_flip_jit :: "'k host \<Rightarrow> 'k \<Rightarrow> u64 \<Rightarrow> nat \<Rightarrow> bool \<Rightarrow> 'k" where
  "mach_flip_jit H k addr len write =
     (let k1 = h_jit_write_protect H k (\<not> write)
      in if \<not> write then h_icache_invalidate H k1 addr len else k1)"

definition mach_vm_manager :: "'k host \<Rightarrow> 'k memory_manager" where
  "mach_vm_manager H =
     \<lparr>mm_allocate = mach_allocate H, mm_allocate_jit = mach_allocate_jit H,
      mm_protect = mach_protect H, mm_flip_jit = mach_flip_jit H\<rparr>"

section \<open>The contract the clients rely on\<close>

locale memory_manager_laws =
  fixes M :: "'k memory_manager"
  assumes allocate_len: "mm_allocate M k hint sz prot = (Ok r, k') \<Longrightarrow> r_len r = sz"
    and allocate_nonnull: "mm_allocate M k hint sz prot = (Ok r, k') \<Longrightarrow> r_base r \<noteq> 0"
    and allocate_jit_len: "mm_allocate_jit M k sz = (Ok r, k') \<Longrightarrow> r_len r = sz \<and> r_is_jit r"
    and allocate_no_panic: "no_panic (fst (mm_allocate M k hint sz prot))"
    and protect_no_panic: "no_panic (fst (mm_protect M k addr sz prot))"

lemma length_from_raw [simp]: "r_len (from_raw base len contents j) = len"
  by (simp add: from_raw_def)

interpretation mach: memory_manager_laws "mach_vm_manager H" for H :: "'k host"
  by unfold_locales
     (auto simp: mach_vm_manager_def mach_allocate_def mach_allocate_jit_def mach_protect_def
                 from_raw_def Let_def split: prod.splits if_splits)

lemma host_vm_prot_values:
  "host_vm_prot PROT_NONE = 0" "host_vm_prot PROT_R = 1" "host_vm_prot PROT_RW = 3"
  "host_vm_prot PROT_RX = 5" "host_vm_prot PROT_RWX = 7"
  by (simp_all add: host_vm_prot_def readable_def writable_def executable_def Let_def
        PROT_NONE_def PROT_R_def PROT_RW_def PROT_RX_def PROT_RWX_def
        VM_PROT_READ_def VM_PROT_WRITE_def VM_PROT_EXECUTE_def)

end
