(* ===== verification/Image_Map.thy ===== *)
theory Image_Map
  imports Pe Mem
begin

text \<open>
  \<open>quantum-loader/src/image.rs\<close>: mapping a parsed PE file into guest memory. A \<open>loaded_image\<close>
  owns the region it was loaded into; every later stage reads and writes it by RVA through
  \<open>rva_to_slice\<close> and \<open>rva_to_slice_mut\<close>. The mutable borrow is modelled as the bytes it shows
  together with the image that results from storing other bytes there. The locale \<open>rva_memory\<close>
  is the contract of these two operations, proved for the loaded image by the interpretation
  \<open>img\<close>.
\<close>

section \<open>Data\<close>

definition MEM_EXECUTE :: u32 where "MEM_EXECUTE = 0x20000000"
definition MEM_READ :: u32 where "MEM_READ = 0x40000000"
definition MEM_WRITE :: u32 where "MEM_WRITE = 0x80000000"

record mapped_section =
  ms_name :: bytes
  ms_rva :: u32
  ms_vsize :: u32
  ms_raw_size :: u32
  ms_characteristics :: u32

definition section_protection :: "mapped_section \<Rightarrow> protection" where
  "section_protection s =
     (let c = ms_characteristics s;
          r = (c AND MEM_READ \<noteq> 0); w = (c AND MEM_WRITE \<noteq> 0); x = (c AND MEM_EXECUTE \<noteq> 0)
      in if w \<and> x then PROT_RWX
         else if w then PROT_RW
         else if x then PROT_RX
         else if r then PROT_R
         else PROT_NONE)"

definition contains_rva :: "mapped_section \<Rightarrow> u32 \<Rightarrow> bool" where
  "contains_rva s rva \<longleftrightarrow>
     ms_rva s \<le> rva \<and> rva < saturating_add (ms_rva s) (max (ms_vsize s) (ms_raw_size s))"

datatype bitness = X86 | X86_64

record loaded_image =
  img_region :: region
  preferred_base :: u64
  actual_base :: u64
  size_of_image :: u32
  size_of_headers :: u32
  entry_rva :: u32
  subsystem :: u16
  img_bitness :: bitness
  img_sections :: "mapped_section list"
  data_directories :: "data_directory list"

abbreviation img_mem :: "loaded_image \<Rightarrow> bytes" where
  "img_mem img \<equiv> r_mem (img_region img)"

definition with_mem :: "loaded_image \<Rightarrow> bytes \<Rightarrow> loaded_image" where
  "with_mem img m = img\<lparr>img_region := (img_region img)\<lparr>r_mem := m\<rparr>\<rparr>"

section \<open>Access by RVA\<close>

definition rva_to_ptr :: "loaded_image \<Rightarrow> u32 \<Rightarrow> u64 option" where
  "rva_to_ptr img rva =
     (if unat rva \<ge> r_len (img_region img) then None
      else Some (r_base (img_region img) + ucast rva))"

definition rva_to_slice :: "loaded_image \<Rightarrow> u32 \<Rightarrow> nat \<Rightarrow> bytes option" where
  "rva_to_slice img rva len =
     Option.bind (usize_checked_add (unat rva) len) (\<lambda>end.
       if end > r_len (img_region img) then None
       else Some (take len (drop (unat rva) (img_mem img))))"

definition rva_to_slice_mut ::
  "loaded_image \<Rightarrow> u32 \<Rightarrow> nat \<Rightarrow> (bytes \<times> (bytes \<Rightarrow> loaded_image)) option" where
  "rva_to_slice_mut img rva len =
     Option.bind (usize_checked_add (unat rva) len) (\<lambda>end.
       if end > r_len (img_region img) then None
       else Some (take len (drop (unat rva) (img_mem img)),
                  \<lambda>new. with_mem img (put_range (img_mem img) (unat rva) new)))"

definition section_at :: "loaded_image \<Rightarrow> u32 \<Rightarrow> mapped_section option" where
  "section_at img rva = find (\<lambda>s. contains_rva s rva) (img_sections img)"

definition data_dir :: "loaded_image \<Rightarrow> nat \<Rightarrow> data_directory option" where
  "data_dir img index =
     (if index < length (data_directories img) then
        let d = data_directories img ! index in
        if virtual_address d \<noteq> 0 \<and> dir_size d \<noteq> 0 then Some d else None
      else None)"

section \<open>Protections\<close>

definition host_page_size :: u64 where "host_page_size = 16 * 1024"

definition align_up :: "u64 \<Rightarrow> u64 \<Rightarrow> u64" where
  "align_up x align = (x + align - 1) AND NOT (align - 1)"

text \<open>One iteration: the page range of a section and the protection it gets.\<close>

definition section_pages :: "mapped_section \<Rightarrow> u64 \<times> nat" where
  "section_pages s =
     (let start_rva = ucast (ms_rva s) AND NOT (host_page_size - 1);
          end_rva = align_up (ucast (ms_rva s) + ucast (max (ms_vsize s) (ms_raw_size s)))
                             host_page_size
      in (start_rva, unat (end_rva - start_rva)))"

primrec protect_sections ::
  "'k memory_manager \<Rightarrow> 'k \<Rightarrow> u64 \<Rightarrow> mapped_section list \<Rightarrow> unit result \<times> 'k" where
  "protect_sections M k base [] = (Ok (), k)"
| "protect_sections M k base (s # ss) =
     (let (start_rva, len) = section_pages s
      in if len = 0 then protect_sections M k base ss
         else (case mm_protect M k (base + start_rva) len (section_protection s) of
                 (Ok _, k') \<Rightarrow> protect_sections M k' base ss
               | (Err e, k') \<Rightarrow> (Err e, k')
               | (Panic p, k') \<Rightarrow> (Panic p, k')))"

definition finalize_protections ::
  "'k memory_manager \<Rightarrow> 'k \<Rightarrow> loaded_image \<Rightarrow> unit result \<times> 'k" where
  "finalize_protections M k img =
     protect_sections M k (r_base (img_region img)) (img_sections img)"

section \<open>Loading\<close>

text \<open>
  The raw pointer writes of the loader. Outside the source slice or the region they are undefined
  behaviour in Rust; here they are a \<open>Panic\<close>, so that a missing range check shows.
\<close>

definition region_copy_nonoverlapping :: "bytes \<Rightarrow> nat \<Rightarrow> bytes \<Rightarrow> nat \<Rightarrow> nat \<Rightarrow> bytes result" where
  "region_copy_nonoverlapping src src_off dst dst_off n =
     (if src_off + n \<le> length src \<and> dst_off + n \<le> length dst
      then Ok (put_range dst dst_off (take n (drop src_off src)))
      else Panic ''copy_nonoverlapping out of bounds'')"

definition region_write_bytes :: "bytes \<Rightarrow> nat \<Rightarrow> u8 \<Rightarrow> nat \<Rightarrow> bytes result" where
  "region_write_bytes dst dst_off v n =
     (if dst_off + n \<le> length dst then Ok (put_range dst dst_off (replicate n v))
      else Panic ''write_bytes out of bounds'')"

text \<open>\<open>copy_section\<close> writes one section into the region's bytes.\<close>

definition copy_section :: "section_header \<Rightarrow> bytes \<Rightarrow> bytes \<Rightarrow> bytes result" where
  "copy_section sh raw mem =
     (let dst_off = unat (sh_virtual_address sh);
          vsize = unat (max (virtual_size sh) (size_of_raw_data sh))
      in if (case usize_checked_add dst_off vsize of None \<Rightarrow> True | Some e \<Rightarrow> e > length mem)
         then Err (Malformed ''section virtual range'' dst_off)
         else
           let raw_off = unat (pointer_to_raw_data sh); raw_size = unat (size_of_raw_data sh) in
           obind
             (if raw_size > 0 then
                obind (ok_or (usize_checked_add raw_off raw_size)
                             (Malformed ''section raw range'' raw_off)) (\<lambda>src_end.
                if src_end > length raw then Err (Malformed ''section raw oob'' raw_off)
                else region_copy_nonoverlapping raw raw_off mem dst_off raw_size)
              else Ok mem)
             (\<lambda>mem1.
                if vsize > raw_size
                then region_write_bytes mem1 (dst_off + raw_size) 0 (vsize - raw_size)
                else Ok mem1))"

definition mapped_of :: "section_header \<Rightarrow> mapped_section" where
  "mapped_of sh = \<lparr>ms_name = sh_name sh, ms_rva = sh_virtual_address sh,
     ms_vsize = virtual_size sh, ms_raw_size = size_of_raw_data sh,
     ms_characteristics = sh_characteristics sh\<rparr>"

primrec copy_sections ::
  "section_header list \<Rightarrow> bytes \<Rightarrow> bytes \<Rightarrow> (bytes \<times> mapped_section list) result" where
  "copy_sections [] raw mem = Ok (mem, [])"
| "copy_sections (sh # shs) raw mem =
     obind (copy_section sh raw mem) (\<lambda>mem1.
     obind (copy_sections shs raw mem1) (\<lambda>(mem2, ss). Ok (mem2, mapped_of sh # ss)))"

definition copy_headers :: "bytes \<Rightarrow> nat \<Rightarrow> bytes \<Rightarrow> bytes result" where
  "copy_headers raw headers_len mem =
     (if headers_len > length mem then Err (Malformed ''size_of_headers'' 0)
      else
        let n = min headers_len (length raw) in
        obind (region_copy_nonoverlapping raw 0 mem 0 n) (\<lambda>mem1.
        if n < headers_len then region_write_bytes mem1 n 0 (headers_len - n) else Ok mem1))"

definition fill_region :: "pe_file \<Rightarrow> region \<Rightarrow> loaded_image result" where
  "fill_region pe r =
     obind (copy_headers (pe_bytes pe) (unat (opt_size_of_headers (opt pe))) (r_mem r)) (\<lambda>mem1.
     obind (copy_sections (section_headers (sections pe)) (pe_bytes pe) mem1) (\<lambda>(mem2, ss).
     Ok \<lparr>img_region = r\<lparr>r_mem := mem2\<rparr>, preferred_base = image_base (opt pe),
         actual_base = r_base r, size_of_image = opt_size_of_image (opt pe),
         size_of_headers = opt_size_of_headers (opt pe),
         entry_rva = address_of_entry_point (opt pe), subsystem = opt_subsystem (opt pe),
         img_bitness = (case opt_kind (opt pe) of Pe32 \<Rightarrow> X86 | Pe32Plus \<Rightarrow> X86_64),
         img_sections = ss, data_directories = opt_data_directories (opt pe)\<rparr>))"

definition load :: "'k memory_manager \<Rightarrow> 'k \<Rightarrow> pe_file \<Rightarrow> loaded_image result \<times> 'k" where
  "load M k pe =
     (let size = unat (opt_size_of_image (opt pe)) in
      if size = 0 \<or> size > 2 * 1024 * 1024 * 1024 then (Err (Malformed ''size_of_image'' 0), k)
      else
        case mm_allocate M k (Some (image_base (opt pe))) size PROT_RW of
          (Ok r, k1) \<Rightarrow> (fill_region pe r, k1)
        | (Panic p, k1) \<Rightarrow> (Panic p, k1)
        | (Err _, k1) \<Rightarrow>
            (case mm_allocate M k1 None size PROT_RW of
               (Ok r, k2) \<Rightarrow> (fill_region pe r, k2)
             | (Err e, k2) \<Rightarrow> (Err e, k2)
             | (Panic p, k2) \<Rightarrow> (Panic p, k2)))"

section \<open>The RVA access contract\<close>

text \<open>
  What the relocator, the import wiring and the directory parsers rely on. \<open>patch_all\<close> is the
  shape of both writers: a list of slots (RVA and width), each replaced by a function of its old
  bytes, stopping at the first slot out of range.
\<close>

type_synonym patch = "u32 \<times> nat \<times> (bytes \<Rightarrow> bytes)"

primrec patch_all ::
  "('i \<Rightarrow> u32 \<Rightarrow> nat \<Rightarrow> (bytes \<times> (bytes \<Rightarrow> 'i)) option) \<Rightarrow> patch list \<Rightarrow> 'i \<Rightarrow> 'i option" where
  "patch_all smut [] i = Some i"
| "patch_all smut (p # ps) i =
     (case smut i (fst p) (fst (snd p)) of
        None \<Rightarrow> None
      | Some (old, wr) \<Rightarrow> patch_all smut ps (wr (snd (snd p) old)))"

lemma patch_all_append:
  "patch_all smut (ps @ qs) i = Option.bind (patch_all smut ps i) (patch_all smut qs)"
  by (induction ps arbitrary: i) (auto split: option.splits)

definition slot_disjoint :: "u32 \<Rightarrow> nat \<Rightarrow> u32 \<Rightarrow> nat \<Rightarrow> bool" where
  "slot_disjoint a n b m \<longleftrightarrow> unat a + n \<le> unat b \<or> unat b + m \<le> unat a"

definition patches_disjoint :: "patch list \<Rightarrow> bool" where
  "patches_disjoint ps = sorted_wrt (\<lambda>p q. slot_disjoint (fst p) (fst (snd p)) (fst q) (fst (snd q))) ps"

definition patch_wf :: "patch \<Rightarrow> bool" where
  "patch_wf p \<longleftrightarrow> (\<forall>old. length old = fst (snd p) \<longrightarrow> length (snd (snd p) old) = fst (snd p))"

locale rva_memory =
  fixes slice :: "'i \<Rightarrow> u32 \<Rightarrow> nat \<Rightarrow> bytes option"
    and slice_mut :: "'i \<Rightarrow> u32 \<Rightarrow> nat \<Rightarrow> (bytes \<times> (bytes \<Rightarrow> 'i)) option"
    and extent :: "'i \<Rightarrow> nat"
  assumes slice_bound: "slice i a n = Some ys \<Longrightarrow> length ys = n \<and> unat a + n \<le> extent i"
    and slice_mut_old: "slice_mut i a n = Some (old, wr) \<Longrightarrow> slice i a n = Some old"
    and slice_mut_None: "slice_mut i a n = None \<Longrightarrow> slice i a n = None"
    and read_back: "slice_mut i a n = Some (old, wr) \<Longrightarrow> length new = n \<Longrightarrow>
      slice (wr new) a n = Some new"
    and frame: "slice_mut i a n = Some (old, wr) \<Longrightarrow> length new = n \<Longrightarrow> slot_disjoint a n b m \<Longrightarrow>
      slice (wr new) b m = slice i b m"
    and extent_mut: "slice_mut i a n = Some (old, wr) \<Longrightarrow> length new = n \<Longrightarrow>
      extent (wr new) = extent i"
begin

lemma patch_all_extent:
  "patch_all slice_mut ps i = Some i' \<Longrightarrow> \<forall>p \<in> set ps. patch_wf p \<Longrightarrow> extent i' = extent i"
proof (induction ps arbitrary: i)
  case (Cons p ps)
  then obtain old wr where m: "slice_mut i (fst p) (fst (snd p)) = Some (old, wr)"
    and r: "patch_all slice_mut ps (wr (snd (snd p) old)) = Some i'"
    by (auto split: option.splits)
  have "length (snd (snd p) old) = fst (snd p)"
    using Cons.prems(2) slice_bound [OF slice_mut_old [OF m]] by (simp add: patch_wf_def)
  with Cons.IH [OF r] Cons.prems(2) extent_mut [OF m] show ?case by simp
qed simp

lemma patch_all_frame:
  "patch_all slice_mut ps i = Some i' \<Longrightarrow> \<forall>p \<in> set ps. patch_wf p \<Longrightarrow>
   \<forall>p \<in> set ps. slot_disjoint (fst p) (fst (snd p)) b m \<Longrightarrow> slice i' b m = slice i b m"
proof (induction ps arbitrary: i)
  case (Cons p ps)
  then obtain old wr where m: "slice_mut i (fst p) (fst (snd p)) = Some (old, wr)"
    and r: "patch_all slice_mut ps (wr (snd (snd p) old)) = Some i'"
    by (auto split: option.splits)
  have "length (snd (snd p) old) = fst (snd p)"
    using Cons.prems(2) slice_bound [OF slice_mut_old [OF m]] by (simp add: patch_wf_def)
  with Cons.IH [OF r] Cons.prems frame [OF m] show ?case by simp
qed simp

lemma patch_all_slot:
  assumes "patch_all slice_mut ps i = Some i'" "\<forall>p \<in> set ps. patch_wf p" "patches_disjoint ps"
    and "(a, n, f) \<in> set ps"
  shows "\<exists>old. slice i a n = Some old \<and> slice i' a n = Some (f old)"
  using assms
proof (induction ps arbitrary: i)
  case (Cons p ps)
  then obtain old wr where m: "slice_mut i (fst p) (fst (snd p)) = Some (old, wr)"
    and r: "patch_all slice_mut ps (wr (snd (snd p) old)) = Some i'"
    by (auto split: option.splits)
  have len: "length (snd (snd p) old) = fst (snd p)"
    using Cons.prems(2) slice_bound [OF slice_mut_old [OF m]] by (simp add: patch_wf_def)
  have disj: "\<forall>q \<in> set ps. slot_disjoint (fst p) (fst (snd p)) (fst q) (fst (snd q))"
    using Cons.prems(3) by (simp add: patches_disjoint_def)
  show ?case
  proof (cases "(a, n, f) \<in> set ps")
    case True
    then obtain old' where o: "slice (wr (snd (snd p) old)) a n = Some old'" "slice i' a n = Some (f old')"
      using Cons.IH [OF r] Cons.prems by (auto simp: patches_disjoint_def)
    moreover have "slice (wr (snd (snd p) old)) a n = slice i a n"
      using frame [OF m len] disj True by force
    ultimately show ?thesis by simp
  next
    case False
    with Cons.prems have p: "p = (a, n, f)" by auto
    have "slice i' a n = slice (wr (f old)) a n"
      using patch_all_frame [of ps "wr (f old)" i' a n] r Cons.prems(2) disj
      by (auto simp: p slot_disjoint_def)
    with read_back [OF m len] slice_mut_old [OF m] show ?thesis by (simp add: p)
  qed
qed simp

end

section \<open>The loaded image meets the contract\<close>

lemma img_mem_with_mem [simp]: "img_mem (with_mem img m) = m"
  by (simp add: with_mem_def)

lemma rva_to_slice_Some:
  "rva_to_slice img a n = Some ys \<longleftrightarrow>
   unat a + n < 2 ^ 64 \<and> get_range (img_mem img) (unat a) n = Some ys"
  by (auto simp: rva_to_slice_def bind_eq_Some_conv usize_checked_add_Some get_range_def
           split: if_splits)

lemma rva_to_slice_alt:
  "rva_to_slice img a n =
   (if unat a + n < 2 ^ 64 then get_range (img_mem img) (unat a) n else None)"
  by (auto simp: rva_to_slice_def usize_checked_add_def get_range_def)

lemma rva_to_slice_get_range:
  "length (img_mem img) < 2 ^ 64 \<Longrightarrow> rva_to_slice img a n = get_range (img_mem img) (unat a) n"
  by (auto simp: rva_to_slice_def usize_checked_add_def get_range_def)

lemma rva_to_slice_mut_Some:
  "rva_to_slice_mut img a n = Some (old, wr) \<longleftrightarrow>
   rva_to_slice img a n = Some old \<and> wr = (\<lambda>new. with_mem img (put_range (img_mem img) (unat a) new))"
  by (auto simp: rva_to_slice_mut_def rva_to_slice_def bind_eq_Some_conv split: if_splits)

interpretation img: rva_memory rva_to_slice rva_to_slice_mut "\<lambda>img. length (img_mem img)"
proof unfold_locales
  fix i :: loaded_image and a b :: u32 and n m :: nat and ys old new :: bytes and wr :: "bytes \<Rightarrow> loaded_image"
  show "rva_to_slice i a n = Some ys \<Longrightarrow> length ys = n \<and> unat a + n \<le> length (img_mem i)"
    by (auto simp: rva_to_slice_Some slice_simps)
  show "rva_to_slice_mut i a n = None \<Longrightarrow> rva_to_slice i a n = None"
    by (auto simp: rva_to_slice_mut_def rva_to_slice_def bind_eq_None_conv split: if_splits)
  assume m: "rva_to_slice_mut i a n = Some (old, wr)"
  then show "rva_to_slice i a n = Some old" by (simp add: rva_to_slice_mut_Some)
  assume n: "length new = n"
  have eqs: "wr new = with_mem i (put_range (img_mem i) (unat a) new)"
    "unat a + length new \<le> length (img_mem i)" "unat a + length new < 2 ^ 64"
    using m n by (auto simp: rva_to_slice_mut_Some rva_to_slice_Some slice_simps)
  show "rva_to_slice (wr new) a n = Some new"
    using eqs n get_put_same [OF eqs(2)] by (simp add: rva_to_slice_Some)
  show "length (img_mem (wr new)) = length (img_mem i)"
    using eqs by (simp add: length_put_range)
  assume "slot_disjoint a n b m"
  then have d: "unat b + m \<le> unat a \<or> unat a + length new \<le> unat b"
    using n by (auto simp: slot_disjoint_def)
  show "rva_to_slice (wr new) b m = rva_to_slice i b m"
    using get_put_disjoint [OF eqs(2) d] eqs(1) by (simp add: rva_to_slice_alt)
qed

text \<open>The most \<open>load\<close> maps, and the size below which no RVA computation of the loader wraps.\<close>

definition image_bounded :: "loaded_image \<Rightarrow> bool" where
  "image_bounded img \<longleftrightarrow> length (img_mem img) \<le> 2147483648"

lemma patch_all_bounded:
  "patch_all rva_to_slice_mut ps i = Some i' \<Longrightarrow> \<forall>p \<in> set ps. patch_wf p \<Longrightarrow>
   image_bounded i \<Longrightarrow> image_bounded i'"
  using img.patch_all_extent by (auto simp: image_bounded_def)

section \<open>What loading does to memory\<close>

definition sec_vsize :: "section_header \<Rightarrow> nat" where
  "sec_vsize sh = unat (max (virtual_size sh) (size_of_raw_data sh))"

text \<open>The bytes a section must have in memory: its raw data, then zeros.\<close>

definition section_image :: "section_header \<Rightarrow> bytes \<Rightarrow> bytes" where
  "section_image sh raw =
     take (unat (size_of_raw_data sh)) (drop (unat (pointer_to_raw_data sh)) raw) @
     replicate (sec_vsize sh - unat (size_of_raw_data sh)) 0"

definition sections_disjoint :: "section_header list \<Rightarrow> bool" where
  "sections_disjoint shs =
     sorted_wrt (\<lambda>a b. slot_disjoint (sh_virtual_address a) (sec_vsize a)
                                    (sh_virtual_address b) (sec_vsize b)) shs"

lemma raw_le_vsize: "unat (size_of_raw_data sh) \<le> sec_vsize sh"
  by (simp add: sec_vsize_def max_def word_le_nat_alt)

text \<open>Whether a section's virtual range is inside an image of \<open>n\<close> bytes and its raw data in the file.\<close>

definition section_fits :: "section_header \<Rightarrow> bytes \<Rightarrow> nat \<Rightarrow> bool" where
  "section_fits sh raw n \<longleftrightarrow>
     unat (sh_virtual_address sh) + sec_vsize sh \<le> n \<and>
     (size_of_raw_data sh = 0 \<or>
      unat (pointer_to_raw_data sh) + unat (size_of_raw_data sh) \<le> length raw)"

lemma length_section_image:
  "section_fits sh raw n \<Longrightarrow> length (section_image sh raw) = sec_vsize sh"
  using raw_le_vsize [of sh]
  by (cases "size_of_raw_data sh = 0") (auto simp: section_fits_def section_image_def)

lemma u32_sum_checked: "usize_checked_add (unat (a :: u32)) (unat (b :: u32)) = Some (unat a + unat b)"
  using unat_u32_less [of a] unat_u32_less [of b] by (simp add: usize_checked_add_def)

lemma copy_section_fits:
  assumes "section_fits sh raw (length mem)"
  shows "copy_section sh raw mem =
         Ok (put_range mem (unat (sh_virtual_address sh)) (section_image sh raw))"
proof -
  let ?va = "unat (sh_virtual_address sh)" and ?rs = "unat (size_of_raw_data sh)"
  let ?rp = "unat (pointer_to_raw_data sh)" and ?vs = "sec_vsize sh"
  let ?data = "take ?rs (drop ?rp raw)" and ?zero = "replicate (?vs - ?rs) (0 :: u8)"
  have b: "?va + ?vs \<le> length mem" and r: "?rs = 0 \<or> ?rp + ?rs \<le> length raw"
    using assms by (auto simp: section_fits_def)
  from r have len: "length ?data = ?rs" by (cases "?rs = 0") auto
  have "put_range mem ?va (?data @ ?zero) = put_range (put_range mem ?va ?data) (?va + ?rs) ?zero"
    using put_range_put_range [of ?va ?data ?zero mem] b len raw_le_vsize [of sh] by simp
  moreover have "length (put_range mem ?va ?data) = length mem"
    using b len raw_le_vsize [of sh] by (simp add: length_put_range)
  ultimately show ?thesis
    using b r raw_le_vsize [of sh] unfolding copy_section_def Let_def u32_sum_checked section_image_def
    by (auto simp: region_copy_nonoverlapping_def region_write_bytes_def sec_vsize_def not_less)
qed

lemma copy_section_misfit:
  "\<not> section_fits sh raw (length mem) \<Longrightarrow> \<exists>w a. copy_section sh raw mem = Err (Malformed w a)"
  unfolding copy_section_def Let_def u32_sum_checked
  by (auto simp: section_fits_def sec_vsize_def unat_gt_0)

lemma copy_section_Ok:
  assumes "copy_section sh raw mem = Ok mem'"
  shows "unat (sh_virtual_address sh) + sec_vsize sh \<le> length mem"
    and "length (section_image sh raw) = sec_vsize sh"
    and "mem' = put_range mem (unat (sh_virtual_address sh)) (section_image sh raw)"
proof -
  have f: "section_fits sh raw (length mem)"
    using assms copy_section_misfit by fastforce
  then show "unat (sh_virtual_address sh) + sec_vsize sh \<le> length mem"
    by (simp add: section_fits_def)
  show "length (section_image sh raw) = sec_vsize sh" using f by (rule length_section_image)
  show "mem' = put_range mem (unat (sh_virtual_address sh)) (section_image sh raw)"
    using assms copy_section_fits [OF f] by simp
qed

lemma length_copy_section: "copy_section sh raw mem = Ok mem' \<Longrightarrow> length mem' = length mem"
  using copy_section_Ok [of sh raw mem mem'] by (simp add: length_put_range)

lemma copy_sections_facts:
  assumes "copy_sections shs raw mem = Ok (mem', ss)"
  shows "length mem' = length mem" and "ss = map mapped_of shs"
    and "sh \<in> set shs \<Longrightarrow> sections_disjoint shs \<Longrightarrow>
         get_range mem' (unat (sh_virtual_address sh)) (sec_vsize sh) = Some (section_image sh raw)"
    and "\<forall>sh \<in> set shs. unat (sh_virtual_address sh) + sec_vsize sh \<le> a \<or>
                          a + n \<le> unat (sh_virtual_address sh) \<Longrightarrow>
         get_range mem' a n = get_range mem a n"
  using assms
proof (induction shs arbitrary: mem mem' ss sh a n)
  case Nil
  {
    case 1 then show ?case by simp
  next
    case 2 then show ?case by simp
  next
    case 3 then show ?case by simp
  next
    case 4 then show ?case by simp
  }
next
  case (Cons s shs)
  have ex: "\<exists>mem1 ss1. copy_section s raw mem = Ok mem1 \<and> copy_sections shs raw mem1 = Ok (mem', ss1) \<and>
             ss = mapped_of s # ss1" if "copy_sections (s # shs) raw mem = Ok (mem', ss)" for mem mem' ss
    using that by (auto simp: outcome_simps)
  {
    case 1
    from ex [OF this] show ?case
      using Cons.IH(1) length_copy_section by fastforce
  next
    case 2
    from ex [OF this] show ?case using Cons.IH(2) by auto
  next
    case 3
    then obtain mem1 ss1 where m: "copy_section s raw mem = Ok mem1" "copy_sections shs raw mem1 = Ok (mem', ss1)"
      using ex [OF 3(3)] by auto
    show ?case
    proof (cases "sh \<in> set shs")
      case True
      with 3 m show ?thesis by (intro Cons.IH(3)) (auto simp: sections_disjoint_def)
    next
      case False
      with 3 have sh: "sh = s" by simp
      have "get_range mem' (unat (sh_virtual_address s)) (sec_vsize s)
            = get_range mem1 (unat (sh_virtual_address s)) (sec_vsize s)"
        using 3 m by (intro Cons.IH(4) [OF _ m(2)]) (auto simp: sections_disjoint_def slot_disjoint_def)
      with copy_section_Ok [OF m(1)] show ?thesis
        using get_put_same [of "unat (sh_virtual_address s)" "section_image s raw" mem]
        by (simp add: sh)
    qed
  next
    case 4
    then obtain mem1 ss1 where m: "copy_section s raw mem = Ok mem1" "copy_sections shs raw mem1 = Ok (mem', ss1)"
      using ex [OF 4(2)] by auto
    have "get_range mem' a n = get_range mem1 a n"
      using 4 by (intro Cons.IH(4) [OF _ m(2)]) auto
    also have "\<dots> = get_range mem a n"
      using copy_section_Ok [OF m(1)] 4(1) by (auto intro!: get_put_disjoint)
    finally show ?case .
  }
qed

lemma copy_headers_fits:
  assumes "hl \<le> length mem"
  shows "copy_headers raw hl mem = Ok (put_range mem 0 (take hl raw @ replicate (hl - length raw) 0))"
proof (cases "length raw < hl")
  case True
  have "put_range (put_range mem 0 raw) (0 + length raw) (replicate (hl - length raw) 0) =
        put_range mem 0 (raw @ replicate (hl - length raw) 0)"
    by (rule put_range_put_range) (use True assms in simp)
  moreover have "length (put_range mem 0 raw) = length mem"
    using True assms by (simp add: length_put_range)
  ultimately show ?thesis
    using True assms
    by (simp add: copy_headers_def Let_def region_copy_nonoverlapping_def region_write_bytes_def)
next
  case False
  then show ?thesis
    using assms by (simp add: copy_headers_def Let_def min_def region_copy_nonoverlapping_def)
qed

lemma copy_headers_Ok:
  assumes "copy_headers raw hl mem = Ok mem'"
  shows "length mem' = length mem" and "hl \<le> length mem"
    and "get_range mem' 0 hl = Some (take hl raw @ replicate (hl - length raw) 0)"
proof -
  show b: "hl \<le> length mem" using assms by (auto simp: copy_headers_def Let_def split: if_splits)
  have "mem' = put_range mem 0 (take hl raw @ replicate (hl - length raw) 0)"
    using assms copy_headers_fits [OF b] by simp
  moreover have len: "length (take hl raw @ replicate (hl - length raw) 0) = hl" by simp
  ultimately show "length mem' = length mem" "get_range mem' 0 hl = Some (take hl raw @ replicate (hl - length raw) 0)"
    using b get_put_same [of 0 "take hl raw @ replicate (hl - length raw) 0" mem] len
    by (simp_all only: length_put_range add_0)
qed

text \<open>The whole file fits an image of \<open>n\<close> bytes.\<close>

definition file_fits :: "pe_file \<Rightarrow> nat \<Rightarrow> bool" where
  "file_fits pe n \<longleftrightarrow>
     unat (opt_size_of_headers (opt pe)) \<le> n \<and>
     list_all (\<lambda>sh. section_fits sh (pe_bytes pe) n) (section_headers (sections pe))"

lemma copy_sections_total:
  "if list_all (\<lambda>sh. section_fits sh raw (length mem)) shs then \<exists>m. copy_sections shs raw mem = Ok m
   else \<exists>w a. copy_sections shs raw mem = Err (Malformed w a)"
proof (induction shs arbitrary: mem)
  case (Cons sh shs)
  show ?case
  proof (cases "section_fits sh raw (length mem)")
    case True
    let ?m = "put_range mem (unat (sh_virtual_address sh)) (section_image sh raw)"
    have "length ?m = length mem"
      using length_copy_section [OF copy_section_fits [OF True]] .
    with Cons.IH [of ?m] True copy_section_fits [OF True] show ?thesis
      by (auto split: if_splits)
  next
    case False
    with copy_section_misfit [OF False] show ?thesis by auto
  qed
qed simp

lemma fill_region_total:
  "if file_fits pe (r_len r) then \<exists>img. fill_region pe r = Ok img
   else \<exists>w a. fill_region pe r = Err (Malformed w a)"
proof (cases "unat (opt_size_of_headers (opt pe)) \<le> r_len r")
  case True
  note ch = copy_headers_fits [OF True, of "pe_bytes pe"]
  let ?m = "put_range (r_mem r) 0 (take (unat (opt_size_of_headers (opt pe))) (pe_bytes pe) @
     replicate (unat (opt_size_of_headers (opt pe)) - length (pe_bytes pe)) 0)"
  show ?thesis
    using copy_sections_total [of "pe_bytes pe" ?m "section_headers (sections pe)"] True ch
      copy_headers_Ok(1) [OF ch]
    by (auto simp: fill_region_def file_fits_def simp del: replicate_empty split: if_splits)
next
  case False
  then show ?thesis by (simp add: fill_region_def file_fits_def copy_headers_def)
qed

lemma fill_region_Ok:
  assumes "fill_region pe r = Ok img"
  obtains mem1 where
    "copy_headers (pe_bytes pe) (unat (opt_size_of_headers (opt pe))) (r_mem r) = Ok mem1"
    "copy_sections (section_headers (sections pe)) (pe_bytes pe) mem1 = Ok (img_mem img, img_sections img)"
    "actual_base img = r_base r" "r_base (img_region img) = r_base r"
    "size_of_image img = opt_size_of_image (opt pe)" "preferred_base img = image_base (opt pe)"
    "data_directories img = opt_data_directories (opt pe)"
  using assms by (auto simp: fill_region_def outcome_simps)

text \<open>
  The region \<open>load\<close> works in (at the preferred base, else wherever the manager puts it), and
  when a file must load: a size of at most 2 GiB, a region, and every range inside it and the file.
\<close>

definition load_region :: "'k memory_manager \<Rightarrow> 'k \<Rightarrow> pe_file \<Rightarrow> region result" where
  "load_region M k pe =
     (let n = unat (opt_size_of_image (opt pe)) in
      case mm_allocate M k (Some (image_base (opt pe))) n PROT_RW of
        (Ok r, k1) \<Rightarrow> Ok r
      | (Err _, k1) \<Rightarrow> fst (mm_allocate M k1 None n PROT_RW)
      | (Panic p, k1) \<Rightarrow> Panic p)"

definition load_accepts :: "'k memory_manager \<Rightarrow> 'k \<Rightarrow> pe_file \<Rightarrow> bool" where
  "load_accepts M k pe \<longleftrightarrow>
     0 < unat (opt_size_of_image (opt pe)) \<and> unat (opt_size_of_image (opt pe)) \<le> 2 ^ 31 \<and>
     ok (load_region M k pe) \<noteq> None \<and> file_fits pe (unat (opt_size_of_image (opt pe)))"

context memory_manager_laws
begin

lemma load_Ok:
  assumes "load M k pe = (Ok img, k')"
  obtains r where "fill_region pe r = Ok img" "r_len r = unat (opt_size_of_image (opt pe))"
    "r_base r \<noteq> 0" "0 < r_len r" "r_len r \<le> 2147483648"
  using assms allocate_len allocate_nonnull
  by (auto simp: load_def Let_def split: if_splits prod.splits outcome.splits)

lemma load_extent:
  assumes "load M k pe = (Ok img, k')"
  shows "length (img_mem img) = unat (size_of_image img)" and "length (img_mem img) \<le> 2147483648"
    and "0 < length (img_mem img)"
proof -
  obtain r where r: "fill_region pe r = Ok img" "r_len r = unat (opt_size_of_image (opt pe))"
    "0 < r_len r" "r_len r \<le> 2147483648" using load_Ok [OF assms] by metis
  obtain mem1 where m: "copy_headers (pe_bytes pe) (unat (opt_size_of_headers (opt pe))) (r_mem r) = Ok mem1"
    "copy_sections (section_headers (sections pe)) (pe_bytes pe) mem1 = Ok (img_mem img, img_sections img)"
    "size_of_image img = opt_size_of_image (opt pe)"
    using fill_region_Ok [OF r(1)] by metis
  have "length (img_mem img) = r_len r"
    using copy_sections_facts(1) [OF m(2)] copy_headers_Ok(1) [OF m(1)] by simp
  with r m(3) show "length (img_mem img) = unat (size_of_image img)" "length (img_mem img) \<le> 2147483648"
    "0 < length (img_mem img)" by simp_all
qed

lemma load_section:
  assumes "load M k pe = (Ok img, k')" "sections_disjoint (section_headers (sections pe))"
    and "sh \<in> set (section_headers (sections pe))"
  shows "rva_to_slice img (sh_virtual_address sh) (sec_vsize sh) = Some (section_image sh (pe_bytes pe))"
proof -
  obtain r where r: "fill_region pe r = Ok img" using load_Ok [OF assms(1)] by metis
  then obtain mem1 where "copy_sections (section_headers (sections pe)) (pe_bytes pe) mem1 =
      Ok (img_mem img, img_sections img)"
    using fill_region_Ok by metis
  from copy_sections_facts(3) [OF this assms(3,2)] load_extent(2) [OF assms(1)]
  show ?thesis by (simp add: rva_to_slice_get_range)
qed

lemma load_headers:
  assumes "load M k pe = (Ok img, k')"
    and "\<forall>sh \<in> set (section_headers (sections pe)).
           unat (opt_size_of_headers (opt pe)) \<le> unat (sh_virtual_address sh)"
  shows "rva_to_slice img 0 (unat (opt_size_of_headers (opt pe))) =
    Some (take (unat (opt_size_of_headers (opt pe))) (pe_bytes pe) @
          replicate (unat (opt_size_of_headers (opt pe)) - length (pe_bytes pe)) 0)"
proof -
  obtain r where r: "fill_region pe r = Ok img" using load_Ok [OF assms(1)] by metis
  then obtain mem1 where m: "copy_headers (pe_bytes pe) (unat (opt_size_of_headers (opt pe))) (r_mem r) = Ok mem1"
      "copy_sections (section_headers (sections pe)) (pe_bytes pe) mem1 = Ok (img_mem img, img_sections img)"
    using fill_region_Ok by metis
  have "get_range (img_mem img) 0 (unat (opt_size_of_headers (opt pe))) =
        get_range mem1 0 (unat (opt_size_of_headers (opt pe)))"
    by (rule copy_sections_facts(4) [OF m(2)]) (use assms(2) in auto)
  with copy_headers_Ok(3) [OF m(1)] load_extent(2) [OF assms(1)] show ?thesis
    by (simp add: rva_to_slice_get_range)
qed

lemma load_region_Ok: "load_region M k pe = Ok r \<Longrightarrow> r_len r = unat (opt_size_of_image (opt pe))"
  using allocate_len
  by (auto simp: load_region_def Let_def split: prod.splits outcome.splits) (metis prod.collapse)

lemma load_region_no_panic: "no_panic (load_region M k pe)"
  using allocate_no_panic
  by (auto simp: load_region_def Let_def split: prod.splits outcome.splits) (metis fst_conv no_panic.simps(3))

lemma load_total:
  "case fst (load M k pe) of
     Ok img \<Rightarrow> load_accepts M k pe
   | Err e \<Rightarrow> \<not> load_accepts M k pe
   | Panic p \<Rightarrow> False"
proof (cases "unat (opt_size_of_image (opt pe)) = 0 \<or> unat (opt_size_of_image (opt pe)) > 2147483648")
  case True
  then show ?thesis by (auto simp: load_def load_accepts_def)
next
  case False
  then have l: "fst (load M k pe) = obind (load_region M k pe) (fill_region pe)"
    by (auto simp: load_def load_region_def Let_def split: prod.splits outcome.splits)
  show ?thesis
  proof (cases "load_region M k pe")
    case (Ok r)
    then have "r_len r = unat (opt_size_of_image (opt pe))" by (rule load_region_Ok)
    with fill_region_total [of pe r] False Ok show ?thesis
      by (auto simp: l load_accepts_def split: if_splits)
  qed (use load_region_no_panic [of k pe] l in \<open>auto simp: load_accepts_def\<close>)
qed

end

section \<open>Page ranges\<close>

lemma host_page_mask: "host_page_size - 1 = mask 14"
  by (simp add: host_page_size_def mask_numeral)

lemma section_pages_cover:
  assumes "section_pages s = (start, len)"
  shows "unat start = unat (ms_rva s) div 16384 * 16384"
    and "unat start + len = (unat (ms_rva s) + max (unat (ms_vsize s)) (unat (ms_raw_size s)) + 16383) div 16384 * 16384"
proof -
  let ?n = "unat (ms_rva s)" and ?m = "max (unat (ms_vsize s)) (unat (ms_raw_size s))"
  let ?x = "ucast (ms_rva s) + ucast (max (ms_vsize s) (ms_raw_size s)) :: u64"
  have n: "?n < 4294967296" and m: "?m < 4294967296"
    using unat_u32_less by (simp_all add: max_def)
  have mx: "unat (max (ms_vsize s) (ms_raw_size s)) = ?m"
    by (simp add: max_def word_le_nat_alt)
  have sm: "?n + ?m + 16383 < 18446744073709551616" using n m by linarith
  have x: "unat ?x = ?n + ?m"
    using sm mx by (simp add: unat_word_ariths)
  have st: "start = ucast (ms_rva s) AND NOT (mask 14)"
    and ln: "len = unat (align_up ?x host_page_size - start)"
    using assms by (auto simp: section_pages_def Let_def host_page_mask)
  show s: "unat start = ?n div 16384 * 16384"
    using n by (simp add: st unat_and_not_mask)
  have "unat (?x + host_page_size - 1) = ?n + ?m + 16383"
    using sm mx by (simp add: host_page_size_def unat_word_ariths x)
  then have e: "unat (align_up ?x host_page_size) = (?n + ?m + 16383) div 16384 * 16384"
    by (simp add: align_up_def host_page_mask unat_and_not_mask)
  moreover have le: "?n div 16384 * 16384 \<le> (?n + ?m + 16383) div 16384 * 16384"
    by (intro mult_right_mono div_le_mono) auto
  ultimately have "start \<le> align_up ?x host_page_size" using s by (simp add: word_le_nat_alt)
  then show "unat start + len = (?n + ?m + 16383) div 16384 * 16384"
    using e s le by (simp add: ln unat_sub)
qed

section \<open>Properties\<close>

text \<open>A host that maps zeroed pages wherever it is asked to, and a file with one section.\<close>

definition example_host :: "unit host" where
  "example_host = \<lparr>h_vm_allocate = (\<lambda>k a n f. (0, if a = 0 then 0x10000 else a, (\<lambda>_. 0), k)),
     h_vm_deallocate = (\<lambda>k a n. k), h_vm_protect = (\<lambda>k a n p. (0, k)),
     h_mmap_jit = (\<lambda>k n. (0x20000, (\<lambda>_. 0), k)), h_errno = (\<lambda>k. 0),
     h_jit_write_protect = (\<lambda>k w. k), h_icache_invalidate = (\<lambda>k a n. k)\<rparr>"

definition small_section :: section_header where
  "small_section = \<lparr>sh_name = [0x2E, 0x74, 0x65, 0x78, 0x74, 0, 0, 0], virtual_size = 6,
     sh_virtual_address = 16, size_of_raw_data = 4, pointer_to_raw_data = 40,
     sh_characteristics = 0x60000020\<rparr>"

definition small_pe :: pe_file where
  "small_pe = \<lparr>pe_bytes = encode_section small_section @ [1, 2, 3, 4], pe_header_offset = 0,
     coff = example_coff, opt = example_opt\<lparr>opt_size_of_image := 32, opt_size_of_headers := 8\<rparr>,
     sections_offset = 0\<rparr>"

lemma small_pe_sections: "section_headers (sections small_pe) = [small_section]"
proof -
  have "read_section (encode_section small_section @ [1, 2, 3, 4]) 0 = Some small_section"
    using read_section_encode [of "[]" 0 small_section "[1, 2, 3, 4]"]
    by (simp add: small_section_def)
  then show ?thesis
    by (simp add: section_headers.simps section_iter_next_def sections_def small_pe_def
                  example_coff_def)
qed

lemma small_pe_bytes:
  "length (pe_bytes small_pe) = 44"
  "drop 40 (pe_bytes small_pe) = [1, 2, 3, 4]"
  by (simp_all add: small_pe_def encode_section_def small_section_def)

lemma small_pe_loads: "\<exists>img. load (mach_vm_manager example_host) () small_pe = (Ok img, ())"
proof -
  have opt: "opt_size_of_image (opt small_pe) = 32" "opt_size_of_headers (opt small_pe) = 8"
    by (simp_all add: small_pe_def example_opt_def)
  have cs: "\<exists>m. copy_section small_section (pe_bytes small_pe) mem = Ok m" if "length mem = 32" for mem
    using that small_pe_bytes 
    copy_section_fits [of small_section "pe_bytes small_pe" mem]
    by (simp add: section_fits_def sec_vsize_def small_section_def)
  have ch: "\<exists>m. copy_headers (pe_bytes small_pe) 8 mem = Ok m \<and> length m = 32" if "length mem = 32" for mem
    using that copy_headers_fits [of 8 mem "pe_bytes small_pe"] small_pe_bytes
    by (simp add: length_put_range)
  have fr: "\<exists>img. fill_region small_pe r = Ok img" if "length (r_mem r) = 32" for r
    using ch [OF that] cs by (fastforce simp: fill_region_def small_pe_sections opt)
  have "\<exists>r. mm_allocate (mach_vm_manager example_host) () (Some (image_base (opt small_pe))) 32 PROT_RW
             = (Ok r, ()) \<and> length (r_mem r) = 32"
    by (simp add: mach_vm_manager_def mach_allocate_def example_host_def KERN_SUCCESS_def
        small_pe_def example_opt_def from_raw_def)
  then obtain r where "mm_allocate (mach_vm_manager example_host) () (Some (image_base (opt small_pe))) 32 PROT_RW
             = (Ok r, ())" "length (r_mem r) = 32" by blast
  with fr [of r] show ?thesis by (simp add: load_def opt)
qed

text \<open>
  C8: loading puts every section where the PE says. When a file loads and its sections do not overlap
  in virtual space, the bytes at each section's RVA are exactly its raw data from the file followed
  by zeros up to the virtual size, the image has \<open>SizeOfImage\<close> bytes, and the section list of
  the image is the file's.
\<close>

theorem load_maps_sections:
  assumes "load (mach_vm_manager H) k pe = (Ok img, k')"
    and "sections_disjoint (section_headers (sections pe))"
    and "sh \<in> set (section_headers (sections pe))"
  shows "rva_to_slice img (sh_virtual_address sh) (sec_vsize sh) = Some (section_image sh (pe_bytes pe)) \<and>
         length (img_mem img) = unat (size_of_image img) \<and>
         img_sections img = map mapped_of (section_headers (sections pe))"
proof -
  obtain r where "fill_region pe r = Ok img" using mach.load_Ok [OF assms(1)] by metis
  then obtain mem1 where "copy_sections (section_headers (sections pe)) (pe_bytes pe) mem1 =
      Ok (img_mem img, img_sections img)"
    using fill_region_Ok by metis
  from copy_sections_facts(2) [OF this] mach.load_section [OF assms] mach.load_extent(1) [OF assms(1)]
  show ?thesis by blast
qed

theorem load_maps_sections_witness:
  "\<exists>img. load (mach_vm_manager example_host) () small_pe = (Ok img, ()) \<and>
         rva_to_slice img 16 6 = Some [1, 2, 3, 4, 0, 0]"
proof -
  obtain img where l: "load (mach_vm_manager example_host) () small_pe = (Ok img, ())"
    using small_pe_loads by blast
  have d: "sections_disjoint (section_headers (sections small_pe))"
    by (simp add: small_pe_sections sections_disjoint_def)
  have i: "small_section \<in> set (section_headers (sections small_pe))"
    by (simp add: small_pe_sections)
  have "section_image small_section (pe_bytes small_pe) = [1, 2, 3, 4, 0, 0]"
    using small_pe_bytes by (simp add: section_image_def sec_vsize_def small_section_def eval_simps)
  with l load_maps_sections [OF l d i] show ?thesis
    by (auto simp: sec_vsize_def small_section_def)
qed

text \<open>
  The headers stay readable. When a file loads and no section starts inside \<open>SizeOfHeaders\<close>,
  the start of the image is the file's first \<open>SizeOfHeaders\<close> bytes, zero-padded when the file is
  shorter.
\<close>

theorem load_maps_headers:
  assumes "load (mach_vm_manager H) k pe = (Ok img, k')"
    and "\<forall>sh \<in> set (section_headers (sections pe)).
           unat (opt_size_of_headers (opt pe)) \<le> unat (sh_virtual_address sh)"
  shows "rva_to_slice img 0 (unat (opt_size_of_headers (opt pe))) =
    Some (take (unat (opt_size_of_headers (opt pe))) (pe_bytes pe) @
          replicate (unat (opt_size_of_headers (opt pe)) - length (pe_bytes pe)) 0)"
  using assms by (rule mach.load_headers)

theorem load_maps_headers_witness:
  "\<exists>img. load (mach_vm_manager example_host) () small_pe = (Ok img, ()) \<and>
         rva_to_slice img 0 8 = Some [0x2E, 0x74, 0x65, 0x78, 0x74, 0, 0, 0]"
proof -
  obtain img where l: "load (mach_vm_manager example_host) () small_pe = (Ok img, ())"
    using small_pe_loads by blast
  have h: "\<forall>sh \<in> set (section_headers (sections small_pe)).
     unat (opt_size_of_headers (opt small_pe)) \<le> unat (sh_virtual_address sh)"
    by (simp add: small_pe_sections) (simp add: small_pe_def small_section_def)
  have "take 8 (pe_bytes small_pe) = [0x2E, 0x74, 0x65, 0x78, 0x74, 0, 0, 0]"
    by (simp add: small_pe_def encode_section_def small_section_def)
  with l load_maps_headers [OF l h] show ?thesis
    using small_pe_bytes(1) by (auto simp: small_pe_def)
qed

text \<open>
  C12: loading is memory safe. Whatever the headers say and whatever the kernel answers, no raw copy
  or zero fill of \<open>load\<close> reads outside the file or writes outside the region it allocated, nothing
  else panics, and the file is refused with an error exactly when \<open>SizeOfImage\<close> is zero or above
  2 GiB, no region could be had, or the headers, a section's virtual range or its raw data do not fit.
\<close>

theorem load_memory_safe:
  "case fst (load (mach_vm_manager H) k pe) of
     Ok img \<Rightarrow> load_accepts (mach_vm_manager H) k pe
   | Err e \<Rightarrow> \<not> load_accepts (mach_vm_manager H) k pe
   | Panic p \<Rightarrow> False"
  by (rule mach.load_total)

text \<open>
  C14: the page range given to \<open>protect\<close> for a section starts and ends on 16 KiB pages and is the
  smallest such range that contains the section's \<open>[rva, rva + max(vsize, raw_size))\<close>; no rounding
  overflows for any 32-bit header values.
\<close>

theorem section_pages_minimal_cover:
  assumes "section_pages s = (start, len)"
  shows "unat start mod 16384 = 0 \<and> (unat start + len) mod 16384 = 0 \<and>
         unat start \<le> unat (ms_rva s) \<and> unat (ms_rva s) < unat start + 16384 \<and>
         unat (ms_rva s) + max (unat (ms_vsize s)) (unat (ms_raw_size s)) \<le> unat start + len \<and>
         unat start + len < unat (ms_rva s) + max (unat (ms_vsize s)) (unat (ms_raw_size s)) + 16384"
  using section_pages_cover [OF assms] by (simp add: div_mult_mod_eq) linarith

theorem section_pages_minimal_cover_witness:
  "section_pages (mapped_of small_section) = (0, 16384) \<and>
   unat (0 :: u64) \<le> unat (ms_rva (mapped_of small_section))"
proof -
  have h: "section_pages (mapped_of small_section) = (0, 16384)"
    by (simp add: section_pages_def mapped_of_def small_section_def host_page_size_def align_up_def)
  show ?thesis using h section_pages_minimal_cover [OF h] by simp
qed

end
