(* ===== verification/Directories.thy ===== *)
theory Directories
  imports Image_Map
begin

text \<open>
  The read-only directories of a loaded image: exports (\<open>exports.rs\<close>), thread-local storage (\<open>tls.rs\<close>), the
  exception table with its unwind records (\<open>exception.rs\<close>), debug entries (\<open>debug.rs\<close>), the load configuration
  (\<open>load_config.rs\<close>), the resource tree (\<open>resources.rs\<close>) and the module list (\<open>peb.rs\<close>) of
  \<open>quantum-loader\<close>. A counted loop \<open>for i in 0..n\<close> that pushes one element per turn is \<open>collect\<close>; plain
  \<open>+\<close> and \<open>*\<close> on RVAs panic on overflow.
\<close>

section \<open>Loops that push one element per turn\<close>

primrec collect_from :: "(u32 \<Rightarrow> ('e, 'a) outcome) \<Rightarrow> nat \<Rightarrow> nat \<Rightarrow> ('e, 'a list) outcome" where
  "collect_from f i 0 = Ok []"
| "collect_from f i (Suc n) =
     obind (f (of_nat i)) (\<lambda>x. obind (collect_from f (Suc i) n) (\<lambda>xs. Ok (x # xs)))"

definition collect :: "(u32 \<Rightarrow> ('e, 'a) outcome) \<Rightarrow> nat \<Rightarrow> ('e, 'a list) outcome" where
  "collect f n = collect_from f 0 n"

section \<open>Exports\<close>

datatype export_target = ExRva u32 | Forwarded bytes

record export =
  ex_ordinal :: u32
  ex_target :: export_target

record named_export =
  ne_name :: bytes
  ne_ordinal :: u32

record export_table =
  et_module_name :: bytes
  et_ordinal_base :: u32
  et_entries :: "export list"
  et_names :: "named_export list"

function export_cstr_loop :: "loaded_image \<Rightarrow> u32 \<Rightarrow> u32 \<Rightarrow> bytes \<Rightarrow> bytes result" where
  "export_cstr_loop img rva off out =
     obind (ok_or (rva_to_slice img off 1) (Malformed ''export cstr'' (unat off))) (\<lambda>s.
     let b = s ! 0 in
     if b = 0 then Ok out
     else
       let out1 = out @ [b] in
       obind (ok_or (checked_add off 1) (Malformed ''export cstr overflow'' (unat off))) (\<lambda>off1.
       if length out1 > 4096 then Err (Malformed ''export cstr unbounded'' (unat rva))
       else export_cstr_loop img rva off1 out1))"
  by pat_completeness auto
termination
  by (relation "measure (\<lambda>(img, rva, off, out). 4097 - length out)") auto

declare export_cstr_loop.simps [simp del]

definition export_cstr :: "loaded_image \<Rightarrow> u32 \<Rightarrow> bytes result" where
  "export_cstr img rva =
     obind (export_cstr_loop img rva rva []) (\<lambda>out.
     if utf8_valid out then Ok out else Err (Malformed ''export cstr utf8'' (unat rva)))"

definition export_entry ::
  "loaded_image \<Rightarrow> u32 \<Rightarrow> u32 \<Rightarrow> u32 \<Rightarrow> u32 \<Rightarrow> u32 \<Rightarrow> export result" where
  "export_entry img dir_start dir_end base funcs_rva i =
     obind (ok_or (checked_mul i 4) (Malformed ''export funcs overflow'' (unat funcs_rva))) (\<lambda>i4.
     obind (ok_or (checked_add funcs_rva i4) (Malformed ''export funcs offset'' (unat funcs_rva))) (\<lambda>off.
     obind (ok_or (rva_to_slice img off 4) (Malformed ''export func entry'' (unat off))) (\<lambda>bytes.
     let target_rva = u32_from_le bytes in
     obind (if target_rva \<ge> dir_start \<and> target_rva < dir_end
            then obind (export_cstr img target_rva) (\<lambda>s. Ok (Forwarded s))
            else if target_rva = 0 then Ok (ExRva 0)
            else Ok (ExRva target_rva)) (\<lambda>target.
     obind (add_or_panic base i) (\<lambda>ordinal.
     Ok \<lparr>ex_ordinal = ordinal, ex_target = target\<rparr>)))))"

definition export_name :: "loaded_image \<Rightarrow> u32 \<Rightarrow> u32 \<Rightarrow> u32 \<Rightarrow> u32 \<Rightarrow> named_export result" where
  "export_name img base names_rva ordinals_rva i =
     obind (mul_or_panic i 4) (\<lambda>i4.
     let name_off = saturating_add names_rva i4 in
     obind (mul_or_panic i 2) (\<lambda>i2.
     let ord_off = saturating_add ordinals_rva i2 in
     obind (ok_or (rva_to_slice img name_off 4) (Malformed ''export name entry'' (unat name_off))) (\<lambda>name_rva_bytes.
     obind (ok_or (rva_to_slice img ord_off 2) (Malformed ''export ordinal entry'' (unat ord_off))) (\<lambda>ord_bytes.
     let name_rva_i = u32_from_le name_rva_bytes;
         biased = ucast (u16_from_le [ord_bytes ! 0, ord_bytes ! 1]) :: u32
     in obind (export_cstr img name_rva_i) (\<lambda>name.
        obind (add_or_panic base biased) (\<lambda>ordinal.
        Ok \<lparr>ne_name = name, ne_ordinal = ordinal\<rparr>))))))"

definition parse_exports :: "loaded_image \<Rightarrow> export_table option result" where
  "parse_exports img =
     (case data_dir img DIR_EXPORT of
        None \<Rightarrow> Ok None
      | Some dir_entry \<Rightarrow>
          obind (ok_or (rva_to_slice img (virtual_address dir_entry) 40)
                       (Malformed ''export directory'' (unat (virtual_address dir_entry)))) (\<lambda>header.
          let name_rva = u32_from_le (sub header 12 16);
              base = u32_from_le (sub header 16 20);
              num_funcs = u32_from_le (sub header 20 24);
              num_names = u32_from_le (sub header 24 28);
              funcs_rva = u32_from_le (sub header 28 32);
              names_rva = u32_from_le (sub header 32 36);
              ordinals_rva = u32_from_le (sub header 36 40)
          in obind (if name_rva \<noteq> 0 then export_cstr img name_rva else Ok []) (\<lambda>module_name.
             let dir_start = virtual_address dir_entry;
                 dir_end = saturating_add dir_start (dir_size dir_entry)
             in obind (collect (export_entry img dir_start dir_end base funcs_rva) (unat num_funcs)) (\<lambda>entries.
                obind (collect (export_name img base names_rva ordinals_rva) (unat num_names)) (\<lambda>names.
                Ok (Some \<lparr>et_module_name = module_name, et_ordinal_base = base, et_entries = entries,
                          et_names = names\<rparr>))))))"

section \<open>Thread-local storage\<close>

record tls_info =
  tls_raw_start_rva :: u32
  tls_raw_end_rva :: u32
  tls_index_rva :: u32
  tls_callbacks_rva :: u32
  tls_size_of_zero_fill :: u32
  tls_characteristics :: u32
  tls_callbacks :: "u32 list"

definition tls_to_rva :: "u64 \<Rightarrow> u64 \<Rightarrow> u32" where
  "tls_to_rva base va = ucast (va - base)"

function tls_callback_loop :: "loaded_image \<Rightarrow> u32 \<Rightarrow> u32 \<Rightarrow> u32 list \<Rightarrow> u32 list result" where
  "tls_callback_loop img callbacks_rva off callbacks =
     obind (ok_or (rva_to_slice img off 8) (Malformed ''tls callback slot'' (unat off))) (\<lambda>slot.
     let va = u64_from_le slot in
     if va = 0 then Ok callbacks
     else
       let callbacks1 = callbacks @ [tls_to_rva (preferred_base img) va] in
       obind (ok_or (checked_add off 8) (Malformed ''tls callbacks overflow'' (unat off))) (\<lambda>off1.
       if length callbacks1 > 256 then Err (Malformed ''tls callbacks unbounded'' (unat callbacks_rva))
       else tls_callback_loop img callbacks_rva off1 callbacks1))"
  by pat_completeness auto
termination
  by (relation "measure (\<lambda>(img, rva, off, callbacks). 257 - length callbacks)") auto

declare tls_callback_loop.simps [simp del]

definition parse_tls :: "loaded_image \<Rightarrow> tls_info option result" where
  "parse_tls img =
     (case data_dir img DIR_TLS of
        None \<Rightarrow> Ok None
      | Some dir_entry \<Rightarrow>
          obind (ok_or (rva_to_slice img (virtual_address dir_entry) 40)
                       (Malformed ''TLS directory'' (unat (virtual_address dir_entry)))) (\<lambda>bytes.
          let raw_start_va = u64_from_le (sub bytes 0 8);
              raw_end_va = u64_from_le (sub bytes 8 16);
              index_va = u64_from_le (sub bytes 16 24);
              callbacks_va = u64_from_le (sub bytes 24 32);
              size_of_zero_fill = u32_from_le (sub bytes 32 36);
              characteristics = u32_from_le (sub bytes 36 40);
              to_rva = tls_to_rva (preferred_base img);
              callbacks_rva = to_rva callbacks_va
          in obind (if callbacks_va \<noteq> 0 then tls_callback_loop img callbacks_rva callbacks_rva [] else Ok []) (\<lambda>callbacks.
             Ok (Some \<lparr>tls_raw_start_rva = to_rva raw_start_va, tls_raw_end_rva = to_rva raw_end_va,
                       tls_index_rva = to_rva index_va, tls_callbacks_rva = callbacks_rva,
                       tls_size_of_zero_fill = size_of_zero_fill, tls_characteristics = characteristics,
                       tls_callbacks = callbacks\<rparr>))))"

section \<open>Exception table\<close>

definition RUNTIME_FUNCTION_SIZE :: u32 where "RUNTIME_FUNCTION_SIZE = 12"

record runtime_function =
  begin_rva :: u32
  end_rva :: u32
  unwind_info_rva :: u32

definition runtime_function_of :: "bytes \<Rightarrow> runtime_function" where
  "runtime_function_of b =
     \<lparr>begin_rva = u32_from_le (sub b 0 4), end_rva = u32_from_le (sub b 4 8), unwind_info_rva = u32_from_le (sub b 8 12)\<rparr>"

definition runtime_function_at :: "loaded_image \<Rightarrow> u32 \<Rightarrow> u32 \<Rightarrow> runtime_function result" where
  "runtime_function_at img va i =
     obind (mul_or_panic i RUNTIME_FUNCTION_SIZE) (\<lambda>o12.
     obind (add_or_panic va o12) (\<lambda>off.
     obind (ok_or (rva_to_slice img off (unat RUNTIME_FUNCTION_SIZE)) (Malformed ''RUNTIME_FUNCTION oob'' (unat off))) (\<lambda>bytes.
     Ok (runtime_function_of bytes))))"

definition parse_exceptions :: "loaded_image \<Rightarrow> runtime_function list result" where
  "parse_exceptions img =
     (case data_dir img DIR_EXCEPTION of
        None \<Rightarrow> Ok []
      | Some dir_entry \<Rightarrow>
          if dir_size dir_entry mod RUNTIME_FUNCTION_SIZE \<noteq> 0
          then Err (Malformed ''exception directory size not multiple of 12'' (unat (virtual_address dir_entry)))
          else collect (runtime_function_at img (virtual_address dir_entry)) (unat (dir_size dir_entry div RUNTIME_FUNCTION_SIZE)))"

definition UNW_FLAG_EHANDLER :: u8 where "UNW_FLAG_EHANDLER = 0x1"
definition UNW_FLAG_UHANDLER :: u8 where "UNW_FLAG_UHANDLER = 0x2"
definition UNW_FLAG_CHAININFO :: u8 where "UNW_FLAG_CHAININFO = 0x4"

record unwind_info =
  ui_version :: u8
  ui_flags :: u8
  ui_size_of_prolog :: u8
  ui_count_of_codes :: u8
  ui_frame_register :: u8
  ui_frame_offset :: u8
  ui_unwind_codes :: bytes
  ui_handler_rva :: "u32 option"
  ui_chained_function :: "runtime_function option"

definition has_exception_handler :: "unwind_info \<Rightarrow> bool" where
  "has_exception_handler ui \<longleftrightarrow> ui_flags ui AND (UNW_FLAG_EHANDLER OR UNW_FLAG_UHANDLER) \<noteq> 0"

definition unwind_trailer :: "loaded_image \<Rightarrow> u8 \<Rightarrow> u32 \<Rightarrow> (u32 option \<times> runtime_function option) result" where
  "unwind_trailer img flags trailer_off =
     (if flags AND UNW_FLAG_CHAININFO \<noteq> 0 then
        obind (ok_or (rva_to_slice img trailer_off (unat RUNTIME_FUNCTION_SIZE))
                     (Malformed ''UNWIND_INFO chained RUNTIME_FUNCTION oob'' (unat trailer_off))) (\<lambda>b.
        Ok (None, Some (runtime_function_of b)))
      else if flags AND (UNW_FLAG_EHANDLER OR UNW_FLAG_UHANDLER) \<noteq> 0 then
        obind (ok_or (rva_to_slice img trailer_off 4) (Malformed ''UNWIND_INFO handler RVA oob'' (unat trailer_off))) (\<lambda>b.
        Ok (Some (u32_from_le (sub b 0 4)), None))
      else Ok (None, None))"

definition parse_unwind_info :: "loaded_image \<Rightarrow> u32 \<Rightarrow> unwind_info result" where
  "parse_unwind_info img unwind_rva =
     obind (ok_or (rva_to_slice img unwind_rva 4) (Malformed ''UNWIND_INFO header oob'' (unat unwind_rva))) (\<lambda>header.
     let ver_flags = header ! 0;
         version = ver_flags AND 0x07;
         flags = drop_bit 3 ver_flags AND 0x1F;
         size_of_prolog = header ! 1;
         count_of_codes = header ! 2;
         frame_byte = header ! 3;
         frame_register = frame_byte AND 0x0F;
         frame_offset = drop_bit 4 frame_byte AND 0x0F
     in if version \<noteq> 1 \<and> version \<noteq> 2
        then Err (Malformed ''UNWIND_INFO version unsupported'' (unat unwind_rva))
        else
          let codes_padded_count = (unat count_of_codes + 1) div 2 * 2;
              codes_size = codes_padded_count * 2
          in obind (add_or_panic unwind_rva 4) (\<lambda>codes_off.
             obind (ok_or (rva_to_slice img codes_off codes_size) (Malformed ''UNWIND_INFO codes oob'' (unat codes_off))) (\<lambda>unwind_codes.
             obind (add_or_panic codes_off (of_nat codes_size)) (\<lambda>trailer_off.
             obind (unwind_trailer img flags trailer_off) (\<lambda>(handler_rva, chained_function).
             Ok \<lparr>ui_version = version, ui_flags = flags, ui_size_of_prolog = size_of_prolog,
                 ui_count_of_codes = count_of_codes, ui_frame_register = frame_register,
                 ui_frame_offset = frame_offset, ui_unwind_codes = unwind_codes,
                 ui_handler_rva = handler_rva, ui_chained_function = chained_function\<rparr>)))))"

text \<open>\<open>slice::binary_search_by\<close> of the standard library: the loop narrows \<open>[base, base + len)\<close>.\<close>

datatype ordering = Less | Equal | Greater

function binary_search_loop :: "('a \<Rightarrow> ordering) \<Rightarrow> 'a list \<Rightarrow> nat \<Rightarrow> nat \<Rightarrow> nat" where
  "binary_search_loop f xs base n =
     (if n > 1 then
        let half = n div 2; mid = base + half in
        binary_search_loop f xs (if f (xs ! mid) = Greater then base else mid) (n - half)
      else base)"
  by pat_completeness auto
termination by (relation "measure (\<lambda>(f, xs, base, n). n)") auto

declare binary_search_loop.simps [simp del]

definition binary_search_by :: "('a \<Rightarrow> ordering) \<Rightarrow> 'a list \<Rightarrow> nat option" where
  "binary_search_by f xs =
     (if xs = [] then None
      else let i = binary_search_loop f xs 0 (length xs) in if f (xs ! i) = Equal then Some i else None)"

definition cover_order :: "u32 \<Rightarrow> runtime_function \<Rightarrow> ordering" where
  "cover_order rva f = (if rva < begin_rva f then Greater else if rva \<ge> end_rva f then Less else Equal)"

definition lookup_runtime_function :: "runtime_function list \<Rightarrow> u32 \<Rightarrow> runtime_function option" where
  "lookup_runtime_function funcs rva = map_option (\<lambda>i. funcs ! i) (binary_search_by (cover_order rva) funcs)"

text \<open>The loop counts its turns in \<open>seen\<close> and gives up on the seventeenth.\<close>

function resolve_handler_loop :: "loaded_image \<Rightarrow> nat \<Rightarrow> runtime_function \<Rightarrow> (unwind_info \<times> runtime_function) result" where
  "resolve_handler_loop img seen current =
     (let seen1 = seen + 1 in
      if seen1 > 16 then Err (Malformed ''UNWIND_INFO chain too deep'' (unat (unwind_info_rva current)))
      else
        obind (parse_unwind_info img (unwind_info_rva current)) (\<lambda>ui.
        case ui_chained_function ui of
          Some n \<Rightarrow> resolve_handler_loop img seen1 n
        | None \<Rightarrow> Ok (ui, current)))"
  by pat_completeness auto
termination by (relation "measure (\<lambda>(img, seen, current). 17 - seen)") auto

declare resolve_handler_loop.simps [simp del]

definition resolve_handler :: "loaded_image \<Rightarrow> runtime_function \<Rightarrow> (unwind_info \<times> runtime_function) result" where
  "resolve_handler img starting = resolve_handler_loop img 0 starting"

section \<open>Lookup in the exception table\<close>

definition covers :: "u32 \<Rightarrow> runtime_function \<Rightarrow> bool" where
  "covers rva f \<longleftrightarrow> begin_rva f \<le> rva \<and> rva < end_rva f"

text \<open>The order the PE format prescribes: ascending, not overlapping.\<close>

definition table_sorted :: "runtime_function list \<Rightarrow> bool" where
  "table_sorted funcs \<longleftrightarrow> list_all (\<lambda>f. begin_rva f \<le> end_rva f) funcs \<and> sorted_wrt (\<lambda>f g. end_rva f \<le> begin_rva g) funcs"

lemma binary_search_loop_invariant:
  assumes mono: "\<And>i j. i \<le> j \<Longrightarrow> j < length xs \<Longrightarrow> f (xs ! i) = Greater \<Longrightarrow> f (xs ! j) = Greater"
  shows "0 < n \<Longrightarrow> base + n \<le> length xs \<Longrightarrow> base = 0 \<or> f (xs ! base) \<noteq> Greater \<Longrightarrow>
     (\<And>j. base + n \<le> j \<Longrightarrow> j < length xs \<Longrightarrow> f (xs ! j) = Greater) \<Longrightarrow>
     (let b = binary_search_loop f xs base n in
      b < length xs \<and> (b = 0 \<or> f (xs ! b) \<noteq> Greater) \<and> (\<forall>j. b < j \<longrightarrow> j < length xs \<longrightarrow> f (xs ! j) = Greater))"
proof (induction n arbitrary: base rule: less_induct)
  case (less n)
  let ?half = "n div 2"
  let ?base = "if f (xs ! (base + ?half)) = Greater then base else base + ?half"
  show ?case
  proof (cases "n > 1")
    case False
    with less.prems have "n = 1" by simp
    then have "binary_search_loop f xs base n = base" by (subst binary_search_loop.simps) simp
    with less.prems \<open>n = 1\<close> show ?thesis by (simp add: Let_def)
  next
    case True
    then have half: "?half \<le> n - ?half" "0 < ?half" by auto
    have "let b = binary_search_loop f xs ?base (n - ?half) in
      b < length xs \<and> (b = 0 \<or> f (xs ! b) \<noteq> Greater) \<and> (\<forall>j. b < j \<longrightarrow> j < length xs \<longrightarrow> f (xs ! j) = Greater)"
    proof (rule less.IH)
      show "n - ?half < n" "0 < n - ?half" "?base + (n - ?half) \<le> length xs" "?base = 0 \<or> f (xs ! ?base) \<noteq> Greater"
        using half less.prems(1-3) by (auto split: if_splits)
      fix j assume j: "?base + (n - ?half) \<le> j" "j < length xs"
      show "f (xs ! j) = Greater"
      proof (cases "f (xs ! (base + ?half)) = Greater")
        case True
        with j half show ?thesis by (intro mono [of "base + ?half" j]) auto
      next
        case False
        with j half show ?thesis by (intro less.prems(4)) auto
      qed
    qed
    moreover have "binary_search_loop f xs base n = binary_search_loop f xs ?base (n - ?half)"
      using True by (subst binary_search_loop.simps) (simp add: Let_def split del: if_split)
    ultimately show ?thesis by (simp only:)
  qed
qed

lemma table_order:
  assumes "table_sorted funcs" "i < j" "j < length funcs"
  shows "cover_order rva (funcs ! i) \<noteq> Less \<Longrightarrow> cover_order rva (funcs ! j) = Greater"
    "covers rva (funcs ! i) \<Longrightarrow> \<not> covers rva (funcs ! j)"
proof -
  have "begin_rva (funcs ! i) \<le> end_rva (funcs ! i)" "end_rva (funcs ! i) \<le> begin_rva (funcs ! j)"
    using assms by (auto simp: table_sorted_def list_all_length sorted_wrt_iff_nth_less)
  then show "cover_order rva (funcs ! i) \<noteq> Less \<Longrightarrow> cover_order rva (funcs ! j) = Greater"
    "covers rva (funcs ! i) \<Longrightarrow> \<not> covers rva (funcs ! j)"
    by (auto simp: cover_order_def covers_def split: if_splits)
qed

lemma cover_order_Equal: "cover_order rva f = Equal \<longleftrightarrow> covers rva f"
  by (auto simp: cover_order_def covers_def not_le)

lemma binary_search_covers:
  assumes "table_sorted funcs" "funcs \<noteq> []" "b = binary_search_loop (cover_order rva) funcs 0 (length funcs)"
  shows "b < length funcs" "i < length funcs \<Longrightarrow> covers rva (funcs ! i) \<Longrightarrow> i = b"
proof -
  have mono: "cover_order rva (funcs ! j) = Greater"
    if "i \<le> j" "j < length funcs" "cover_order rva (funcs ! i) = Greater" for i j
    using that table_order(1) [OF assms(1), of i j rva] by (cases "i = j") auto
  have b: "b < length funcs \<and> (b = 0 \<or> cover_order rva (funcs ! b) \<noteq> Greater) \<and>
      (\<forall>j. b < j \<longrightarrow> j < length funcs \<longrightarrow> cover_order rva (funcs ! j) = Greater)"
    unfolding assms(3) by (rule binary_search_loop_invariant [where base = 0 and n = "length funcs", unfolded Let_def])
      (use mono assms(2) in auto)
  from b assms(2) show "b < length funcs" by (simp add: Let_def)
  show "i = b" if i: "i < length funcs" "covers rva (funcs ! i)"
  proof (rule linorder_cases [of i b])
    assume "i < b"
    then have "cover_order rva (funcs ! b) = Greater"
      using i b assms(2) table_order(1) [OF assms(1), of i b rva] cover_order_Equal [of rva "funcs ! i"] by (auto simp: Let_def)
    with b assms(2) \<open>i < b\<close> show ?thesis by (auto simp: Let_def)
  next
    assume "b < i"
    with b assms(2) i have "cover_order rva (funcs ! i) = Greater" by (auto simp: Let_def)
    with i cover_order_Equal [of rva "funcs ! i"] show ?thesis by simp
  qed
qed

text \<open>
  C32: the binary search in the exception table is the linear search. On a table in the order the PE format
  prescribes, \<open>lookup_runtime_function\<close> returns the entry that covers the address when there is one, and
  nothing otherwise.
\<close>

theorem lookup_runtime_function_correct:
  assumes "table_sorted funcs"
  shows "lookup_runtime_function funcs rva = find (covers rva) funcs"
proof (cases "funcs = []")
  case True
  then show ?thesis by (simp add: lookup_runtime_function_def binary_search_by_def)
next
  case False
  let ?b = "binary_search_loop (cover_order rva) funcs 0 (length funcs)"
  note b = binary_search_covers [OF assms False refl, where rva = rva]
  have l: "lookup_runtime_function funcs rva = (if covers rva (funcs ! ?b) then Some (funcs ! ?b) else None)"
    using False by (simp add: lookup_runtime_function_def binary_search_by_def Let_def cover_order_Equal)
  show ?thesis
  proof (cases "covers rva (funcs ! ?b)")
    case True
    have "\<not> covers rva (funcs ! j)" if "j < ?b" for j
      using that b(1) b(2) [of j] by (metis less_irrefl less_trans)
    with True b(1) have "find (covers rva) funcs = Some (funcs ! ?b)"
      unfolding find_Some_iff by (intro exI [of _ ?b]) simp
    with l True show ?thesis by simp
  next
    case False
    have "\<not> covers rva g" if "g \<in> set funcs" for g
      using that b(2) False by (metis in_set_conv_nth)
    then have "find (covers rva) funcs = None" by (simp add: find_None_iff)
    with l False show ?thesis by simp
  qed
qed

theorem lookup_runtime_function_correct_witness:
  "table_sorted [\<lparr>begin_rva = 0x1000, end_rva = 0x1010, unwind_info_rva = 1\<rparr>, \<lparr>begin_rva = 0x1010, end_rva = 0x1030, unwind_info_rva = 2\<rparr>] \<and>
   lookup_runtime_function [\<lparr>begin_rva = 0x1000, end_rva = 0x1010, unwind_info_rva = 1\<rparr>, \<lparr>begin_rva = 0x1010, end_rva = 0x1030, unwind_info_rva = 2\<rparr>]
     0x1010 = Some \<lparr>begin_rva = 0x1010, end_rva = 0x1030, unwind_info_rva = 2\<rparr>"
proof -
  have "table_sorted [\<lparr>begin_rva = 0x1000, end_rva = 0x1010, unwind_info_rva = 1\<rparr>, \<lparr>begin_rva = 0x1010, end_rva = 0x1030, unwind_info_rva = 2\<rparr>]"
    by (simp add: table_sorted_def)
  from this lookup_runtime_function_correct [OF this, where rva = "0x1010"] show ?thesis by (simp add: covers_def)
qed

end
