(* ===== verification/Resources.thy ===== *)
theory Resources
  imports Directories
begin

text \<open>
  The remaining directories of \<open>quantum-loader\<close>: debug entries with their CodeView records (\<open>debug.rs\<close>), the load
  configuration (\<open>load_config.rs\<close>), the resource tree (\<open>resources.rs\<close>) and the list of modules of the guest
  process (\<open>peb.rs\<close>). \<open>parse_dir\<close> recurses at most six levels deep; \<open>parse_dir_rec\<close> counts the levels left.
\<close>

section \<open>Debug directory\<close>

definition TYPE_COFF :: u32 where "TYPE_COFF = 1"
definition TYPE_CODEVIEW :: u32 where "TYPE_CODEVIEW = 2"
definition TYPE_FPO :: u32 where "TYPE_FPO = 3"
definition TYPE_MISC :: u32 where "TYPE_MISC = 4"
definition TYPE_REPRO :: u32 where "TYPE_REPRO = 16"

record code_view =
  cv_guid :: bytes
  cv_age :: u32
  cv_pdb_path :: bytes

record debug_entry =
  de_kind :: u32
  de_time_date_stamp :: u32
  de_size_of_data :: u32
  de_address_of_raw_data :: u32
  de_codeview :: "code_view option"

definition parse_codeview :: "loaded_image \<Rightarrow> u32 \<Rightarrow> u32 \<Rightarrow> code_view option result" where
  "parse_codeview img rva sz =
     obind (ok_or (rva_to_slice img rva (unat sz)) (Malformed ''codeview blob'' (unat rva))) (\<lambda>bytes.
     if length bytes < 24 \<or> sub bytes 0 4 \<noteq> [0x52, 0x53, 0x44, 0x53] then Ok None
     else
       let guid = sub bytes 4 20;
           age = u32_from_le (sub bytes 20 24);
           path = takeWhile (\<lambda>b. b \<noteq> 0) (drop 24 bytes)
       in if utf8_valid path then Ok (Some \<lparr>cv_guid = guid, cv_age = age, cv_pdb_path = path\<rparr>)
          else Err (Malformed ''codeview path utf8'' (unat rva + 24)))"

definition debug_entry_at :: "loaded_image \<Rightarrow> u32 \<Rightarrow> u32 \<Rightarrow> debug_entry result" where
  "debug_entry_at img va i =
     obind (mul_or_panic i 28) (\<lambda>o28.
     obind (add_or_panic va o28) (\<lambda>off.
     obind (ok_or (rva_to_slice img off 28) (Malformed ''debug entry oob'' (unat off))) (\<lambda>bytes.
     let kind = u32_from_le (sub bytes 12 16);
         time_date_stamp = u32_from_le (sub bytes 4 8);
         size_of_data = u32_from_le (sub bytes 16 20);
         address_of_raw_data = u32_from_le (sub bytes 20 24)
     in obind (if kind = TYPE_CODEVIEW \<and> size_of_data \<ge> 24 then parse_codeview img address_of_raw_data size_of_data
               else Ok None) (\<lambda>codeview.
        Ok \<lparr>de_kind = kind, de_time_date_stamp = time_date_stamp, de_size_of_data = size_of_data,
            de_address_of_raw_data = address_of_raw_data, de_codeview = codeview\<rparr>))))"

definition parse_debug :: "loaded_image \<Rightarrow> debug_entry list result" where
  "parse_debug img =
     (case data_dir img DIR_DEBUG of
        None \<Rightarrow> Ok []
      | Some dir_entry \<Rightarrow>
          if dir_size dir_entry mod 28 \<noteq> 0
          then Err (Malformed ''debug directory size not multiple of 28'' (unat (virtual_address dir_entry)))
          else collect (debug_entry_at img (virtual_address dir_entry)) (unat (dir_size dir_entry div 28)))"

section \<open>Load configuration\<close>

record load_config =
  lc_size :: u32
  lc_time_date_stamp :: u32
  lc_major_version :: u16
  lc_minor_version :: u16
  lc_global_flags_clear :: u32
  lc_global_flags_set :: u32
  lc_critical_section_default_timeout :: u32
  lc_decommit_free_block_threshold :: u64
  lc_decommit_total_free_threshold :: u64
  lc_lock_prefix_table :: u64
  lc_maximum_allocation_size :: u64
  lc_virtual_memory_threshold :: u64
  lc_process_affinity_mask :: u64
  lc_process_heap_flags :: u32
  lc_csd_version :: u16
  lc_dependent_load_flags :: u16
  lc_edit_list :: u64
  lc_security_cookie_va :: u64
  lc_seh_handler_table_va :: u64
  lc_seh_handler_count :: u64
  lc_guard_cf_check_function_pointer_va :: u64
  lc_guard_cf_dispatch_function_pointer_va :: u64
  lc_guard_cf_function_table_va :: u64
  lc_guard_cf_function_count :: u64
  lc_guard_flags :: u32

definition lc_u32_at :: "bytes \<Rightarrow> nat \<Rightarrow> u32" where
  "lc_u32_at bytes off = (case get_range bytes off 4 of Some s \<Rightarrow> u32_from_le s | None \<Rightarrow> 0)"

definition lc_u16_at :: "bytes \<Rightarrow> nat \<Rightarrow> u16" where
  "lc_u16_at bytes off = (case get_range bytes off 2 of Some s \<Rightarrow> u16_from_le [s ! 0, s ! 1] | None \<Rightarrow> 0)"

definition lc_u64_at :: "bytes \<Rightarrow> nat \<Rightarrow> u64" where
  "lc_u64_at bytes off = (case get_range bytes off 8 of Some s \<Rightarrow> u64_from_le s | None \<Rightarrow> 0)"

definition parse_load_config :: "loaded_image \<Rightarrow> load_config option result" where
  "parse_load_config img =
     (case data_dir img DIR_LOAD_CONFIG of
        None \<Rightarrow> Ok None
      | Some dir_entry \<Rightarrow>
          let va = virtual_address dir_entry in
          obind (ok_or (rva_to_slice img va 4) (Malformed ''load_config head'' (unat va))) (\<lambda>head.
          let sz = u32_from_le head in
          if sz < 0x70 \<or> sz > dir_size dir_entry
          then Err (Malformed ''load_config size out of range'' (unat va))
          else
            obind (ok_or (rva_to_slice img va (unat sz)) (Malformed ''load_config body'' (unat va))) (\<lambda>bytes.
            Ok (Some \<lparr>lc_size = sz, lc_time_date_stamp = lc_u32_at bytes 4,
              lc_major_version = lc_u16_at bytes 8, lc_minor_version = lc_u16_at bytes 10,
              lc_global_flags_clear = lc_u32_at bytes 12, lc_global_flags_set = lc_u32_at bytes 16,
              lc_critical_section_default_timeout = lc_u32_at bytes 20,
              lc_decommit_free_block_threshold = lc_u64_at bytes 24,
              lc_decommit_total_free_threshold = lc_u64_at bytes 32,
              lc_lock_prefix_table = lc_u64_at bytes 40, lc_maximum_allocation_size = lc_u64_at bytes 48,
              lc_virtual_memory_threshold = lc_u64_at bytes 56, lc_process_affinity_mask = lc_u64_at bytes 64,
              lc_process_heap_flags = lc_u32_at bytes 72, lc_csd_version = lc_u16_at bytes 76,
              lc_dependent_load_flags = lc_u16_at bytes 78, lc_edit_list = lc_u64_at bytes 80,
              lc_security_cookie_va = lc_u64_at bytes 88, lc_seh_handler_table_va = lc_u64_at bytes 96,
              lc_seh_handler_count = lc_u64_at bytes 104,
              lc_guard_cf_check_function_pointer_va = lc_u64_at bytes 112,
              lc_guard_cf_dispatch_function_pointer_va = lc_u64_at bytes 120,
              lc_guard_cf_function_table_va = lc_u64_at bytes 128,
              lc_guard_cf_function_count = lc_u64_at bytes 136, lc_guard_flags = lc_u32_at bytes 144\<rparr>))))"

section \<open>Resource tree\<close>

definition DIR_HEADER_SIZE :: u32 where "DIR_HEADER_SIZE = 16"
definition DIR_ENTRY_SIZE :: u32 where "DIR_ENTRY_SIZE = 8"
definition DATA_ENTRY_SIZE :: u32 where "DATA_ENTRY_SIZE = 16"

datatype resource_id = ResName bytes | ResInteger u32

record resource_data =
  rd_data_rva :: u32
  rd_size :: u32
  rd_code_page :: u32

datatype resource_dir =
    ResourceDir (res_characteristics: u32) (res_time_date_stamp: u32) (res_major_version: u16)
      (res_minor_version: u16) (res_entries: "resource_entry list")
and resource_entry = ResourceEntry (res_id: resource_id) (res_kind: resource_kind)
and resource_kind = RK_Dir resource_dir | RK_Data resource_data

text \<open>
  \<open>char::from_u32\<close> on a UTF-16 unit: a surrogate is no character. The character goes into the name in UTF-8.
\<close>

definition push_unit :: "u16 \<Rightarrow> bytes" where
  "push_unit u =
     (if 0xD800 \<le> u \<and> u \<le> 0xDFFF then []
      else if u < 0x80 then [ucast u]
      else if u < 0x800 then [0xC0 OR ucast (drop_bit 6 u), 0x80 OR ucast (u AND 0x3F)]
      else [0xE0 OR ucast (drop_bit 12 u), 0x80 OR ucast (drop_bit 6 u AND 0x3F), 0x80 OR ucast (u AND 0x3F)])"

fun utf16_name :: "bytes \<Rightarrow> bytes" where
  "utf16_name (a # b # bs) = push_unit (u16_from_le [a, b]) @ utf16_name bs"
| "utf16_name bs = []"

definition resource_name :: "loaded_image \<Rightarrow> u32 \<Rightarrow> u32 \<Rightarrow> resource_id result" where
  "resource_name img base_rva id_raw =
     (if id_raw AND 0x80000000 \<noteq> 0 then
        obind (add_or_panic base_rva (id_raw AND 0x7FFFFFFF)) (\<lambda>name_off.
        obind (ok_or (rva_to_slice img name_off 2) (Malformed ''resource name len'' (unat name_off))) (\<lambda>len_bytes.
        let len = unat (u16_from_le [len_bytes ! 0, len_bytes ! 1]) in
        obind (add_or_panic name_off 2) (\<lambda>body_off.
        obind (ok_or (rva_to_slice img body_off (len * 2)) (Malformed ''resource name body'' (unat name_off))) (\<lambda>chars_bytes.
        Ok (ResName (utf16_name chars_bytes))))))
      else Ok (ResInteger id_raw))"

definition resource_kind_of ::
  "(u32 \<Rightarrow> resource_dir result) \<Rightarrow> loaded_image \<Rightarrow> u32 \<Rightarrow> u32 \<Rightarrow> resource_kind result" where
  "resource_kind_of sub_dir img base_rva kind_raw =
     (if kind_raw AND 0x80000000 \<noteq> 0 then
        obind (add_or_panic base_rva (kind_raw AND 0x7FFFFFFF)) (\<lambda>child_rva.
        obind (sub_dir child_rva) (\<lambda>d. Ok (RK_Dir d)))
      else
        obind (add_or_panic base_rva kind_raw) (\<lambda>data_off.
        obind (ok_or (rva_to_slice img data_off (unat DATA_ENTRY_SIZE)) (Malformed ''resource data entry'' (unat data_off))) (\<lambda>b.
        Ok (RK_Data \<lparr>rd_data_rva = u32_from_le (sub b 0 4), rd_size = u32_from_le (sub b 4 8),
                     rd_code_page = u32_from_le (sub b 8 12)\<rparr>))))"

definition resource_entry_at ::
  "(u32 \<Rightarrow> resource_dir result) \<Rightarrow> loaded_image \<Rightarrow> u32 \<Rightarrow> u32 \<Rightarrow> u32 \<Rightarrow> resource_entry result" where
  "resource_entry_at sub_dir img base_rva dir_rva i =
     obind (add_or_panic dir_rva DIR_HEADER_SIZE) (\<lambda>first.
     obind (mul_or_panic i DIR_ENTRY_SIZE) (\<lambda>i8.
     obind (add_or_panic first i8) (\<lambda>off.
     obind (ok_or (rva_to_slice img off (unat DIR_ENTRY_SIZE)) (Malformed ''resource entry oob'' (unat off))) (\<lambda>entry_bytes.
     let id_raw = u32_from_le (sub entry_bytes 0 4); kind_raw = u32_from_le (sub entry_bytes 4 8) in
     obind (resource_name img base_rva id_raw) (\<lambda>resource_id.
     obind (resource_kind_of sub_dir img base_rva kind_raw) (\<lambda>kind.
     Ok (ResourceEntry resource_id kind)))))))"

primrec parse_dir_rec :: "loaded_image \<Rightarrow> u32 \<Rightarrow> nat \<Rightarrow> u32 \<Rightarrow> resource_dir result" where
  "parse_dir_rec img base_rva 0 = (\<lambda>dir_rva. Err (Malformed ''resource depth'' (unat dir_rva)))"
| "parse_dir_rec img base_rva (Suc levels) = (\<lambda>dir_rva.
     obind (ok_or (rva_to_slice img dir_rva (unat DIR_HEADER_SIZE)) (Malformed ''resource dir header'' (unat dir_rva))) (\<lambda>bytes.
     let named = ucast (u16_from_le [bytes ! 12, bytes ! 13]) :: u32;
         id = ucast (u16_from_le [bytes ! 14, bytes ! 15]) :: u32;
         total = named + id
     in obind (collect (resource_entry_at (parse_dir_rec img base_rva levels) img base_rva dir_rva) (unat total)) (\<lambda>entries.
        Ok (ResourceDir (u32_from_le (sub bytes 0 4)) (u32_from_le (sub bytes 4 8)) (u16_from_le [bytes ! 8, bytes ! 9])
              (u16_from_le [bytes ! 10, bytes ! 11]) entries))))"

definition parse_dir :: "loaded_image \<Rightarrow> u32 \<Rightarrow> u32 \<Rightarrow> nat \<Rightarrow> resource_dir result" where
  "parse_dir img base_rva dir_rva depth = parse_dir_rec img base_rva (6 - depth) dir_rva"

definition parse_resources :: "loaded_image \<Rightarrow> resource_dir option result" where
  "parse_resources img =
     (case data_dir img DIR_RESOURCE of
        None \<Rightarrow> Ok None
      | Some dir_entry \<Rightarrow>
          obind (parse_dir img (virtual_address dir_entry) (virtual_address dir_entry) 0) (\<lambda>root. Ok (Some root)))"

section \<open>Modules of the guest process\<close>

record guest_image_record =
  gi_base_va :: u64
  gi_size :: u32
  gi_entry_va :: u64
  gi_dll_name :: bytes
  gi_full_path :: bytes

definition from_loaded :: "bytes \<Rightarrow> loaded_image \<Rightarrow> guest_image_record" where
  "from_loaded name img =
     \<lparr>gi_base_va = actual_base img, gi_size = size_of_image img,
      gi_entry_va = actual_base img + ucast (entry_rva img), gi_dll_name = name, gi_full_path = []\<rparr>"

record guest_process_layout = gp_modules :: "guest_image_record list"

definition push_module :: "guest_image_record \<Rightarrow> guest_process_layout \<Rightarrow> guest_process_layout" where
  "push_module m l = l\<lparr>gp_modules := gp_modules l @ [m]\<rparr>"

end
