(* ===== verification/Emitter.thy ===== *)
theory Emitter
  imports Prelude
begin

text \<open>
  \<open>quantum-jit/src/emitter.rs\<close>: the AArch64 instruction emitter. The \<open>Emitter\<close> is a buffer of
  32-bit words, the table of its labels and the branches that wait for a label. Every method is a
  state transformer of type \<open>em\<close>: it returns \<open>Ok\<close>, an \<open>Err\<close> of the caller's error type or a panic
  (an \<open>assert!\<close>, a \<open>debug_assert!\<close>, an \<open>expect\<close> or an index out of range), and the emitter it leaves.
  \<open>seq\<close> runs the statements of a method in order. A \<open>Reg\<close> is its \<open>u8\<close> number, a \<open>Label\<close> its
  \<open>u32\<close> number, an \<open>i32\<close> offset an integer. The single-letter and reserved method names carry the
  prefix \<open>em_\<close>; \<open>bind\<close> is \<open>bind_label\<close>.
\<close>

unbundle bit_operations_syntax

type_synonym reg = u8
type_synonym label = u32

abbreviation (input) X0 :: reg where "X0 \<equiv> 0"
abbreviation (input) X1 :: reg where "X1 \<equiv> 1"
abbreviation (input) X2 :: reg where "X2 \<equiv> 2"
abbreviation (input) X3 :: reg where "X3 \<equiv> 3"
abbreviation (input) X4 :: reg where "X4 \<equiv> 4"
abbreviation (input) X5 :: reg where "X5 \<equiv> 5"
abbreviation (input) X6 :: reg where "X6 \<equiv> 6"
abbreviation (input) X7 :: reg where "X7 \<equiv> 7"
abbreviation (input) X8 :: reg where "X8 \<equiv> 8"
abbreviation (input) X9 :: reg where "X9 \<equiv> 9"
abbreviation (input) X12 :: reg where "X12 \<equiv> 12"
abbreviation (input) X13 :: reg where "X13 \<equiv> 13"
abbreviation (input) X14 :: reg where "X14 \<equiv> 14"
abbreviation (input) X15 :: reg where "X15 \<equiv> 15"
abbreviation (input) X16 :: reg where "X16 \<equiv> 16"
abbreviation (input) X17 :: reg where "X17 \<equiv> 17"
abbreviation (input) X19 :: reg where "X19 \<equiv> 19"
abbreviation (input) X24 :: reg where "X24 \<equiv> 24"
abbreviation (input) X25 :: reg where "X25 \<equiv> 25"
abbreviation (input) X28 :: reg where "X28 \<equiv> 28"
abbreviation (input) X29 :: reg where "X29 \<equiv> 29"
abbreviation (input) X30 :: reg where "X30 \<equiv> 30"
abbreviation (input) XZR :: reg where "XZR \<equiv> 31"
abbreviation (input) SP :: reg where "SP \<equiv> 31"

section \<open>Condition codes, widths, shifts\<close>

datatype a64_cond =
    C_Eq | C_Ne | C_Cs | C_Cc | C_Mi | C_Pl | C_Vs | C_Vc
  | C_Hi | C_Ls | C_Ge | C_Lt | C_Gt | C_Le | C_Al | C_Nv

definition a64_conds :: "a64_cond list" where
  "a64_conds = [C_Eq, C_Ne, C_Cs, C_Cc, C_Mi, C_Pl, C_Vs, C_Vc,
                C_Hi, C_Ls, C_Ge, C_Lt, C_Gt, C_Le, C_Al, C_Nv]"

primrec cond_bits :: "a64_cond \<Rightarrow> u32" where
  "cond_bits C_Eq = 0b0000" | "cond_bits C_Ne = 0b0001" | "cond_bits C_Cs = 0b0010"
| "cond_bits C_Cc = 0b0011" | "cond_bits C_Mi = 0b0100" | "cond_bits C_Pl = 0b0101"
| "cond_bits C_Vs = 0b0110" | "cond_bits C_Vc = 0b0111" | "cond_bits C_Hi = 0b1000"
| "cond_bits C_Ls = 0b1001" | "cond_bits C_Ge = 0b1010" | "cond_bits C_Lt = 0b1011"
| "cond_bits C_Gt = 0b1100" | "cond_bits C_Le = 0b1101" | "cond_bits C_Al = 0b1110"
| "cond_bits C_Nv = 0b1111"

text \<open>\<open>Cond::invert\<close> toggles bit 0 of the discriminant and transmutes it back.\<close>

definition invert :: "a64_cond \<Rightarrow> a64_cond" where
  "invert c = a64_conds ! unat (cond_bits c XOR 1)"

datatype sf = Sf_W | Sf_X

primrec sf_bit :: "sf \<Rightarrow> u32" where
  "sf_bit Sf_W = 0" | "sf_bit Sf_X = 1"

datatype shift_kind = Lsl | Lsr | Asr | Ror

primrec shift_bits :: "shift_kind \<Rightarrow> u32" where
  "shift_bits Lsl = 0b00" | "shift_bits Lsr = 0b01" | "shift_bits Asr = 0b10" | "shift_bits Ror = 0b11"

section \<open>The emitter: code, labels, fixups\<close>

datatype fixup_kind = Branch26 | Branch19 | Branch14

record fixup =
  fx_word_index :: nat
  fx_kind :: fixup_kind
  fx_label :: u32

record emitter =
  em_code :: "u32 list"
  em_labels :: "nat option list"
  em_fixups :: "fixup list"

datatype finish_error = UnboundLabel u32 | BranchOutOfRange

type_synonym 'e em = "emitter \<Rightarrow> ('e, unit) outcome \<times> emitter"

primrec seq :: "'e em list \<Rightarrow> 'e em" where
  "seq [] = (\<lambda>e. (Ok (), e))"
| "seq (m # ms) = (\<lambda>e. sbind (m e) (\<lambda>_. seq ms))"

definition debug_assert :: "bool \<Rightarrow> 'e em" where
  "debug_assert c = (\<lambda>e. (if c then Ok () else Panic ''assertion failed'', e))"

definition new_emitter :: emitter where
  "new_emitter = \<lparr>em_code = [], em_labels = [], em_fixups = []\<rparr>"

definition em_position :: "emitter \<Rightarrow> nat" where
  "em_position e = length (em_code e)"

definition em_bytes :: "emitter \<Rightarrow> bytes" where
  "em_bytes e = concat (map u32_to_le (em_code e))"

definition make_label :: "emitter \<Rightarrow> ('e, label) outcome \<times> emitter" where
  "make_label e = (Ok (of_nat (length (em_labels e))), e\<lparr>em_labels := em_labels e @ [None]\<rparr>)"

definition bind_label :: "label \<Rightarrow> 'e em" where
  "bind_label label e =
     (if \<not> unat label < length (em_labels e) then (Panic ''assertion failed'', e)
      else case em_labels e ! unat label of
        Some at \<Rightarrow> (Panic ''label already bound'', e)
      | None \<Rightarrow> (Ok (), e\<lparr>em_labels := (em_labels e)[unat label := Some (length (em_code e))]\<rparr>))"

definition patch_branch :: "u32 \<Rightarrow> fixup_kind \<Rightarrow> int \<Rightarrow> (finish_error, u32) outcome" where
  "patch_branch base kind delta_words =
     (let imm = delta_words in
      case kind of
        Branch26 \<Rightarrow>
          if \<not> (- (2 ^ 25) \<le> imm \<and> imm < 2 ^ 25) then Err BranchOutOfRange
          else Ok ((base AND 0xFC000000) OR (word_of_int imm AND 0x03FFFFFF))
      | Branch19 \<Rightarrow>
          if \<not> (- (2 ^ 18) \<le> imm \<and> imm < 2 ^ 18) then Err BranchOutOfRange
          else Ok ((base AND 0xFF00001F) OR push_bit 5 (word_of_int imm AND 0x0007FFFF))
      | Branch14 \<Rightarrow>
          if \<not> (- (2 ^ 13) \<le> imm \<and> imm < 2 ^ 13) then Err BranchOutOfRange
          else Ok ((base AND 0xFFF8001F) OR push_bit 5 (word_of_int imm AND 0x00003FFF)))"

text \<open>The loop of \<open>finish\<close> over the fixups it took out of the emitter.\<close>

fun resolve_fixups :: "fixup list \<Rightarrow> finish_error em" where
  "resolve_fixups [] e = (Ok (), e)"
| "resolve_fixups (f # fs) e =
     (if \<not> unat (fx_label f) < length (em_labels e) then (Panic ''index out of bounds'', e)
      else case em_labels e ! unat (fx_label f) of
        None \<Rightarrow> (Err (UnboundLabel (fx_label f)), e)
      | Some bound \<Rightarrow>
          (if \<not> fx_word_index f < length (em_code e) then (Panic ''index out of bounds'', e)
           else
             let delta = int bound - int (fx_word_index f);
                 word = em_code e ! fx_word_index f
             in sbind (patch_branch word (fx_kind f) delta, e)
                  (\<lambda>w e. resolve_fixups fs (e\<lparr>em_code := (em_code e)[fx_word_index f := w]\<rparr>))))"

definition finish :: "finish_error em" where
  "finish e = resolve_fixups (em_fixups e) (e\<lparr>em_fixups := []\<rparr>)"

definition push :: "u32 \<Rightarrow> 'e em" where
  "push word e = (Ok (), e\<lparr>em_code := em_code e @ [word]\<rparr>)"

definition raw_word :: "u32 \<Rightarrow> 'e em" where
  "raw_word word = push word"

definition emit_branch :: "u32 \<Rightarrow> fixup_kind \<Rightarrow> label \<Rightarrow> 'e em" where
  "emit_branch base_word kind label e =
     (let word_index = length (em_code e) in
      sbind (push base_word e) (\<lambda>_ e.
        if \<not> unat label < length (em_labels e) then (Panic ''index out of bounds'', e)
        else case em_labels e ! unat label of
          Some at \<Rightarrow>
            (case patch_branch base_word kind (int at - int word_index) of
               Ok w \<Rightarrow> (Ok (), e\<lparr>em_code := (em_code e)[word_index := w]\<rparr>)
             | Err _ \<Rightarrow> (Panic ''backward branch out of range'', e)
             | Panic p \<Rightarrow> (Panic p, e))
        | None \<Rightarrow>
            (Ok (), e\<lparr>em_fixups := em_fixups e @
               [\<lparr>fx_word_index = word_index, fx_kind = kind, fx_label = label\<rparr>]\<rparr>)))"

section \<open>Move wide (MOVZ / MOVN / MOVK)\<close>

definition movw :: "sf \<Rightarrow> u32 \<Rightarrow> u32 \<Rightarrow> u16 \<Rightarrow> reg \<Rightarrow> 'e em" where
  "movw sf opc hw imm16 rd =
     seq [debug_assert (hw < (if sf = Sf_X then 4 else 2)), push (push_bit 31 (sf_bit sf) OR
       push_bit 29 opc OR push_bit 23 0b100101 OR push_bit 21 hw OR push_bit 5 (ucast imm16) OR
       ucast rd)]"

definition movz64 :: "reg \<Rightarrow> u16 \<Rightarrow> u32 \<Rightarrow> 'e em" where
  "movz64 rd imm16 lsl = movw Sf_X 0b10 (lsl div 16) imm16 rd"

definition movz32 :: "reg \<Rightarrow> u16 \<Rightarrow> u32 \<Rightarrow> 'e em" where
  "movz32 rd imm16 lsl = movw Sf_W 0b10 (lsl div 16) imm16 rd"

definition movn64 :: "reg \<Rightarrow> u16 \<Rightarrow> u32 \<Rightarrow> 'e em" where
  "movn64 rd imm16 lsl = movw Sf_X 0 (lsl div 16) imm16 rd"

definition movk64 :: "reg \<Rightarrow> u16 \<Rightarrow> u32 \<Rightarrow> 'e em" where
  "movk64 rd imm16 lsl = movw Sf_X 0b11 (lsl div 16) imm16 rd"

definition movk32 :: "reg \<Rightarrow> u16 \<Rightarrow> u32 \<Rightarrow> 'e em" where
  "movk32 rd imm16 lsl = movw Sf_W 0b11 (lsl div 16) imm16 rd"

text \<open>The walk of \<open>load_const64\<close> over the four 16-bit lanes, \<open>emitted\<close> being its flag.\<close>

fun load_lanes :: "reg \<Rightarrow> u64 \<Rightarrow> bool \<Rightarrow> nat list \<Rightarrow> 'e em" where
  "load_lanes rd value emitted [] = (if \<not> emitted then movz64 rd 0 0 else seq [])"
| "load_lanes rd value emitted (lane # lanes) =
     (let part = (ucast (drop_bit (lane * 16) value AND 0xFFFF) :: u16) in
      if part = 0 \<and> emitted then load_lanes rd value emitted lanes
      else if \<not> emitted \<and> part = 0 \<and> lane \<noteq> 3 then load_lanes rd value emitted lanes
      else if \<not> emitted then
        seq [movz64 rd part (of_nat lane * 16), load_lanes rd value True lanes]
      else seq [movk64 rd part (of_nat lane * 16), load_lanes rd value emitted lanes])"

definition load_const64 :: "reg \<Rightarrow> u64 \<Rightarrow> 'e em" where
  "load_const64 rd value =
     (if value AND NOT 0xFFFF = 0 then movz64 rd (ucast value) 0
      else load_lanes rd value False [0, 1, 2, 3])"

section \<open>Add/sub (immediate)\<close>

definition encode_addsub_imm :: "u32 \<Rightarrow> (u32 \<times> u32) option" where
  "encode_addsub_imm value =
     (if value < push_bit 12 1 then Some (0, value)
      else if value AND 0xFFF = 0 \<and> drop_bit 12 value < push_bit 12 1
      then Some (1, drop_bit 12 value)
      else None)"

definition addsub_imm :: "sf \<Rightarrow> u32 \<Rightarrow> u32 \<Rightarrow> u32 \<Rightarrow> u32 \<Rightarrow> reg \<Rightarrow> reg \<Rightarrow> 'e em" where
  "addsub_imm sf op s shift imm12 rn rd =
     seq [debug_assert (imm12 < push_bit 12 1), debug_assert (shift \<le> 1),
       push (push_bit 31 (sf_bit sf) OR push_bit 30 op OR push_bit 29 s OR
       push_bit 23 0b100010 OR push_bit 22 shift OR push_bit 10 imm12 OR
       push_bit 5 (ucast rn) OR ucast rd)]"

definition add64_imm :: "reg \<Rightarrow> reg \<Rightarrow> u32 \<Rightarrow> 'e em" where
  "add64_imm rd rn imm =
     (\<lambda>e. case encode_addsub_imm imm of
       None \<Rightarrow> (Panic ''imm out of range'', e)
     | Some (shift, imm12) \<Rightarrow> addsub_imm Sf_X 0 0 shift imm12 rn rd e)"

definition adds64_imm :: "reg \<Rightarrow> reg \<Rightarrow> u32 \<Rightarrow> 'e em" where
  "adds64_imm rd rn imm =
     (\<lambda>e. case encode_addsub_imm imm of
       None \<Rightarrow> (Panic ''imm out of range'', e)
     | Some (shift, imm12) \<Rightarrow> addsub_imm Sf_X 0 1 shift imm12 rn rd e)"

definition sub64_imm :: "reg \<Rightarrow> reg \<Rightarrow> u32 \<Rightarrow> 'e em" where
  "sub64_imm rd rn imm =
     (\<lambda>e. case encode_addsub_imm imm of
       None \<Rightarrow> (Panic ''imm out of range'', e)
     | Some (shift, imm12) \<Rightarrow> addsub_imm Sf_X 1 0 shift imm12 rn rd e)"

definition subs64_imm :: "reg \<Rightarrow> reg \<Rightarrow> u32 \<Rightarrow> 'e em" where
  "subs64_imm rd rn imm =
     (\<lambda>e. case encode_addsub_imm imm of
       None \<Rightarrow> (Panic ''imm out of range'', e)
     | Some (shift, imm12) \<Rightarrow> addsub_imm Sf_X 1 1 shift imm12 rn rd e)"

definition cmp64_imm :: "reg \<Rightarrow> u32 \<Rightarrow> 'e em" where
  "cmp64_imm rn imm = subs64_imm XZR rn imm"

section \<open>Add/sub (shifted register)\<close>

definition addsub_shifted ::
  "sf \<Rightarrow> u32 \<Rightarrow> u32 \<Rightarrow> shift_kind \<Rightarrow> reg \<Rightarrow> u32 \<Rightarrow> reg \<Rightarrow> reg \<Rightarrow> 'e em" where
  "addsub_shifted sf op s shift rm imm6 rn rd =
     seq [debug_assert (imm6 < 64), push (push_bit 31 (sf_bit sf) OR push_bit 30 op OR
       push_bit 29 s OR push_bit 24 0b1011 OR push_bit 22 (shift_bits shift) OR push_bit 21 0 OR
       push_bit 16 (ucast rm) OR push_bit 10 imm6 OR push_bit 5 (ucast rn) OR ucast rd)]"

definition add64 :: "reg \<Rightarrow> reg \<Rightarrow> reg \<Rightarrow> 'e em" where
  "add64 rd rn rm = addsub_shifted Sf_X 0 0 Lsl rm 0 rn rd"

definition adds64 :: "reg \<Rightarrow> reg \<Rightarrow> reg \<Rightarrow> 'e em" where
  "adds64 rd rn rm = addsub_shifted Sf_X 0 1 Lsl rm 0 rn rd"

definition sub64 :: "reg \<Rightarrow> reg \<Rightarrow> reg \<Rightarrow> 'e em" where
  "sub64 rd rn rm = addsub_shifted Sf_X 1 0 Lsl rm 0 rn rd"

definition subs64 :: "reg \<Rightarrow> reg \<Rightarrow> reg \<Rightarrow> 'e em" where
  "subs64 rd rn rm = addsub_shifted Sf_X 1 1 Lsl rm 0 rn rd"

definition cmp64 :: "reg \<Rightarrow> reg \<Rightarrow> 'e em" where
  "cmp64 rn rm = subs64 XZR rn rm"

section \<open>Logical (shifted register + immediate)\<close>

definition logical_shifted ::
  "sf \<Rightarrow> u32 \<Rightarrow> shift_kind \<Rightarrow> u32 \<Rightarrow> reg \<Rightarrow> u32 \<Rightarrow> reg \<Rightarrow> reg \<Rightarrow> 'e em" where
  "logical_shifted sf opc shift n rm imm6 rn rd =
     push (push_bit 31 (sf_bit sf) OR push_bit 29 opc OR push_bit 24 0b1010 OR
       push_bit 22 (shift_bits shift) OR push_bit 21 n OR push_bit 16 (ucast rm) OR
       push_bit 10 imm6 OR push_bit 5 (ucast rn) OR ucast rd)"

definition and64 :: "reg \<Rightarrow> reg \<Rightarrow> reg \<Rightarrow> 'e em" where
  "and64 rd rn rm = logical_shifted Sf_X 0 Lsl 0 rm 0 rn rd"

definition orr64 :: "reg \<Rightarrow> reg \<Rightarrow> reg \<Rightarrow> 'e em" where
  "orr64 rd rn rm = logical_shifted Sf_X 1 Lsl 0 rm 0 rn rd"

definition eor64 :: "reg \<Rightarrow> reg \<Rightarrow> reg \<Rightarrow> 'e em" where
  "eor64 rd rn rm = logical_shifted Sf_X 0b10 Lsl 0 rm 0 rn rd"

definition ands64 :: "reg \<Rightarrow> reg \<Rightarrow> reg \<Rightarrow> 'e em" where
  "ands64 rd rn rm = logical_shifted Sf_X 0b11 Lsl 0 rm 0 rn rd"

definition mov64 :: "reg \<Rightarrow> reg \<Rightarrow> 'e em" where
  "mov64 rd rm = orr64 rd XZR rm"

section \<open>Data processing (1- and 2-source)\<close>

definition dp_2src :: "sf \<Rightarrow> u32 \<Rightarrow> reg \<Rightarrow> reg \<Rightarrow> reg \<Rightarrow> 'e em" where
  "dp_2src sf opcode rm rn rd =
     push (push_bit 31 (sf_bit sf) OR push_bit 30 0 OR push_bit 29 0 OR
       push_bit 21 0b11010110 OR push_bit 16 (ucast rm) OR push_bit 10 opcode OR
       push_bit 5 (ucast rn) OR ucast rd)"

definition udiv64 :: "reg \<Rightarrow> reg \<Rightarrow> reg \<Rightarrow> 'e em" where
  "udiv64 rd rn rm = dp_2src Sf_X 0b10 rm rn rd"

definition sdiv64 :: "reg \<Rightarrow> reg \<Rightarrow> reg \<Rightarrow> 'e em" where
  "sdiv64 rd rn rm = dp_2src Sf_X 0b11 rm rn rd"

definition lslv64 :: "reg \<Rightarrow> reg \<Rightarrow> reg \<Rightarrow> 'e em" where
  "lslv64 rd rn rm = dp_2src Sf_X 0b1000 rm rn rd"

definition lsrv64 :: "reg \<Rightarrow> reg \<Rightarrow> reg \<Rightarrow> 'e em" where
  "lsrv64 rd rn rm = dp_2src Sf_X 0b1001 rm rn rd"

definition asrv64 :: "reg \<Rightarrow> reg \<Rightarrow> reg \<Rightarrow> 'e em" where
  "asrv64 rd rn rm = dp_2src Sf_X 0b1010 rm rn rd"

definition rorv64 :: "reg \<Rightarrow> reg \<Rightarrow> reg \<Rightarrow> 'e em" where
  "rorv64 rd rn rm = dp_2src Sf_X 0b1011 rm rn rd"

definition madd64 :: "reg \<Rightarrow> reg \<Rightarrow> reg \<Rightarrow> reg \<Rightarrow> 'e em" where
  "madd64 rd rn rm ra =
     push (push_bit 31 1 OR push_bit 29 0 OR push_bit 24 0b11011 OR push_bit 21 0 OR
       push_bit 16 (ucast rm) OR push_bit 15 0 OR push_bit 10 (ucast ra) OR
       push_bit 5 (ucast rn) OR ucast rd)"

definition mul64 :: "reg \<Rightarrow> reg \<Rightarrow> reg \<Rightarrow> 'e em" where
  "mul64 rd rn rm = madd64 rd rn rm XZR"

definition msub64 :: "reg \<Rightarrow> reg \<Rightarrow> reg \<Rightarrow> reg \<Rightarrow> 'e em" where
  "msub64 rd rn rm ra =
     push (push_bit 31 1 OR push_bit 29 0 OR push_bit 24 0b11011 OR push_bit 21 0 OR
       push_bit 16 (ucast rm) OR push_bit 15 1 OR push_bit 10 (ucast ra) OR
       push_bit 5 (ucast rn) OR ucast rd)"

definition umulh64 :: "reg \<Rightarrow> reg \<Rightarrow> reg \<Rightarrow> 'e em" where
  "umulh64 rd rn rm =
     push (0x9BC07C00 OR push_bit 16 (ucast rm) OR push_bit 5 (ucast rn) OR ucast rd)"

definition smulh64 :: "reg \<Rightarrow> reg \<Rightarrow> reg \<Rightarrow> 'e em" where
  "smulh64 rd rn rm =
     push (0x9B407C00 OR push_bit 16 (ucast rm) OR push_bit 5 (ucast rn) OR ucast rd)"

section \<open>Conditional select / set\<close>

definition csel_form :: "sf \<Rightarrow> u32 \<Rightarrow> u32 \<Rightarrow> reg \<Rightarrow> a64_cond \<Rightarrow> reg \<Rightarrow> reg \<Rightarrow> 'e em" where
  "csel_form sf op o2 rm cond rn rd =
     push (push_bit 31 (sf_bit sf) OR push_bit 30 op OR push_bit 29 0 OR
       push_bit 21 0b11010100 OR push_bit 16 (ucast rm) OR push_bit 12 (cond_bits cond) OR
       push_bit 10 o2 OR push_bit 5 (ucast rn) OR ucast rd)"

definition csel64 :: "reg \<Rightarrow> reg \<Rightarrow> reg \<Rightarrow> a64_cond \<Rightarrow> 'e em" where
  "csel64 rd rn rm cond = csel_form Sf_X 0 0 rm cond rn rd"

definition csinc64 :: "reg \<Rightarrow> reg \<Rightarrow> reg \<Rightarrow> a64_cond \<Rightarrow> 'e em" where
  "csinc64 rd rn rm cond = csel_form Sf_X 0 1 rm cond rn rd"

definition csinv64 :: "reg \<Rightarrow> reg \<Rightarrow> reg \<Rightarrow> a64_cond \<Rightarrow> 'e em" where
  "csinv64 rd rn rm cond = csel_form Sf_X 1 0 rm cond rn rd"

definition csneg64 :: "reg \<Rightarrow> reg \<Rightarrow> reg \<Rightarrow> a64_cond \<Rightarrow> 'e em" where
  "csneg64 rd rn rm cond = csel_form Sf_X 1 1 rm cond rn rd"

definition cset64 :: "reg \<Rightarrow> a64_cond \<Rightarrow> 'e em" where
  "cset64 rd cond = csinc64 rd XZR XZR (invert cond)"

section \<open>Load / Store (immediate, unsigned offset)\<close>

definition ldst_uoff :: "u32 \<Rightarrow> u32 \<Rightarrow> u32 \<Rightarrow> u32 \<Rightarrow> reg \<Rightarrow> reg \<Rightarrow> 'e em" where
  "ldst_uoff sz v opc imm12 rn rt =
     seq [debug_assert (imm12 < push_bit 12 1), push (push_bit 30 sz OR push_bit 27 0b111 OR
       push_bit 26 v OR push_bit 24 1 OR push_bit 22 opc OR push_bit 10 imm12 OR
       push_bit 5 (ucast rn) OR ucast rt)]"

definition ldr64 :: "reg \<Rightarrow> reg \<Rightarrow> u32 \<Rightarrow> 'e em" where
  "ldr64 rt rn offset =
     seq [debug_assert (offset mod 8 = 0), ldst_uoff 0b11 0 1 (offset div 8) rn rt]"

definition ldr32 :: "reg \<Rightarrow> reg \<Rightarrow> u32 \<Rightarrow> 'e em" where
  "ldr32 rt rn offset =
     seq [debug_assert (offset mod 4 = 0), ldst_uoff 0b10 0 1 (offset div 4) rn rt]"

definition ldrb :: "reg \<Rightarrow> reg \<Rightarrow> u32 \<Rightarrow> 'e em" where
  "ldrb rt rn offset = ldst_uoff 0 0 1 offset rn rt"

definition ldrh :: "reg \<Rightarrow> reg \<Rightarrow> u32 \<Rightarrow> 'e em" where
  "ldrh rt rn offset = seq [debug_assert (offset mod 2 = 0), ldst_uoff 1 0 1 (offset div 2) rn rt]"

definition str64 :: "reg \<Rightarrow> reg \<Rightarrow> u32 \<Rightarrow> 'e em" where
  "str64 rt rn offset =
     seq [debug_assert (offset mod 8 = 0), ldst_uoff 0b11 0 0 (offset div 8) rn rt]"

definition str32 :: "reg \<Rightarrow> reg \<Rightarrow> u32 \<Rightarrow> 'e em" where
  "str32 rt rn offset =
     seq [debug_assert (offset mod 4 = 0), ldst_uoff 0b10 0 0 (offset div 4) rn rt]"

definition strb :: "reg \<Rightarrow> reg \<Rightarrow> u32 \<Rightarrow> 'e em" where
  "strb rt rn offset = ldst_uoff 0 0 0 offset rn rt"

definition strh :: "reg \<Rightarrow> reg \<Rightarrow> u32 \<Rightarrow> 'e em" where
  "strh rt rn offset = seq [debug_assert (offset mod 2 = 0), ldst_uoff 1 0 0 (offset div 2) rn rt]"

definition ldr_q :: "reg \<Rightarrow> reg \<Rightarrow> u32 \<Rightarrow> 'e em" where
  "ldr_q vt rn offset =
     seq [debug_assert (offset mod 16 = 0), ldst_uoff 0 1 0b11 (offset div 16) rn vt]"

definition str_q :: "reg \<Rightarrow> reg \<Rightarrow> u32 \<Rightarrow> 'e em" where
  "str_q vt rn offset =
     seq [debug_assert (offset mod 16 = 0), ldst_uoff 0 1 0b10 (offset div 16) rn vt]"

definition ldr_d :: "reg \<Rightarrow> reg \<Rightarrow> u32 \<Rightarrow> 'e em" where
  "ldr_d vt rn offset =
     seq [debug_assert (offset mod 8 = 0), ldst_uoff 0b11 1 1 (offset div 8) rn vt]"

definition str_d :: "reg \<Rightarrow> reg \<Rightarrow> u32 \<Rightarrow> 'e em" where
  "str_d vt rn offset =
     seq [debug_assert (offset mod 8 = 0), ldst_uoff 0b11 1 0 (offset div 8) rn vt]"

definition ldr_s :: "reg \<Rightarrow> reg \<Rightarrow> u32 \<Rightarrow> 'e em" where
  "ldr_s vt rn offset =
     seq [debug_assert (offset mod 4 = 0), ldst_uoff 0b10 1 1 (offset div 4) rn vt]"

definition str_s :: "reg \<Rightarrow> reg \<Rightarrow> u32 \<Rightarrow> 'e em" where
  "str_s vt rn offset =
     seq [debug_assert (offset mod 4 = 0), ldst_uoff 0b10 1 0 (offset div 4) rn vt]"

definition eor_v16b :: "reg \<Rightarrow> reg \<Rightarrow> reg \<Rightarrow> 'e em" where
  "eor_v16b vd vn vm =
     push (0x6E201C00 OR push_bit 16 (ucast vm) OR push_bit 5 (ucast vn) OR ucast vd)"

definition and_v16b :: "reg \<Rightarrow> reg \<Rightarrow> reg \<Rightarrow> 'e em" where
  "and_v16b vd vn vm =
     push (0x4E201C00 OR push_bit 16 (ucast vm) OR push_bit 5 (ucast vn) OR ucast vd)"

definition orr_v16b :: "reg \<Rightarrow> reg \<Rightarrow> reg \<Rightarrow> 'e em" where
  "orr_v16b vd vn vm =
     push (0x4EA01C00 OR push_bit 16 (ucast vm) OR push_bit 5 (ucast vn) OR ucast vd)"

definition fp2src :: "u32 \<Rightarrow> reg \<Rightarrow> reg \<Rightarrow> reg \<Rightarrow> 'e em" where
  "fp2src base vd vn vm =
     push (base OR push_bit 16 (ucast vm) OR push_bit 5 (ucast vn) OR ucast vd)"

definition fadd_d :: "reg \<Rightarrow> reg \<Rightarrow> reg \<Rightarrow> 'e em" where
  "fadd_d vd vn vm = fp2src 0x1E602800 vd vn vm"

definition fsub_d :: "reg \<Rightarrow> reg \<Rightarrow> reg \<Rightarrow> 'e em" where
  "fsub_d vd vn vm = fp2src 0x1E603800 vd vn vm"

definition fmul_d :: "reg \<Rightarrow> reg \<Rightarrow> reg \<Rightarrow> 'e em" where
  "fmul_d vd vn vm = fp2src 0x1E600800 vd vn vm"

definition fdiv_d :: "reg \<Rightarrow> reg \<Rightarrow> reg \<Rightarrow> 'e em" where
  "fdiv_d vd vn vm = fp2src 0x1E601800 vd vn vm"

definition fadd_s :: "reg \<Rightarrow> reg \<Rightarrow> reg \<Rightarrow> 'e em" where
  "fadd_s vd vn vm = fp2src 0x1E202800 vd vn vm"

definition fsub_s :: "reg \<Rightarrow> reg \<Rightarrow> reg \<Rightarrow> 'e em" where
  "fsub_s vd vn vm = fp2src 0x1E203800 vd vn vm"

definition fmul_s :: "reg \<Rightarrow> reg \<Rightarrow> reg \<Rightarrow> 'e em" where
  "fmul_s vd vn vm = fp2src 0x1E200800 vd vn vm"

definition fdiv_s :: "reg \<Rightarrow> reg \<Rightarrow> reg \<Rightarrow> 'e em" where
  "fdiv_s vd vn vm = fp2src 0x1E201800 vd vn vm"

definition fp_cvt :: "u32 \<Rightarrow> reg \<Rightarrow> reg \<Rightarrow> 'e em" where
  "fp_cvt base rd rn = push (base OR push_bit 5 (ucast rn) OR ucast rd)"

definition scvtf_s_w :: "reg \<Rightarrow> reg \<Rightarrow> 'e em" where
  "scvtf_s_w vd rn = fp_cvt 0x1E220000 vd rn"

definition scvtf_s_x :: "reg \<Rightarrow> reg \<Rightarrow> 'e em" where
  "scvtf_s_x vd rn = fp_cvt 0x9E220000 vd rn"

definition scvtf_d_w :: "reg \<Rightarrow> reg \<Rightarrow> 'e em" where
  "scvtf_d_w vd rn = fp_cvt 0x1E620000 vd rn"

definition scvtf_d_x :: "reg \<Rightarrow> reg \<Rightarrow> 'e em" where
  "scvtf_d_x vd rn = fp_cvt 0x9E620000 vd rn"

definition fcvtzs_w_s :: "reg \<Rightarrow> reg \<Rightarrow> 'e em" where
  "fcvtzs_w_s rd vn = fp_cvt 0x1E380000 rd vn"

definition fcvtzs_x_s :: "reg \<Rightarrow> reg \<Rightarrow> 'e em" where
  "fcvtzs_x_s rd vn = fp_cvt 0x9E380000 rd vn"

definition fcvtzs_w_d :: "reg \<Rightarrow> reg \<Rightarrow> 'e em" where
  "fcvtzs_w_d rd vn = fp_cvt 0x1E780000 rd vn"

definition fcvtzs_x_d :: "reg \<Rightarrow> reg \<Rightarrow> 'e em" where
  "fcvtzs_x_d rd vn = fp_cvt 0x9E780000 rd vn"

definition fcvtns_w_s :: "reg \<Rightarrow> reg \<Rightarrow> 'e em" where
  "fcvtns_w_s rd vn = fp_cvt 0x1E200000 rd vn"

definition fcvtns_x_s :: "reg \<Rightarrow> reg \<Rightarrow> 'e em" where
  "fcvtns_x_s rd vn = fp_cvt 0x9E200000 rd vn"

definition fcvtns_w_d :: "reg \<Rightarrow> reg \<Rightarrow> 'e em" where
  "fcvtns_w_d rd vn = fp_cvt 0x1E600000 rd vn"

definition fcvtns_x_d :: "reg \<Rightarrow> reg \<Rightarrow> 'e em" where
  "fcvtns_x_d rd vn = fp_cvt 0x9E600000 rd vn"

definition fcvt_d_s :: "reg \<Rightarrow> reg \<Rightarrow> 'e em" where
  "fcvt_d_s vd vn = fp_cvt 0x1E22C000 vd vn"

definition fcvt_s_d :: "reg \<Rightarrow> reg \<Rightarrow> 'e em" where
  "fcvt_s_d vd vn = fp_cvt 0x1E624000 vd vn"

definition fcmp_s :: "reg \<Rightarrow> reg \<Rightarrow> 'e em" where
  "fcmp_s vn vm = push (0x1E202000 OR push_bit 16 (ucast vm) OR push_bit 5 (ucast vn))"

definition fcmp_d :: "reg \<Rightarrow> reg \<Rightarrow> 'e em" where
  "fcmp_d vn vm = push (0x1E602000 OR push_bit 16 (ucast vm) OR push_bit 5 (ucast vn))"

definition fmin_s :: "reg \<Rightarrow> reg \<Rightarrow> reg \<Rightarrow> 'e em" where
  "fmin_s vd vn vm = fp2src 0x1E205800 vd vn vm"

definition fmin_d :: "reg \<Rightarrow> reg \<Rightarrow> reg \<Rightarrow> 'e em" where
  "fmin_d vd vn vm = fp2src 0x1E605800 vd vn vm"

definition fmax_s :: "reg \<Rightarrow> reg \<Rightarrow> reg \<Rightarrow> 'e em" where
  "fmax_s vd vn vm = fp2src 0x1E204800 vd vn vm"

definition fmax_d :: "reg \<Rightarrow> reg \<Rightarrow> reg \<Rightarrow> 'e em" where
  "fmax_d vd vn vm = fp2src 0x1E604800 vd vn vm"

definition fsqrt_s :: "reg \<Rightarrow> reg \<Rightarrow> 'e em" where
  "fsqrt_s vd vn = fp_cvt 0x1E21C000 vd vn"

definition fsqrt_d :: "reg \<Rightarrow> reg \<Rightarrow> 'e em" where
  "fsqrt_d vd vn = fp_cvt 0x1E61C000 vd vn"

definition dp1src :: "u32 \<Rightarrow> reg \<Rightarrow> reg \<Rightarrow> 'e em" where
  "dp1src base rd rn = push (base OR push_bit 5 (ucast rn) OR ucast rd)"

definition rev_x :: "reg \<Rightarrow> reg \<Rightarrow> 'e em" where
  "rev_x rd rn = dp1src 0xDAC00C00 rd rn"

definition rev_w :: "reg \<Rightarrow> reg \<Rightarrow> 'e em" where
  "rev_w rd rn = dp1src 0x5AC00800 rd rn"

definition add_v2d :: "reg \<Rightarrow> reg \<Rightarrow> reg \<Rightarrow> 'e em" where
  "add_v2d vd vn vm =
     push (0x4EE08400 OR push_bit 16 (ucast vm) OR push_bit 5 (ucast vn) OR ucast vd)"

definition sub_v2d :: "reg \<Rightarrow> reg \<Rightarrow> reg \<Rightarrow> 'e em" where
  "sub_v2d vd vn vm =
     push (0x6EE08400 OR push_bit 16 (ucast vm) OR push_bit 5 (ucast vn) OR ucast vd)"

definition add_v4s :: "reg \<Rightarrow> reg \<Rightarrow> reg \<Rightarrow> 'e em" where
  "add_v4s vd vn vm =
     push (0x4EA08400 OR push_bit 16 (ucast vm) OR push_bit 5 (ucast vn) OR ucast vd)"

definition sub_v4s :: "reg \<Rightarrow> reg \<Rightarrow> reg \<Rightarrow> 'e em" where
  "sub_v4s vd vn vm =
     push (0x6EA08400 OR push_bit 16 (ucast vm) OR push_bit 5 (ucast vn) OR ucast vd)"

definition add_v16b :: "reg \<Rightarrow> reg \<Rightarrow> reg \<Rightarrow> 'e em" where
  "add_v16b vd vn vm =
     push (0x4E208400 OR push_bit 16 (ucast vm) OR push_bit 5 (ucast vn) OR ucast vd)"

definition sub_v16b :: "reg \<Rightarrow> reg \<Rightarrow> reg \<Rightarrow> 'e em" where
  "sub_v16b vd vn vm =
     push (0x6E208400 OR push_bit 16 (ucast vm) OR push_bit 5 (ucast vn) OR ucast vd)"

definition add_v8h :: "reg \<Rightarrow> reg \<Rightarrow> reg \<Rightarrow> 'e em" where
  "add_v8h vd vn vm =
     push (0x4E608400 OR push_bit 16 (ucast vm) OR push_bit 5 (ucast vn) OR ucast vd)"

definition sub_v8h :: "reg \<Rightarrow> reg \<Rightarrow> reg \<Rightarrow> 'e em" where
  "sub_v8h vd vn vm =
     push (0x6E608400 OR push_bit 16 (ucast vm) OR push_bit 5 (ucast vn) OR ucast vd)"

definition fadd_v4s :: "reg \<Rightarrow> reg \<Rightarrow> reg \<Rightarrow> 'e em" where
  "fadd_v4s vd vn vm =
     push (0x4E20D400 OR push_bit 16 (ucast vm) OR push_bit 5 (ucast vn) OR ucast vd)"

definition fadd_v2d :: "reg \<Rightarrow> reg \<Rightarrow> reg \<Rightarrow> 'e em" where
  "fadd_v2d vd vn vm =
     push (0x4E60D400 OR push_bit 16 (ucast vm) OR push_bit 5 (ucast vn) OR ucast vd)"

definition fsub_v4s :: "reg \<Rightarrow> reg \<Rightarrow> reg \<Rightarrow> 'e em" where
  "fsub_v4s vd vn vm =
     push (0x4EA0D400 OR push_bit 16 (ucast vm) OR push_bit 5 (ucast vn) OR ucast vd)"

definition fsub_v2d :: "reg \<Rightarrow> reg \<Rightarrow> reg \<Rightarrow> 'e em" where
  "fsub_v2d vd vn vm =
     push (0x4EE0D400 OR push_bit 16 (ucast vm) OR push_bit 5 (ucast vn) OR ucast vd)"

definition fmul_v4s :: "reg \<Rightarrow> reg \<Rightarrow> reg \<Rightarrow> 'e em" where
  "fmul_v4s vd vn vm =
     push (0x6E20DC00 OR push_bit 16 (ucast vm) OR push_bit 5 (ucast vn) OR ucast vd)"

definition fmul_v2d :: "reg \<Rightarrow> reg \<Rightarrow> reg \<Rightarrow> 'e em" where
  "fmul_v2d vd vn vm =
     push (0x6E60DC00 OR push_bit 16 (ucast vm) OR push_bit 5 (ucast vn) OR ucast vd)"

definition fdiv_v4s :: "reg \<Rightarrow> reg \<Rightarrow> reg \<Rightarrow> 'e em" where
  "fdiv_v4s vd vn vm =
     push (0x6E20FC00 OR push_bit 16 (ucast vm) OR push_bit 5 (ucast vn) OR ucast vd)"

definition fdiv_v2d :: "reg \<Rightarrow> reg \<Rightarrow> reg \<Rightarrow> 'e em" where
  "fdiv_v2d vd vn vm =
     push (0x6E60FC00 OR push_bit 16 (ucast vm) OR push_bit 5 (ucast vn) OR ucast vd)"

definition cmeq_v16b :: "reg \<Rightarrow> reg \<Rightarrow> reg \<Rightarrow> 'e em" where
  "cmeq_v16b vd vn vm =
     push (0x6E208C00 OR push_bit 16 (ucast vm) OR push_bit 5 (ucast vn) OR ucast vd)"

definition cmeq_v8h :: "reg \<Rightarrow> reg \<Rightarrow> reg \<Rightarrow> 'e em" where
  "cmeq_v8h vd vn vm =
     push (0x6E608C00 OR push_bit 16 (ucast vm) OR push_bit 5 (ucast vn) OR ucast vd)"

definition cmeq_v4s :: "reg \<Rightarrow> reg \<Rightarrow> reg \<Rightarrow> 'e em" where
  "cmeq_v4s vd vn vm =
     push (0x6EA08C00 OR push_bit 16 (ucast vm) OR push_bit 5 (ucast vn) OR ucast vd)"

definition cmeq_v2d :: "reg \<Rightarrow> reg \<Rightarrow> reg \<Rightarrow> 'e em" where
  "cmeq_v2d vd vn vm =
     push (0x6EE08C00 OR push_bit 16 (ucast vm) OR push_bit 5 (ucast vn) OR ucast vd)"

definition shl_v2d :: "reg \<Rightarrow> reg \<Rightarrow> u32 \<Rightarrow> 'e em" where
  "shl_v2d vd vn shift =
     (let imm = 64 + shift in
      seq [debug_assert (shift < 64), push (0x4F005400 OR push_bit 16 imm OR
       push_bit 5 (ucast vn) OR ucast vd)])"

definition shl_v4s :: "reg \<Rightarrow> reg \<Rightarrow> u32 \<Rightarrow> 'e em" where
  "shl_v4s vd vn shift =
     (let imm = 32 + shift in
      seq [debug_assert (shift < 32), push (0x4F005400 OR push_bit 16 imm OR
       push_bit 5 (ucast vn) OR ucast vd)])"

definition shl_v8h :: "reg \<Rightarrow> reg \<Rightarrow> u32 \<Rightarrow> 'e em" where
  "shl_v8h vd vn shift =
     (let imm = 16 + shift in
      seq [debug_assert (shift < 16), push (0x4F005400 OR push_bit 16 imm OR
       push_bit 5 (ucast vn) OR ucast vd)])"

definition ushr_v2d :: "reg \<Rightarrow> reg \<Rightarrow> u32 \<Rightarrow> 'e em" where
  "ushr_v2d vd vn shift =
     (let imm = 128 - shift in
      seq [debug_assert (1 \<le> shift \<and> shift \<le> 64), push (0x6F000400 OR
       push_bit 16 imm OR push_bit 5 (ucast vn) OR ucast vd)])"

definition ushr_v4s :: "reg \<Rightarrow> reg \<Rightarrow> u32 \<Rightarrow> 'e em" where
  "ushr_v4s vd vn shift =
     (let imm = 64 - shift in
      seq [debug_assert (1 \<le> shift \<and> shift \<le> 32), push (0x6F000400 OR
       push_bit 16 imm OR push_bit 5 (ucast vn) OR ucast vd)])"

definition ushr_v8h :: "reg \<Rightarrow> reg \<Rightarrow> u32 \<Rightarrow> 'e em" where
  "ushr_v8h vd vn shift =
     (let imm = 32 - shift in
      seq [debug_assert (1 \<le> shift \<and> shift \<le> 16), push (0x6F000400 OR
       push_bit 16 imm OR push_bit 5 (ucast vn) OR ucast vd)])"

definition sshr_v4s :: "reg \<Rightarrow> reg \<Rightarrow> u32 \<Rightarrow> 'e em" where
  "sshr_v4s vd vn shift =
     (let imm = 64 - shift in
      seq [debug_assert (1 \<le> shift \<and> shift \<le> 32), push (0x4F000400 OR
       push_bit 16 imm OR push_bit 5 (ucast vn) OR ucast vd)])"

definition sshr_v8h :: "reg \<Rightarrow> reg \<Rightarrow> u32 \<Rightarrow> 'e em" where
  "sshr_v8h vd vn shift =
     (let imm = 32 - shift in
      seq [debug_assert (1 \<le> shift \<and> shift \<le> 16), push (0x4F000400 OR
       push_bit 16 imm OR push_bit 5 (ucast vn) OR ucast vd)])"

definition ins_v_s :: "reg \<Rightarrow> u32 \<Rightarrow> reg \<Rightarrow> u32 \<Rightarrow> 'e em" where
  "ins_v_s vd dst_lane vn src_lane =
     (let imm5 = push_bit 3 dst_lane OR 4 in
      let imm4 = push_bit 2 src_lane in
      seq [debug_assert (dst_lane < 4 \<and> src_lane < 4), push (0x6E000400 OR
       push_bit 16 imm5 OR push_bit 11 imm4 OR push_bit 5 (ucast vn) OR ucast vd)])"

definition mul_v8h :: "reg \<Rightarrow> reg \<Rightarrow> reg \<Rightarrow> 'e em" where
  "mul_v8h vd vn vm =
     push (0x4E609C00 OR push_bit 16 (ucast vm) OR push_bit 5 (ucast vn) OR ucast vd)"

definition ext_v16b :: "reg \<Rightarrow> reg \<Rightarrow> reg \<Rightarrow> u32 \<Rightarrow> 'e em" where
  "ext_v16b vd vn vm imm =
     seq [debug_assert (imm < 16), push (0x6E000000 OR push_bit 16 (ucast vm) OR
       push_bit 11 imm OR push_bit 5 (ucast vn) OR ucast vd)]"

definition zip_form :: "u32 \<Rightarrow> reg \<Rightarrow> reg \<Rightarrow> reg \<Rightarrow> 'e em" where
  "zip_form base vd vn vm =
     push (base OR push_bit 16 (ucast vm) OR push_bit 5 (ucast vn) OR ucast vd)"

definition zip1_v16b :: "reg \<Rightarrow> reg \<Rightarrow> reg \<Rightarrow> 'e em" where
  "zip1_v16b vd vn vm = zip_form 0x4E003800 vd vn vm"

definition zip1_v8h :: "reg \<Rightarrow> reg \<Rightarrow> reg \<Rightarrow> 'e em" where
  "zip1_v8h vd vn vm = zip_form 0x4E403800 vd vn vm"

definition zip1_v4s :: "reg \<Rightarrow> reg \<Rightarrow> reg \<Rightarrow> 'e em" where
  "zip1_v4s vd vn vm = zip_form 0x4E803800 vd vn vm"

definition zip1_v2d :: "reg \<Rightarrow> reg \<Rightarrow> reg \<Rightarrow> 'e em" where
  "zip1_v2d vd vn vm = zip_form 0x4EC03800 vd vn vm"

definition zip2_v16b :: "reg \<Rightarrow> reg \<Rightarrow> reg \<Rightarrow> 'e em" where
  "zip2_v16b vd vn vm = zip_form 0x4E007800 vd vn vm"

definition zip2_v8h :: "reg \<Rightarrow> reg \<Rightarrow> reg \<Rightarrow> 'e em" where
  "zip2_v8h vd vn vm = zip_form 0x4E407800 vd vn vm"

definition zip2_v4s :: "reg \<Rightarrow> reg \<Rightarrow> reg \<Rightarrow> 'e em" where
  "zip2_v4s vd vn vm = zip_form 0x4E807800 vd vn vm"

definition zip2_v2d :: "reg \<Rightarrow> reg \<Rightarrow> reg \<Rightarrow> 'e em" where
  "zip2_v2d vd vn vm = zip_form 0x4EC07800 vd vn vm"

definition sshr_v16b :: "reg \<Rightarrow> reg \<Rightarrow> u32 \<Rightarrow> 'e em" where
  "sshr_v16b vd vn shift =
     (let imm = 16 - shift in
      seq [debug_assert (1 \<le> shift \<and> shift \<le> 8), push (0x4F000400 OR
       push_bit 16 imm OR push_bit 5 (ucast vn) OR ucast vd)])"

definition addv_b_v8b :: "reg \<Rightarrow> reg \<Rightarrow> 'e em" where
  "addv_b_v8b vd vn = push (0x0E31B800 OR push_bit 5 (ucast vn) OR ucast vd)"

definition umov_w_b :: "reg \<Rightarrow> reg \<Rightarrow> u32 \<Rightarrow> 'e em" where
  "umov_w_b rd vn lane =
     (let imm5 = push_bit 1 lane OR 1 in
      seq [debug_assert (lane < 16), push (0x0E003C00 OR push_bit 16 imm5 OR
       push_bit 5 (ucast vn) OR ucast rd)])"

definition ins_v_d_gpr :: "reg \<Rightarrow> u32 \<Rightarrow> reg \<Rightarrow> 'e em" where
  "ins_v_d_gpr vd lane rn =
     (let imm5 = push_bit 4 lane OR 0b1000 in
      seq [debug_assert (lane < 2), push (0x4E001C00 OR push_bit 16 imm5 OR
       push_bit 5 (ucast rn) OR ucast vd)])"

definition bfi_w :: "reg \<Rightarrow> reg \<Rightarrow> u32 \<Rightarrow> u32 \<Rightarrow> 'e em" where
  "bfi_w rd rn lsb width =
     (let immr = (32 - lsb) AND 0x1F in
      let imms = width - 1 in
      seq [debug_assert (0 < width \<and> unat lsb + unat width \<le> 32), push (0x33000000 OR
       push_bit 16 immr OR push_bit 10 imms OR push_bit 5 (ucast rn) OR ucast rd)])"

section \<open>Load/Store pair\<close>

definition ldstp :: "u32 \<Rightarrow> u32 \<Rightarrow> u32 \<Rightarrow> u32 \<Rightarrow> int \<Rightarrow> reg \<Rightarrow> reg \<Rightarrow> reg \<Rightarrow> 'e em" where
  "ldstp opc v load idx_mode imm7 rt2 rn rt =
     (let imm7_bits = word_of_int imm7 AND 0x7F in
      push (push_bit 30 opc OR push_bit 27 0b101 OR push_bit 26 v OR push_bit 23 idx_mode OR
       push_bit 22 load OR push_bit 15 imm7_bits OR push_bit 10 (ucast rt2) OR
       push_bit 5 (ucast rn) OR ucast rt))"

definition stp64_pre :: "reg \<Rightarrow> reg \<Rightarrow> reg \<Rightarrow> int \<Rightarrow> 'e em" where
  "stp64_pre rt rt2 rn imm =
     (let scaled = imm div 8 in
      seq [debug_assert (imm mod 8 = 0), debug_assert (- 64 \<le> scaled \<and> scaled < 64),
       ldstp 0b10 0 0 0b11 scaled rt2 rn rt])"

definition ldp64_post :: "reg \<Rightarrow> reg \<Rightarrow> reg \<Rightarrow> int \<Rightarrow> 'e em" where
  "ldp64_post rt rt2 rn imm =
     (let scaled = imm div 8 in
      seq [debug_assert (imm mod 8 = 0), debug_assert (- 64 \<le> scaled \<and> scaled < 64),
       ldstp 0b10 0 1 1 scaled rt2 rn rt])"

definition stp64 :: "reg \<Rightarrow> reg \<Rightarrow> reg \<Rightarrow> int \<Rightarrow> 'e em" where
  "stp64 rt rt2 rn imm =
     (let scaled = imm div 8 in
      seq [debug_assert (imm mod 8 = 0), debug_assert (- 64 \<le> scaled \<and> scaled < 64),
       ldstp 0b10 0 0 0b10 scaled rt2 rn rt])"

definition ldp64 :: "reg \<Rightarrow> reg \<Rightarrow> reg \<Rightarrow> int \<Rightarrow> 'e em" where
  "ldp64 rt rt2 rn imm =
     (let scaled = imm div 8 in
      seq [debug_assert (imm mod 8 = 0), debug_assert (- 64 \<le> scaled \<and> scaled < 64),
       ldstp 0b10 0 1 0b10 scaled rt2 rn rt])"

section \<open>Branches\<close>

definition em_b :: "label \<Rightarrow> 'e em" where
  "em_b label =
     (let base = push_bit 26 0b101 in
      emit_branch base Branch26 label)"

definition em_bl :: "label \<Rightarrow> 'e em" where
  "em_bl label =
     (let base = push_bit 26 0b100101 in
      emit_branch base Branch26 label)"

definition b_cond :: "a64_cond \<Rightarrow> label \<Rightarrow> 'e em" where
  "b_cond cond label =
     (let base = push_bit 24 0b1010100 OR (cond_bits cond AND 0xF) in
      emit_branch base Branch19 label)"

definition cbz64 :: "reg \<Rightarrow> label \<Rightarrow> 'e em" where
  "cbz64 rt label =
     (let base = push_bit 31 1 OR push_bit 25 0b11010 OR ucast rt in
      emit_branch base Branch19 label)"

definition cbnz64 :: "reg \<Rightarrow> label \<Rightarrow> 'e em" where
  "cbnz64 rt label =
     (let base = push_bit 31 1 OR push_bit 25 0b11010 OR push_bit 24 1 OR ucast rt in
      emit_branch base Branch19 label)"

definition tbz :: "reg \<Rightarrow> u32 \<Rightarrow> label \<Rightarrow> 'e em" where
  "tbz rt bit_no label =
     (let b5 = drop_bit 5 bit_no AND 1 in
      let b40 = bit_no AND 0x1F in
      let base = push_bit 31 b5 OR push_bit 25 0b11011 OR push_bit 19 b40 OR ucast rt in
      seq [debug_assert (bit_no < 64), emit_branch base Branch14 label])"

definition tbnz :: "reg \<Rightarrow> u32 \<Rightarrow> label \<Rightarrow> 'e em" where
  "tbnz rt bit_no label =
     (let b5 = drop_bit 5 bit_no AND 1 in
      let b40 = bit_no AND 0x1F in
      let base = push_bit 31 b5 OR push_bit 25 0b11011 OR push_bit 24 1 OR push_bit 19 b40 OR
       ucast rt in
      seq [debug_assert (bit_no < 64), emit_branch base Branch14 label])"

definition em_br :: "reg \<Rightarrow> 'e em" where
  "em_br rn = push (0xD61F0000 OR push_bit 5 (ucast rn))"

definition em_blr :: "reg \<Rightarrow> 'e em" where
  "em_blr rn = push (0xD63F0000 OR push_bit 5 (ucast rn))"

definition em_ret_to :: "reg \<Rightarrow> 'e em" where
  "em_ret_to rn = push (0xD65F0000 OR push_bit 5 (ucast rn))"

definition em_ret :: "'e em" where
  "em_ret = em_ret_to X30"

section \<open>System\<close>

definition em_nop :: "'e em" where
  "em_nop = push (0xD503201F)"

definition em_brk :: "u16 \<Rightarrow> 'e em" where
  "em_brk imm16 = push (0xD4200000 OR push_bit 5 (ucast imm16))"

definition em_isb :: "'e em" where
  "em_isb = push (0xD50330DF)"

definition dmb_ish :: "'e em" where
  "dmb_ish = push (0xD5033BBF)"

definition mrs_nzcv :: "reg \<Rightarrow> 'e em" where
  "mrs_nzcv rt = push (0xD53B4200 OR ucast rt)"

definition msr_nzcv :: "reg \<Rightarrow> 'e em" where
  "msr_nzcv rt = push (0xD51B4200 OR ucast rt)"

definition mrs_tpidr_el0 :: "reg \<Rightarrow> 'e em" where
  "mrs_tpidr_el0 rt = push (0xD53BD040 OR ucast rt)"

end
