(* ===== verification/Lifter.thy ===== *)
theory Lifter
  imports Emitter Iform
begin

text \<open>
  \<open>quantum-jit/src/lifter.rs\<close>: lowering of one decoded x86 instruction to AArch64 words. Each
  \<open>lift_*\<close> method is a state transformer of the emitter; it may stop with an \<open>Err\<close> after words have
  been emitted, exactly where the source returns. \<open>with_operand\<close> is
  \<open>inst.operands[k].ok_or(BadOperands)?\<close>, \<open>with_addr\<close> is \<open>let leftover = self.addr_into_xtmp(..)?\<close>.
  The pattern \<open>m @ (Operand::Mem(_) | Operand::RipRel(_, _))\<close> is the test \<open>is_mem\<close>, and the match
  that reads its width \<open>mem_size_of\<close>. The fields of \<open>Lifter\<close> are the emitter, passed along, and the
  flag \<open>legacy32\<close>.
\<close>

datatype lifter_error = Unsupported op | Unhandled | BadOperands

type_synonym lift = "lifter_error em"

datatype arith_kind = AK_Add | AK_Sub
datatype div_mul_kind = DM_Div | DM_Idiv | DM_Mul | DM_Imul1
datatype bit_op_kind = BO_And | BO_Or
datatype packed_logic = PL_Xor | PL_And | PL_Or
datatype packed_arith = PA_AddQ | PA_SubQ | PA_AddD | PA_SubD | PA_AddW | PA_SubW | PA_AddB | PA_SubB
datatype fp_packed_op = FPP_Add | FPP_Sub | FPP_Mul | FPP_Div
datatype pshift = PS_Sll | PS_Srl | PS_Sra
datatype fp_op = FP_Add | FP_Sub | FP_Mul | FP_Div | FP_Min | FP_Max
datatype shift_dir = SD_Left | SD_Right | SD_ArithRight

section \<open>Register pinning and conditions\<close>

primrec host_reg :: "gp_reg \<Rightarrow> reg" where
  "host_reg Rax = X0" | "host_reg Rcx = X1" | "host_reg Rdx = X2" | "host_reg Rbx = X3"
| "host_reg Rsp = X19" | "host_reg Rbp = X5" | "host_reg Rsi = X6" | "host_reg Rdi = X7"
| "host_reg R8 = X8" | "host_reg R9 = 9" | "host_reg R10 = 10" | "host_reg R11 = 11"
| "host_reg R12 = 12" | "host_reg R13 = 13" | "host_reg R14 = 14" | "host_reg R15 = 15"

primrec cond_x86_to_a64 :: "cond \<Rightarrow> a64_cond option" where
  "cond_x86_to_a64 Cond_E = Some C_Eq" | "cond_x86_to_a64 Cond_NE = Some C_Ne"
| "cond_x86_to_a64 Cond_B = Some C_Cc" | "cond_x86_to_a64 Cond_NB = Some C_Cs"
| "cond_x86_to_a64 Cond_BE = Some C_Ls" | "cond_x86_to_a64 Cond_A = Some C_Hi"
| "cond_x86_to_a64 Cond_S = Some C_Mi" | "cond_x86_to_a64 Cond_NS = Some C_Pl"
| "cond_x86_to_a64 Cond_L = Some C_Lt" | "cond_x86_to_a64 Cond_NL = Some C_Ge"
| "cond_x86_to_a64 Cond_LE = Some C_Le" | "cond_x86_to_a64 Cond_G = Some C_Gt"
| "cond_x86_to_a64 Cond_O = Some C_Vs" | "cond_x86_to_a64 Cond_NO = Some C_Vc"
| "cond_x86_to_a64 Cond_P = Some C_Vs" | "cond_x86_to_a64 Cond_NP = Some C_Vc"

section \<open>Errors and operands\<close>

definition fail :: "lifter_error \<Rightarrow> lift" where
  "fail er = (\<lambda>e. (Err er, e))"

definition operand_at :: "inst \<Rightarrow> nat \<Rightarrow> operand option" where
  "operand_at inst k = (if k < length (i_operands inst) then i_operands inst ! k else None)"

definition with_operand :: "inst \<Rightarrow> nat \<Rightarrow> (operand \<Rightarrow> lift) \<Rightarrow> lift" where
  "with_operand inst k f = (case operand_at inst k of None \<Rightarrow> fail BadOperands | Some x \<Rightarrow> f x)"

definition is_mem :: "operand \<Rightarrow> bool" where
  "is_mem x = (case x of MemOp m \<Rightarrow> True | RipRel d s \<Rightarrow> True | _ \<Rightarrow> False)"

text \<open>Only read where \<open>is_mem\<close> holds; the other arms are \<open>unreachable!()\<close> in the source.\<close>

definition mem_size_of :: "operand \<Rightarrow> op_size" where
  "mem_size_of x = (case x of MemOp m \<Rightarrow> m_size m | RipRel d s \<Rightarrow> s | _ \<Rightarrow> B8)"

section \<open>Hand-encoded instructions\<close>

definition emit_add_lsl64 :: "reg \<Rightarrow> reg \<Rightarrow> reg \<Rightarrow> u32 \<Rightarrow> 'e em" where
  "emit_add_lsl64 rd rn rm shift =
     raw_word (0x8B000000 OR push_bit 16 (ucast rm) OR push_bit 10 shift OR push_bit 5 (ucast rn) OR
       ucast rd)"

definition emit_and_imm_byte :: "reg \<Rightarrow> reg \<Rightarrow> 'e em" where
  "emit_and_imm_byte rd rs = raw_word (0x92401C00 OR push_bit 5 (ucast rs) OR ucast rd)"

definition emit_and_imm_word :: "reg \<Rightarrow> reg \<Rightarrow> 'e em" where
  "emit_and_imm_word rd rs = raw_word (0x92403C00 OR push_bit 5 (ucast rs) OR ucast rd)"

definition emit_sxt_byte :: "reg \<Rightarrow> reg \<Rightarrow> 'e em" where
  "emit_sxt_byte rd rs = raw_word (0x93401C00 OR push_bit 5 (ucast rs) OR ucast rd)"

definition emit_sxt_word :: "reg \<Rightarrow> reg \<Rightarrow> 'e em" where
  "emit_sxt_word rd rs = raw_word (0x93403C00 OR push_bit 5 (ucast rs) OR ucast rd)"

definition emit_sxtw :: "reg \<Rightarrow> reg \<Rightarrow> 'e em" where
  "emit_sxtw rd rs = raw_word (0x93407C00 OR push_bit 5 (ucast rs) OR ucast rd)"

definition emit_orr_lsl64 :: "reg \<Rightarrow> reg \<Rightarrow> reg \<Rightarrow> u32 \<Rightarrow> 'e em" where
  "emit_orr_lsl64 rd rn rm shift =
     raw_word (0xAA000000 OR push_bit 16 (ucast rm) OR push_bit 10 shift OR push_bit 5 (ucast rn) OR
       ucast rd)"

definition emit_ubfm64 :: "reg \<Rightarrow> reg \<Rightarrow> u32 \<Rightarrow> u32 \<Rightarrow> 'e em" where
  "emit_ubfm64 rd rn immr imms =
     raw_word (0xD3400000 OR push_bit 16 immr OR push_bit 10 imms OR push_bit 5 (ucast rn) OR ucast rd)"

definition emit_uxtw :: "reg \<Rightarrow> reg \<Rightarrow> 'e em" where
  "emit_uxtw rd rn = emit_ubfm64 rd rn 0 31"

definition emitter_push_raw :: "u32 \<Rightarrow> 'e em" where
  "emitter_push_raw word = raw_word word"

definition emit_and_imm_lo32 :: "reg \<Rightarrow> reg \<Rightarrow> 'e em" where
  "emit_and_imm_lo32 rd rs = emitter_push_raw (0x92407C00 OR push_bit 5 (ucast rs) OR ucast rd)"

text \<open>\<open>if matches!(size, OpSize::B4) { self.emit_and_imm_lo32(rd, rd); }\<close>\<close>

definition mask_if_b4 :: "op_size \<Rightarrow> reg \<Rightarrow> 'e em" where
  "mask_if_b4 sz rd = (if sz = B4 then emit_and_imm_lo32 rd rd else seq [])"

section \<open>Addresses, sized loads and stores\<close>

definition imm12_encodable :: "u32 \<Rightarrow> bool" where
  "imm12_encodable v \<longleftrightarrow> v < push_bit 12 1 \<or> (v AND 0xFFF = 0 \<and> drop_bit 12 v < push_bit 12 1)"

definition add64_imm_safe :: "reg \<Rightarrow> reg \<Rightarrow> u32 \<Rightarrow> 'e em" where
  "add64_imm_safe rd rn imm =
     (if imm12_encodable imm then add64_imm rd rn imm
      else seq [load_const64 X17 (ucast imm), add64 rd rn X17])"

definition sub64_imm_safe :: "reg \<Rightarrow> reg \<Rightarrow> u32 \<Rightarrow> 'e em" where
  "sub64_imm_safe rd rn imm =
     (if imm12_encodable imm then sub64_imm rd rn imm
      else seq [load_const64 X17 (ucast imm), sub64 rd rn X17])"

text \<open>The index part of \<open>mem_address_into\<close>.\<close>

definition add_scaled_index :: "reg \<Rightarrow> reg \<Rightarrow> u8 \<Rightarrow> 'e em" where
  "add_scaled_index xtmp hi scale =
     (if scale = 1 then add64 xtmp xtmp hi
      else if scale = 2 then emit_add_lsl64 xtmp xtmp hi 1
      else if scale = 4 then emit_add_lsl64 xtmp xtmp hi 2
      else if scale = 8 then emit_add_lsl64 xtmp xtmp hi 3
      else add64 xtmp xtmp hi)"

text \<open>The displacement: a small positive one is left to the caller's load or store.\<close>

definition fold_disp :: "u32 \<Rightarrow> reg \<Rightarrow> emitter \<Rightarrow> ('e, u32) outcome \<times> emitter" where
  "fold_disp disp xtmp e =
     (if disp = 0 then (Ok 0, e)
      else if 0 <s disp \<and> disp < push_bit 24 1 then (Ok disp, e)
      else if 0 <s disp then sbind (add64_imm_safe xtmp xtmp disp e) (\<lambda>_ e. (Ok 0, e))
      else sbind (sub64_imm_safe xtmp xtmp (- disp) e) (\<lambda>_ e. (Ok 0, e)))"

definition mem_address_into :: "mem_operand \<Rightarrow> reg \<Rightarrow> emitter \<Rightarrow> ('e, u32) outcome \<times> emitter" where
  "mem_address_into m xtmp e =
     sbind (seq
       [case m_base m of Some base \<Rightarrow> mov64 xtmp (host_reg base) | None \<Rightarrow> load_const64 xtmp 0,
        case m_seg m of
          Some sg \<Rightarrow> add64 xtmp xtmp (case sg of Gs \<Rightarrow> X24 | Fs \<Rightarrow> X25)
        | None \<Rightarrow> seq [],
        case m_index m of
          Some index \<Rightarrow> add_scaled_index xtmp (host_reg index) (m_scale m)
        | None \<Rightarrow> seq []] e)
     (\<lambda>_. fold_disp (m_disp m) xtmp)"

text \<open>\<open>inst.guest_rip.wrapping_add(inst.len as u64).wrapping_add(disp as u64)\<close>\<close>

definition rip_target :: "inst \<Rightarrow> u32 \<Rightarrow> u64" where
  "rip_target inst disp = i_guest_rip inst + ucast (i_len inst) + scast disp"

definition addr_into_xtmp ::
  "operand \<Rightarrow> inst \<Rightarrow> reg \<Rightarrow> emitter \<Rightarrow> (lifter_error, u32) outcome \<times> emitter" where
  "addr_into_xtmp x inst xtmp e =
     (case x of
        MemOp m \<Rightarrow> mem_address_into m xtmp e
      | RipRel disp _ \<Rightarrow>
          sbind (load_const64 xtmp (rip_target inst disp) e) (\<lambda>_ e. (Ok 0, e))
      | _ \<Rightarrow> (Err BadOperands, e))"

definition with_addr :: "operand \<Rightarrow> inst \<Rightarrow> reg \<Rightarrow> (u32 \<Rightarrow> lift) \<Rightarrow> lift" where
  "with_addr x inst xtmp f = (\<lambda>e. sbind (addr_into_xtmp x inst xtmp e) f)"

definition load_sized :: "reg \<Rightarrow> reg \<Rightarrow> u32 \<Rightarrow> op_size \<Rightarrow> 'e em" where
  "load_sized dst base offset sz =
     (case sz of
        B8 \<Rightarrow> ldr64 dst base offset | B4 \<Rightarrow> ldr32 dst base offset
      | B2 \<Rightarrow> ldrh dst base offset | B1 \<Rightarrow> ldrb dst base offset)"

definition store_sized :: "reg \<Rightarrow> reg \<Rightarrow> u32 \<Rightarrow> op_size \<Rightarrow> 'e em" where
  "store_sized src base offset sz =
     (case sz of
        B8 \<Rightarrow> str64 src base offset | B4 \<Rightarrow> str32 src base offset
      | B2 \<Rightarrow> strh src base offset | B1 \<Rightarrow> strb src base offset)"

section \<open>String moves\<close>

definition emit_rep_loop :: "u32 \<Rightarrow> bool \<Rightarrow> bool \<Rightarrow> lift" where
  "emit_rep_loop sz rep is_stos =
     (if sz \<notin> {1, 2, 4, 8} then fail (Unsupported (if is_stos then Op_Stos else Op_Movs))
      else (\<lambda>e. sbind (make_label e) (\<lambda>loop_top e. sbind (make_label e) (\<lambda>done_l.
        seq ([bind_label loop_top] @
          (if rep then [cbz64 X1 done_l] else []) @
          (if is_stos then
             [if sz = 1 then strb X0 X7 0 else if sz = 2 then strh X0 X7 0
              else if sz = 4 then str32 X0 X7 0 else str64 X0 X7 0]
           else
             (if sz = 1 then [ldrb X16 X6 0, strb X16 X7 0]
              else if sz = 2 then [ldrh X16 X6 0, strh X16 X7 0]
              else if sz = 4 then [ldr32 X16 X6 0, str32 X16 X7 0]
              else [ldr64 X16 X6 0, str64 X16 X7 0]) @
             [add64_imm X6 X6 sz]) @
          [add64_imm X7 X7 sz] @
          (if rep then [sub64_imm X1 X1 1, em_b loop_top, bind_label done_l] else []))))))"

definition lift_movs :: "inst \<Rightarrow> lift" where
  "lift_movs inst =
     (case operand_at inst 0 of
        Some (Imm n _) \<Rightarrow>
          (let rep = (case operand_at inst 1 of Some (Imm k _) \<Rightarrow> k = 1 | _ \<Rightarrow> False)
           in emit_rep_loop (ucast n) rep False)
      | _ \<Rightarrow> fail BadOperands)"

definition lift_stos :: "inst \<Rightarrow> lift" where
  "lift_stos inst =
     (case operand_at inst 0 of
        Some (Imm n _) \<Rightarrow>
          (let rep = (case operand_at inst 1 of Some (Imm k _) \<Rightarrow> k = 1 | _ \<Rightarrow> False)
           in emit_rep_loop (ucast n) rep True)
      | _ \<Rightarrow> fail BadOperands)"

section \<open>Calls and the stack\<close>

definition call_marshal :: "'e em" where
  "call_marshal = seq
     [stp64_pre X3 X5 SP (- 16), stp64_pre X6 X7 SP (- 16),
      stp64_pre X12 X13 SP (- 16), stp64_pre X14 X15 SP (- 16),
      mov64 X0 X1, mov64 X1 X2, mov64 X2 X8, mov64 X3 X9,
      ldr64 X4 X19 0x20, ldr64 X5 X19 0x28, ldr64 X6 X19 0x30, ldr64 X7 X19 0x38,
      stp64_pre X29 X30 SP (- 16), em_blr X16, ldp64_post X29 X30 SP 16,
      ldp64_post X14 X15 SP 16, ldp64_post X12 X13 SP 16,
      ldp64_post X6 X7 SP 16, ldp64_post X3 X5 SP 16]"

definition lift_call_indirect :: "bool \<Rightarrow> inst \<Rightarrow> lift" where
  "lift_call_indirect legacy32 inst = with_operand inst 0 (\<lambda>target.
     case target of
       Reg r _ \<Rightarrow> seq [mov64 X16 (host_reg r), call_marshal]
     | _ \<Rightarrow> with_addr target inst X16 (\<lambda>leftover.
         if legacy32 then seq
           [ldr32 X16 X16 leftover,
            ldr32 X0 X19 4, ldr32 X1 X19 8, ldr32 X2 X19 12, ldr32 X3 X19 16,
            stp64_pre X29 X30 SP (- 16), em_blr X16, ldp64_post X29 X30 SP 16]
         else seq [ldr64 X16 X16 leftover, call_marshal]))"

definition lift_push :: "inst \<Rightarrow> lift" where
  "lift_push inst = with_operand inst 0 (\<lambda>src. seq
     [sub64_imm X19 X19 8,
      case src of
        Reg rs _ \<Rightarrow> str64 (host_reg rs) X19 0
      | Imm imm _ \<Rightarrow> seq [load_const64 X16 imm, str64 X16 X19 0]
      | _ \<Rightarrow> fail (Unsupported Op_Push)])"

definition lift_pop :: "inst \<Rightarrow> lift" where
  "lift_pop inst = with_operand inst 0 (\<lambda>dst.
     case dst of
       Reg rd _ \<Rightarrow> seq [ldr64 (host_reg rd) X19 0, add64_imm X19 X19 8]
     | _ \<Rightarrow> fail (Unsupported Op_Pop))"

definition lift_leave :: lift where
  "lift_leave = seq [mov64 X19 (host_reg Rbp), ldr64 (host_reg Rbp) X19 0, add64_imm X19 X19 8]"

section \<open>Extensions and moves\<close>

definition lift_movzx_or_movsx :: "inst \<Rightarrow> bool \<Rightarrow> lift" where
  "lift_movzx_or_movsx inst is_signed =
     with_operand inst 0 (\<lambda>dst. with_operand inst 1 (\<lambda>src.
       case dst of
         Reg rd _ \<Rightarrow>
           (case src of
              Reg rs src_size \<Rightarrow>
                (let hrd = host_reg rd; hs = host_reg rs in
                 case src_size of
                   B1 \<Rightarrow> if is_signed then emit_sxt_byte hrd hs else emit_and_imm_byte hrd hs
                 | B2 \<Rightarrow> if is_signed then emit_sxt_word hrd hs else emit_and_imm_word hrd hs
                 | _ \<Rightarrow> fail (Unsupported (i_op inst)))
            | _ \<Rightarrow>
                if is_mem src then
                  with_addr src inst X16 (\<lambda>leftover.
                    let hrd = host_reg rd in
                    case mem_size_of src of
                      B1 \<Rightarrow> if is_signed then seq [ldrb hrd X16 leftover, emit_sxt_byte hrd hrd]
                            else ldrb hrd X16 leftover
                    | B2 \<Rightarrow> if is_signed then seq [ldrh hrd X16 leftover, emit_sxt_word hrd hrd]
                            else ldrh hrd X16 leftover
                    | _ \<Rightarrow> fail (Unsupported (i_op inst)))
                else fail (Unsupported (i_op inst)))
       | _ \<Rightarrow> fail (Unsupported (i_op inst))))"

definition lift_movsxd :: "inst \<Rightarrow> lift" where
  "lift_movsxd inst =
     with_operand inst 0 (\<lambda>dst. with_operand inst 1 (\<lambda>src.
       case (dst, src) of
         (Reg rd _, Reg rs _) \<Rightarrow> emit_sxtw (host_reg rd) (host_reg rs)
       | _ \<Rightarrow> fail (Unsupported Op_Movsxd)))"

definition mov_reg_imm :: "gp_reg \<Rightarrow> op_size \<Rightarrow> u64 \<Rightarrow> 'e em" where
  "mov_reg_imm rd sz imm =
     (let host = host_reg rd;
          lo = ucast (imm AND 0xFFFF) :: u16;
          hi = ucast (drop_bit 16 imm AND 0xFFFF) :: u16
      in case sz of
           B8 \<Rightarrow> load_const64 host imm
         | B4 \<Rightarrow> seq ([movz32 host lo 0] @ (if hi \<noteq> 0 then [movk32 host hi 16] else []))
         | _ \<Rightarrow> movk64 host lo 0)"

definition mov_reg_reg :: "gp_reg \<Rightarrow> op_size \<Rightarrow> gp_reg \<Rightarrow> 'e em" where
  "mov_reg_reg rd dst_size rs =
     (let hrd = host_reg rd; hs = host_reg rs in
      case dst_size of
        B8 \<Rightarrow> mov64 hrd hs
      | B4 \<Rightarrow> emit_and_imm_lo32 hrd hs
      | _ \<Rightarrow> mov64 hrd hs)"

definition lift_mov :: "inst \<Rightarrow> lift" where
  "lift_mov inst =
     with_operand inst 0 (\<lambda>dst. with_operand inst 1 (\<lambda>src.
       case dst of
         Reg rd sz \<Rightarrow>
           (case src of
              Imm imm _ \<Rightarrow> mov_reg_imm rd sz imm
            | Reg rs _ \<Rightarrow> mov_reg_reg rd sz rs
            | _ \<Rightarrow>
                if is_mem src then
                  with_addr src inst X16 (\<lambda>leftover.
                    let hrd = host_reg rd in
                    case sz of
                      B8 \<Rightarrow> ldr64 hrd X16 leftover | B4 \<Rightarrow> ldr32 hrd X16 leftover
                    | B2 \<Rightarrow> ldrh hrd X16 leftover | B1 \<Rightarrow> ldrb hrd X16 leftover)
                else fail (Unsupported Op_Mov))
       | _ \<Rightarrow>
           if is_mem dst then
             (case src of
                Reg rs sz \<Rightarrow>
                  with_addr dst inst X16 (\<lambda>leftover.
                    let hs = host_reg rs in
                    case sz of
                      B8 \<Rightarrow> str64 hs X16 leftover | B4 \<Rightarrow> str32 hs X16 leftover
                    | B2 \<Rightarrow> strh hs X16 leftover | B1 \<Rightarrow> strb hs X16 leftover)
              | Imm imm _ \<Rightarrow>
                  with_addr dst inst X16 (\<lambda>leftover. seq
                    [load_const64 X17 imm,
                     case mem_size_of dst of
                       B8 \<Rightarrow> str64 X17 X16 leftover | B4 \<Rightarrow> str32 X17 X16 leftover
                     | B2 \<Rightarrow> strh X17 X16 leftover | B1 \<Rightarrow> strb X17 X16 leftover])
              | _ \<Rightarrow> fail (Unsupported Op_Mov))
           else fail (Unsupported Op_Mov)))"

definition lift_lea :: "inst \<Rightarrow> lift" where
  "lift_lea inst =
     with_operand inst 0 (\<lambda>dst. with_operand inst 1 (\<lambda>src.
       case dst of
         Reg rd sz \<Rightarrow>
           (let hrd = host_reg rd in
            (\<lambda>e. sbind
              (case src of
                 MemOp m \<Rightarrow> mem_address_into m hrd e
               | RipRel disp _ \<Rightarrow>
                   sbind (load_const64 hrd (rip_target inst disp) e) (\<lambda>_ e. (Ok 0, e))
               | _ \<Rightarrow> (Err (Unsupported Op_Lea), e))
              (\<lambda>leftover. seq
                [if leftover \<noteq> 0 then add64_imm hrd hrd leftover else seq [], mask_if_b4 sz hrd])))
       | _ \<Rightarrow> fail (Unsupported Op_Lea)))"

definition lift_xchg :: "inst \<Rightarrow> lift" where
  "lift_xchg inst =
     with_operand inst 0 (\<lambda>a. with_operand inst 1 (\<lambda>b.
       let swap = (\<lambda>rr m.
         with_addr m inst X16 (\<lambda>leftover.
           let hr = host_reg rr; sz = mem_size_of m in
           seq [load_sized X17 X16 leftover sz, store_sized hr X16 leftover sz, mov64 hr X17]))
       in case a of
            Reg ra _ \<Rightarrow>
              (case b of
                 Reg rb _ \<Rightarrow>
                   (if ra = rb then seq []
                    else let ha = host_reg ra; hb = host_reg rb in
                      seq [mov64 X16 ha, mov64 ha hb, mov64 hb X16])
               | _ \<Rightarrow> if is_mem b then swap ra b else fail (Unsupported Op_Xchg))
          | _ \<Rightarrow>
              (case b of
                 Reg rb _ \<Rightarrow> if is_mem a then swap rb a else fail (Unsupported Op_Xchg)
               | _ \<Rightarrow> fail (Unsupported Op_Xchg))))"

section \<open>Logic\<close>

definition emit_bitop_rr :: "bit_op_kind \<Rightarrow> reg \<Rightarrow> reg \<Rightarrow> reg \<Rightarrow> op_size \<Rightarrow> 'e em" where
  "emit_bitop_rr k rd ra rb sz = seq
     [case k of BO_And \<Rightarrow> and64 rd ra rb | BO_Or \<Rightarrow> orr64 rd ra rb, mask_if_b4 sz rd]"

definition lift_bitop :: "inst \<Rightarrow> bit_op_kind \<Rightarrow> lift" where
  "lift_bitop inst k =
     with_operand inst 0 (\<lambda>dst. with_operand inst 1 (\<lambda>src.
       case dst of
         Reg rd sz \<Rightarrow>
           (let hrd = host_reg rd in
            case src of
              Reg rs _ \<Rightarrow> emit_bitop_rr k hrd hrd (host_reg rs) sz
            | Imm imm _ \<Rightarrow> seq [load_const64 X16 imm, emit_bitop_rr k hrd hrd X16 sz]
            | _ \<Rightarrow>
                if is_mem src then
                  with_addr src inst X16 (\<lambda>leftover. seq
                    [load_sized X17 X16 leftover (mem_size_of src),
                     emit_bitop_rr k hrd hrd X17 sz])
                else fail (Unsupported (i_op inst)))
       | _ \<Rightarrow>
           if is_mem dst then
             (let sz = mem_size_of dst in
              case src of
                Reg rs _ \<Rightarrow>
                  with_addr dst inst X16 (\<lambda>leftover. seq
                    [load_sized X17 X16 leftover sz,
                     emit_bitop_rr k X17 X17 (host_reg rs) sz,
                     store_sized X17 X16 leftover sz])
              | Imm imm _ \<Rightarrow>
                  with_addr dst inst X16 (\<lambda>leftover. seq
                    [load_sized X17 X16 leftover sz,
                     load_const64 X16 imm,
                     emit_bitop_rr k X17 X17 X16 sz,
                     with_addr dst inst X16 (\<lambda>leftover2. store_sized X17 X16 leftover2 sz)])
              | _ \<Rightarrow> fail (Unsupported (i_op inst)))
           else fail (Unsupported (i_op inst))))"

definition lift_test :: "inst \<Rightarrow> lift" where
  "lift_test inst =
     with_operand inst 0 (\<lambda>a. with_operand inst 1 (\<lambda>b.
       case a of
         Reg ra _ \<Rightarrow>
           (case b of
              Reg rb _ \<Rightarrow> ands64 XZR (host_reg ra) (host_reg rb)
            | Imm imm _ \<Rightarrow> seq [load_const64 X16 imm, ands64 XZR (host_reg ra) X16]
            | _ \<Rightarrow>
                if is_mem b then
                  with_addr b inst X16 (\<lambda>leftover. seq
                    [load_sized X17 X16 leftover (mem_size_of b), ands64 XZR (host_reg ra) X17])
                else fail (Unsupported Op_Test))
       | _ \<Rightarrow>
           if is_mem a then
             (case b of
                Reg rb _ \<Rightarrow>
                  with_addr a inst X16 (\<lambda>leftover. seq
                    [load_sized X17 X16 leftover (mem_size_of a), ands64 XZR X17 (host_reg rb)])
              | Imm imm _ \<Rightarrow>
                  with_addr a inst X16 (\<lambda>leftover. seq
                    [load_sized X17 X16 leftover (mem_size_of a),
                     load_const64 X16 imm, ands64 XZR X17 X16])
              | _ \<Rightarrow> fail (Unsupported Op_Test))
           else fail (Unsupported Op_Test)))"

definition emit_xor_rr :: "reg \<Rightarrow> reg \<Rightarrow> reg \<Rightarrow> op_size \<Rightarrow> 'e em" where
  "emit_xor_rr rd ra rb sz =
     (case sz of
        B8 \<Rightarrow> eor64 rd ra rb
      | B4 \<Rightarrow> seq [eor64 rd ra rb, emit_and_imm_lo32 rd rd]
      | _ \<Rightarrow> eor64 rd ra rb)"

definition lift_xor :: "inst \<Rightarrow> lift" where
  "lift_xor inst =
     with_operand inst 0 (\<lambda>dst. with_operand inst 1 (\<lambda>src.
       case dst of
         Reg rd sz \<Rightarrow>
           (let hrd = host_reg rd in
            case src of
              Reg rs _ \<Rightarrow>
                (if rd = rs then (case sz of B8 \<Rightarrow> movz64 hrd 0 0 | _ \<Rightarrow> movz32 hrd 0 0)
                 else emit_xor_rr hrd hrd (host_reg rs) sz)
            | Imm imm _ \<Rightarrow> seq [load_const64 X16 imm, emit_xor_rr hrd hrd X16 sz]
            | _ \<Rightarrow>
                if is_mem src then
                  with_addr src inst X16 (\<lambda>leftover. seq
                    [load_sized X17 X16 leftover (mem_size_of src), emit_xor_rr hrd hrd X17 sz])
                else fail (Unsupported Op_Xor))
       | _ \<Rightarrow>
           if is_mem dst then
             (let sz = mem_size_of dst in
              case src of
                Reg rs _ \<Rightarrow>
                  with_addr dst inst X16 (\<lambda>leftover. seq
                    [load_sized X17 X16 leftover sz,
                     emit_xor_rr X17 X17 (host_reg rs) sz,
                     store_sized X17 X16 leftover sz])
              | Imm imm _ \<Rightarrow>
                  with_addr dst inst X16 (\<lambda>leftover. seq
                    [load_sized X17 X16 leftover sz,
                     load_const64 X16 imm,
                     emit_xor_rr X17 X17 X16 sz,
                     with_addr dst inst X16 (\<lambda>leftover2. store_sized X17 X16 leftover2 sz)])
              | _ \<Rightarrow> fail (Unsupported Op_Xor))
           else fail (Unsupported Op_Xor)))"

text \<open>
  The unary operations \<open>NEG\<close> and \<open>NOT\<close>: the hand-encoded word is \<open>SUBS\<close> or \<open>ORN\<close> with the zero
  register as first source.
\<close>

definition lift_neg :: "inst \<Rightarrow> lift" where
  "lift_neg inst = with_operand inst 0 (\<lambda>dst.
     case dst of
       Reg rd sz \<Rightarrow>
         (let hrd = host_reg rd in seq
            [raw_word (0xEB000000 OR push_bit 16 (ucast hrd) OR push_bit 5 31 OR ucast hrd),
             mask_if_b4 sz hrd])
     | _ \<Rightarrow>
         if is_mem dst then
           (let sz = mem_size_of dst in with_addr dst inst X16 (\<lambda>leftover. seq
              [load_sized X17 X16 leftover sz,
               raw_word (0xEB000000 OR push_bit 16 17 OR push_bit 5 31 OR 17),
               mask_if_b4 sz X17, store_sized X17 X16 leftover sz]))
         else fail (Unsupported Op_Neg))"

definition lift_not :: "inst \<Rightarrow> lift" where
  "lift_not inst = with_operand inst 0 (\<lambda>dst.
     case dst of
       Reg rd sz \<Rightarrow>
         (let hrd = host_reg rd in seq
            [raw_word (0xAA200000 OR push_bit 16 (ucast hrd) OR push_bit 5 31 OR ucast hrd),
             mask_if_b4 sz hrd])
     | _ \<Rightarrow>
         if is_mem dst then
           (let sz = mem_size_of dst in with_addr dst inst X16 (\<lambda>leftover. seq
              [load_sized X17 X16 leftover sz,
               raw_word (0xAA200000 OR push_bit 16 17 OR push_bit 5 31 OR 17),
               mask_if_b4 sz X17, store_sized X17 X16 leftover sz]))
         else fail (Unsupported Op_Not))"

section \<open>Arithmetic\<close>

definition emit_arith_rr :: "arith_kind \<Rightarrow> reg \<Rightarrow> reg \<Rightarrow> reg \<Rightarrow> op_size \<Rightarrow> 'e em" where
  "emit_arith_rr kind rd ra rb sz =
     (case (kind, sz) of
        (AK_Add, B8) \<Rightarrow> adds64 rd ra rb
      | (AK_Sub, B8) \<Rightarrow> subs64 rd ra rb
      | (AK_Add, B4) \<Rightarrow> seq [adds64 rd ra rb, emit_and_imm_lo32 rd rd]
      | (AK_Sub, B4) \<Rightarrow> seq [subs64 rd ra rb, emit_and_imm_lo32 rd rd]
      | (AK_Add, _) \<Rightarrow> adds64 rd ra rb
      | (AK_Sub, _) \<Rightarrow> subs64 rd ra rb)"

definition lift_arith :: "inst \<Rightarrow> arith_kind \<Rightarrow> lift" where
  "lift_arith inst kind =
     with_operand inst 0 (\<lambda>dst. with_operand inst 1 (\<lambda>src.
       case dst of
         Reg rd sz \<Rightarrow>
           (let hrd = host_reg rd in
            case src of
              Reg rs _ \<Rightarrow> emit_arith_rr kind hrd hrd (host_reg rs) sz
            | Imm imm _ \<Rightarrow>
                (if 0 \<le>s imm \<and> imm12_encodable (ucast imm) \<and> (sz = B8 \<or> sz = B4) then seq
                   [case kind of
                      AK_Add \<Rightarrow> adds64_imm hrd hrd (ucast imm)
                    | AK_Sub \<Rightarrow> subs64_imm hrd hrd (ucast imm),
                    mask_if_b4 sz hrd]
                 else if sz = B8 \<or> sz = B4 then seq
                   [load_const64 X17 imm, emit_arith_rr kind hrd hrd X17 sz]
                 else fail (Unsupported (i_op inst)))
            | _ \<Rightarrow>
                if is_mem src then
                  with_addr src inst X16 (\<lambda>leftover. seq
                    [load_sized X17 X16 leftover (mem_size_of src),
                     emit_arith_rr kind hrd hrd X17 sz])
                else fail (Unsupported (i_op inst)))
       | _ \<Rightarrow>
           if is_mem dst then
             (let sz = mem_size_of dst in
              case src of
                Reg rs _ \<Rightarrow>
                  with_addr dst inst X16 (\<lambda>leftover. seq
                    [load_sized X17 X16 leftover sz,
                     emit_arith_rr kind X17 X17 (host_reg rs) sz,
                     store_sized X17 X16 leftover sz])
              | Imm imm _ \<Rightarrow>
                  with_addr dst inst X16 (\<lambda>leftover. seq
                    [load_sized X17 X16 leftover sz,
                     load_const64 X16 imm,
                     emit_arith_rr kind X17 X17 X16 sz,
                     with_addr dst inst X16 (\<lambda>leftover2. store_sized X17 X16 leftover2 sz)])
              | _ \<Rightarrow> fail (Unsupported (i_op inst)))
           else fail (Unsupported (i_op inst))))"

definition lift_cmp :: "inst \<Rightarrow> lift" where
  "lift_cmp inst =
     with_operand inst 0 (\<lambda>a. with_operand inst 1 (\<lambda>b.
       case a of
         Reg ra sz \<Rightarrow>
           (if is_mem b then
              with_addr b inst X16 (\<lambda>leftover. seq
                [load_sized X17 X16 leftover sz, cmp64 (host_reg ra) X17])
            else if sz = B4 \<or> sz = B8 then
              (case b of
                 Reg rb _ \<Rightarrow> cmp64 (host_reg ra) (host_reg rb)
               | Imm imm _ \<Rightarrow>
                   (if 0 \<le>s imm \<and> imm12_encodable (ucast imm)
                    then cmp64_imm (host_reg ra) (ucast imm)
                    else seq [load_const64 X17 imm, cmp64 (host_reg ra) X17])
               | _ \<Rightarrow> fail (Unsupported Op_Cmp))
            else fail (Unsupported Op_Cmp))
       | _ \<Rightarrow>
           if is_mem a then
             (case b of
                Reg rb sz \<Rightarrow>
                  with_addr a inst X16 (\<lambda>leftover. seq
                    [load_sized X17 X16 leftover sz, cmp64 X17 (host_reg rb)])
              | Imm imm _ \<Rightarrow>
                  with_addr a inst X16 (\<lambda>leftover. seq
                    [load_sized X17 X16 leftover (mem_size_of a),
                     if 0 \<le>s imm \<and> imm12_encodable (ucast imm) then cmp64_imm X17 (ucast imm)
                     else seq [load_const64 X16 imm, cmp64 X17 X16]])
              | _ \<Rightarrow> fail (Unsupported Op_Cmp))
           else fail (Unsupported Op_Cmp)))"

definition lift_inc_dec :: "inst \<Rightarrow> bool \<Rightarrow> lift" where
  "lift_inc_dec inst inc = with_operand inst 0 (\<lambda>dst.
     case dst of
       Reg rd sz \<Rightarrow>
         (let hrd = host_reg rd in seq
            [if inc then adds64_imm hrd hrd 1 else subs64_imm hrd hrd 1, mask_if_b4 sz hrd])
     | _ \<Rightarrow>
         if is_mem dst then
           (let sz = mem_size_of dst in with_addr dst inst X16 (\<lambda>leftover. seq
              [load_sized X17 X16 leftover sz,
               if inc then adds64_imm X17 X17 1 else subs64_imm X17 X17 1,
               mask_if_b4 sz X17, store_sized X17 X16 leftover sz]))
         else fail (Unsupported (i_op inst)))"

definition lift_addc :: "inst \<Rightarrow> bool \<Rightarrow> lift" where
  "lift_addc inst add =
     with_operand inst 0 (\<lambda>dst. with_operand inst 1 (\<lambda>src.
       case dst of
         Reg r sz \<Rightarrow>
           (let rd = host_reg r;
                base = (if add then 0xBA000000 else 0xFA000000)
            in seq
              [case src of
                 Reg rs _ \<Rightarrow> mov64 X17 (host_reg rs)
               | Imm imm _ \<Rightarrow> load_const64 X17 imm
               | _ \<Rightarrow>
                   if is_mem src then
                     with_addr src inst X16 (\<lambda>leftover.
                       load_sized X17 X16 leftover (mem_size_of src))
                   else fail (Unsupported (i_op inst)),
               raw_word (base OR push_bit 16 17 OR push_bit 5 (ucast rd) OR ucast rd),
               mask_if_b4 sz rd])
       | _ \<Rightarrow> fail (Unsupported (i_op inst))))"

section \<open>Multiplication and division\<close>

definition lift_imul_n_operand :: "inst \<Rightarrow> lift" where
  "lift_imul_n_operand inst =
     with_operand inst 0 (\<lambda>dst. with_operand inst 1 (\<lambda>a.
       case dst of
         Reg r sz \<Rightarrow>
           (let rd = host_reg r in seq
              [case a of
                 Reg rs _ \<Rightarrow> mov64 X17 (host_reg rs)
               | _ \<Rightarrow>
                   if is_mem a then
                     with_addr a inst X16 (\<lambda>leftover. load_sized X17 X16 leftover (mem_size_of a))
                   else fail (Unsupported Op_Imul),
               case operand_at inst 2 of
                 Some (Imm imm _) \<Rightarrow> load_const64 X16 imm
               | None \<Rightarrow> mov64 X16 rd
               | _ \<Rightarrow> fail (Unsupported Op_Imul),
               mul64 rd X17 X16,
               mask_if_b4 sz rd])
       | _ \<Rightarrow> fail (Unsupported Op_Imul)))"

text \<open>The body of \<open>lift_divmul\<close> once the operand is in \<open>divisor\<close>; RAX is X0 and RDX is X2.\<close>

definition divmul_body :: "inst \<Rightarrow> div_mul_kind \<Rightarrow> op_size \<Rightarrow> reg \<Rightarrow> lift" where
  "divmul_body inst kind sz divisor =
     (let rax = X0; rdx = X2 in
      if (kind = DM_Div \<or> kind = DM_Idiv) \<and> sz = B8 then seq
        [mov64 X16 rax,
         if kind = DM_Div then udiv64 rax X16 divisor else sdiv64 rax X16 divisor,
         msub64 rdx rax divisor X16]
      else if (kind = DM_Div \<or> kind = DM_Idiv) \<and> sz = B4 then seq
        [emit_uxtw X16 rax,
         emit_uxtw X17 rdx,
         emit_orr_lsl64 X16 X16 X17 32,
         emit_uxtw X17 divisor,
         if kind = DM_Div then udiv64 rax X16 X17
         else seq
           [raw_word (0x93407C00 OR push_bit 5 (ucast rax) OR ucast X16),
            emit_orr_lsl64 X16 X16 X17 32,
            raw_word (0x93407C00 OR push_bit 5 (ucast divisor) OR ucast X17),
            sdiv64 rax X16 X17],
         msub64 rdx rax X17 X16,
         emit_uxtw rax rax,
         emit_uxtw rdx rdx]
      else if kind = DM_Mul \<and> sz = B8 then
        seq [mov64 X16 rax, mul64 rax X16 divisor, umulh64 rdx X16 divisor]
      else if kind = DM_Imul1 \<and> sz = B8 then
        seq [mov64 X16 rax, mul64 rax X16 divisor, smulh64 rdx X16 divisor]
      else if (kind = DM_Mul \<or> kind = DM_Imul1) \<and> sz = B4 then seq
        [if kind = DM_Imul1 then seq
           [raw_word (0x93407C00 OR push_bit 5 (ucast rax) OR ucast X16),
            raw_word (0x93407C00 OR push_bit 5 (ucast divisor) OR ucast X17)]
         else seq [emit_uxtw X16 rax, emit_uxtw X17 divisor],
         mul64 rax X16 X17,
         emit_ubfm64 rdx rax 32 63,
         emit_uxtw rax rax]
      else fail (Unsupported (i_op inst)))"

definition lift_divmul :: "inst \<Rightarrow> div_mul_kind \<Rightarrow> lift" where
  "lift_divmul inst kind = with_operand inst 0 (\<lambda>rm_op.
     case rm_op of
       Reg r s \<Rightarrow> divmul_body inst kind s (host_reg r)
     | _ \<Rightarrow>
         if is_mem rm_op then
           (let sz = mem_size_of rm_op in
            with_addr rm_op inst X16 (\<lambda>leftover. seq
              [load_sized X17 X16 leftover sz, divmul_body inst kind sz X17]))
         else fail (Unsupported (i_op inst)))"

definition lift_cdq :: lift where
  "lift_cdq =
     (let rax = host_reg Rax; rdx = host_reg Rdx in seq
        [raw_word (0x93407C00 OR push_bit 5 (ucast rax) OR ucast rdx),
         raw_word (0x9343FC00 OR push_bit 5 (ucast rdx) OR ucast rdx),
         emit_and_imm_lo32 rdx rdx])"

definition lift_cqo :: lift where
  "lift_cqo =
     (let rax = host_reg Rax; rdx = host_reg Rdx in
      raw_word (0x93400000 OR push_bit 16 63 OR push_bit 10 63 OR push_bit 5 (ucast rax) OR ucast rdx))"

section \<open>Shifts, rotates, bit scans\<close>

definition shift_mask :: "op_size \<Rightarrow> u64" where
  "shift_mask sz = (if sz = B8 then 0x3F else 0x1F)"

definition lift_shift :: "inst \<Rightarrow> shift_dir \<Rightarrow> lift" where
  "lift_shift inst dir =
     with_operand inst 0 (\<lambda>dst. with_operand inst 1 (\<lambda>amt.
       case dst of
         Reg rd sz \<Rightarrow>
           (let hrd = host_reg rd;
                body = (\<lambda>amt_reg. seq
                  [if dir = SD_ArithRight \<and> sz = B4
                   then raw_word (0x93407C00 OR push_bit 5 (ucast hrd) OR ucast hrd) else seq [],
                   case dir of
                     SD_Left \<Rightarrow> lslv64 hrd hrd amt_reg
                   | SD_Right \<Rightarrow> lsrv64 hrd hrd amt_reg
                   | SD_ArithRight \<Rightarrow> asrv64 hrd hrd amt_reg,
                   mask_if_b4 sz hrd])
            in case amt of
                 Imm imm _ \<Rightarrow> seq [movz64 X16 (ucast (imm AND shift_mask sz)) 0, body X16]
               | Reg r _ \<Rightarrow> if r = Rcx then body (host_reg Rcx) else fail (Unsupported (i_op inst))
               | _ \<Rightarrow> fail (Unsupported (i_op inst)))
       | _ \<Rightarrow> fail (Unsupported (i_op inst))))"

definition lift_rotate :: "inst \<Rightarrow> bool \<Rightarrow> lift" where
  "lift_rotate inst rol =
     with_operand inst 0 (\<lambda>dst. with_operand inst 1 (\<lambda>amt.
       case dst of
         Reg rd sz \<Rightarrow>
           (let hrd = host_reg rd;
                width = (if sz = B8 then 64 else 32) :: u32;
                body = (\<lambda>amt_reg. seq [rorv64 hrd hrd amt_reg, mask_if_b4 sz hrd])
            in case amt of
                 Imm imm _ \<Rightarrow>
                   (let n = ucast (imm AND shift_mask sz) :: u32;
                        n = (if rol then (width - n) AND ucast (shift_mask sz) else n)
                    in seq [movz64 X16 (ucast n) 0, body X16])
               | Reg r _ \<Rightarrow>
                   (if r = Rcx then
                      (if rol then seq
                         [movz64 X16 (ucast width) 0, subs64 X16 X16 (host_reg Rcx), body X16]
                       else body (host_reg Rcx))
                    else fail (Unsupported (i_op inst)))
               | _ \<Rightarrow> fail (Unsupported (i_op inst)))
       | _ \<Rightarrow> fail (Unsupported (i_op inst))))"

definition lift_bitscan :: "inst \<Rightarrow> bool \<Rightarrow> lift" where
  "lift_bitscan inst is_rev =
     with_operand inst 0 (\<lambda>dst. with_operand inst 1 (\<lambda>src.
       case dst of
         Reg r sz \<Rightarrow>
           (let rd = host_reg r in seq
              [case src of
                 Reg rs _ \<Rightarrow> mov64 X17 (host_reg rs)
               | _ \<Rightarrow>
                   if is_mem src then
                     with_addr src inst X16 (\<lambda>leftover.
                       load_sized X17 X16 leftover (mem_size_of src))
                   else fail (Unsupported (i_op inst)),
               mask_if_b4 sz X17,
               if is_rev then seq
                 [raw_word (0xDAC01000 OR push_bit 5 17 OR ucast rd),
                  load_const64 X16 (if sz = B8 then 63 else 31),
                  subs64 rd X16 rd]
               else seq
                 [raw_word (0xDAC00000 OR push_bit 5 17 OR ucast rd),
                  raw_word (0xDAC01000 OR push_bit 5 (ucast rd) OR ucast rd)],
               mask_if_b4 sz rd])
       | _ \<Rightarrow> fail (Unsupported (i_op inst))))"

definition lift_bswap :: "inst \<Rightarrow> lift" where
  "lift_bswap inst = with_operand inst 0 (\<lambda>dst.
     case dst of
       Reg r sz \<Rightarrow>
         (let rd = host_reg r in
          case sz of
            B8 \<Rightarrow> rev_x rd rd | B4 \<Rightarrow> rev_w rd rd
          | _ \<Rightarrow> fail (Unsupported Op_Bswap))
     | _ \<Rightarrow> fail (Unsupported Op_Bswap))"

section \<open>Conditional moves and sets, compare-and-exchange\<close>

definition lift_cmov :: "inst \<Rightarrow> cond \<Rightarrow> lift" where
  "lift_cmov inst cnd =
     with_operand inst 0 (\<lambda>dst. with_operand inst 1 (\<lambda>src.
       case (dst, src) of
         (Reg rd _, Reg rs _) \<Rightarrow>
           (case cond_x86_to_a64 cnd of
              None \<Rightarrow> fail (Unsupported (i_op inst))
            | Some a64_cond \<Rightarrow> csel64 (host_reg rd) (host_reg rs) (host_reg rd) a64_cond)
       | _ \<Rightarrow> fail (Unsupported (i_op inst))))"

definition lift_set :: "inst \<Rightarrow> cond \<Rightarrow> lift" where
  "lift_set inst cnd = with_operand inst 0 (\<lambda>dst.
     case dst of
       Reg rd _ \<Rightarrow>
         (case cond_x86_to_a64 cnd of
            None \<Rightarrow> fail (Unsupported (i_op inst))
          | Some a64_cond \<Rightarrow> cset64 (host_reg rd) a64_cond)
     | _ \<Rightarrow> fail (Unsupported (i_op inst)))"

definition emit_cmpxchg_compare :: "reg \<Rightarrow> reg \<Rightarrow> op_size \<Rightarrow> 'e em" where
  "emit_cmpxchg_compare rax tmp sz = cmp64 rax tmp"

definition with_label :: "(label \<Rightarrow> 'e em) \<Rightarrow> 'e em" where
  "with_label f = (\<lambda>e. sbind (make_label e) f)"

definition lift_cmpxchg :: "inst \<Rightarrow> lift" where
  "lift_cmpxchg inst =
     with_operand inst 0 (\<lambda>dst. with_operand inst 1 (\<lambda>src.
       case src of
         Reg r sz \<Rightarrow>
           (let src_reg = host_reg r; rax = host_reg Rax in
            case dst of
              Reg rd _ \<Rightarrow>
                (let dst_reg = host_reg rd in seq
                   [mov64 X17 dst_reg, emit_cmpxchg_compare rax X17 sz,
                    with_label (\<lambda>not_eq. seq
                      [b_cond C_Ne not_eq, mov64 dst_reg src_reg, mask_if_b4 sz dst_reg,
                       with_label (\<lambda>end_l. seq
                         [em_b end_l, bind_label not_eq, mov64 rax X17, mask_if_b4 sz rax,
                          bind_label end_l])])])
            | _ \<Rightarrow>
                if is_mem dst then
                  with_addr dst inst X16 (\<lambda>leftover. seq
                    [load_sized X17 X16 leftover (mem_size_of dst),
                     emit_cmpxchg_compare rax X17 sz,
                     with_label (\<lambda>not_eq. seq
                       [b_cond C_Ne not_eq, store_sized src_reg X16 leftover (mem_size_of dst),
                        with_label (\<lambda>end_l. seq
                          [em_b end_l, bind_label not_eq, mov64 rax X17, mask_if_b4 sz rax,
                           bind_label end_l])])])
                else fail (Unsupported Op_Cmpxchg))
       | _ \<Rightarrow> fail (Unsupported Op_Cmpxchg)))"

definition lift_xadd :: "inst \<Rightarrow> lift" where
  "lift_xadd inst =
     with_operand inst 0 (\<lambda>dst. with_operand inst 1 (\<lambda>src.
       case src of
         Reg r sz \<Rightarrow>
           (let src_reg = host_reg r in
            case dst of
              Reg rd _ \<Rightarrow>
                (let dst_reg = host_reg rd in seq
                   [mov64 X17 dst_reg, emit_arith_rr AK_Add dst_reg dst_reg src_reg sz,
                    mov64 src_reg X17, mask_if_b4 sz src_reg])
            | _ \<Rightarrow>
                if is_mem dst then
                  with_addr dst inst X16 (\<lambda>leftover. seq
                    [load_sized X17 X16 leftover (mem_size_of dst),
                     stp64_pre X17 XZR SP (- 16),
                     emit_arith_rr AK_Add X17 X17 src_reg sz,
                     store_sized X17 X16 leftover (mem_size_of dst),
                     ldp64_post src_reg XZR SP 16,
                     mask_if_b4 sz src_reg])
                else fail (Unsupported Op_Xadd))
       | _ \<Rightarrow> fail (Unsupported Op_Xadd)))"

definition lift_cpuid :: lift where
  "lift_cpuid =
     (let rax = host_reg Rax; rcx = host_reg Rcx; rdx = host_reg Rdx; rbx = host_reg Rbx in
      with_label (\<lambda>leaf1_label. with_label (\<lambda>zero_label. with_label (\<lambda>end_label. seq
        [cmp64_imm rax 0, b_cond C_Ne leaf1_label,
         load_const64 rax 7, load_const64 rbx 0x756e6547,
         load_const64 rdx 0x49656e69, load_const64 rcx 0x6c65746e, em_b end_label,
         bind_label leaf1_label,
         cmp64_imm rax 1, b_cond C_Ne zero_label,
         load_const64 rax 0x000106A9, load_const64 rbx 0x00010800,
         load_const64 rcx 0x00982201, load_const64 rdx 0x07808111, em_b end_label,
         bind_label zero_label,
         movz64 rax 0 0, movz64 rbx 0 0, movz64 rcx 0 0, movz64 rdx 0 0,
         bind_label end_label]))))"

definition lift_rdtsc :: lift where
  "lift_rdtsc =
     (let rax = host_reg Rax; rdx = host_reg Rdx in seq
        [raw_word (0xD53BE040 OR ucast rax),
         raw_word (0xD3400000 OR push_bit 16 32 OR push_bit 10 63 OR push_bit 5 (ucast rax) OR ucast rdx),
         emit_and_imm_lo32 rax rax])"

end
