(* ===== verification/Lifter_Sse.thy ===== *)
theory Lifter_Sse
  imports Lifter
begin

text \<open>
  The XMM half of \<open>quantum-jit/src/lifter.rs\<close> and the dispatch \<open>lift\<close>. XMM registers live in the
  guest context that X28 points at; an operation loads them into V16 and V17, computes and stores
  back. \<open>load_q_src\<close> is the match that brings the second operand into V17, which the source repeats
  in each packed operation.
\<close>

definition xmm_ctx_offset :: "u8 \<Rightarrow> u32" where
  "xmm_ctx_offset n = 160 + ucast n * 16"

section \<open>Moves\<close>

definition lift_movq_xmm :: "inst \<Rightarrow> lift" where
  "lift_movq_xmm inst =
     (let uns = fail (Unsupported Op_MovqXmm) in
      with_operand inst 0 (\<lambda>dst. with_operand inst 1 (\<lambda>src.
        case dst of
          XmmReg d sz \<Rightarrow>
            (let off = xmm_ctx_offset d in
             case src of
               XmmReg s _ \<Rightarrow> seq
                 [ldr_d X16 X28 (xmm_ctx_offset s), str_d X16 X28 off, str64 XZR X28 (off + 8)]
             | Reg rs _ \<Rightarrow>
                 (let hs = host_reg rs in
                  case sz of
                    B8 \<Rightarrow> seq [str64 hs X28 off, str64 XZR X28 (off + 8)]
                  | B4 \<Rightarrow> seq [str32 hs X28 off, str32 XZR X28 (off + 4), str64 XZR X28 (off + 8)]
                  | _ \<Rightarrow> uns)
             | _ \<Rightarrow>
                 if is_mem src then
                   with_addr src inst X17 (\<lambda>leftover.
                     case sz of
                       B8 \<Rightarrow> seq [ldr64 X16 X17 leftover, str64 X16 X28 off, str64 XZR X28 (off + 8)]
                     | B4 \<Rightarrow> seq [ldr32 X16 X17 leftover, str32 X16 X28 off,
                                 str32 XZR X28 (off + 4), str64 XZR X28 (off + 8)]
                     | _ \<Rightarrow> uns)
                 else uns)
        | _ \<Rightarrow>
            (case src of
               XmmReg s sz \<Rightarrow>
                 (let off = xmm_ctx_offset s in
                  case dst of
                    Reg rd _ \<Rightarrow>
                      (let hrd = host_reg rd in
                       case sz of B8 \<Rightarrow> ldr64 hrd X28 off | B4 \<Rightarrow> ldr32 hrd X28 off | _ \<Rightarrow> uns)
                  | _ \<Rightarrow>
                      if is_mem dst then
                        with_addr dst inst X17 (\<lambda>leftover.
                          case sz of
                            B8 \<Rightarrow> seq [ldr64 X16 X28 off, str64 X16 X17 leftover]
                          | B4 \<Rightarrow> seq [ldr32 X16 X28 off, str32 X16 X17 leftover]
                          | _ \<Rightarrow> uns)
                      else uns)
             | _ \<Rightarrow> uns))))"

definition lift_movsd_xmm :: "inst \<Rightarrow> lift" where
  "lift_movsd_xmm inst =
     (let uns = fail (Unsupported Op_MovsdXmm) in
      with_operand inst 0 (\<lambda>dst. with_operand inst 1 (\<lambda>src.
        case dst of
          XmmReg d _ \<Rightarrow>
            (let off = xmm_ctx_offset d in
             case src of
               XmmReg s _ \<Rightarrow> seq [ldr64 X16 X28 (xmm_ctx_offset s), str64 X16 X28 off]
             | _ \<Rightarrow>
                 if is_mem src then
                   with_addr src inst X17 (\<lambda>leftover. seq
                     [ldr64 X16 X17 leftover, str64 X16 X28 off, str64 XZR X28 (off + 8)])
                 else uns)
        | _ \<Rightarrow>
            (case src of
               XmmReg s _ \<Rightarrow>
                 (if is_mem dst then
                    with_addr dst inst X17 (\<lambda>leftover. seq
                      [ldr64 X16 X28 (xmm_ctx_offset s), str64 X16 X17 leftover])
                  else uns)
             | _ \<Rightarrow> uns))))"

definition lift_movss_xmm :: "inst \<Rightarrow> lift" where
  "lift_movss_xmm inst =
     (let uns = fail (Unsupported Op_MovssXmm) in
      with_operand inst 0 (\<lambda>dst. with_operand inst 1 (\<lambda>src.
        case dst of
          XmmReg d _ \<Rightarrow>
            (let off = xmm_ctx_offset d in
             case src of
               XmmReg s _ \<Rightarrow> seq [ldr32 X16 X28 (xmm_ctx_offset s), str32 X16 X28 off]
             | _ \<Rightarrow>
                 if is_mem src then
                   with_addr src inst X17 (\<lambda>leftover. seq
                     [ldr32 X16 X17 leftover, str32 X16 X28 off,
                      str32 XZR X28 (off + 4), str64 XZR X28 (off + 8)])
                 else uns)
        | _ \<Rightarrow>
            (case src of
               XmmReg s _ \<Rightarrow>
                 (if is_mem dst then
                    with_addr dst inst X17 (\<lambda>leftover. seq
                      [ldr32 X16 X28 (xmm_ctx_offset s), str32 X16 X17 leftover])
                  else uns)
             | _ \<Rightarrow> uns))))"

definition lift_movdq_xmm :: "inst \<Rightarrow> lift" where
  "lift_movdq_xmm inst =
     (let uns = fail (Unsupported Op_MovdqXmm) in
      with_operand inst 0 (\<lambda>dst. with_operand inst 1 (\<lambda>src.
        case dst of
          XmmReg d _ \<Rightarrow>
            (case src of
               XmmReg s _ \<Rightarrow> seq [ldr_q X16 X28 (xmm_ctx_offset s), str_q X16 X28 (xmm_ctx_offset d)]
             | _ \<Rightarrow>
                 if is_mem src then
                   with_addr src inst X17 (\<lambda>leftover. seq
                     [ldr_q X16 X17 leftover, str_q X16 X28 (xmm_ctx_offset d)])
                 else uns)
        | _ \<Rightarrow>
            (case src of
               XmmReg s _ \<Rightarrow>
                 (if is_mem dst then
                    with_addr dst inst X17 (\<lambda>leftover. seq
                      [ldr_q X16 X28 (xmm_ctx_offset s), str_q X16 X17 leftover])
                  else uns)
             | _ \<Rightarrow> uns))))"

section \<open>Packed operations\<close>

definition load_q_src :: "inst \<Rightarrow> operand \<Rightarrow> op \<Rightarrow> lift" where
  "load_q_src inst src oper =
     (case src of
        XmmReg s _ \<Rightarrow> ldr_q X17 X28 (xmm_ctx_offset s)
      | _ \<Rightarrow>
          if is_mem src then with_addr src inst X17 (\<lambda>leftover. ldr_q X17 X17 leftover)
          else fail (Unsupported oper))"

definition lift_packed_logical :: "inst \<Rightarrow> packed_logic \<Rightarrow> lift" where
  "lift_packed_logical inst k =
     with_operand inst 0 (\<lambda>dst. with_operand inst 1 (\<lambda>src.
       case dst of
         XmmReg dst_idx _ \<Rightarrow> seq
           [ldr_q X16 X28 (xmm_ctx_offset dst_idx),
            load_q_src inst src (i_op inst),
            case k of
              PL_Xor \<Rightarrow> eor_v16b X16 X16 X17
            | PL_And \<Rightarrow> and_v16b X16 X16 X17
            | PL_Or \<Rightarrow> orr_v16b X16 X16 X17,
            str_q X16 X28 (xmm_ctx_offset dst_idx)]
       | _ \<Rightarrow> fail (Unsupported (i_op inst))))"

definition lift_packed_arith :: "inst \<Rightarrow> packed_arith \<Rightarrow> lift" where
  "lift_packed_arith inst k =
     with_operand inst 0 (\<lambda>dst. with_operand inst 1 (\<lambda>src.
       case dst of
         XmmReg dst_idx _ \<Rightarrow> seq
           [ldr_q X16 X28 (xmm_ctx_offset dst_idx),
            load_q_src inst src (i_op inst),
            case k of
              PA_AddQ \<Rightarrow> add_v2d X16 X16 X17 | PA_SubQ \<Rightarrow> sub_v2d X16 X16 X17
            | PA_AddD \<Rightarrow> add_v4s X16 X16 X17 | PA_SubD \<Rightarrow> sub_v4s X16 X16 X17
            | PA_AddW \<Rightarrow> add_v8h X16 X16 X17 | PA_SubW \<Rightarrow> sub_v8h X16 X16 X17
            | PA_AddB \<Rightarrow> add_v16b X16 X16 X17 | PA_SubB \<Rightarrow> sub_v16b X16 X16 X17,
            str_q X16 X28 (xmm_ctx_offset dst_idx)]
       | _ \<Rightarrow> fail (Unsupported (i_op inst))))"

definition lift_packed_fp :: "inst \<Rightarrow> fp_packed_op \<Rightarrow> lift" where
  "lift_packed_fp inst k =
     with_operand inst 0 (\<lambda>dst. with_operand inst 1 (\<lambda>src.
       case dst of
         XmmReg dst_idx sz \<Rightarrow> seq
           [ldr_q X16 X28 (xmm_ctx_offset dst_idx),
            load_q_src inst src (i_op inst),
            case sz of
              B4 \<Rightarrow> (case k of
                FPP_Add \<Rightarrow> fadd_v4s X16 X16 X17 | FPP_Sub \<Rightarrow> fsub_v4s X16 X16 X17
              | FPP_Mul \<Rightarrow> fmul_v4s X16 X16 X17 | FPP_Div \<Rightarrow> fdiv_v4s X16 X16 X17)
            | B8 \<Rightarrow> (case k of
                FPP_Add \<Rightarrow> fadd_v2d X16 X16 X17 | FPP_Sub \<Rightarrow> fsub_v2d X16 X16 X17
              | FPP_Mul \<Rightarrow> fmul_v2d X16 X16 X17 | FPP_Div \<Rightarrow> fdiv_v2d X16 X16 X17)
            | _ \<Rightarrow> fail (Unsupported (i_op inst)),
            str_q X16 X28 (xmm_ctx_offset dst_idx)]
       | _ \<Rightarrow> fail (Unsupported (i_op inst))))"

definition lift_pcmpeq :: "inst \<Rightarrow> op_size \<Rightarrow> lift" where
  "lift_pcmpeq inst lane =
     with_operand inst 0 (\<lambda>dst. with_operand inst 1 (\<lambda>src.
       case dst of
         XmmReg dst_idx _ \<Rightarrow> seq
           [ldr_q X16 X28 (xmm_ctx_offset dst_idx),
            load_q_src inst src (i_op inst),
            case lane of
              B1 \<Rightarrow> cmeq_v16b X16 X16 X17 | B2 \<Rightarrow> cmeq_v8h X16 X16 X17
            | B4 \<Rightarrow> cmeq_v4s X16 X16 X17 | B8 \<Rightarrow> cmeq_v2d X16 X16 X17,
            str_q X16 X28 (xmm_ctx_offset dst_idx)]
       | _ \<Rightarrow> fail (Unsupported (i_op inst))))"

definition lift_pmullw :: "inst \<Rightarrow> lift" where
  "lift_pmullw inst =
     with_operand inst 0 (\<lambda>dst. with_operand inst 1 (\<lambda>src.
       case dst of
         XmmReg dst_idx _ \<Rightarrow> seq
           [ldr_q X16 X28 (xmm_ctx_offset dst_idx),
            load_q_src inst src Op_PmullW,
            mul_v8h X16 X16 X17,
            str_q X16 X28 (xmm_ctx_offset dst_idx)]
       | _ \<Rightarrow> fail (Unsupported Op_PmullW)))"

definition lift_punpck :: "inst \<Rightarrow> op_size \<Rightarrow> bool \<Rightarrow> lift" where
  "lift_punpck inst lane high =
     with_operand inst 0 (\<lambda>dst. with_operand inst 1 (\<lambda>src.
       case dst of
         XmmReg dst_idx _ \<Rightarrow> seq
           [ldr_q X16 X28 (xmm_ctx_offset dst_idx),
            load_q_src inst src (i_op inst),
            if high then (case lane of
                B1 \<Rightarrow> zip2_v16b X16 X16 X17 | B2 \<Rightarrow> zip2_v8h X16 X16 X17
              | B4 \<Rightarrow> zip2_v4s X16 X16 X17 | B8 \<Rightarrow> zip2_v2d X16 X16 X17)
            else (case lane of
                B1 \<Rightarrow> zip1_v16b X16 X16 X17 | B2 \<Rightarrow> zip1_v8h X16 X16 X17
              | B4 \<Rightarrow> zip1_v4s X16 X16 X17 | B8 \<Rightarrow> zip1_v2d X16 X16 X17),
            str_q X16 X28 (xmm_ctx_offset dst_idx)]
       | _ \<Rightarrow> fail (Unsupported (i_op inst))))"

definition lift_pshift_dq :: "inst \<Rightarrow> bool \<Rightarrow> lift" where
  "lift_pshift_dq inst left =
     with_operand inst 0 (\<lambda>dst.
       case operand_at inst 1 of
         Some (Imm v _) \<Rightarrow>
           (let imm = ucast v :: u32 in
            case dst of
              XmmReg dst_idx _ \<Rightarrow> seq
                [ldr_q X16 X28 (xmm_ctx_offset dst_idx),
                 eor_v16b X17 X17 X17,
                 if imm = 0 then seq []
                 else if 16 \<le> imm then eor_v16b X16 X16 X16
                 else if left then ext_v16b X16 X17 X16 (16 - imm)
                 else ext_v16b X16 X16 X17 imm,
                 str_q X16 X28 (xmm_ctx_offset dst_idx)]
            | _ \<Rightarrow> fail (Unsupported (i_op inst)))
       | _ \<Rightarrow> fail (Unsupported (i_op inst)))"

definition lift_pshufd :: "inst \<Rightarrow> lift" where
  "lift_pshufd inst =
     with_operand inst 0 (\<lambda>dst. with_operand inst 1 (\<lambda>src.
       case operand_at inst 2 of
         Some (Imm v _) \<Rightarrow>
           (let imm = ucast v :: u8 in
            case dst of
              XmmReg dst_idx _ \<Rightarrow> seq
                ([load_q_src inst src Op_PshufD, orr_v16b X16 X17 X17] @
                 map (\<lambda>dst_lane.
                   let src_lane = drop_bit (dst_lane * 2) imm AND 0b11 in
                   if ucast src_lane \<noteq> (of_nat dst_lane :: u32)
                   then ins_v_s X16 (of_nat dst_lane) X17 (ucast src_lane) else seq []) [0, 1, 2, 3] @
                 [str_q X16 X28 (xmm_ctx_offset dst_idx)])
            | _ \<Rightarrow> fail (Unsupported Op_PshufD))
       | _ \<Rightarrow> fail (Unsupported Op_PshufD)))"

definition lift_pshift_imm :: "inst \<Rightarrow> op_size \<Rightarrow> pshift \<Rightarrow> lift" where
  "lift_pshift_imm inst lane k =
     (let uns = fail (Unsupported (i_op inst)) in
      with_operand inst 0 (\<lambda>dst. with_operand inst 1 (\<lambda>src.
        case (dst, src, lane) of
          (XmmReg dst_idx _, Imm v _, B1) \<Rightarrow> uns
        | (XmmReg dst_idx _, Imm v _, _) \<Rightarrow>
            (let shift = ucast v :: u32;
                 lane_bits = (case lane of B2 \<Rightarrow> 16 | B4 \<Rightarrow> 32 | _ \<Rightarrow> 64) :: u32
             in seq
               [ldr_q X16 X28 (xmm_ctx_offset dst_idx),
                if lane_bits \<le> shift then
                  (case k of
                     PS_Sra \<Rightarrow>
                       (case lane of
                          B2 \<Rightarrow> sshr_v8h X16 X16 (lane_bits - 1)
                        | B4 \<Rightarrow> sshr_v4s X16 X16 (lane_bits - 1)
                        | _ \<Rightarrow> uns)
                   | _ \<Rightarrow> eor_v16b X16 X16 X16)
                else if shift = 0 then seq []
                else
                  (case k of
                     PS_Sll \<Rightarrow>
                       (case lane of
                          B2 \<Rightarrow> shl_v8h X16 X16 shift | B4 \<Rightarrow> shl_v4s X16 X16 shift
                        | B8 \<Rightarrow> shl_v2d X16 X16 shift | _ \<Rightarrow> uns)
                   | PS_Srl \<Rightarrow>
                       (case lane of
                          B2 \<Rightarrow> ushr_v8h X16 X16 shift | B4 \<Rightarrow> ushr_v4s X16 X16 shift
                        | B8 \<Rightarrow> ushr_v2d X16 X16 shift | _ \<Rightarrow> uns)
                   | PS_Sra \<Rightarrow>
                       (case lane of
                          B2 \<Rightarrow> sshr_v8h X16 X16 shift | B4 \<Rightarrow> sshr_v4s X16 X16 shift
                        | _ \<Rightarrow> uns)),
                str_q X16 X28 (xmm_ctx_offset dst_idx)])
        | _ \<Rightarrow> uns)))"

definition lift_pmovmskb :: "inst \<Rightarrow> lift" where
  "lift_pmovmskb inst =
     with_operand inst 0 (\<lambda>dst. with_operand inst 1 (\<lambda>src.
       case (dst, src) of
         (Reg r _, XmmReg src_idx _) \<Rightarrow>
           (let rd = host_reg r in seq
              [load_const64 X16 0x8040201008040201,
               ins_v_d_gpr X17 0 X16, ins_v_d_gpr X17 1 X16,
               ldr_q X16 X28 (xmm_ctx_offset src_idx),
               sshr_v16b X16 X16 7,
               and_v16b X16 X16 X17,
               ext_v16b 18 X16 X16 8,
               addv_b_v8b X16 X16, addv_b_v8b 18 18,
               umov_w_b rd X16 0, umov_w_b X17 18 0,
               bfi_w rd X17 8 8])
       | _ \<Rightarrow> fail (Unsupported Op_PmovmskB)))"

section \<open>Scalar floating point\<close>

text \<open>
  \<open>match size { B8 => ldr_d(..), B4 => ldr_s(..), _ => return Err(Unsupported(..)) }\<close> and the
  matching store, which every scalar operation has.
\<close>

definition ldr_scalar :: "op \<Rightarrow> op_size \<Rightarrow> reg \<Rightarrow> reg \<Rightarrow> u32 \<Rightarrow> lift" where
  "ldr_scalar oper sz vt rn off =
     (case sz of B8 \<Rightarrow> ldr_d vt rn off | B4 \<Rightarrow> ldr_s vt rn off | _ \<Rightarrow> fail (Unsupported oper))"

definition str_scalar :: "op \<Rightarrow> op_size \<Rightarrow> reg \<Rightarrow> reg \<Rightarrow> u32 \<Rightarrow> lift" where
  "str_scalar oper sz vt rn off =
     (case sz of B8 \<Rightarrow> str_d vt rn off | B4 \<Rightarrow> str_s vt rn off | _ \<Rightarrow> fail (Unsupported oper))"

definition load_scalar_src :: "inst \<Rightarrow> op \<Rightarrow> op_size \<Rightarrow> reg \<Rightarrow> operand \<Rightarrow> lift" where
  "load_scalar_src inst oper sz vt src =
     (case src of
        XmmReg s _ \<Rightarrow> ldr_scalar oper sz vt X28 (xmm_ctx_offset s)
      | _ \<Rightarrow>
          if is_mem src then with_addr src inst X17 (\<lambda>leftover. ldr_scalar oper sz vt X17 leftover)
          else fail (Unsupported oper))"

definition lift_scalar_fp :: "inst \<Rightarrow> fp_op \<Rightarrow> lift" where
  "lift_scalar_fp inst k =
     with_operand inst 0 (\<lambda>dst. with_operand inst 1 (\<lambda>src.
       case dst of
         XmmReg dst_idx sz \<Rightarrow> seq
           [ldr_scalar (i_op inst) sz X16 X28 (xmm_ctx_offset dst_idx),
            load_scalar_src inst (i_op inst) sz X17 src,
            case sz of
              B8 \<Rightarrow> (case k of
                FP_Add \<Rightarrow> fadd_d X16 X16 X17 | FP_Sub \<Rightarrow> fsub_d X16 X16 X17
              | FP_Mul \<Rightarrow> fmul_d X16 X16 X17 | FP_Div \<Rightarrow> fdiv_d X16 X16 X17
              | FP_Min \<Rightarrow> fmin_d X16 X16 X17 | FP_Max \<Rightarrow> fmax_d X16 X16 X17)
            | B4 \<Rightarrow> (case k of
                FP_Add \<Rightarrow> fadd_s X16 X16 X17 | FP_Sub \<Rightarrow> fsub_s X16 X16 X17
              | FP_Mul \<Rightarrow> fmul_s X16 X16 X17 | FP_Div \<Rightarrow> fdiv_s X16 X16 X17
              | FP_Min \<Rightarrow> fmin_s X16 X16 X17 | FP_Max \<Rightarrow> fmax_s X16 X16 X17)
            | _ \<Rightarrow> fail (Unsupported (i_op inst)),
            str_scalar (i_op inst) sz X16 X28 (xmm_ctx_offset dst_idx)]
       | _ \<Rightarrow> fail (Unsupported (i_op inst))))"

definition lift_sqrt_scalar :: "inst \<Rightarrow> lift" where
  "lift_sqrt_scalar inst =
     with_operand inst 0 (\<lambda>dst. with_operand inst 1 (\<lambda>src.
       case dst of
         XmmReg dst_idx sz \<Rightarrow> seq
           [load_scalar_src inst (i_op inst) sz X16 src,
            case sz of
              B8 \<Rightarrow> fsqrt_d X16 X16 | B4 \<Rightarrow> fsqrt_s X16 X16 | _ \<Rightarrow> fail (Unsupported (i_op inst)),
            str_scalar (i_op inst) sz X16 X28 (xmm_ctx_offset dst_idx)]
       | _ \<Rightarrow> fail (Unsupported (i_op inst))))"

definition lift_ucomis :: "inst \<Rightarrow> lift" where
  "lift_ucomis inst =
     with_operand inst 0 (\<lambda>a. with_operand inst 1 (\<lambda>b.
       case a of
         XmmReg a_idx sz \<Rightarrow> seq
           [ldr_scalar Op_UcomisScalar sz X16 X28 (xmm_ctx_offset a_idx),
            load_scalar_src inst Op_UcomisScalar sz X17 b,
            case sz of
              B8 \<Rightarrow> fcmp_d X16 X17 | B4 \<Rightarrow> fcmp_s X16 X17 | _ \<Rightarrow> fail (Unsupported Op_UcomisScalar)]
       | _ \<Rightarrow> fail (Unsupported Op_UcomisScalar)))"

definition lift_cvt_int_to_scalar :: "inst \<Rightarrow> lift" where
  "lift_cvt_int_to_scalar inst =
     with_operand inst 0 (\<lambda>dst. with_operand inst 1 (\<lambda>src.
       case dst of
         XmmReg dst_idx fp_size \<Rightarrow>
           (let body = (\<lambda>int_size. seq
              [case (fp_size, int_size) of
                 (B4, B4) \<Rightarrow> scvtf_s_w X16 X17
               | (B4, B8) \<Rightarrow> scvtf_s_x X16 X17
               | (B8, B4) \<Rightarrow> scvtf_d_w X16 X17
               | (B8, B8) \<Rightarrow> scvtf_d_x X16 X17
               | _ \<Rightarrow> fail (Unsupported (i_op inst)),
               str_scalar (i_op inst) fp_size X16 X28 (xmm_ctx_offset dst_idx)])
            in case src of
                 Reg rs s \<Rightarrow> seq [mov64 X17 (host_reg rs), body s]
               | _ \<Rightarrow>
                   if is_mem src then
                     with_addr src inst X16 (\<lambda>leftover. seq
                       [load_sized X17 X16 leftover (mem_size_of src), body (mem_size_of src)])
                   else fail (Unsupported (i_op inst)))
       | _ \<Rightarrow> fail (Unsupported (i_op inst))))"

definition lift_cvt_scalar_to_int :: "inst \<Rightarrow> bool \<Rightarrow> lift" where
  "lift_cvt_scalar_to_int inst trunc =
     with_operand inst 0 (\<lambda>dst. with_operand inst 1 (\<lambda>src.
       case dst of
         Reg r int_size \<Rightarrow>
           (let rd = host_reg r;
                body = (\<lambda>fp_size.
                  case (trunc, fp_size, int_size) of
                    (True, B4, B4) \<Rightarrow> fcvtzs_w_s rd X16
                  | (True, B4, B8) \<Rightarrow> fcvtzs_x_s rd X16
                  | (True, B8, B4) \<Rightarrow> fcvtzs_w_d rd X16
                  | (True, B8, B8) \<Rightarrow> fcvtzs_x_d rd X16
                  | (False, B4, B4) \<Rightarrow> fcvtns_w_s rd X16
                  | (False, B4, B8) \<Rightarrow> fcvtns_x_s rd X16
                  | (False, B8, B4) \<Rightarrow> fcvtns_w_d rd X16
                  | (False, B8, B8) \<Rightarrow> fcvtns_x_d rd X16
                  | _ \<Rightarrow> fail (Unsupported (i_op inst)))
            in case src of
                 XmmReg s sz \<Rightarrow>
                   seq [ldr_scalar (i_op inst) sz X16 X28 (xmm_ctx_offset s), body sz]
               | _ \<Rightarrow>
                   if is_mem src then
                     with_addr src inst X17 (\<lambda>leftover.
                       let sz = mem_size_of src in
                       seq [ldr_scalar (i_op inst) sz X16 X17 leftover, body sz])
                   else fail (Unsupported (i_op inst)))
       | _ \<Rightarrow> fail (Unsupported (i_op inst))))"

definition lift_cvt_precision :: "inst \<Rightarrow> bool \<Rightarrow> lift" where
  "lift_cvt_precision inst up =
     with_operand inst 0 (\<lambda>dst. with_operand inst 1 (\<lambda>src.
       case dst of
         XmmReg dst_idx _ \<Rightarrow> seq
           [case src of
              XmmReg s _ \<Rightarrow>
                if up then ldr_s X16 X28 (xmm_ctx_offset s) else ldr_d X16 X28 (xmm_ctx_offset s)
            | _ \<Rightarrow>
                if is_mem src then
                  with_addr src inst X17 (\<lambda>leftover.
                    if up then ldr_s X16 X17 leftover else ldr_d X16 X17 leftover)
                else fail (Unsupported (i_op inst)),
            if up then fcvt_d_s X16 X16 else fcvt_s_d X16 X16,
            if up then str_d X16 X28 (xmm_ctx_offset dst_idx)
            else str_s X16 X28 (xmm_ctx_offset dst_idx)]
       | _ \<Rightarrow> fail (Unsupported (i_op inst))))"

section \<open>Dispatch\<close>

text \<open>\<open>Lifter::lift\<close>, one function per group of opcodes; what has no arm there is \<open>Unsupported\<close>.\<close>

definition lift_data :: "inst \<Rightarrow> data_op \<Rightarrow> lift" where
  "lift_data inst d =
     (case d of
        D_Mov \<Rightarrow> lift_mov inst
      | D_Movzx \<Rightarrow> lift_movzx_or_movsx inst False
      | D_Movsx \<Rightarrow> lift_movzx_or_movsx inst True
      | D_Movsxd \<Rightarrow> lift_movsxd inst
      | D_Lea \<Rightarrow> lift_lea inst
      | D_Xchg \<Rightarrow> lift_xchg inst
      | D_Push \<Rightarrow> lift_push inst
      | D_Pop \<Rightarrow> lift_pop inst
      | D_Cmov c \<Rightarrow> lift_cmov inst c
      | _ \<Rightarrow> fail (Unsupported (OpData d)))"

definition lift_arith_op :: "inst \<Rightarrow> arith_op \<Rightarrow> lift" where
  "lift_arith_op inst a =
     (case a of
        A_Add \<Rightarrow> lift_arith inst AK_Add
      | A_Sub \<Rightarrow> lift_arith inst AK_Sub
      | A_Inc \<Rightarrow> lift_inc_dec inst True
      | A_Dec \<Rightarrow> lift_inc_dec inst False
      | A_Div \<Rightarrow> lift_divmul inst DM_Div
      | A_Idiv \<Rightarrow> lift_divmul inst DM_Idiv
      | A_Mul \<Rightarrow> lift_divmul inst DM_Mul
      | A_Imul \<Rightarrow>
          if operand_at inst 1 = None then lift_divmul inst DM_Imul1 else lift_imul_n_operand inst
      | A_Adc \<Rightarrow> lift_addc inst True
      | A_Sbb \<Rightarrow> lift_addc inst False
      | A_Neg \<Rightarrow> lift_neg inst
      | A_Cdq \<Rightarrow> lift_cdq
      | A_Cqo \<Rightarrow> lift_cqo
      | _ \<Rightarrow> fail (Unsupported (OpArith a)))"

definition lift_logic_op :: "inst \<Rightarrow> logic_op \<Rightarrow> lift" where
  "lift_logic_op inst l =
     (case l of
        L_And \<Rightarrow> lift_bitop inst BO_And
      | L_Or \<Rightarrow> lift_bitop inst BO_Or
      | L_Xor \<Rightarrow> lift_xor inst
      | L_Not \<Rightarrow> lift_not inst
      | L_Test \<Rightarrow> lift_test inst
      | L_Cmp \<Rightarrow> lift_cmp inst
      | L_Shl \<Rightarrow> lift_shift inst SD_Left
      | L_Shr \<Rightarrow> lift_shift inst SD_Right
      | L_Sar \<Rightarrow> lift_shift inst SD_ArithRight
      | L_Rol \<Rightarrow> lift_rotate inst True
      | L_Ror \<Rightarrow> lift_rotate inst False
      | _ \<Rightarrow> fail (Unsupported (OpLogic l)))"

definition lift_bit_op :: "inst \<Rightarrow> bit_op \<Rightarrow> lift" where
  "lift_bit_op inst b =
     (case b of
        T_Bsr \<Rightarrow> lift_bitscan inst True
      | T_Bsf \<Rightarrow> lift_bitscan inst False
      | T_Cmpxchg \<Rightarrow> lift_cmpxchg inst
      | T_Xadd \<Rightarrow> lift_xadd inst
      | T_Set c \<Rightarrow> lift_set inst c
      | _ \<Rightarrow> fail (Unsupported (OpBit b)))"

definition lift_flow_op :: "bool \<Rightarrow> inst \<Rightarrow> flow_op \<Rightarrow> lift" where
  "lift_flow_op legacy32 inst f =
     (case f of
        F_CallIndirect \<Rightarrow> lift_call_indirect legacy32 inst
      | F_Ret \<Rightarrow> em_ret
      | F_Leave \<Rightarrow> lift_leave
      | F_Int3 \<Rightarrow> em_brk 0
      | F_Ud2 \<Rightarrow> em_brk 0
      | F_Cpuid \<Rightarrow> lift_cpuid
      | F_Rdtsc \<Rightarrow> lift_rdtsc
      | _ \<Rightarrow> fail (Unsupported (OpFlow f)))"

definition lift_misc_op :: "inst \<Rightarrow> misc_op \<Rightarrow> lift" where
  "lift_misc_op inst m =
     (case m of
        M_Nop \<Rightarrow> em_nop
      | M_Movs \<Rightarrow> lift_movs inst
      | M_Stos \<Rightarrow> lift_stos inst
      | _ \<Rightarrow> fail (Unsupported (OpMisc m)))"

definition lift_scalar_op :: "inst \<Rightarrow> scalar_op \<Rightarrow> lift" where
  "lift_scalar_op inst s =
     (case s of
        S_MovqXmm \<Rightarrow> lift_movq_xmm inst
      | S_MovsdXmm \<Rightarrow> lift_movsd_xmm inst
      | S_MovssXmm \<Rightarrow> lift_movss_xmm inst
      | S_MovdqXmm \<Rightarrow> lift_movdq_xmm inst
      | S_PxorXmm \<Rightarrow> lift_packed_logical inst PL_Xor
      | S_PandXmm \<Rightarrow> lift_packed_logical inst PL_And
      | S_PorXmm \<Rightarrow> lift_packed_logical inst PL_Or
      | S_AddScalar \<Rightarrow> lift_scalar_fp inst FP_Add
      | S_SubScalar \<Rightarrow> lift_scalar_fp inst FP_Sub
      | S_MulScalar \<Rightarrow> lift_scalar_fp inst FP_Mul
      | S_DivScalar \<Rightarrow> lift_scalar_fp inst FP_Div
      | S_CvtIntToScalar \<Rightarrow> lift_cvt_int_to_scalar inst
      | S_CvtScalarToInt \<Rightarrow> lift_cvt_scalar_to_int inst False
      | S_CvtScalarToIntTrunc \<Rightarrow> lift_cvt_scalar_to_int inst True
      | S_CvtSsToSd \<Rightarrow> lift_cvt_precision inst True
      | S_CvtSdToSs \<Rightarrow> lift_cvt_precision inst False
      | S_UcomisScalar \<Rightarrow> lift_ucomis inst
      | S_MinScalar \<Rightarrow> lift_scalar_fp inst FP_Min
      | S_MaxScalar \<Rightarrow> lift_scalar_fp inst FP_Max
      | S_SqrtScalar \<Rightarrow> lift_sqrt_scalar inst
      | S_Bswap \<Rightarrow> lift_bswap inst)"

definition lift_packed_op :: "inst \<Rightarrow> packed_op \<Rightarrow> lift" where
  "lift_packed_op inst p =
     (case p of
        P_PaddQ \<Rightarrow> lift_packed_arith inst PA_AddQ
      | P_PsubQ \<Rightarrow> lift_packed_arith inst PA_SubQ
      | P_PaddD \<Rightarrow> lift_packed_arith inst PA_AddD
      | P_PsubD \<Rightarrow> lift_packed_arith inst PA_SubD
      | P_PaddW \<Rightarrow> lift_packed_arith inst PA_AddW
      | P_PsubW \<Rightarrow> lift_packed_arith inst PA_SubW
      | P_PaddB \<Rightarrow> lift_packed_arith inst PA_AddB
      | P_PsubB \<Rightarrow> lift_packed_arith inst PA_SubB
      | P_AddPacked \<Rightarrow> lift_packed_fp inst FPP_Add
      | P_SubPacked \<Rightarrow> lift_packed_fp inst FPP_Sub
      | P_MulPacked \<Rightarrow> lift_packed_fp inst FPP_Mul
      | P_DivPacked \<Rightarrow> lift_packed_fp inst FPP_Div
      | P_PcmpeqLane lane \<Rightarrow> lift_pcmpeq inst lane
      | P_PsllImm lane \<Rightarrow> lift_pshift_imm inst lane PS_Sll
      | P_PsrlImm lane \<Rightarrow> lift_pshift_imm inst lane PS_Srl
      | P_PsraImm lane \<Rightarrow> lift_pshift_imm inst lane PS_Sra
      | P_PshufD \<Rightarrow> lift_pshufd inst
      | P_PmullW \<Rightarrow> lift_pmullw inst
      | P_PslldqImm \<Rightarrow> lift_pshift_dq inst True
      | P_PsrldqImm \<Rightarrow> lift_pshift_dq inst False
      | P_PunpckLow lane \<Rightarrow> lift_punpck inst lane False
      | P_PunpckHigh lane \<Rightarrow> lift_punpck inst lane True
      | P_PmovmskB \<Rightarrow> lift_pmovmskb inst)"

definition lift :: "bool \<Rightarrow> inst \<Rightarrow> lift" where
  "lift legacy32 inst =
     (case i_op inst of
        OpData d \<Rightarrow> lift_data inst d
      | OpArith a \<Rightarrow> lift_arith_op inst a
      | OpLogic l \<Rightarrow> lift_logic_op inst l
      | OpBit b \<Rightarrow> lift_bit_op inst b
      | OpFlow f \<Rightarrow> lift_flow_op legacy32 inst f
      | OpMisc m \<Rightarrow> lift_misc_op inst m
      | OpScalar s \<Rightarrow> lift_scalar_op inst s
      | OpPacked p \<Rightarrow> lift_packed_op inst p
      | Op_Unhandled \<Rightarrow> fail Unhandled)"

end
