(* ===== verification/Emitter_Correct.thy ===== *)
theory Emitter_Correct
  imports Emitter
begin

text \<open>
  Properties of the emitter's label and fixup machinery.
  \<^item> \<open>patch_branch\<close> writes exactly the offset field: a processor that reads the field back as a
    signed number (\<open>branch_offset\<close>) gets the distance, and the opcode bits are those of the base.
  \<^item> \<open>em_wf\<close>, the invariant of the emitter: bound labels lie inside the code, fixups point at code
    and at existing labels. Every method keeps it and only appends (\<open>em_step\<close>, proved with the rule
    collection \<open>em_intros\<close>); hence \<open>finish\<close> never panics and succeeds exactly when every pending
    label is bound within reach.
  \<^item> the one-pass emitter with fixups produces the words of a two-pass assembler that knows
    all label positions in advance (\<open>assemble\<close>).
\<close>

named_theorems em_intros \<open>methods that keep the emitter invariant\<close>

section \<open>Sequencing\<close>

lemma seq_simps [simp]:
  "seq [] e = (Ok (), e)" "seq (m # ms) e = sbind (m e) (\<lambda>_. seq ms)"
  by simp_all

lemma seq_append: "seq (xs @ ys) e = sbind (seq xs e) (\<lambda>_. seq ys)"
  by (induction xs arbitrary: e) (auto simp: sbind_def split: outcome.splits)

section \<open>The offset field of a branch\<close>

text \<open>
  What the processor reads: the field at bit 0 or bit 5 of the width the form has, as a signed
  number of words.
\<close>

definition branch_offset :: "fixup_kind \<Rightarrow> u32 \<Rightarrow> int" where
  "branch_offset kind w = (case kind of
     Branch26 \<Rightarrow> signed_take_bit 25 (uint w)
   | Branch19 \<Rightarrow> signed_take_bit 18 (uint (drop_bit 5 w))
   | Branch14 \<Rightarrow> signed_take_bit 13 (uint (drop_bit 5 w)))"

definition opcode_mask :: "fixup_kind \<Rightarrow> u32" where
  "opcode_mask kind = (case kind of
     Branch26 \<Rightarrow> 0xFC000000 | Branch19 \<Rightarrow> 0xFF00001F | Branch14 \<Rightarrow> 0xFFF8001F)"

definition branch_reach :: "fixup_kind \<Rightarrow> int" where
  "branch_reach kind = (case kind of Branch26 \<Rightarrow> 2 ^ 25 | Branch19 \<Rightarrow> 2 ^ 18 | Branch14 \<Rightarrow> 2 ^ 13)"

definition in_reach :: "fixup_kind \<Rightarrow> int \<Rightarrow> bool" where
  "in_reach kind d \<longleftrightarrow> - branch_reach kind \<le> d \<and> d < branch_reach kind"

lemma signed_take_bit_of_range:
  fixes d :: int
  assumes "- (2 ^ n) \<le> d" "d < 2 ^ n"
  shows "signed_take_bit n d = d"
  using assms by (simp add: signed_take_bit_int_eq_self)

lemma patch_branch_eq:
  "patch_branch base kind d =
     (if in_reach kind d then Ok ((base AND opcode_mask kind) OR
        (case kind of Branch26 \<Rightarrow> word_of_int d AND 0x03FFFFFF
         | Branch19 \<Rightarrow> push_bit 5 (word_of_int d AND 0x0007FFFF)
         | Branch14 \<Rightarrow> push_bit 5 (word_of_int d AND 0x00003FFF)))
      else Err BranchOutOfRange)"
  by (cases kind) (auto simp: patch_branch_def in_reach_def branch_reach_def opcode_mask_def)

lemma patch_branch_Ok_iff: "(\<exists>w. patch_branch base kind d = Ok w) \<longleftrightarrow> in_reach kind d"
  by (simp add: patch_branch_eq)

lemma patch_branch_no_panic [simp]: "no_panic (patch_branch base kind d)"
  by (simp add: patch_branch_eq)

lemma patch_branch_opcode:
  "patch_branch base kind d = Ok w \<Longrightarrow> w AND opcode_mask kind = base AND opcode_mask kind"
  by (cases kind)
    (auto simp: patch_branch_eq opcode_mask_def bit.conj_disj_distrib2 and.assoc push_bit_and
       split: if_splits)

lemma take_bit_field:
  fixes x b :: u32
  assumes "take_bit n b = 0"
  shows "take_bit n (b OR (x AND mask n)) = take_bit n x"
  using assms by (simp add: take_bit_eq_mask bit.conj_disj_distrib2 and.assoc)

lemma uint_take_bit_word_of_int:
  assumes "n \<le> 32"
  shows "take_bit n (uint (word_of_int d :: u32)) = take_bit n d"
  using assms by (simp add: take_bit_take_bit unsigned_of_int min_def)

lemma offset_from_take_bit:
  assumes "take_bit (Suc n) (uint (f :: u32)) = take_bit (Suc n) d" "- (2 ^ n) \<le> d" "d < 2 ^ n"
  shows "signed_take_bit n (uint f) = d"
proof -
  have "signed_take_bit n (uint f) = signed_take_bit n d"
    using assms(1) by (simp add: signed_take_bit_eq_iff_take_bit_eq)
  also have "\<dots> = d" using assms(2,3) by (rule signed_take_bit_of_range)
  finally show ?thesis .
qed

lemma drop_field5:
  fixes x b :: u32
  assumes "n \<le> 27"
  shows "drop_bit 5 (b OR push_bit 5 (x AND mask n)) = drop_bit 5 b OR (x AND mask n)"
  using assms by (auto simp: bit_eq_iff bit_simps)

lemma uint_field:
  assumes "w = b OR (word_of_int d AND mask n)" "take_bit n (b :: u32) = 0" "n \<le> 32"
  shows "take_bit n (uint w) = take_bit n d"
proof -
  have "take_bit n (uint w) = uint (take_bit n w)" by (simp add: unsigned_take_bit_eq)
  also have "take_bit n w = take_bit n (word_of_int d)"
    unfolding assms(1) using assms(2) by (rule take_bit_field)
  finally show ?thesis using assms(3) by (simp add: unsigned_take_bit_eq uint_take_bit_word_of_int)
qed

lemma patch_branch_offset:
  assumes "patch_branch base kind d = Ok w"
  shows "branch_offset kind w = d"
proof (cases kind)
  case Branch26
  have "take_bit 26 (uint w) = take_bit 26 d"
    by (rule uint_field [where b = "base AND 0xFC000000"])
      (use assms Branch26 in \<open>auto simp: patch_branch_def take_bit_and mask_numeral split: if_splits\<close>)
  with assms Branch26 show ?thesis
    by (auto simp: branch_offset_def patch_branch_def split: if_splits intro!: offset_from_take_bit)
next
  case Branch19
  have "drop_bit 5 w = drop_bit 5 (base AND 0xFF00001F) OR (word_of_int d AND mask 19)"
    using assms Branch19 drop_field5 [of 19 "base AND 0xFF00001F" "word_of_int d"]
    by (auto simp: patch_branch_def mask_numeral split: if_splits)
  then have "take_bit 19 (uint (drop_bit 5 w)) = take_bit 19 d"
    by (rule uint_field) (auto simp: drop_bit_and take_bit_and)
  with assms Branch19 show ?thesis
    by (auto simp: branch_offset_def patch_branch_def split: if_splits intro!: offset_from_take_bit)
next
  case Branch14
  have "drop_bit 5 w = drop_bit 5 (base AND 0xFFF8001F) OR (word_of_int d AND mask 14)"
    using assms Branch14 drop_field5 [of 14 "base AND 0xFFF8001F" "word_of_int d"]
    by (auto simp: patch_branch_def mask_numeral split: if_splits)
  then have "take_bit 14 (uint (drop_bit 5 w)) = take_bit 14 d"
    by (rule uint_field) (auto simp: drop_bit_and take_bit_and)
  with assms Branch14 show ?thesis
    by (auto simp: branch_offset_def patch_branch_def split: if_splits intro!: offset_from_take_bit)
qed

section \<open>The invariant of the emitter\<close>

definition em_wf :: "emitter \<Rightarrow> bool" where
  "em_wf e \<longleftrightarrow>
     (\<forall>p. Some p \<in> set (em_labels e) \<longrightarrow> p \<le> length (em_code e)) \<and>
     (\<forall>f \<in> set (em_fixups e).
        fx_word_index f < length (em_code e) \<and> unat (fx_label f) < length (em_labels e))"

text \<open>The labels of \<open>ls'\<close> agree with those of \<open>ls\<close> wherever \<open>ls\<close> has one bound.\<close>

definition labels_extend :: "nat option list \<Rightarrow> nat option list \<Rightarrow> bool" where
  "labels_extend ls ls' \<longleftrightarrow>
     length ls \<le> length ls' \<and> (\<forall>i < length ls. \<forall>p. ls ! i = Some p \<longrightarrow> ls' ! i = Some p)"

definition em_extends :: "emitter \<Rightarrow> emitter \<Rightarrow> bool" where
  "em_extends e e' \<longleftrightarrow>
     (\<exists>ws. em_code e' = em_code e @ ws) \<and> (\<exists>fs. em_fixups e' = em_fixups e @ fs) \<and>
     labels_extend (em_labels e) (em_labels e')"

definition em_step :: "(emitter \<Rightarrow> ('e, 'a) outcome \<times> emitter) \<Rightarrow> bool" where
  "em_step f \<longleftrightarrow> (\<forall>e x e'. em_wf e \<longrightarrow> f e = (Ok x, e') \<longrightarrow> em_wf e' \<and> em_extends e e')"

lemma labels_extend_refl [simp]: "labels_extend ls ls"
  by (simp add: labels_extend_def)

lemma labels_extend_trans:
  "labels_extend ls ls' \<Longrightarrow> labels_extend ls' ls'' \<Longrightarrow> labels_extend ls ls''"
  by (auto simp: labels_extend_def)

lemma em_extends_refl [simp]: "em_extends e e"
  by (simp add: em_extends_def)

lemma em_extends_trans: "em_extends e e' \<Longrightarrow> em_extends e' e'' \<Longrightarrow> em_extends e e''"
  by (auto simp: em_extends_def intro: labels_extend_trans)

lemma em_stepD: "em_step f \<Longrightarrow> em_wf e \<Longrightarrow> f e = (Ok x, e') \<Longrightarrow> em_wf e' \<and> em_extends e e'"
  by (simp add: em_step_def)

lemma em_step_sbind [em_intros]:
  assumes "em_step m" "\<And>x. em_step (f x)"
  shows "em_step (\<lambda>e. sbind (m e) f)"
  unfolding em_step_def
proof (intro allI impI)
  fix e x e' assume wf: "em_wf e" and "sbind (m e) f = (Ok x, e')"
  then obtain y e1 where 1: "m e = (Ok y, e1)" and 2: "f y e1 = (Ok x, e')"
    by (auto simp: outcome_simps)
  from em_stepD [OF assms(1) wf 1] em_stepD [OF assms(2) _ 2]
  show "em_wf e' \<and> em_extends e e'" by (blast intro: em_extends_trans)
qed

lemma em_step_Nil [em_intros]: "em_step (seq [])"
  by (simp add: em_step_def)

lemma em_step_Cons [em_intros]: "em_step m \<Longrightarrow> em_step (seq ms) \<Longrightarrow> em_step (seq (m # ms))"
  by (simp add: em_step_sbind)

lemma em_step_debug_assert [em_intros]: "em_step (debug_assert c)"
  by (auto simp: em_step_def debug_assert_def split: if_splits)

lemma em_step_push [em_intros]: "em_step (push w)"
  by (fastforce simp: em_step_def push_def em_wf_def em_extends_def)

lemma em_step_raw_word [em_intros]: "em_step (raw_word w)"
  by (simp add: raw_word_def em_intros)

lemma em_step_panic [em_intros]: "em_step (\<lambda>e. (Panic p, e))" "em_step (\<lambda>e. (Err er, e))"
  by (simp_all add: em_step_def)

lemma em_step_Pair [em_intros]: "em_step (Pair (Ok x))"
  by (simp add: em_step_def)

lemma em_step_if [em_intros]:
  "(c \<Longrightarrow> em_step m) \<Longrightarrow> (\<not> c \<Longrightarrow> em_step m') \<Longrightarrow> em_step (if c then m else m')"
  by simp

lemma em_step_make_label [em_intros]: "em_step make_label"
  by (fastforce simp: em_step_def make_label_def em_wf_def em_extends_def labels_extend_def nth_append)

lemma em_step_bind_label [em_intros]: "em_step (bind_label l)"
  unfolding em_step_def bind_label_def
  by (auto simp: em_wf_def em_extends_def labels_extend_def nth_list_update split: if_splits option.splits
      dest!: set_update_subset_insert [THEN subsetD])

lemma emit_branch_Ok:
  "emit_branch b k l e = (Ok x, e') \<longleftrightarrow>
     unat l < length (em_labels e) \<and>
     (case em_labels e ! unat l of
        Some at \<Rightarrow> (\<exists>w. patch_branch b k (int at - int (length (em_code e))) = Ok w \<and>
                      e' = e\<lparr>em_code := em_code e @ [w]\<rparr>)
      | None \<Rightarrow> e' = e\<lparr>em_code := em_code e @ [b],
                   em_fixups := em_fixups e @
                     [\<lparr>fx_word_index = length (em_code e), fx_kind = k, fx_label = l\<rparr>]\<rparr>)"
  by (auto simp: emit_branch_def push_def Let_def split: option.splits outcome.splits)

lemma em_step_emit_branch [em_intros]: "em_step (emit_branch b k l)"
  unfolding em_step_def emit_branch_Ok
  by (fastforce simp: em_wf_def em_extends_def split: option.splits)

text \<open>Every encoder is built from these.\<close>

lemmas encoder_defs =
  movw_def movz64_def movz32_def movn64_def movk64_def movk32_def addsub_imm_def add64_imm_def
  adds64_imm_def sub64_imm_def subs64_imm_def cmp64_imm_def addsub_shifted_def add64_def
  adds64_def sub64_def subs64_def cmp64_def logical_shifted_def and64_def orr64_def eor64_def
  ands64_def mov64_def dp_2src_def udiv64_def sdiv64_def lslv64_def lsrv64_def asrv64_def
  rorv64_def madd64_def mul64_def msub64_def umulh64_def smulh64_def csel_form_def csel64_def
  csinc64_def csinv64_def csneg64_def cset64_def ldst_uoff_def ldr64_def ldr32_def ldrb_def
  ldrh_def str64_def str32_def strb_def strh_def ldr_q_def str_q_def ldr_d_def str_d_def
  ldr_s_def str_s_def eor_v16b_def and_v16b_def orr_v16b_def fp2src_def fadd_d_def fsub_d_def
  fmul_d_def fdiv_d_def fadd_s_def fsub_s_def fmul_s_def fdiv_s_def fp_cvt_def scvtf_s_w_def
  scvtf_s_x_def scvtf_d_w_def scvtf_d_x_def fcvtzs_w_s_def fcvtzs_x_s_def fcvtzs_w_d_def
  fcvtzs_x_d_def fcvtns_w_s_def fcvtns_x_s_def fcvtns_w_d_def fcvtns_x_d_def fcvt_d_s_def
  fcvt_s_d_def fcmp_s_def fcmp_d_def fmin_s_def fmin_d_def fmax_s_def fmax_d_def fsqrt_s_def
  fsqrt_d_def dp1src_def rev_x_def rev_w_def add_v2d_def sub_v2d_def add_v4s_def sub_v4s_def
  add_v16b_def sub_v16b_def add_v8h_def sub_v8h_def fadd_v4s_def fadd_v2d_def fsub_v4s_def
  fsub_v2d_def fmul_v4s_def fmul_v2d_def fdiv_v4s_def fdiv_v2d_def cmeq_v16b_def cmeq_v8h_def
  cmeq_v4s_def cmeq_v2d_def shl_v2d_def shl_v4s_def shl_v8h_def ushr_v2d_def ushr_v4s_def
  ushr_v8h_def sshr_v4s_def sshr_v8h_def ins_v_s_def mul_v8h_def ext_v16b_def zip_form_def
  zip1_v16b_def zip1_v8h_def zip1_v4s_def zip1_v2d_def zip2_v16b_def zip2_v8h_def zip2_v4s_def
  zip2_v2d_def sshr_v16b_def addv_b_v8b_def umov_w_b_def ins_v_d_gpr_def bfi_w_def ldstp_def
  stp64_pre_def ldp64_post_def stp64_def ldp64_def em_b_def em_bl_def b_cond_def cbz64_def
  cbnz64_def tbz_def tbnz_def em_br_def em_blr_def em_ret_def em_ret_to_def em_nop_def em_brk_def
  em_isb_def dmb_ish_def mrs_nzcv_def msr_nzcv_def mrs_tpidr_el0_def

lemma encode_addsub_step:
  "(\<And>s i. em_step (f s i)) \<Longrightarrow>
   em_step (\<lambda>e. case encode_addsub_imm v of None \<Rightarrow> (Panic p, e) | Some (s, i) \<Rightarrow> f s i e)"
  by (cases "encode_addsub_imm v") (auto simp: em_step_panic)

lemma load_lanes_step [em_intros]: "em_step (load_lanes rd v b ls)"
  by (induction rd v b ls rule: load_lanes.induct)
    (simp_all add: Let_def movz64_def movk64_def movw_def em_intros del: seq.simps)

lemma load_const64_step [em_intros]: "em_step (load_const64 rd v)"
  by (simp add: load_const64_def movz64_def movw_def em_intros del: seq.simps load_lanes.simps)

lemma encoders_step [em_intros]:
  "em_step (movw sf1 i2 i3 h4 r5)" "em_step (movz64 r1 h2 i3)" "em_step (movz32 r1 h2 i3)"
  "em_step (movn64 r1 h2 i3)" "em_step (movk64 r1 h2 i3)" "em_step (movk32 r1 h2 i3)"
  "em_step (addsub_imm sf1 i2 i3 i4 i5 r6 r7)" "em_step (add64_imm r1 r2 i3)"
  "em_step (adds64_imm r1 r2 i3)" "em_step (sub64_imm r1 r2 i3)" "em_step (subs64_imm r1 r2 i3)"
  "em_step (cmp64_imm r1 i2)" "em_step (addsub_shifted sf1 i2 i3 sk4 r5 i6 r7 r8)"
  "em_step (add64 r1 r2 r3)" "em_step (adds64 r1 r2 r3)" "em_step (sub64 r1 r2 r3)"
  "em_step (subs64 r1 r2 r3)" "em_step (cmp64 r1 r2)"
  "em_step (logical_shifted sf1 i2 sk3 i4 r5 i6 r7 r8)" "em_step (and64 r1 r2 r3)"
  "em_step (orr64 r1 r2 r3)" "em_step (eor64 r1 r2 r3)" "em_step (ands64 r1 r2 r3)"
  "em_step (mov64 r1 r2)" "em_step (dp_2src sf1 i2 r3 r4 r5)" "em_step (udiv64 r1 r2 r3)"
  "em_step (sdiv64 r1 r2 r3)" "em_step (lslv64 r1 r2 r3)" "em_step (lsrv64 r1 r2 r3)"
  "em_step (asrv64 r1 r2 r3)" "em_step (rorv64 r1 r2 r3)" "em_step (madd64 r1 r2 r3 r4)"
  "em_step (mul64 r1 r2 r3)" "em_step (msub64 r1 r2 r3 r4)" "em_step (umulh64 r1 r2 r3)"
  "em_step (smulh64 r1 r2 r3)" "em_step (csel_form sf1 i2 i3 r4 c5 r6 r7)"
  "em_step (csel64 r1 r2 r3 c4)" "em_step (csinc64 r1 r2 r3 c4)" "em_step (csinv64 r1 r2 r3 c4)"
  "em_step (csneg64 r1 r2 r3 c4)" "em_step (cset64 r1 c2)"
  "em_step (ldst_uoff i1 i2 i3 i4 r5 r6)" "em_step (ldr64 r1 r2 i3)" "em_step (ldr32 r1 r2 i3)"
  "em_step (ldrb r1 r2 i3)" "em_step (ldrh r1 r2 i3)" "em_step (str64 r1 r2 i3)"
  "em_step (str32 r1 r2 i3)" "em_step (strb r1 r2 i3)" "em_step (strh r1 r2 i3)"
  "em_step (ldr_q r1 r2 i3)" "em_step (str_q r1 r2 i3)" "em_step (ldr_d r1 r2 i3)"
  "em_step (str_d r1 r2 i3)" "em_step (ldr_s r1 r2 i3)" "em_step (str_s r1 r2 i3)"
  "em_step (eor_v16b r1 r2 r3)" "em_step (and_v16b r1 r2 r3)" "em_step (orr_v16b r1 r2 r3)"
  "em_step (fp2src i1 r2 r3 r4)" "em_step (fadd_d r1 r2 r3)" "em_step (fsub_d r1 r2 r3)"
  "em_step (fmul_d r1 r2 r3)" "em_step (fdiv_d r1 r2 r3)" "em_step (fadd_s r1 r2 r3)"
  "em_step (fsub_s r1 r2 r3)" "em_step (fmul_s r1 r2 r3)" "em_step (fdiv_s r1 r2 r3)"
  "em_step (fp_cvt i1 r2 r3)" "em_step (scvtf_s_w r1 r2)" "em_step (scvtf_s_x r1 r2)"
  "em_step (scvtf_d_w r1 r2)" "em_step (scvtf_d_x r1 r2)" "em_step (fcvtzs_w_s r1 r2)"
  "em_step (fcvtzs_x_s r1 r2)" "em_step (fcvtzs_w_d r1 r2)" "em_step (fcvtzs_x_d r1 r2)"
  "em_step (fcvtns_w_s r1 r2)" "em_step (fcvtns_x_s r1 r2)" "em_step (fcvtns_w_d r1 r2)"
  "em_step (fcvtns_x_d r1 r2)" "em_step (fcvt_d_s r1 r2)" "em_step (fcvt_s_d r1 r2)"
  "em_step (fcmp_s r1 r2)" "em_step (fcmp_d r1 r2)" "em_step (fmin_s r1 r2 r3)"
  "em_step (fmin_d r1 r2 r3)" "em_step (fmax_s r1 r2 r3)" "em_step (fmax_d r1 r2 r3)"
  "em_step (fsqrt_s r1 r2)" "em_step (fsqrt_d r1 r2)" "em_step (dp1src i1 r2 r3)"
  "em_step (rev_x r1 r2)" "em_step (rev_w r1 r2)" "em_step (add_v2d r1 r2 r3)"
  "em_step (sub_v2d r1 r2 r3)" "em_step (add_v4s r1 r2 r3)" "em_step (sub_v4s r1 r2 r3)"
  "em_step (add_v16b r1 r2 r3)" "em_step (sub_v16b r1 r2 r3)" "em_step (add_v8h r1 r2 r3)"
  "em_step (sub_v8h r1 r2 r3)" "em_step (fadd_v4s r1 r2 r3)" "em_step (fadd_v2d r1 r2 r3)"
  "em_step (fsub_v4s r1 r2 r3)" "em_step (fsub_v2d r1 r2 r3)" "em_step (fmul_v4s r1 r2 r3)"
  "em_step (fmul_v2d r1 r2 r3)" "em_step (fdiv_v4s r1 r2 r3)" "em_step (fdiv_v2d r1 r2 r3)"
  "em_step (cmeq_v16b r1 r2 r3)" "em_step (cmeq_v8h r1 r2 r3)" "em_step (cmeq_v4s r1 r2 r3)"
  "em_step (cmeq_v2d r1 r2 r3)" "em_step (shl_v2d r1 r2 i3)" "em_step (shl_v4s r1 r2 i3)"
  "em_step (shl_v8h r1 r2 i3)" "em_step (ushr_v2d r1 r2 i3)" "em_step (ushr_v4s r1 r2 i3)"
  "em_step (ushr_v8h r1 r2 i3)" "em_step (sshr_v4s r1 r2 i3)" "em_step (sshr_v8h r1 r2 i3)"
  "em_step (ins_v_s r1 i2 r3 i4)" "em_step (mul_v8h r1 r2 r3)" "em_step (ext_v16b r1 r2 r3 i4)"
  "em_step (zip_form i1 r2 r3 r4)" "em_step (zip1_v16b r1 r2 r3)" "em_step (zip1_v8h r1 r2 r3)"
  "em_step (zip1_v4s r1 r2 r3)" "em_step (zip1_v2d r1 r2 r3)" "em_step (zip2_v16b r1 r2 r3)"
  "em_step (zip2_v8h r1 r2 r3)" "em_step (zip2_v4s r1 r2 r3)" "em_step (zip2_v2d r1 r2 r3)"
  "em_step (sshr_v16b r1 r2 i3)" "em_step (addv_b_v8b r1 r2)" "em_step (umov_w_b r1 r2 i3)"
  "em_step (ins_v_d_gpr r1 i2 r3)" "em_step (bfi_w r1 r2 i3 i4)"
  "em_step (ldstp i1 i2 i3 i4 n5 r6 r7 r8)" "em_step (stp64_pre r1 r2 r3 n4)"
  "em_step (ldp64_post r1 r2 r3 n4)" "em_step (stp64 r1 r2 r3 n4)" "em_step (ldp64 r1 r2 r3 n4)"
  "em_step (em_b l1)" "em_step (em_bl l1)" "em_step (b_cond c1 l2)" "em_step (cbz64 r1 l2)"
  "em_step (cbnz64 r1 l2)" "em_step (tbz r1 i2 l3)" "em_step (tbnz r1 i2 l3)"
  "em_step (em_br r1)" "em_step (em_blr r1)" "em_step (em_ret)" "em_step (em_ret_to r1)"
  "em_step (em_nop)" "em_step (em_brk h1)" "em_step (em_isb)" "em_step (dmb_ish)"
  "em_step (mrs_nzcv r1)" "em_step (msr_nzcv r1)" "em_step (mrs_tpidr_el0 r1)"
  by (simp_all add: encoder_defs Let_def em_intros encode_addsub_step del: seq.simps)

section \<open>Resolving the fixups\<close>

text \<open>What \<open>finish\<close> does to the words, given the final table of labels: \<open>None\<close> on a failure.\<close>

fun patch_fixups :: "nat option list \<Rightarrow> fixup list \<Rightarrow> u32 list \<Rightarrow> u32 list option" where
  "patch_fixups ls [] ws = Some ws"
| "patch_fixups ls (f # fs) ws =
     (case ls ! unat (fx_label f) of
        None \<Rightarrow> None
      | Some at \<Rightarrow>
          (case patch_branch (ws ! fx_word_index f) (fx_kind f) (int at - int (fx_word_index f)) of
             Ok w \<Rightarrow> patch_fixups ls fs (ws[fx_word_index f := w])
           | _ \<Rightarrow> None))"

definition fixups_in :: "nat \<Rightarrow> nat \<Rightarrow> fixup list \<Rightarrow> bool" where
  "fixups_in nwords nlabels fs \<longleftrightarrow>
     (\<forall>f \<in> set fs. fx_word_index f < nwords \<and> unat (fx_label f) < nlabels)"

text \<open>A fixup \<open>finish\<close> can resolve: its label is bound, within the reach of the branch form.\<close>

definition resolvable :: "nat option list \<Rightarrow> fixup \<Rightarrow> bool" where
  "resolvable ls f \<longleftrightarrow>
     (\<exists>at. ls ! unat (fx_label f) = Some at \<and> in_reach (fx_kind f) (int at - int (fx_word_index f)))"

lemma resolve_fixups_Ok:
  assumes "fixups_in (length (em_code e)) (length (em_labels e)) fs"
  shows "resolve_fixups fs e = (Ok (), e') \<longleftrightarrow>
    (\<exists>ws. patch_fixups (em_labels e) fs (em_code e) = Some ws \<and> e' = e\<lparr>em_code := ws\<rparr>)"
  using assms
proof (induction fs arbitrary: e)
  case (Cons f fs)
  have f: "unat (fx_label f) < length (em_labels e)" "fx_word_index f < length (em_code e)"
    and fs: "\<And>w. fixups_in (length ((em_code e)[fx_word_index f := w])) (length (em_labels e)) fs"
    using Cons.prems by (simp_all add: fixups_in_def)
  show ?case
  proof (cases "em_labels e ! unat (fx_label f)")
    case (Some at)
    show ?thesis
    proof (cases "patch_branch (em_code e ! fx_word_index f) (fx_kind f)
        (int at - int (fx_word_index f))")
      case (Ok w)
      with Some f fs show ?thesis
        using Cons.IH [of "e\<lparr>em_code := (em_code e)[fx_word_index f := w]\<rparr>"]
        by (simp add: Let_def)
    qed (use Some f in \<open>simp_all add: Let_def\<close>)
  qed (use f in simp)
qed auto

lemma em_wf_fixups_in: "em_wf e \<Longrightarrow> fixups_in (length (em_code e)) (length (em_labels e)) (em_fixups e)"
  by (auto simp: em_wf_def fixups_in_def)

lemma patch_fixups_length: "patch_fixups ls fs ws = Some ws' \<Longrightarrow> length ws' = length ws"
  by (induction fs arbitrary: ws) (auto split: option.splits outcome.splits)

lemma finish_Ok:
  "em_wf e \<Longrightarrow> finish e = (Ok (), e') \<longleftrightarrow>
    (\<exists>ws. patch_fixups (em_labels e) (em_fixups e) (em_code e) = Some ws \<and>
       e' = e\<lparr>em_fixups := [], em_code := ws\<rparr>)"
  unfolding finish_def
  by (subst resolve_fixups_Ok) (simp_all add: em_wf_fixups_in)

section \<open>The two-pass assembler\<close>

text \<open>
  The calls that move the machinery, as a trace, and the reference: \<open>place\<close> computes the position
  of every label, \<open>encode\<close> writes the words with the final table at hand.
\<close>

datatype asm_op = AWord u32 | ABranch u32 fixup_kind label | ALabel | ABind label

primrec run_op :: "asm_op \<Rightarrow> 'e em" where
  "run_op (AWord w) = push w"
| "run_op (ABranch b k l) = emit_branch b k l"
| "run_op ALabel = (\<lambda>e. sbind (make_label e) (\<lambda>_. seq []))"
| "run_op (ABind l) = bind_label l"

definition encode1 :: "nat option list \<Rightarrow> nat \<Rightarrow> asm_op \<Rightarrow> u32 list option" where
  "encode1 ls n a =
     (case a of
        AWord w \<Rightarrow> Some [w]
      | ABranch b k l \<Rightarrow>
          Option.bind (ls ! unat l) (\<lambda>at. map_option (\<lambda>w. [w]) (ok (patch_branch b k (int at - int n))))
      | _ \<Rightarrow> Some [])"

primrec encode :: "nat option list \<Rightarrow> nat \<Rightarrow> asm_op list \<Rightarrow> u32 list option" where
  "encode ls n [] = Some []"
| "encode ls n (a # as) =
     Option.bind (encode1 ls n a) (\<lambda>ws. map_option ((@) ws) (encode ls (n + length ws) as))"

primrec place :: "nat \<Rightarrow> nat option list \<Rightarrow> asm_op list \<Rightarrow> nat option list" where
  "place n ls [] = ls"
| "place n ls (a # as) =
     (case a of
        AWord w \<Rightarrow> place (Suc n) ls as
      | ABranch b k l \<Rightarrow> place (Suc n) ls as
      | ALabel \<Rightarrow> place n (ls @ [None]) as
      | ABind l \<Rightarrow> place n (ls[unat l := Some n]) as)"

definition assemble :: "asm_op list \<Rightarrow> u32 list option" where
  "assemble as = encode (place 0 [] as) 0 as"

lemma run_op_step: "em_step (run_op a)"
  by (cases a) (simp_all add: em_intros del: seq.simps)

lemma run_ops_step: "em_step (seq (map run_op as))"
  by (induction as) (simp_all add: em_intros run_op_step del: seq.simps)

lemma run_op_place:
  assumes "run_op a e = (Ok x, e')"
  shows "place (length (em_code e)) (em_labels e) (a # as) = place (length (em_code e')) (em_labels e') as"
  using assms
  by (cases a) (auto simp: push_def emit_branch_Ok make_label_def bind_label_def split: option.splits if_splits)

lemma seq_Cons_Ok:
  "seq (m # ms) e = (Ok x, e') \<longleftrightarrow> (\<exists>e1. m e = (Ok (), e1) \<and> seq ms e1 = (Ok x, e'))"
  by (simp add: outcome_simps)

lemma run_ops_place:
  "seq (map (run_op :: asm_op \<Rightarrow> 'e em) as) e = (Ok x, e') \<Longrightarrow>
   place (length (em_code e)) (em_labels e) as = em_labels e'"
proof (induction as arbitrary: e)
  case (Cons a as)
  then obtain e1 where "(run_op a :: 'e em) e = (Ok (), e1)"
    "seq (map (run_op :: asm_op \<Rightarrow> 'e em) as) e1 = (Ok x, e')"
    by (auto simp only: list.map seq_Cons_Ok)
  with Cons.IH [of e1] run_op_place show ?case by metis
qed simp

lemma patch_fixups_append:
  "patch_fixups ls (fs @ gs) ws = Option.bind (patch_fixups ls fs ws) (patch_fixups ls gs)"
  by (induction fs arbitrary: ws) (simp_all split: option.splits outcome.splits)

lemma patch_fixups_snoc:
  assumes "\<And>f. f \<in> set fs \<Longrightarrow> fx_word_index f < length ws"
  shows "patch_fixups ls fs (ws @ [w]) = map_option (\<lambda>ws. ws @ [w]) (patch_fixups ls fs ws)"
  using assms
  by (induction fs arbitrary: ws) (simp_all add: nth_append list_update_append split: option.splits outcome.splits)

lemma run_op_encode:
  assumes "run_op a e = (Ok x, e1)" "em_wf e" "labels_extend (em_labels e1) T"
  shows "patch_fixups T (em_fixups e1) (em_code e1) =
    Option.bind (patch_fixups T (em_fixups e) (em_code e)) (\<lambda>ws.
      map_option ((@) ws) (encode1 T (length (em_code e)) a))"
proof -
  have snoc: "patch_fixups T (em_fixups e) (em_code e @ [w]) =
      map_option (\<lambda>ws. ws @ [w]) (patch_fixups T (em_fixups e) (em_code e))" for w
    using assms(2) by (intro patch_fixups_snoc) (simp add: em_wf_def)
  have len: "length ws = length (em_code e)"
    if "patch_fixups T (em_fixups e) (em_code e) = Some ws" for ws
    using that by (rule patch_fixups_length)
  show ?thesis
  proof (cases a)
    case (ABranch b k l)
    show ?thesis
    proof (cases "em_labels e ! unat l")
      case None
      with assms(1) ABranch show ?thesis
        by (cases "patch_fixups T (em_fixups e) (em_code e)")
          (auto simp: emit_branch_Ok encode1_def patch_fixups_append snoc nth_append list_update_append
            dest!: len
            split: option.splits outcome.splits)
    next
      case (Some at)
      with assms ABranch have "T ! unat l = Some at"
        by (auto simp: emit_branch_Ok labels_extend_def)
      with Some assms(1) ABranch show ?thesis
        by (auto simp: emit_branch_Ok encode1_def snoc map_option_case split: option.splits)
    qed
  qed (use assms(1) in \<open>auto simp: push_def make_label_def bind_label_def encode1_def snoc
        map_option_case split: option.splits if_splits\<close>)
qed

lemma run_ops_encode:
  "seq (map (run_op :: asm_op \<Rightarrow> 'e em) as) e = (Ok x, e') \<Longrightarrow> em_wf e \<Longrightarrow>
   labels_extend (em_labels e') T \<Longrightarrow>
   patch_fixups T (em_fixups e') (em_code e') =
     Option.bind (patch_fixups T (em_fixups e) (em_code e)) (\<lambda>ws.
       map_option ((@) ws) (encode T (length ws) as))"
proof (induction as arbitrary: e)
  case Nil
  then show ?case by (cases "patch_fixups T (em_fixups e) (em_code e)") auto
next
  case (Cons a as)
  then obtain e1 where 1: "(run_op a :: 'e em) e = (Ok (), e1)"
    and 2: "seq (map (run_op :: asm_op \<Rightarrow> 'e em) as) e1 = (Ok x, e')"
    by (auto simp only: list.map seq_Cons_Ok)
  have wf1: "em_wf e1" using em_stepD [OF run_op_step Cons.prems(2) 1] by simp
  have ext: "labels_extend (em_labels e1) T"
    using em_stepD [OF run_ops_step wf1 2] Cons.prems(3)
    by (auto simp: em_extends_def intro: labels_extend_trans)
  have step: "patch_fixups T (em_fixups e1) (em_code e1) =
      Option.bind (patch_fixups T (em_fixups e) (em_code e)) (\<lambda>ws.
        map_option ((@) ws) (encode1 T (length (em_code e)) a))"
    using 1 Cons.prems(2) ext by (rule run_op_encode)
  show ?case
    unfolding Cons.IH [OF 2 wf1 Cons.prems(3)] step
    by (cases "patch_fixups T (em_fixups e) (em_code e)")
      (auto simp: patch_fixups_length bind_map_option option.map_comp comp_def
         split: bind_splits intro!: bind_option_cong option.map_cong)
qed

lemma em_wf_new [simp]: "em_wf new_emitter"
  by (simp add: em_wf_def new_emitter_def)

text \<open>
  C5: the emitter is a one-pass assembler: it patches a backward branch when it emits it and a
  forward branch in \<open>finish\<close>. For every trace of calls that did not panic, \<open>finish\<close> succeeds exactly
  when the two-pass reference assembler does, which knows the position of every label before it
  encodes a word; then the code is the reference's, word for word, and no fixup is left.
\<close>

theorem emitter_two_pass:
  assumes "seq (map (run_op :: asm_op \<Rightarrow> 'e em) as) new_emitter = (Ok (), e)"
  shows "case finish e of
      (Ok _, e') \<Rightarrow> assemble as = Some (em_code e') \<and> em_fixups e' = []
    | (_, _) \<Rightarrow> assemble as = None"
proof -
  have wf: "em_wf e" using em_stepD [OF run_ops_step em_wf_new assms] by simp
  have pl: "place 0 [] as = em_labels e"
    using run_ops_place [OF assms] by (simp add: new_emitter_def)
  have eq: "patch_fixups (em_labels e) (em_fixups e) (em_code e) = assemble as"
    using run_ops_encode [OF assms em_wf_new labels_extend_refl]
    by (simp add: assemble_def pl new_emitter_def map_option_idI)
  show ?thesis
  proof (cases "assemble as")
    case (Some ws)
    then have "finish e = (Ok (), e\<lparr>em_fixups := [], em_code := ws\<rparr>)"
      using eq by (subst finish_Ok [OF wf]) simp
    with Some show ?thesis by simp
  next
    case None
    then have "\<not> (\<exists>e'. finish e = (Ok (), e'))" using eq by (simp add: finish_Ok [OF wf])
    with None show ?thesis by (auto split: outcome.splits)
  qed
qed

text \<open>A loop with a forward exit: \<open>top: cbz x1, done; b top; done: ret\<close>.\<close>

definition loop_trace :: "asm_op list" where
  "loop_trace = [ALabel, ALabel, ABind 0, ABranch 0xB4000001 Branch19 1,
                 ABranch 0x14000000 Branch26 0, ABind 1, AWord 0xD65F03C0]"

lemmas em_eval =
  sbind_def push_def emit_branch_def make_label_def bind_label_def patch_branch_def new_emitter_def

lemma loop_trace_runs:
  "seq (map run_op loop_trace) new_emitter =
     (Ok (), \<lparr>em_code = [0xB4000001, 0x17FFFFFF, 0xD65F03C0], em_labels = [Some 0, Some 2],
             em_fixups = [\<lparr>fx_word_index = 0, fx_kind = Branch19, fx_label = 1\<rparr>]\<rparr>)"
  by (simp add: loop_trace_def em_eval)

theorem emitter_two_pass_witness:
  "assemble loop_trace = Some [0xB4000041, 0x17FFFFFF, 0xD65F03C0]"
  using emitter_two_pass [OF loop_trace_runs] by (simp add: finish_def em_eval)

text \<open>What \<open>finish\<close> has to answer: the first fixup that cannot be resolved decides the error.\<close>

definition fixups_outcome :: "nat option list \<Rightarrow> fixup list \<Rightarrow> (finish_error, unit) outcome" where
  "fixups_outcome ls fs =
     (case find (\<lambda>f. \<not> resolvable ls f) fs of
        None \<Rightarrow> Ok ()
      | Some f \<Rightarrow> Err (if ls ! unat (fx_label f) = None then UnboundLabel (fx_label f) else BranchOutOfRange))"

lemma resolve_fixups_outcome:
  assumes "fixups_in (length (em_code e)) (length (em_labels e)) fs"
  shows "fst (resolve_fixups fs e) = fixups_outcome (em_labels e) fs"
  using assms
proof (induction fs arbitrary: e)
  case (Cons f fs)
  have f: "unat (fx_label f) < length (em_labels e)" "fx_word_index f < length (em_code e)"
    and fs: "\<And>w. fixups_in (length ((em_code e)[fx_word_index f := w])) (length (em_labels e)) fs"
    using Cons.prems by (simp_all add: fixups_in_def)
  have "fst (resolve_fixups fs (e\<lparr>em_code := (em_code e)[fx_word_index f := w]\<rparr>)) = fixups_outcome (em_labels e) fs" for w
    using Cons.IH [of "e\<lparr>em_code := (em_code e)[fx_word_index f := w]\<rparr>"] fs by simp
  then show ?case
    using f by (cases "em_labels e ! unat (fx_label f)")
      (auto simp: Let_def fixups_outcome_def resolvable_def patch_branch_eq)
qed (simp add: fixups_outcome_def)

text \<open>
  C25: what \<open>finish\<close> answers on every emitter the methods can build. It succeeds exactly when every
  branch that waits for a label has it bound, within the reach of its instruction form (26, 19 or 14
  bits of words); otherwise the first branch in emission order that fails this decides between
  \<open>UnboundLabel\<close>, with the label, and \<open>BranchOutOfRange\<close>. It never panics. The module documentation
  (emitter.rs, lines 20 and 21) says otherwise, that \<open>finish()\<close> panics if any label is still unbound:
  the code, as the comment of the method itself has it, returns an error, and an unbound label
  that no branch refers to is accepted.
\<close>

theorem finish_total:
  assumes "em_wf e"
  shows "fst (finish e) = fixups_outcome (em_labels e) (em_fixups e)"
  using resolve_fixups_outcome [of "e\<lparr>em_fixups := []\<rparr>" "em_fixups e"] em_wf_fixups_in [OF assms]
  by (simp add: finish_def)

theorem finish_total_witness:
  "fst (finish (snd (seq (map run_op loop_trace) new_emitter))) = Ok () \<and>
   fst (finish (snd (seq (map run_op [ALabel, ALabel, ABranch 0x14000000 Branch26 1]) new_emitter))) = Err (UnboundLabel 1)"
proof -
  let ?e = "\<lparr>em_code = [0xB4000001, 0x17FFFFFF, 0xD65F03C0], em_labels = [Some 0, Some 2],
             em_fixups = [\<lparr>fx_word_index = 0, fx_kind = Branch19, fx_label = 1\<rparr>]\<rparr>"
  let ?u = "\<lparr>em_code = [0x14000000], em_labels = [None, None],
             em_fixups = [\<lparr>fx_word_index = 0, fx_kind = Branch26, fx_label = 1\<rparr>]\<rparr>"
  have wf: "em_wf ?e" "em_wf ?u" by (simp_all add: em_wf_def)
  have u: "seq (map run_op [ALabel, ALabel, ABranch 0x14000000 Branch26 1]) new_emitter = (Ok (), ?u)"
    by (simp add: em_eval)
  show ?thesis
    using finish_total [OF wf(1)] finish_total [OF wf(2)]
    by (simp only: loop_trace_runs u snd_conv)
      (simp add: fixups_outcome_def resolvable_def in_reach_def branch_reach_def)
qed

text \<open>
  C28: \<open>patch_branch\<close> accepts a distance exactly when it fits the signed field of the form; the word
  it returns, read the way the processor reads it, branches by that distance, and all bits
  outside the field are those of the base word.
\<close>

theorem patch_branch_exact:
  "case patch_branch base kind d of
     Ok w \<Rightarrow> in_reach kind d \<and> branch_offset kind w = d \<and>
            w AND opcode_mask kind = base AND opcode_mask kind
   | Err er \<Rightarrow> \<not> in_reach kind d \<and> er = BranchOutOfRange
   | Panic p \<Rightarrow> False"
proof (cases "patch_branch base kind d")
  case (Ok w)
  with patch_branch_Ok_iff have "in_reach kind d" by blast
  with Ok patch_branch_offset [OF Ok] patch_branch_opcode [OF Ok] show ?thesis by simp
qed (auto simp: patch_branch_eq split: if_splits)

end
