(* ===== verification/Lifter_Inv.thy ===== *)
theory Lifter_Inv
  imports Lifter_Sse Emitter_Correct
begin

text \<open>
  The lifter as a client of the emitter: whatever the instruction, \<open>lift\<close> keeps the emitter's
  invariant and only appends to it. The proof follows the syntax: one rule of \<open>em_intros\<close> for each
  case distinction the lifter makes, one for each of its helpers. \<open>Chain\<close> and \<open>Rep_Loop\<close> build on it.
\<close>

section \<open>Rules for the case distinctions\<close>

lemma em_step_case_option [em_intros]:
  "em_step m \<Longrightarrow> (\<And>x. em_step (f x)) \<Longrightarrow> em_step (case v of None \<Rightarrow> m | Some x \<Rightarrow> f x)"
  by (cases v) simp_all

lemma em_step_case_operand [em_intros]:
  "(\<And>r s. em_step (f r s)) \<Longrightarrow> (\<And>x s. em_step (g x s)) \<Longrightarrow> (\<And>i s. em_step (h i s)) \<Longrightarrow>
   (\<And>m. em_step (k m)) \<Longrightarrow> (\<And>d s. em_step (l d s)) \<Longrightarrow>
   em_step (case x of Reg r s \<Rightarrow> f r s | XmmReg x s \<Rightarrow> g x s | Imm i s \<Rightarrow> h i s | MemOp m \<Rightarrow> k m
     | RipRel d s \<Rightarrow> l d s)"
  by (cases x) simp_all

lemma em_step_case_size [em_intros]:
  "em_step a \<Longrightarrow> em_step b \<Longrightarrow> em_step c \<Longrightarrow> em_step d \<Longrightarrow>
   em_step (case s of B1 \<Rightarrow> a | B2 \<Rightarrow> b | B4 \<Rightarrow> c | B8 \<Rightarrow> d)"
  by (cases s) simp_all

lemma em_step_case_prod [em_intros]:
  "(\<And>a b. em_step (f a b)) \<Longrightarrow> em_step (case p of (a, b) \<Rightarrow> f a b)"
  by (cases p) simp

lemma em_step_case_bool [em_intros]:
  "em_step a \<Longrightarrow> em_step b \<Longrightarrow> em_step (case c of True \<Rightarrow> a | False \<Rightarrow> b)"
  by (cases c) simp_all

lemma em_step_case_arith [em_intros]:
  "em_step a \<Longrightarrow> em_step b \<Longrightarrow> em_step (case k of AK_Add \<Rightarrow> a | AK_Sub \<Rightarrow> b)"
  by (cases k) simp_all

lemma em_step_case_bitop [em_intros]:
  "em_step a \<Longrightarrow> em_step b \<Longrightarrow> em_step (case k of BO_And \<Rightarrow> a | BO_Or \<Rightarrow> b)"
  by (cases k) simp_all

lemma em_step_case_logic [em_intros]:
  "em_step a \<Longrightarrow> em_step b \<Longrightarrow> em_step c \<Longrightarrow> em_step (case k of PL_Xor \<Rightarrow> a | PL_And \<Rightarrow> b | PL_Or \<Rightarrow> c)"
  by (cases k) simp_all

lemma em_step_case_pshift [em_intros]:
  "em_step a \<Longrightarrow> em_step b \<Longrightarrow> em_step c \<Longrightarrow> em_step (case p of PS_Sll \<Rightarrow> a | PS_Srl \<Rightarrow> b | PS_Sra \<Rightarrow> c)"
  by (cases p) simp_all

lemma em_step_case_dir [em_intros]:
  "em_step a \<Longrightarrow> em_step b \<Longrightarrow> em_step c \<Longrightarrow>
   em_step (case d of SD_Left \<Rightarrow> a | SD_Right \<Rightarrow> b | SD_ArithRight \<Rightarrow> c)"
  by (cases d) simp_all

lemma em_step_case_fpp [em_intros]:
  "em_step a \<Longrightarrow> em_step b \<Longrightarrow> em_step c \<Longrightarrow> em_step d \<Longrightarrow>
   em_step (case k of FPP_Add \<Rightarrow> a | FPP_Sub \<Rightarrow> b | FPP_Mul \<Rightarrow> c | FPP_Div \<Rightarrow> d)"
  by (cases k) simp_all

lemma em_step_case_fp [em_intros]:
  "em_step a \<Longrightarrow> em_step b \<Longrightarrow> em_step c \<Longrightarrow> em_step d \<Longrightarrow> em_step e \<Longrightarrow> em_step f \<Longrightarrow>
   em_step (case j of FP_Add \<Rightarrow> a | FP_Sub \<Rightarrow> b | FP_Mul \<Rightarrow> c | FP_Div \<Rightarrow> d | FP_Min \<Rightarrow> e | FP_Max \<Rightarrow> f)"
  by (cases j) simp_all

lemma em_step_case_packed [em_intros]:
  "em_step a \<Longrightarrow> em_step b \<Longrightarrow> em_step c \<Longrightarrow> em_step d \<Longrightarrow> em_step e \<Longrightarrow> em_step f \<Longrightarrow> em_step g \<Longrightarrow>
   em_step h \<Longrightarrow> em_step (case k of PA_AddQ \<Rightarrow> a | PA_SubQ \<Rightarrow> b | PA_AddD \<Rightarrow> c | PA_SubD \<Rightarrow> d
     | PA_AddW \<Rightarrow> e | PA_SubW \<Rightarrow> f | PA_AddB \<Rightarrow> g | PA_SubB \<Rightarrow> h)"
  by (cases k) simp_all

lemma em_step_append [em_intros]:
  "em_step (seq xs) \<Longrightarrow> em_step (seq ys) \<Longrightarrow> em_step (seq (xs @ ys))"
  using em_step_sbind [of "seq xs" "\<lambda>_. seq ys"] by (simp add: seq_append [abs_def, symmetric])

lemma em_step_seq_if [em_intros]:
  "em_step (seq xs) \<Longrightarrow> em_step (seq ys) \<Longrightarrow> em_step (seq (if c then xs else ys))"
  by simp

lemma em_step_case_operand_app [em_intros]:
  "(\<And>r s. em_step (f r s)) \<Longrightarrow> (\<And>x s. em_step (g x s)) \<Longrightarrow> (\<And>i s. em_step (h i s)) \<Longrightarrow>
   (\<And>m. em_step (k m)) \<Longrightarrow> (\<And>d s. em_step (l d s)) \<Longrightarrow>
   em_step (\<lambda>e. case x of Reg r s \<Rightarrow> f r s e | XmmReg x s \<Rightarrow> g x s e | Imm i s \<Rightarrow> h i s e
     | MemOp m \<Rightarrow> k m e | RipRel d s \<Rightarrow> l d s e)"
  by (cases x) simp_all

lemma em_step_map [em_intros]: "(\<And>x. em_step (f x)) \<Longrightarrow> em_step (seq (map f xs))"
  by (induction xs) (simp_all add: em_step_Nil em_step_Cons del: seq.simps)

section \<open>Helpers of the lifter\<close>

lemma em_step_fail [em_intros]: "em_step (fail er)"
  by (simp add: fail_def em_intros)

lemma em_step_with_operand [em_intros]: "(\<And>x. em_step (f x)) \<Longrightarrow> em_step (with_operand inst k f)"
  unfolding with_operand_def by (intro em_intros)

lemma em_step_with_label [em_intros]: "(\<And>l. em_step (f l)) \<Longrightarrow> em_step (with_label f)"
  unfolding with_label_def by (intro em_intros)

lemma em_step_ret [em_intros]: "em_step (\<lambda>e. (Ok x, e))"
  by (simp add: em_step_def)

lemma raw_steps [em_intros]:
  "em_step (emit_add_lsl64 r1 r2 r3 i)" "em_step (emit_and_imm_byte r1 r2)"
  "em_step (emit_and_imm_word r1 r2)" "em_step (emit_sxt_byte r1 r2)" "em_step (emit_sxt_word r1 r2)"
  "em_step (emit_sxtw r1 r2)" "em_step (emit_orr_lsl64 r1 r2 r3 i)" "em_step (emit_ubfm64 r1 r2 i j)"
  "em_step (emit_uxtw r1 r2)" "em_step (emitter_push_raw w)" "em_step (emit_and_imm_lo32 r1 r2)"
  by (simp_all add: emit_add_lsl64_def emit_and_imm_byte_def emit_and_imm_word_def emit_sxt_byte_def
      emit_sxt_word_def emit_sxtw_def emit_orr_lsl64_def emit_ubfm64_def emit_uxtw_def
      emitter_push_raw_def emit_and_imm_lo32_def em_step_raw_word)

lemma em_step_mask_if_b4 [em_intros]: "em_step (mask_if_b4 s r)"
  unfolding mask_if_b4_def by (intro em_intros)

lemma imm_safe_steps [em_intros]:
  "em_step (add64_imm_safe r1 r2 i)" "em_step (sub64_imm_safe r1 r2 i)"
  unfolding add64_imm_safe_def sub64_imm_safe_def by (intro em_intros)+

lemma em_step_scaled_index [em_intros]: "em_step (add_scaled_index r1 r2 s)"
  unfolding add_scaled_index_def by (intro em_intros)

lemma em_step_if_app [em_intros]:
  "em_step f \<Longrightarrow> em_step g \<Longrightarrow> em_step (\<lambda>e. if c then f e else g e)"
  by (cases c) simp_all

lemma em_step_fold_disp [em_intros]: "em_step (fold_disp d r)"
  unfolding fold_disp_def [abs_def] by (intro em_intros)

lemma em_step_mem_address [em_intros]: "em_step (mem_address_into m r)"
  unfolding mem_address_into_def [abs_def] by (intro em_intros)

lemma em_step_addr [em_intros]: "em_step (addr_into_xtmp x inst r)"
  by (cases x) (simp_all add: addr_into_xtmp_def [abs_def] em_intros)

lemma em_step_with_addr [em_intros]: "(\<And>l. em_step (f l)) \<Longrightarrow> em_step (with_addr x inst r f)"
  unfolding with_addr_def by (intro em_intros)

lemma sized_steps [em_intros]: "em_step (load_sized r1 r2 i s)" "em_step (store_sized r1 r2 i s)"
  unfolding load_sized_def store_sized_def by (intro em_intros)+

section \<open>The lifter keeps the invariant\<close>

lemmas lift_defs =
  emit_rep_loop_def lift_movs_def lift_stos_def call_marshal_def lift_call_indirect_def lift_push_def
  lift_pop_def lift_leave_def lift_movzx_or_movsx_def lift_movsxd_def mov_reg_imm_def mov_reg_reg_def
  lift_mov_def lift_lea_def lift_xchg_def emit_bitop_rr_def lift_bitop_def lift_test_def
  emit_xor_rr_def lift_xor_def lift_neg_def lift_not_def emit_arith_rr_def lift_arith_def lift_cmp_def
  lift_inc_dec_def lift_addc_def lift_imul_n_operand_def divmul_body_def lift_divmul_def lift_cdq_def
  lift_cqo_def lift_shift_def lift_rotate_def lift_bitscan_def lift_bswap_def lift_cmov_def
  lift_set_def emit_cmpxchg_compare_def lift_cmpxchg_def lift_xadd_def lift_cpuid_def lift_rdtsc_def

lemmas lift_sse_defs =
  lift_movq_xmm_def lift_movsd_xmm_def lift_movss_xmm_def lift_movdq_xmm_def load_q_src_def
  lift_packed_logical_def lift_packed_arith_def lift_packed_fp_def lift_pcmpeq_def lift_pmullw_def
  lift_punpck_def lift_pshift_dq_def lift_pshufd_def lift_pshift_imm_def lift_pmovmskb_def
  ldr_scalar_def str_scalar_def load_scalar_src_def lift_scalar_fp_def lift_sqrt_scalar_def
  lift_ucomis_def lift_cvt_int_to_scalar_def lift_cvt_scalar_to_int_def lift_cvt_precision_def

lemma helper_steps [em_intros]:
  "em_step (emit_rep_loop i b1 b2)" "em_step call_marshal" "em_step (mov_reg_imm g s v)"
  "em_step (mov_reg_reg g s g')" "em_step (emit_bitop_rr k r1 r2 r3 s)"
  "em_step (emit_xor_rr r1 r2 r3 s)" "em_step (emit_arith_rr a r1 r2 r3 s)"
  "em_step (divmul_body inst d s r1)" "em_step (emit_cmpxchg_compare r1 r2 s)"
  "em_step (load_q_src inst x oper)" "em_step (ldr_scalar oper s r1 r2 i)"
  "em_step (str_scalar oper s r1 r2 i)" "em_step (load_scalar_src inst oper s r1 x)"
  unfolding lift_defs lift_sse_defs Let_def by (intro em_intros)+

lemma lift_integer_steps [em_intros]:
  "em_step (lift_movs inst)" "em_step (lift_stos inst)" "em_step (lift_call_indirect l inst)"
  "em_step (lift_push inst)" "em_step (lift_pop inst)" "em_step lift_leave"
  "em_step (lift_movzx_or_movsx inst b)" "em_step (lift_movsxd inst)" "em_step (lift_mov inst)"
  "em_step (lift_lea inst)" "em_step (lift_xchg inst)" "em_step (lift_bitop inst k)"
  "em_step (lift_test inst)" "em_step (lift_xor inst)" "em_step (lift_neg inst)"
  "em_step (lift_not inst)" "em_step (lift_arith inst a)" "em_step (lift_cmp inst)"
  "em_step (lift_inc_dec inst b)" "em_step (lift_addc inst b)"
  "em_step (lift_imul_n_operand inst)" "em_step (lift_divmul inst d)" "em_step lift_cdq"
  "em_step lift_cqo" "em_step (lift_shift inst sd)" "em_step (lift_rotate inst b)"
  "em_step (lift_bitscan inst b)" "em_step (lift_bswap inst)" "em_step (lift_cmov inst c)"
  "em_step (lift_set inst c)" "em_step (lift_cmpxchg inst)" "em_step (lift_xadd inst)"
  "em_step lift_cpuid" "em_step lift_rdtsc"
  unfolding lift_movs_def lift_stos_def lift_call_indirect_def lift_push_def
    lift_pop_def lift_leave_def lift_movzx_or_movsx_def lift_movsxd_def lift_mov_def lift_lea_def
    lift_xchg_def lift_bitop_def lift_test_def lift_xor_def lift_neg_def lift_not_def lift_arith_def
    lift_cmp_def lift_inc_dec_def lift_addc_def lift_imul_n_operand_def lift_divmul_def lift_cdq_def
    lift_cqo_def lift_shift_def lift_rotate_def lift_bitscan_def lift_bswap_def lift_cmov_def
    lift_set_def lift_cmpxchg_def lift_xadd_def lift_cpuid_def lift_rdtsc_def Let_def
  by (intro em_intros)+

lemma lift_sse_steps [em_intros]:
  "em_step (lift_movq_xmm inst)" "em_step (lift_movsd_xmm inst)" "em_step (lift_movss_xmm inst)"
  "em_step (lift_movdq_xmm inst)" "em_step (lift_packed_logical inst pl)"
  "em_step (lift_packed_arith inst pa)" "em_step (lift_packed_fp inst fpp)"
  "em_step (lift_pcmpeq inst s)" "em_step (lift_pmullw inst)" "em_step (lift_punpck inst s b)"
  "em_step (lift_pshift_dq inst b)" "em_step (lift_pshufd inst)" "em_step (lift_pshift_imm inst s ps)"
  "em_step (lift_pmovmskb inst)" "em_step (lift_scalar_fp inst fp)" "em_step (lift_sqrt_scalar inst)"
  "em_step (lift_ucomis inst)" "em_step (lift_cvt_int_to_scalar inst)"
  "em_step (lift_cvt_scalar_to_int inst b)" "em_step (lift_cvt_precision inst b)"
  unfolding lift_movq_xmm_def lift_movsd_xmm_def lift_movss_xmm_def lift_movdq_xmm_def
    lift_packed_logical_def lift_packed_arith_def lift_packed_fp_def lift_pcmpeq_def lift_pmullw_def
    lift_punpck_def lift_pshift_dq_def lift_pshufd_def lift_pshift_imm_def lift_pmovmskb_def
    lift_scalar_fp_def lift_sqrt_scalar_def lift_ucomis_def lift_cvt_int_to_scalar_def
    lift_cvt_scalar_to_int_def lift_cvt_precision_def Let_def
  by (intro em_intros)+

lemma lift_group_steps:
  "em_step (lift_data inst d)" "em_step (lift_arith_op inst a)" "em_step (lift_logic_op inst l)"
  "em_step (lift_bit_op inst b)" "em_step (lift_flow_op l32 inst f)" "em_step (lift_misc_op inst m)"
  "em_step (lift_scalar_op inst s)" "em_step (lift_packed_op inst p)"
  unfolding lift_data_def lift_arith_op_def lift_logic_op_def lift_bit_op_def lift_flow_op_def
    lift_misc_op_def lift_scalar_op_def lift_packed_op_def
         apply (cases d; simp add: em_intros)
        apply (cases a; simp add: em_intros)
       apply (cases l; simp add: em_intros)
      apply (cases b; simp add: em_intros)
     apply (cases f; simp add: em_intros)
    apply (cases m; simp add: em_intros)
   apply (cases s; simp add: em_intros)
  apply (cases p; simp add: em_intros)
  done

lemma em_step_lift: "em_step (lift legacy32 inst)"
  unfolding lift_def by (cases "i_op inst") (simp_all add: lift_group_steps em_step_fail)

end
