(* ===== verification/A64.thy ===== *)
theory A64
  imports Emitter_Correct
begin

text \<open>
  The part of the Armv8-A instruction set that the lifted code uses, as the specification the emitted
  words are measured against: \<open>a64_decode\<close> reads the fields of a word by the encoding tables of the
  reference manual (section C4), \<open>a64_exec\<close> gives the effect of the instruction on the registers,
  the flags and the memory. Register number 31 is the zero register or the stack pointer,
  depending on the instruction. Memory is total and byte addressed; floating-point and lane
  arithmetic and branches are not part of it.
\<close>

named_theorems ifield_simps \<open>reading the fields of an instruction word\<close>

section \<open>Machine state\<close>

record a64 =
  xr :: "reg \<Rightarrow> u64"
  spr :: u64
  vr :: "reg \<Rightarrow> 128 word"
  nf :: bool
  zf :: bool
  cf :: bool
  vf :: bool
  amem :: "u64 \<Rightarrow> u8"

definition rx :: "a64 \<Rightarrow> reg \<Rightarrow> u64" where
  "rx s r = (if r = 31 then 0 else xr s r)"

definition rxsp :: "a64 \<Rightarrow> reg \<Rightarrow> u64" where
  "rxsp s r = (if r = 31 then spr s else xr s r)"

definition wx :: "reg \<Rightarrow> u64 \<Rightarrow> a64 \<Rightarrow> a64" where
  "wx r v s = (if r = 31 then s else s\<lparr>xr := (xr s)(r := v)\<rparr>)"

definition wxsp :: "reg \<Rightarrow> u64 \<Rightarrow> a64 \<Rightarrow> a64" where
  "wxsp r v s = (if r = 31 then s\<lparr>spr := v\<rparr> else s\<lparr>xr := (xr s)(r := v)\<rparr>)"

definition wv :: "reg \<Rightarrow> 128 word \<Rightarrow> a64 \<Rightarrow> a64" where
  "wv r v s = s\<lparr>vr := (vr s)(r := v)\<rparr>"

definition mem_bytes :: "(u64 \<Rightarrow> u8) \<Rightarrow> u64 \<Rightarrow> nat \<Rightarrow> bytes" where
  "mem_bytes m a n = map (\<lambda>i. m (a + of_nat i)) [0..<n]"

definition load_le :: "(u64 \<Rightarrow> u8) \<Rightarrow> u64 \<Rightarrow> nat \<Rightarrow> nat" where
  "load_le m a n = from_le (mem_bytes m a n)"

primrec store_bytes :: "u64 \<Rightarrow> bytes \<Rightarrow> (u64 \<Rightarrow> u8) \<Rightarrow> (u64 \<Rightarrow> u8)" where
  "store_bytes a [] m = m"
| "store_bytes a (b # bs) m = store_bytes (a + 1) bs (m(a := b))"

definition store_le :: "u64 \<Rightarrow> nat \<Rightarrow> nat \<Rightarrow> (u64 \<Rightarrow> u8) \<Rightarrow> (u64 \<Rightarrow> u8)" where
  "store_le a n v m = store_bytes a (to_le n v) m"

section \<open>Instructions\<close>

datatype move_wide = MovN | MovZ | MovK
datatype logic_kind = LAnd | LOrr | LEor | LAnds
datatype two_src = UDiv | SDiv | LslV | LsrV | AsrV | RorV
datatype vec_logic = VEor | VAnd | VOrr

datatype a64_inst =
    I_MovW bool move_wide nat u16 reg
  | I_AddSubImm bool bool u64 reg reg
  | I_AddSubReg bool bool nat reg reg reg
  | I_Logic logic_kind bool nat reg reg reg
  | I_AndMask u64 reg reg
  | I_Sbfm nat nat reg reg
  | I_Ubfm nat nat reg reg
  | I_TwoSrc two_src reg reg reg
  | I_MAdd bool reg reg reg reg
  | I_MulHigh bool reg reg reg
  | I_CSel bool bool nat reg reg reg
  | I_AdcSbc bool reg reg reg
  | I_Load nat u64 reg reg
  | I_Store nat u64 reg reg
  | I_LoadV nat u64 reg reg
  | I_StoreV nat u64 reg reg
  | I_StpPre int reg reg reg
  | I_LdpPost int reg reg reg
  | I_VLogic vec_logic reg reg reg
  | I_RevX reg reg
  | I_Nop

definition field :: "nat \<Rightarrow> nat \<Rightarrow> u32 \<Rightarrow> u32" where
  "field k n w = take_bit n (drop_bit k w)"

abbreviation fr :: "nat \<Rightarrow> u32 \<Rightarrow> reg" where
  "fr k w \<equiv> ucast (field k 5 w)"

abbreviation fn :: "nat \<Rightarrow> nat \<Rightarrow> u32 \<Rightarrow> nat" where
  "fn k n w \<equiv> unat (field k n w)"

text \<open>Groups of the encoding table, tested on the bits that identify them (64-bit forms, LSL only).\<close>

definition dec_move_wide :: "u32 \<Rightarrow> a64_inst option" where
  "dec_move_wide w =
     (if field 23 6 w = 0b100101 then
        (let x = field 31 1 w = 1; hw = fn 21 2 w; i = ucast (field 5 16 w) :: u16; rd = fr 0 w in
         if \<not> x \<and> 2 \<le> hw then None
         else if field 29 2 w = 0b00 then Some (I_MovW x MovN hw i rd)
         else if field 29 2 w = 0b10 then Some (I_MovW x MovZ hw i rd)
         else if field 29 2 w = 0b11 then Some (I_MovW x MovK hw i rd)
         else None)
      else None)"

definition dec_add_sub_imm :: "u32 \<Rightarrow> a64_inst option" where
  "dec_add_sub_imm w =
     (if field 23 6 w = 0b100010 \<and> field 31 1 w = 1 then
        Some (I_AddSubImm (field 30 1 w = 1) (field 29 1 w = 1)
          (if field 22 1 w = 1 then push_bit 12 (ucast (field 10 12 w)) else ucast (field 10 12 w))
          (fr 5 w) (fr 0 w))
      else None)"

definition dec_add_sub_reg :: "u32 \<Rightarrow> a64_inst option" where
  "dec_add_sub_reg w =
     (if field 24 5 w = 0b01011 \<and> field 31 1 w = 1 \<and> field 21 1 w = 0 \<and> field 22 2 w = 0 then
        Some (I_AddSubReg (field 30 1 w = 1) (field 29 1 w = 1) (fn 10 6 w) (fr 16 w) (fr 5 w) (fr 0 w))
      else None)"

definition dec_logic :: "u32 \<Rightarrow> a64_inst option" where
  "dec_logic w =
     (if field 24 5 w = 0b01010 \<and> field 31 1 w = 1 \<and> field 22 2 w = 0 then
        (let k = (if field 29 2 w = 0 then LAnd else if field 29 2 w = 1 then LOrr
                  else if field 29 2 w = 2 then LEor else LAnds)
         in Some (I_Logic k (field 21 1 w = 1) (fn 10 6 w) (fr 16 w) (fr 5 w) (fr 0 w)))
      else None)"

text \<open>\<open>AND\<close> (immediate) with \<open>N = 1\<close> and no rotation: the mask is the low \<open>imms + 1\<close> bits.\<close>

definition dec_and_imm :: "u32 \<Rightarrow> a64_inst option" where
  "dec_and_imm w =
     (if field 24 8 w = 0b10010010 \<and> field 22 2 w = 0b01 \<and> field 16 6 w = 0 \<and> fn 10 6 w < 63
      then Some (I_AndMask (mask (Suc (fn 10 6 w))) (fr 5 w) (fr 0 w)) else None)"

definition dec_bitfield :: "u32 \<Rightarrow> a64_inst option" where
  "dec_bitfield w =
     (if field 24 8 w = 0b10010011 \<and> field 22 2 w = 0b01 then Some (I_Sbfm (fn 16 6 w) (fn 10 6 w) (fr 5 w) (fr 0 w))
      else if field 24 8 w = 0b11010011 \<and> field 22 2 w = 0b01 then Some (I_Ubfm (fn 16 6 w) (fn 10 6 w) (fr 5 w) (fr 0 w))
      else None)"

definition dec_two_src :: "u32 \<Rightarrow> a64_inst option" where
  "dec_two_src w =
     (if field 24 8 w = 0b10011010 \<and> field 21 3 w = 0b110 then
        (let c = field 10 6 w; mk = (\<lambda>k. Some (I_TwoSrc k (fr 16 w) (fr 5 w) (fr 0 w))) in
         if c = 0b000010 then mk UDiv else if c = 0b000011 then mk SDiv
         else if c = 0b001000 then mk LslV else if c = 0b001001 then mk LsrV
         else if c = 0b001010 then mk AsrV else if c = 0b001011 then mk RorV else None)
      else None)"

definition dec_three_src :: "u32 \<Rightarrow> a64_inst option" where
  "dec_three_src w =
     (if field 24 8 w = 0b10011011 \<and> field 21 3 w = 0b000
      then Some (I_MAdd (field 15 1 w = 1) (fr 10 w) (fr 16 w) (fr 5 w) (fr 0 w))
      else if field 24 8 w = 0b10011011 \<and> field 21 3 w = 0b110 \<and> field 10 6 w = 0b011111
      then Some (I_MulHigh False (fr 16 w) (fr 5 w) (fr 0 w))
      else if field 24 8 w = 0b10011011 \<and> field 21 3 w = 0b010 \<and> field 10 6 w = 0b011111
      then Some (I_MulHigh True (fr 16 w) (fr 5 w) (fr 0 w))
      else None)"

definition dec_csel :: "u32 \<Rightarrow> a64_inst option" where
  "dec_csel w =
     (if field 31 1 w = 1 \<and> field 24 6 w = 0b011010 \<and> field 21 3 w = 0b100 \<and> field 11 1 w = 0
      then Some (I_CSel (field 30 1 w = 1) (field 10 1 w = 1) (fn 12 4 w) (fr 16 w) (fr 5 w) (fr 0 w))
      else None)"

definition dec_adc :: "u32 \<Rightarrow> a64_inst option" where
  "dec_adc w =
     (if field 10 6 w = 0 \<and> field 24 8 w = 0b10111010 \<and> field 21 3 w = 0b000
      then Some (I_AdcSbc False (fr 16 w) (fr 5 w) (fr 0 w))
      else if field 10 6 w = 0 \<and> field 24 8 w = 0b11111010 \<and> field 21 3 w = 0b000
      then Some (I_AdcSbc True (fr 16 w) (fr 5 w) (fr 0 w))
      else None)"

definition dec_load_store :: "u32 \<Rightarrow> a64_inst option" where
  "dec_load_store w =
     (if field 27 3 w = 0b111 \<and> field 24 2 w = 0b01 then
        (let sz = fn 30 2 w; opc = field 22 2 w; i = ucast (field 10 12 w) :: u64;
             rn = fr 5 w; rt = fr 0 w in
         if field 26 1 w = 0 then
           (if opc = 0b01 then Some (I_Load (2 ^ sz) (i * 2 ^ sz) rn rt)
            else if opc = 0b00 then Some (I_Store (2 ^ sz) (i * 2 ^ sz) rn rt) else None)
         else if sz = 0 \<and> opc = 0b11 then Some (I_LoadV 16 (i * 16) rn rt)
         else if sz = 0 \<and> opc = 0b10 then Some (I_StoreV 16 (i * 16) rn rt)
         else if opc = 0b01 then Some (I_LoadV (2 ^ sz) (i * 2 ^ sz) rn rt)
         else if opc = 0b00 then Some (I_StoreV (2 ^ sz) (i * 2 ^ sz) rn rt)
         else None)
      else None)"

definition dec_pair :: "u32 \<Rightarrow> a64_inst option" where
  "dec_pair w =
     (let i = 8 * signed_take_bit 6 (uint (field 15 7 w)); rt2 = fr 10 w; rn = fr 5 w; rt = fr 0 w in
      if field 24 8 w = 0b10101001 \<and> field 22 2 w = 0b10 then Some (I_StpPre i rt2 rn rt)
      else if field 24 8 w = 0b10101000 \<and> field 22 2 w = 0b11 then Some (I_LdpPost i rt2 rn rt)
      else None)"

definition dec_vector :: "u32 \<Rightarrow> a64_inst option" where
  "dec_vector w =
     (let mk = (\<lambda>k. Some (I_VLogic k (fr 16 w) (fr 5 w) (fr 0 w))) in
      if field 10 6 w = 0b000111 then
        (if field 24 8 w = 0b01101110 \<and> field 21 3 w = 0b001 then mk VEor
         else if field 24 8 w = 0b01001110 \<and> field 21 3 w = 0b001 then mk VAnd
         else if field 24 8 w = 0b01001110 \<and> field 21 3 w = 0b101 then mk VOrr
         else None)
      else None)"

definition dec_one_src :: "u32 \<Rightarrow> a64_inst option" where
  "dec_one_src w =
     (if field 24 8 w = 0b11011010 \<and> field 10 14 w = 0b11000000000011 then Some (I_RevX (fr 5 w) (fr 0 w)) else None)"

definition dec_hint :: "u32 \<Rightarrow> a64_inst option" where
  "dec_hint w = (if w = 0xD503201F then Some I_Nop else None)"

definition a64_groups :: "(u32 \<Rightarrow> a64_inst option) list" where
  "a64_groups = [dec_load_store, dec_pair, dec_move_wide, dec_add_sub_imm, dec_add_sub_reg,
     dec_logic, dec_and_imm, dec_bitfield, dec_two_src, dec_three_src, dec_csel, dec_adc,
     dec_vector, dec_one_src, dec_hint]"

primrec first_some :: "('a \<Rightarrow> 'b option) list \<Rightarrow> 'a \<Rightarrow> 'b option" where
  "first_some [] x = None"
| "first_some (f # fs) x = (case f x of None \<Rightarrow> first_some fs x | Some y \<Rightarrow> Some y)"

definition a64_decode :: "u32 \<Rightarrow> a64_inst option" where
  "a64_decode w = first_some a64_groups w"

section \<open>Execution\<close>

text \<open>\<open>AddWithCarry\<close> of the reference manual.\<close>

definition set_flags :: "u64 \<Rightarrow> bool \<Rightarrow> bool \<Rightarrow> a64 \<Rightarrow> a64" where
  "set_flags r c v s = s\<lparr>nf := bit r 63, zf := (r = 0), cf := c, vf := v\<rparr>"

definition awc_carry :: "u64 \<Rightarrow> u64 \<Rightarrow> bool \<Rightarrow> bool" where
  "awc_carry a b c \<longleftrightarrow> 2 ^ 64 \<le> unat a + unat b + of_bool c"

definition awc_overflow :: "u64 \<Rightarrow> u64 \<Rightarrow> bool \<Rightarrow> bool" where
  "awc_overflow a b c \<longleftrightarrow> sint a + sint b + of_bool c \<noteq> sint (a + b + of_bool c)"

definition flags_awc :: "u64 \<Rightarrow> u64 \<Rightarrow> bool \<Rightarrow> a64 \<Rightarrow> a64" where
  "flags_awc a b c s = set_flags (a + b + of_bool c) (awc_carry a b c) (awc_overflow a b c) s"

definition cond_holds :: "nat \<Rightarrow> a64 \<Rightarrow> bool" where
  "cond_holds c s =
     (let k = c div 2;
          b = (if k = 0 then zf s else if k = 1 then cf s else if k = 2 then nf s
               else if k = 3 then vf s else if k = 4 then cf s \<and> \<not> zf s
               else if k = 5 then nf s = vf s else if k = 6 then nf s = vf s \<and> \<not> zf s else True)
      in if odd c \<and> c \<noteq> 15 then \<not> b else b)"

definition rev8 :: "u64 \<Rightarrow> u64" where
  "rev8 v = u64_from_le (rev (u64_to_le v))"

text \<open>\<open>SBFM\<close>/\<open>UBFM\<close> with \<open>imms \<ge> immr\<close>: bits \<open>immr..imms\<close> moved to the bottom and extended.\<close>

definition a64_sdiv :: "u64 \<Rightarrow> u64 \<Rightarrow> u64" where
  "a64_sdiv a b =
     (if b = 0 then 0 else word_of_int (sgn (sint a) * sgn (sint b) * (\<bar>sint a\<bar> div \<bar>sint b\<bar>)))"

definition a64_ror :: "nat \<Rightarrow> u64 \<Rightarrow> u64" where
  "a64_ror n a = drop_bit n a OR push_bit (64 - n) a"

definition bfm_ok :: "nat \<Rightarrow> nat \<Rightarrow> bool" where
  "bfm_ok immr imms \<longleftrightarrow> immr \<le> imms"

primrec a64_exec :: "a64_inst \<Rightarrow> a64 \<Rightarrow> a64 option" where
  "a64_exec (I_MovW x k hw imm rd) s =
      (let v = push_bit (16 * hw) (ucast imm) :: u64;
           w = (case k of
                  MovZ \<Rightarrow> v
                | MovN \<Rightarrow> NOT v
                | MovK \<Rightarrow> (rx s rd AND NOT (push_bit (16 * hw) 0xFFFF)) OR v)
       in Some (wx rd (if x then w else take_bit 32 w) s))"
| "a64_exec (I_AddSubImm sb fl imm rn rd) s =
      (let a = rxsp s rn; b = (if sb then NOT imm else imm); r = a + b + of_bool sb in
       Some (if fl then wx rd r (flags_awc a b sb s) else wxsp rd r s))"
| "a64_exec (I_AddSubReg sb fl sh rm rn rd) s =
      (let a = rx s rn; m = push_bit sh (rx s rm); b = (if sb then NOT m else m);
           r = a + b + of_bool sb in
       Some (wx rd r (if fl then flags_awc a b sb s else s)))"
| "a64_exec (I_Logic k ng sh rm rn rd) s =
      (let a = rx s rn; m = push_bit sh (rx s rm); b = (if ng then NOT m else m) in
       Some (case k of
           LAnd \<Rightarrow> wx rd (a AND b) s
         | LOrr \<Rightarrow> wx rd (a OR b) s
         | LEor \<Rightarrow> wx rd (a XOR b) s
         | LAnds \<Rightarrow> wx rd (a AND b) (set_flags (a AND b) False False s)))"
| "a64_exec (I_AndMask m rn rd) s = Some (wxsp rd (rx s rn AND m) s)"
| "a64_exec (I_Sbfm immr imms rn rd) s =
      (if bfm_ok immr imms
       then Some (wx rd (signed_take_bit (imms - immr) (drop_bit immr (rx s rn))) s) else None)"
| "a64_exec (I_Ubfm immr imms rn rd) s =
      (if bfm_ok immr imms
       then Some (wx rd (take_bit (Suc (imms - immr)) (drop_bit immr (rx s rn))) s) else None)"
| "a64_exec (I_TwoSrc k rm rn rd) s =
      (let a = rx s rn; b = rx s rm; n = unat b mod 64 in
       Some (wx rd (case k of
           UDiv \<Rightarrow> a div b
         | SDiv \<Rightarrow> a64_sdiv a b
         | LslV \<Rightarrow> push_bit n a
         | LsrV \<Rightarrow> drop_bit n a
         | AsrV \<Rightarrow> signed_drop_bit n a
         | RorV \<Rightarrow> a64_ror n a) s))"
| "a64_exec (I_MAdd sb ra rm rn rd) s =
      (let p = rx s rn * rx s rm in Some (wx rd (if sb then rx s ra - p else rx s ra + p) s))"
| "a64_exec (I_MulHigh sg rm rn rd) s =
      Some (wx rd (word_of_int
        ((if sg then sint (rx s rn) * sint (rx s rm) else uint (rx s rn) * uint (rx s rm))
           div 2 ^ 64)) s)"
| "a64_exec (I_CSel ng inc c rm rn rd) s =
      (let m = rx s rm; m = (if ng then NOT m else m); m = (if inc then m + 1 else m) in
       Some (wx rd (if cond_holds c s then rx s rn else m) s))"
| "a64_exec (I_AdcSbc sb rm rn rd) s =
      (let a = rx s rn; b = (if sb then NOT (rx s rm) else rx s rm) in
       Some (wx rd (a + b + of_bool (cf s)) (flags_awc a b (cf s) s)))"
| "a64_exec (I_Load n off rn rt) s = Some (wx rt (of_nat (load_le (amem s) (rxsp s rn + off) n)) s)"
| "a64_exec (I_Store n off rn rt) s =
      Some (s\<lparr>amem := store_le (rxsp s rn + off) n (unat (rx s rt)) (amem s)\<rparr>)"
| "a64_exec (I_LoadV n off rn rt) s = Some (wv rt (of_nat (load_le (amem s) (rxsp s rn + off) n)) s)"
| "a64_exec (I_StoreV n off rn rt) s =
      Some (s\<lparr>amem := store_le (rxsp s rn + off) n (unat (vr s rt)) (amem s)\<rparr>)"
| "a64_exec (I_StpPre off rt2 rn rt) s =
      (let a = rxsp s rn + word_of_int off in
       Some (wxsp rn a (s\<lparr>amem :=
         store_le (a + 8) 8 (unat (rx s rt2)) (store_le a 8 (unat (rx s rt)) (amem s))\<rparr>)))"
| "a64_exec (I_LdpPost off rt2 rn rt) s =
      (let a = rxsp s rn in
       Some (wxsp rn (a + word_of_int off)
         (wx rt2 (of_nat (load_le (amem s) (a + 8) 8))
           (wx rt (of_nat (load_le (amem s) a 8)) s))))"
| "a64_exec (I_VLogic k rm rn rd) s =
      Some (wv rd (case k of
          VEor \<Rightarrow> vr s rn XOR vr s rm | VAnd \<Rightarrow> vr s rn AND vr s rm
        | VOrr \<Rightarrow> vr s rn OR vr s rm) s)"
| "a64_exec (I_RevX rn rd) s = Some (wx rd (rev8 (rx s rn)) s)"
| "a64_exec I_Nop s = Some s"

definition a64_step :: "u32 \<Rightarrow> a64 \<Rightarrow> a64 option" where
  "a64_step w s = Option.bind (a64_decode w) (\<lambda>i. a64_exec i s)"

primrec a64_run :: "u32 list \<Rightarrow> a64 \<Rightarrow> a64 option" where
  "a64_run [] s = Some s"
| "a64_run (w # ws) s = Option.bind (a64_step w s) (a64_run ws)"

section \<open>Fields of assembled words\<close>

definition fld :: "nat \<Rightarrow> nat \<Rightarrow> u32 \<Rightarrow> u32" where
  "fld k n x = push_bit k (take_bit n x)"

lemma field_or [ifield_simps]: "field k n (a OR b) = field k n a OR field k n b"
  by (simp add: field_def drop_bit_or take_bit_or)

lemma field_fld_above [ifield_simps]: "k + n \<le> j \<Longrightarrow> field k n (fld j m x) = 0"
  by (auto simp: bit_eq_iff bit_simps field_def fld_def)

lemma field_fld_below [ifield_simps]: "j + m \<le> k \<Longrightarrow> field k n (fld j m x) = 0"
  by (auto simp: bit_eq_iff bit_simps field_def fld_def)

lemma field_fld_same [ifield_simps]: "k + n \<le> 32 \<Longrightarrow> field k n (fld k n x) = take_bit n x"
  by (auto simp: bit_eq_iff bit_simps field_def fld_def)

lemma field_fld_inside [ifield_simps]:
  "j \<le> k \<Longrightarrow> k + n \<le> j + m \<Longrightarrow> j + m \<le> 32 \<Longrightarrow> field k n (fld j m x) = field (k - j) n x"
  by (auto simp: bit_eq_iff bit_simps field_def fld_def)

lemma take_bit_small:
  fixes x :: "'a::len word"
  assumes "unat x < 2 ^ n"
  shows "take_bit n x = x"
  using assms by (simp add: word_unat_eq_iff unsigned_take_bit_eq take_bit_nat_eq_self)

lemma fld_of_small: "unat x < 2 ^ n \<Longrightarrow> push_bit k x = fld k n x"
  by (simp add: fld_def take_bit_small)

lemma fld_0_of_small: "unat x < 2 ^ n \<Longrightarrow> x = fld 0 n x"
  by (simp add: fld_def take_bit_small)

lemma unat_ucast_reg [simp]: "unat (ucast (r :: reg) :: u32) = unat r"
  by (simp add: unsigned_ucast_eq) (rule take_bit_nat_eq_self, use unat_u8_less [of r] in simp)

lemma unat_ucast_imm16 [simp]: "unat (ucast (i :: u16) :: u32) = unat i"
  by (simp add: unsigned_ucast_eq) (rule take_bit_nat_eq_self, use unat_u16_less [of i] in simp)

lemma reg_small: "r < 32 \<Longrightarrow> unat (ucast (r :: reg) :: u32) < 2 ^ 5"
  by (simp add: word_less_nat_alt)

lemma field_numeral [ifield_simps]: "field k n (numeral m) = take_bit n (drop_bit k (numeral m))"
  by (simp add: field_def)

lemma field_0 [ifield_simps]: "field k n 0 = 0"
  by (simp add: field_def)

lemma field_reg [ifield_simps]: "r < 32 \<Longrightarrow> take_bit 5 (ucast (r :: reg) :: u32) = ucast r"
  using reg_small take_bit_small by blast

lemma ucast_reg [simp]: "ucast (ucast (r :: reg) :: u32) = r"
  by (rule bit_word_eqI) (simp add: bit_simps)

lemma or_reg_fld: "r < 32 \<Longrightarrow> a OR ucast (r :: reg) = a OR fld 0 5 (ucast r)"
  using fld_0_of_small [OF reg_small] by metis

lemmas reg_fld = fld_of_small [OF reg_small] or_reg_fld

end
