(* ===== verification/A64_Sem.thy ===== *)
theory A64_Sem
  imports A64
begin

text \<open>
  What the words of the emitter methods do when a processor runs them. \<open>sem f g\<close> says that the
  emitter method \<open>f\<close> appends a straight-line piece of code whose execution is the state
  transformation \<open>g\<close>; \<open>sem_pre P f g\<close> says so for the states that satisfy \<open>P\<close>. The rules
  \<open>sem_intros\<close> give the meaning of each method, \<open>sem_Cons\<close> composes them along \<open>seq\<close>.
\<close>

named_theorems sem_intros \<open>meaning of emitter methods\<close>

section \<open>Meaning of emitter methods\<close>

definition emits :: "'e em \<Rightarrow> u32 list \<Rightarrow> bool" where
  "emits f ws \<longleftrightarrow> (\<forall>e. f e = (Ok (), e\<lparr>em_code := em_code e @ ws\<rparr>))"

definition sem :: "'e em \<Rightarrow> (a64 \<Rightarrow> a64) \<Rightarrow> bool" where
  "sem f g \<longleftrightarrow> (\<exists>ws. emits f ws \<and> (\<forall>s. a64_run ws s = Some (g s)))"

lemma emits_Nil: "emits (seq []) []"
  by (simp add: emits_def)

lemma emits_Cons: "emits m ws \<Longrightarrow> emits (seq ms) ws' \<Longrightarrow> emits (seq (m # ms)) (ws @ ws')"
  by (simp add: emits_def)

lemma a64_run_append: "a64_run (ws @ ws') s = Option.bind (a64_run ws s) (a64_run ws')"
  by (induction ws arbitrary: s) (auto split: bind_splits)

lemma sem_Nil: "sem (seq []) (\<lambda>s. s)"
  using emits_Nil a64_run.simps(1) unfolding sem_def by blast

lemma sem_Cons: "sem m g \<Longrightarrow> sem (seq ms) h \<Longrightarrow> sem (seq (m # ms)) (\<lambda>s. h (g s))"
  unfolding sem_def using emits_Cons by (fastforce simp: a64_run_append)

lemma sem_push: "a64_decode w = Some i \<Longrightarrow> (\<And>s. a64_exec i s = Some (g s)) \<Longrightarrow> sem (push w) g"
  unfolding sem_def emits_def
  by (rule exI [of _ "[w]"]) (simp add: push_def a64_step_def)

lemma sem_assert: "c \<Longrightarrow> sem m g \<Longrightarrow> sem (seq [debug_assert c, m]) g"
  by (auto simp: sem_def emits_def debug_assert_def)

lemma sem_weaken: "sem f g \<Longrightarrow> (\<And>s. g s = h s) \<Longrightarrow> sem f h"
  by (simp add: sem_def)

lemmas a64_dec = a64_decode_def a64_groups_def dec_move_wide_def dec_add_sub_imm_def
  dec_add_sub_reg_def dec_logic_def dec_and_imm_def dec_bitfield_def dec_two_src_def
  dec_three_src_def dec_csel_def dec_adc_def dec_load_store_def dec_pair_def dec_vector_def
  dec_one_src_def dec_hint_def Let_def

lemma or_left_numeral:
  "(numeral a :: u32) OR (numeral b OR x) = (numeral a OR numeral b) OR x"
  by (simp only: or.assoc)

lemma field_small: "unat x < 2 ^ n \<Longrightarrow> take_bit n (x :: u32) = x"
  by (rule take_bit_small)

lemma imm16_small: "unat (ucast (i :: u16) :: u32) < 2 ^ 16"
  using unat_u16_less [of i] by simp

lemma ucast_imm16 [simp]: "ucast (ucast (i :: u16) :: u32) = i"
  by (rule bit_word_eqI) (simp add: bit_simps)

lemmas word_fld = reg_fld fld_of_small [OF imm16_small] or_left_numeral
lemmas field_back = field_small [OF imm16_small]
lemmas dec_first = a64_decode_def a64_groups_def first_some.simps

lemma decode_movw:
  assumes "rd < 32" "unat hw < 2 ^ 2"
  shows
    "a64_decode (push_bit 31 1 OR push_bit 29 0b10 OR push_bit 23 0b100101 OR push_bit 21 hw OR
      push_bit 5 (ucast imm) OR ucast rd) = Some (I_MovW True MovZ (unat hw) imm rd)"
    "a64_decode (push_bit 31 1 OR push_bit 29 0b11 OR push_bit 23 0b100101 OR push_bit 21 hw OR
      push_bit 5 (ucast imm) OR ucast rd) = Some (I_MovW True MovK (unat hw) imm rd)"
    "a64_decode (push_bit 31 1 OR push_bit 29 0 OR push_bit 23 0b100101 OR push_bit 21 hw OR
      push_bit 5 (ucast imm) OR ucast rd) = Some (I_MovW True MovN (unat hw) imm rd)"
  using assms
  by (simp_all add: word_fld fld_of_small [OF assms(2)] dec_first a64_dec ifield_simps
       field_back field_small [OF assms(2)])

lemma rx_zr [simp]: "rx s 31 = 0"
  by (simp add: rx_def)

lemma wx_zr [simp]: "wx 31 v s = s"
  by (simp add: wx_def)

lemma add_not_1 [simp]: "a + NOT b + 1 = a - (b :: u64)"
  by (simp add: not_eq_complement)

text \<open>A scaled offset: the field holds \<open>off div n\<close>, the processor multiplies it back.\<close>

lemma offset_scaled:
  fixes off n :: u32
  assumes "off < 4096 * n" "off mod n = 0" "unat n \<le> 16"
  shows "unat (off div n) < 2 ^ 12" "ucast (off div n) * ucast n = (ucast off :: u64)"
proof -
  have eq: "unat off = unat (off div n) * unat n"
    using assms(2) by (metis div_mult_mod_eq add.right_neutral unat_div unat_mod unat_0)
  have "unat off < 4096 * unat n"
    using assms(1,3) by (simp add: word_less_nat_alt unat_mul_small)
  with eq show "unat (off div n) < 2 ^ 12" by auto
  show "ucast (off div n) * ucast n = (ucast off :: u64)"
  proof -
    have "unat (off div n) * unat n < 2 ^ 64" using eq unat_u32_less [of off] by simp
    then show ?thesis
      using eq by (simp add: word_unat_eq_iff unat_word_ariths(2))
  qed
qed

lemma sem_add64 [sem_intros]:
  assumes "rd < 32" "rn < 32" "rm < 32"
  shows "sem (add64 rd rn rm) (\<lambda>s. wx rd (rx s rn + rx s rm) s)"
  unfolding add64_def addsub_shifted_def using assms
  by (intro sem_assert sem_push [where i = "I_AddSubReg False False 0 rm rn rd"])
    (simp_all add: word_fld a64_dec ifield_simps)

lemma sem_adds64 [sem_intros]:
  assumes "rd < 32" "rn < 32" "rm < 32"
  shows "sem (adds64 rd rn rm) (\<lambda>s. wx rd (rx s rn + rx s rm) (flags_awc (rx s rn) (rx s rm) False s))"
  unfolding adds64_def addsub_shifted_def using assms
  by (intro sem_assert sem_push [where i = "I_AddSubReg False True 0 rm rn rd"])
    (simp_all add: word_fld a64_dec ifield_simps)

lemma sem_sub64 [sem_intros]:
  assumes "rd < 32" "rn < 32" "rm < 32"
  shows "sem (sub64 rd rn rm) (\<lambda>s. wx rd (rx s rn - rx s rm) s)"
  unfolding sub64_def addsub_shifted_def using assms
  by (intro sem_assert sem_push [where i = "I_AddSubReg True False 0 rm rn rd"])
    (simp_all add: word_fld a64_dec ifield_simps)

lemma sem_subs64 [sem_intros]:
  assumes "rd < 32" "rn < 32" "rm < 32"
  shows "sem (subs64 rd rn rm) (\<lambda>s. wx rd (rx s rn - rx s rm) (flags_awc (rx s rn) (NOT (rx s rm)) True s))"
  unfolding subs64_def addsub_shifted_def using assms
  by (intro sem_assert sem_push [where i = "I_AddSubReg True True 0 rm rn rd"])
    (simp_all add: word_fld a64_dec ifield_simps)

lemma sem_and64 [sem_intros]:
  assumes "rd < 32" "rn < 32" "rm < 32"
  shows "sem (and64 rd rn rm) (\<lambda>s. wx rd (rx s rn AND rx s rm) s)"
  unfolding and64_def logical_shifted_def using assms
  by (intro sem_assert sem_push [where i = "I_Logic LAnd False 0 rm rn rd"])
    (simp_all add: word_fld a64_dec ifield_simps)

lemma sem_orr64 [sem_intros]:
  assumes "rd < 32" "rn < 32" "rm < 32"
  shows "sem (orr64 rd rn rm) (\<lambda>s. wx rd (rx s rn OR rx s rm) s)"
  unfolding orr64_def logical_shifted_def using assms
  by (intro sem_assert sem_push [where i = "I_Logic LOrr False 0 rm rn rd"])
    (simp_all add: word_fld a64_dec ifield_simps)

lemma sem_eor64 [sem_intros]:
  assumes "rd < 32" "rn < 32" "rm < 32"
  shows "sem (eor64 rd rn rm) (\<lambda>s. wx rd (rx s rn XOR rx s rm) s)"
  unfolding eor64_def logical_shifted_def using assms
  by (intro sem_assert sem_push [where i = "I_Logic LEor False 0 rm rn rd"])
    (simp_all add: word_fld a64_dec ifield_simps)

lemma sem_ands64 [sem_intros]:
  assumes "rd < 32" "rn < 32" "rm < 32"
  shows "sem (ands64 rd rn rm) (\<lambda>s. wx rd (rx s rn AND rx s rm) (set_flags (rx s rn AND rx s rm) False False s))"
  unfolding ands64_def logical_shifted_def using assms
  by (intro sem_assert sem_push [where i = "I_Logic LAnds False 0 rm rn rd"])
    (simp_all add: word_fld a64_dec ifield_simps)

lemma sem_udiv64 [sem_intros]:
  assumes "rd < 32" "rn < 32" "rm < 32"
  shows "sem (udiv64 rd rn rm) (\<lambda>s. wx rd (rx s rn div rx s rm) s)"
  unfolding udiv64_def dp_2src_def using assms
  by (intro sem_assert sem_push [where i = "I_TwoSrc UDiv rm rn rd"])
    (simp_all add: word_fld a64_dec ifield_simps)

lemma sem_sdiv64 [sem_intros]:
  assumes "rd < 32" "rn < 32" "rm < 32"
  shows "sem (sdiv64 rd rn rm) (\<lambda>s. wx rd (a64_sdiv (rx s rn) (rx s rm)) s)"
  unfolding sdiv64_def dp_2src_def using assms
  by (intro sem_assert sem_push [where i = "I_TwoSrc SDiv rm rn rd"])
    (simp_all add: word_fld a64_dec ifield_simps)

lemma sem_lslv64 [sem_intros]:
  assumes "rd < 32" "rn < 32" "rm < 32"
  shows "sem (lslv64 rd rn rm) (\<lambda>s. wx rd (push_bit (unat (rx s rm) mod 64) (rx s rn)) s)"
  unfolding lslv64_def dp_2src_def using assms
  by (intro sem_assert sem_push [where i = "I_TwoSrc LslV rm rn rd"])
    (simp_all add: word_fld a64_dec ifield_simps)

lemma sem_lsrv64 [sem_intros]:
  assumes "rd < 32" "rn < 32" "rm < 32"
  shows "sem (lsrv64 rd rn rm) (\<lambda>s. wx rd (drop_bit (unat (rx s rm) mod 64) (rx s rn)) s)"
  unfolding lsrv64_def dp_2src_def using assms
  by (intro sem_assert sem_push [where i = "I_TwoSrc LsrV rm rn rd"])
    (simp_all add: word_fld a64_dec ifield_simps)

lemma sem_asrv64 [sem_intros]:
  assumes "rd < 32" "rn < 32" "rm < 32"
  shows "sem (asrv64 rd rn rm) (\<lambda>s. wx rd (signed_drop_bit (unat (rx s rm) mod 64) (rx s rn)) s)"
  unfolding asrv64_def dp_2src_def using assms
  by (intro sem_assert sem_push [where i = "I_TwoSrc AsrV rm rn rd"])
    (simp_all add: word_fld a64_dec ifield_simps)

lemma sem_rorv64 [sem_intros]:
  assumes "rd < 32" "rn < 32" "rm < 32"
  shows "sem (rorv64 rd rn rm) (\<lambda>s. wx rd (a64_ror (unat (rx s rm) mod 64) (rx s rn)) s)"
  unfolding rorv64_def dp_2src_def using assms
  by (intro sem_assert sem_push [where i = "I_TwoSrc RorV rm rn rd"])
    (simp_all add: word_fld a64_dec ifield_simps)

lemma sem_mul64 [sem_intros]:
  assumes "rd < 32" "rn < 32" "rm < 32"
  shows "sem (mul64 rd rn rm) (\<lambda>s. wx rd (rx s rn * rx s rm) s)"
  unfolding mul64_def madd64_def using assms
  by (intro sem_assert sem_push [where i = "I_MAdd False 31 rm rn rd"])
    (simp_all add: word_fld a64_dec ifield_simps)

lemma sem_umulh64 [sem_intros]:
  assumes "rd < 32" "rn < 32" "rm < 32"
  shows "sem (umulh64 rd rn rm) (\<lambda>s. wx rd (word_of_int (uint (rx s rn) * uint (rx s rm) div 2 ^ 64)) s)"
  unfolding umulh64_def using assms
  by (intro sem_assert sem_push [where i = "I_MulHigh False rm rn rd"])
    (simp_all add: word_fld a64_dec ifield_simps)

lemma sem_smulh64 [sem_intros]:
  assumes "rd < 32" "rn < 32" "rm < 32"
  shows "sem (smulh64 rd rn rm) (\<lambda>s. wx rd (word_of_int (sint (rx s rn) * sint (rx s rm) div 2 ^ 64)) s)"
  unfolding smulh64_def using assms
  by (intro sem_assert sem_push [where i = "I_MulHigh True rm rn rd"])
    (simp_all add: word_fld a64_dec ifield_simps)

lemma sem_msub64 [sem_intros]:
  assumes "rd < 32" "rn < 32" "rm < 32" "ra < 32"
  shows "sem (msub64 rd rn rm ra) (\<lambda>s. wx rd (rx s ra - rx s rn * rx s rm) s)"
  unfolding msub64_def using assms
  by (intro sem_assert sem_push [where i = "I_MAdd True ra rm rn rd"])
    (simp_all add: word_fld a64_dec ifield_simps)

lemma sem_ldr64 [sem_intros]:
  assumes "rt < 32" "rn < 32" "off < 4096 * 8" "off mod 8 = 0"
  shows "sem (ldr64 rt rn off) (\<lambda>s. wx rt (of_nat (load_le (amem s) (rxsp s rn + ucast off) 8)) s)"
proof -
  have i: "unat (off div 8) < 2 ^ 12" "ucast (off div 8) * 8 = (ucast off :: u64)"
    using assms offset_scaled [of off 8] by (simp_all add: word_less_nat_alt)
  show ?thesis
    unfolding ldr64_def ldst_uoff_def using assms i
    by (intro sem_assert sem_push [where i = "I_Load 8 (ucast off) rn rt"])
      (simp_all add: word_fld fld_of_small [OF i(1)] a64_dec ifield_simps field_small [OF i(1)] word_less_nat_alt)
qed

lemma sem_ldr32 [sem_intros]:
  assumes "rt < 32" "rn < 32" "off < 4096 * 4" "off mod 4 = 0"
  shows "sem (ldr32 rt rn off) (\<lambda>s. wx rt (of_nat (load_le (amem s) (rxsp s rn + ucast off) 4)) s)"
proof -
  have i: "unat (off div 4) < 2 ^ 12" "ucast (off div 4) * 4 = (ucast off :: u64)"
    using assms offset_scaled [of off 4] by (simp_all add: word_less_nat_alt)
  show ?thesis
    unfolding ldr32_def ldst_uoff_def using assms i
    by (intro sem_assert sem_push [where i = "I_Load 4 (ucast off) rn rt"])
      (simp_all add: word_fld fld_of_small [OF i(1)] a64_dec ifield_simps field_small [OF i(1)] word_less_nat_alt)
qed

lemma sem_ldrh [sem_intros]:
  assumes "rt < 32" "rn < 32" "off < 4096 * 2" "off mod 2 = 0"
  shows "sem (ldrh rt rn off) (\<lambda>s. wx rt (of_nat (load_le (amem s) (rxsp s rn + ucast off) 2)) s)"
proof -
  have i: "unat (off div 2) < 2 ^ 12" "ucast (off div 2) * 2 = (ucast off :: u64)"
    using assms offset_scaled [of off 2] by (simp_all add: word_less_nat_alt)
  show ?thesis
    unfolding ldrh_def ldst_uoff_def using assms i
    by (intro sem_assert sem_push [where i = "I_Load 2 (ucast off) rn rt"])
      (simp_all add: word_fld fld_of_small [OF i(1)] a64_dec ifield_simps field_small [OF i(1)] word_less_nat_alt)
qed

lemma sem_ldrb [sem_intros]:
  assumes "rt < 32" "rn < 32" "off < 4096"
  shows "sem (ldrb rt rn off) (\<lambda>s. wx rt (of_nat (load_le (amem s) (rxsp s rn + ucast off) 1)) s)"
proof -
  have i: "unat (off) < 2 ^ 12" "ucast (off) * 1 = (ucast off :: u64)"
    using assms offset_scaled [of off 1] by (simp_all add: word_less_nat_alt)
  show ?thesis
    unfolding ldrb_def ldst_uoff_def using assms i
    by (intro sem_assert sem_push [where i = "I_Load 1 (ucast off) rn rt"])
      (simp_all add: word_fld fld_of_small [OF i(1)] a64_dec ifield_simps field_small [OF i(1)] word_less_nat_alt)
qed

lemma sem_str64 [sem_intros]:
  assumes "rt < 32" "rn < 32" "off < 4096 * 8" "off mod 8 = 0"
  shows "sem (str64 rt rn off) (\<lambda>s. s\<lparr>amem := store_le (rxsp s rn + ucast off) 8 (unat (rx s rt)) (amem s)\<rparr>)"
proof -
  have i: "unat (off div 8) < 2 ^ 12" "ucast (off div 8) * 8 = (ucast off :: u64)"
    using assms offset_scaled [of off 8] by (simp_all add: word_less_nat_alt)
  show ?thesis
    unfolding str64_def ldst_uoff_def using assms i
    by (intro sem_assert sem_push [where i = "I_Store 8 (ucast off) rn rt"])
      (simp_all add: word_fld fld_of_small [OF i(1)] a64_dec ifield_simps field_small [OF i(1)] word_less_nat_alt)
qed

lemma sem_str32 [sem_intros]:
  assumes "rt < 32" "rn < 32" "off < 4096 * 4" "off mod 4 = 0"
  shows "sem (str32 rt rn off) (\<lambda>s. s\<lparr>amem := store_le (rxsp s rn + ucast off) 4 (unat (rx s rt)) (amem s)\<rparr>)"
proof -
  have i: "unat (off div 4) < 2 ^ 12" "ucast (off div 4) * 4 = (ucast off :: u64)"
    using assms offset_scaled [of off 4] by (simp_all add: word_less_nat_alt)
  show ?thesis
    unfolding str32_def ldst_uoff_def using assms i
    by (intro sem_assert sem_push [where i = "I_Store 4 (ucast off) rn rt"])
      (simp_all add: word_fld fld_of_small [OF i(1)] a64_dec ifield_simps field_small [OF i(1)] word_less_nat_alt)
qed

lemma sem_strh [sem_intros]:
  assumes "rt < 32" "rn < 32" "off < 4096 * 2" "off mod 2 = 0"
  shows "sem (strh rt rn off) (\<lambda>s. s\<lparr>amem := store_le (rxsp s rn + ucast off) 2 (unat (rx s rt)) (amem s)\<rparr>)"
proof -
  have i: "unat (off div 2) < 2 ^ 12" "ucast (off div 2) * 2 = (ucast off :: u64)"
    using assms offset_scaled [of off 2] by (simp_all add: word_less_nat_alt)
  show ?thesis
    unfolding strh_def ldst_uoff_def using assms i
    by (intro sem_assert sem_push [where i = "I_Store 2 (ucast off) rn rt"])
      (simp_all add: word_fld fld_of_small [OF i(1)] a64_dec ifield_simps field_small [OF i(1)] word_less_nat_alt)
qed

lemma sem_strb [sem_intros]:
  assumes "rt < 32" "rn < 32" "off < 4096"
  shows "sem (strb rt rn off) (\<lambda>s. s\<lparr>amem := store_le (rxsp s rn + ucast off) 1 (unat (rx s rt)) (amem s)\<rparr>)"
proof -
  have i: "unat (off) < 2 ^ 12" "ucast (off) * 1 = (ucast off :: u64)"
    using assms offset_scaled [of off 1] by (simp_all add: word_less_nat_alt)
  show ?thesis
    unfolding strb_def ldst_uoff_def using assms i
    by (intro sem_assert sem_push [where i = "I_Store 1 (ucast off) rn rt"])
      (simp_all add: word_fld fld_of_small [OF i(1)] a64_dec ifield_simps field_small [OF i(1)] word_less_nat_alt)
qed

lemma sem_ldr_q [sem_intros]:
  assumes "rt < 32" "rn < 32" "off < 4096 * 16" "off mod 16 = 0"
  shows "sem (ldr_q rt rn off) (\<lambda>s. wv rt (of_nat (load_le (amem s) (rxsp s rn + ucast off) 16)) s)"
proof -
  have i: "unat (off div 16) < 2 ^ 12" "ucast (off div 16) * 16 = (ucast off :: u64)"
    using assms offset_scaled [of off 16] by (simp_all add: word_less_nat_alt)
  show ?thesis
    unfolding ldr_q_def ldst_uoff_def using assms i
    by (intro sem_assert sem_push [where i = "I_LoadV 16 (ucast off) rn rt"])
      (simp_all add: word_fld fld_of_small [OF i(1)] a64_dec ifield_simps field_small [OF i(1)] word_less_nat_alt)
qed

lemma sem_str_q [sem_intros]:
  assumes "rt < 32" "rn < 32" "off < 4096 * 16" "off mod 16 = 0"
  shows "sem (str_q rt rn off) (\<lambda>s. s\<lparr>amem := store_le (rxsp s rn + ucast off) 16 (unat (vr s rt)) (amem s)\<rparr>)"
proof -
  have i: "unat (off div 16) < 2 ^ 12" "ucast (off div 16) * 16 = (ucast off :: u64)"
    using assms offset_scaled [of off 16] by (simp_all add: word_less_nat_alt)
  show ?thesis
    unfolding str_q_def ldst_uoff_def using assms i
    by (intro sem_assert sem_push [where i = "I_StoreV 16 (ucast off) rn rt"])
      (simp_all add: word_fld fld_of_small [OF i(1)] a64_dec ifield_simps field_small [OF i(1)] word_less_nat_alt)
qed

lemma sem_eor_v16b [sem_intros]:
  assumes "vd < 32" "vn < 32" "vm < 32"
  shows "sem (eor_v16b vd vn vm) (\<lambda>s. wv vd (vr s vn XOR vr s vm) s)"
  unfolding eor_v16b_def using assms
  by (intro sem_assert sem_push [where i = "I_VLogic VEor vm vn vd"])
    (simp_all add: word_fld a64_dec ifield_simps)

lemma sem_and_v16b [sem_intros]:
  assumes "vd < 32" "vn < 32" "vm < 32"
  shows "sem (and_v16b vd vn vm) (\<lambda>s. wv vd (vr s vn AND vr s vm) s)"
  unfolding and_v16b_def using assms
  by (intro sem_assert sem_push [where i = "I_VLogic VAnd vm vn vd"])
    (simp_all add: word_fld a64_dec ifield_simps)

lemma sem_orr_v16b [sem_intros]:
  assumes "vd < 32" "vn < 32" "vm < 32"
  shows "sem (orr_v16b vd vn vm) (\<lambda>s. wv vd (vr s vn OR vr s vm) s)"
  unfolding orr_v16b_def using assms
  by (intro sem_assert sem_push [where i = "I_VLogic VOrr vm vn vd"])
    (simp_all add: word_fld a64_dec ifield_simps)

section \<open>Immediates\<close>

lemma sem_movz64 [sem_intros]:
  assumes "rd < 32" "lane < 4"
  shows "sem (movz64 rd imm (of_nat lane * 16)) (\<lambda>s. wx rd (push_bit (16 * lane) (ucast imm)) s)"
    "sem (movk64 rd imm (of_nat lane * 16)) (\<lambda>s. wx rd
       ((rx s rd AND NOT (push_bit (16 * lane) 0xFFFF)) OR push_bit (16 * lane) (ucast imm)) s)"
proof -
  have hw: "unat (of_nat lane * 16 div 16 :: u32) = lane"
  proof -
    have "lane \<in> {0, 1, 2, 3}" using assms(2) by auto
    then show ?thesis by auto
  qed
  have 1: "of_nat lane * 16 div 16 < (4 :: u32)" "unat (of_nat lane * 16 div 16 :: u32) < 2 ^ 2"
    using assms(2) hw by (simp_all add: word_less_nat_alt)
  show "sem (movz64 rd imm (of_nat lane * 16)) (\<lambda>s. wx rd (push_bit (16 * lane) (ucast imm)) s)"
    unfolding movz64_def movw_def sf_bit.simps
    by (rule sem_assert, use 1(1) in simp, rule sem_push [OF decode_movw(1) [OF assms(1) 1(2)]])
      (simp add: hw)
  show "sem (movk64 rd imm (of_nat lane * 16)) (\<lambda>s. wx rd
       ((rx s rd AND NOT (push_bit (16 * lane) 0xFFFF)) OR push_bit (16 * lane) (ucast imm)) s)"
    unfolding movk64_def movw_def sf_bit.simps
    by (rule sem_assert, use 1(1) in simp, rule sem_push [OF decode_movw(2) [OF assms(1) 1(2)]])
      (simp add: hw)
qed

lemma sem_movz64_0 [sem_intros]: "rd < 32 \<Longrightarrow> sem (movz64 rd imm 0) (\<lambda>s. wx rd (ucast imm) s)"
  using sem_movz64(1) [of rd 0 imm] by simp

lemma sem_movz32 [sem_intros]:
  assumes "rd < 32"
  shows "sem (movz32 rd imm 0) (\<lambda>s. wx rd (ucast imm) s)"
    "sem (movk32 rd imm 16) (\<lambda>s. wx rd
       (take_bit 32 ((rx s rd AND NOT (push_bit 16 0xFFFF)) OR push_bit 16 (ucast imm))) s)"
proof -
  have u: "take_bit 32 (ucast imm :: u64) = ucast imm"
    using unat_u16_less [of imm]
    by (simp add: word_unat_eq_iff unsigned_take_bit_eq unsigned_ucast_eq take_bit_nat_eq_self)
  show "sem (movz32 rd imm 0) (\<lambda>s. wx rd (ucast imm) s)"
    unfolding movz32_def movw_def sf_bit.simps
    by (rule sem_assert, simp, rule sem_push [where i = "I_MovW False MovZ 0 imm rd"])
      (use assms in \<open>simp_all add: word_fld a64_dec ifield_simps field_back u\<close>)
  show "sem (movk32 rd imm 16) (\<lambda>s. wx rd
       (take_bit 32 ((rx s rd AND NOT (push_bit 16 0xFFFF)) OR push_bit 16 (ucast imm))) s)"
    unfolding movk32_def movw_def sf_bit.simps
    by (rule sem_assert, simp, rule sem_push [where i = "I_MovW False MovK 1 imm rd"])
      (use assms in \<open>simp_all add: word_fld a64_dec ifield_simps field_back\<close>)
qed

lemma sem_nop [sem_intros]: "sem em_nop (\<lambda>s. s)"
  unfolding em_nop_def
  by (rule sem_push [where i = I_Nop]) (simp_all add: a64_dec ifield_simps)

text \<open>A method whose meaning holds in the states of a precondition.\<close>

definition sem_pre :: "(a64 \<Rightarrow> bool) \<Rightarrow> 'e em \<Rightarrow> (a64 \<Rightarrow> a64) \<Rightarrow> bool" where
  "sem_pre P f g \<longleftrightarrow> (\<exists>ws. emits f ws \<and> (\<forall>s. P s \<longrightarrow> a64_run ws s = Some (g s)))"

lemma sem_iff_pre: "sem f g \<longleftrightarrow> sem_pre (\<lambda>_. True) f g"
  by (simp add: sem_def sem_pre_def)

lemma sem_preI: "sem f g \<Longrightarrow> (\<And>s. P s \<Longrightarrow> g s = h s) \<Longrightarrow> sem_pre P f h"
  by (auto simp: sem_def sem_pre_def)

lemma sem_pre_Cons:
  "sem_pre P m g \<Longrightarrow> (\<And>s. P s \<Longrightarrow> Q (g s)) \<Longrightarrow> sem_pre Q (seq ms) h \<Longrightarrow>
   sem_pre P (seq (m # ms)) (\<lambda>s. h (g s))"
  unfolding sem_pre_def
  by (elim exE conjE, rule exI, rule conjI, rule emits_Cons) (auto simp: a64_run_append)

lemma sem_pre_weaken:
  "sem_pre Q f g \<Longrightarrow> (\<And>s. P s \<Longrightarrow> Q s) \<Longrightarrow> (\<And>s. P s \<Longrightarrow> g s = h s) \<Longrightarrow> sem_pre P f h"
  by (auto simp: sem_pre_def)

lemma seq_single [simp]: "seq [m] = m"
proof (rule ext)
  fix e show "seq [m] e = m e" by (cases "m e"; cases "fst (m e)") (auto simp: sbind_def)
qed

definition lane_of :: "u64 \<Rightarrow> nat \<Rightarrow> u16" where
  "lane_of v k = ucast (drop_bit (k * 16) v AND 0xFFFF)"

lemma bit_ffff: "bit (0xFFFF :: 64 word) n \<longleftrightarrow> n < 16"
proof -
  have "(0xFFFF :: 64 word) = mask 16" by (simp add: mask_numeral)
  then show ?thesis by (simp only: bit_mask_iff) auto
qed

lemma bit_lane_of: "bit (lane_of v k) n \<longleftrightarrow> n < 16 \<and> bit v (n + k * 16)"
  unfolding lane_of_def
  by (simp only: bit_unsigned_iff bit_and_iff bit_ffff bit_drop_bit_eq comp_def possible_bit_word)
    (auto simp: add.commute)

lemma lane_zero:
  assumes "lane_of v k = 0"
  shows "take_bit (16 * Suc k) v = take_bit (16 * k) v"
proof (rule bit_word_eqI)
  fix n
  have "bit (lane_of v k) (n - k * 16) = False" using assms by simp
  then show "bit (take_bit (16 * Suc k) v) n = bit (take_bit (16 * k) v) n"
    by (cases "n < 16 * k") (auto simp: bit_lane_of bit_simps mult.commute)
qed

lemma lane_put:
  "(take_bit (16 * k) v AND NOT (push_bit (16 * k) 0xFFFF)) OR push_bit (16 * k) (ucast (lane_of v k))
    = take_bit (16 * Suc k) v"
  by (rule bit_word_eqI) (auto simp: bit_simps bit_lane_of bit_ffff mult.commute)

lemma sem_Pair: "sem (Pair (Ok ())) (\<lambda>s. s)"
  using sem_Nil by simp

lemma gpr_less: "(r :: reg) < 31 \<Longrightarrow> r < 32"
  by (simp add: word_less_nat_alt)

lemma sem_pre_two:
  "sem_pre P m g \<Longrightarrow> (\<And>s. P s \<Longrightarrow> Q (g s)) \<Longrightarrow> sem_pre Q n h \<Longrightarrow> sem_pre P (seq [m, n]) (\<lambda>s. h (g s))"
  using sem_pre_Cons [of P m g Q "[n]" h] by (simp only: seq_single)

lemma sem_two: "sem m g \<Longrightarrow> sem n h \<Longrightarrow> sem (seq [m, n]) (\<lambda>s. h (g s))"
  using sem_Cons [of m g "[n]" h] by (simp only: seq_single)

lemma rx_wx: "rx (wx r v s) r' = (if r = r' \<and> r \<noteq> 31 then v else rx s r')"
  by (simp add: rx_def wx_def)

lemma wx_wx [simp]: "wx r v (wx r w s) = wx r v s"
  by (simp add: wx_def)

lemma wx_rx [simp]: "wx r (rx s r) s = s"
  by (simp add: wx_def rx_def)

lemma gpr_neq: "(r :: reg) < 31 \<Longrightarrow> r \<noteq> 31"
  by auto

lemma movk_lanes:
  assumes "rd < 31"
  shows "k \<le> 4 \<Longrightarrow> sem_pre (\<lambda>s. rx s rd = take_bit (16 * k) v) (load_lanes rd v True [k..<4] :: 'e em) (wx rd v)"
proof (induction "4 - k" arbitrary: k)
  case 0
  then have "k = 4" by simp
  moreover have "wx rd v s = s" if "rx s rd = v" for s using that wx_rx [of rd s] by simp
  ultimately show ?case
    using take_bit_length_eq [of v] by (auto intro!: sem_preI [OF sem_Pair])
next
  case (Suc n)
  then have k: "k < 4" "[k..<4] = k # [Suc k..<4]" by (simp_all add: upt_conv_Cons)
  have IH: "sem_pre (\<lambda>s. rx s rd = take_bit (16 * Suc k) v) (load_lanes rd v True [Suc k..<4] :: 'e em) (wx rd v)"
    by (rule Suc.hyps(1)) (use Suc.hyps(2) in auto)
  show ?case
  proof (cases "lane_of v k = 0")
    case True
    with IH lane_zero [OF True] show ?thesis
      by (simp add: k(2) lane_of_def [symmetric] Let_def)
  next
    case False
    let ?g = "\<lambda>s. wx rd (rx s rd AND NOT (push_bit (16 * k) 0xFFFF) OR
        push_bit (16 * k) (ucast (lane_of v k))) s"
    have "sem_pre (\<lambda>s. rx s rd = take_bit (16 * k) v)
       (seq [movk64 rd (lane_of v k) (of_nat k * 16), load_lanes rd v True [Suc k..<4] :: 'e em])
       (\<lambda>s. wx rd v (?g s))"
      by (rule sem_pre_two [OF sem_preI [OF sem_movz64(2) [OF gpr_less [OF assms] k(1)]] _ IH])
        (use gpr_neq [OF assms] lane_put [of k v] in \<open>auto simp: rx_wx\<close>)
    then have "sem_pre (\<lambda>s. rx s rd = take_bit (16 * k) v)
       (seq [movk64 rd (lane_of v k) (of_nat k * 16), load_lanes rd v True [Suc k..<4] :: 'e em]) (wx rd v)"
      by (rule sem_pre_weaken) simp_all
    with False show ?thesis by (simp add: k(2) lane_of_def [symmetric] Let_def del: seq.simps)
  qed
qed

lemma movz_lanes:
  assumes "rd < 31"
  shows "k \<le> 4 \<Longrightarrow> take_bit (16 * k) v = 0 \<Longrightarrow> sem (load_lanes rd v False [k..<4] :: 'e em) (wx rd v)"
proof (induction "4 - k" arbitrary: k)
  case 0
  then have "v = 0" using take_bit_length_eq [of v] by simp
  with 0 sem_movz64_0 [OF gpr_less [OF assms], of 0] show ?case by simp
next
  case (Suc n)
  then have k: "k < 4" "[k..<4] = k # [Suc k..<4]" by (simp_all add: upt_conv_Cons)
  have movz: "sem (seq [movz64 rd (lane_of v k) (of_nat k * 16), load_lanes rd v True [Suc k..<4] :: 'e em]) (wx rd v)"
  proof -
    have "sem_pre (\<lambda>_. True)
       (seq [movz64 rd (lane_of v k) (of_nat k * 16), load_lanes rd v True [Suc k..<4] :: 'e em])
       (\<lambda>s. wx rd v (wx rd (push_bit (16 * k) (ucast (lane_of v k))) s))"
      by (rule sem_pre_two [OF sem_preI [OF sem_movz64(1) [OF gpr_less [OF assms] k(1)]] _
            movk_lanes [OF assms]])
        (use gpr_neq [OF assms] lane_put [of k v] Suc.prems k(1) in \<open>auto simp: rx_wx\<close>)
    then show ?thesis
      unfolding sem_iff_pre by (rule sem_pre_weaken) simp_all
  qed
  show ?case
  proof (cases "lane_of v k = 0 \<and> k \<noteq> 3")
    case True
    have "sem (load_lanes rd v False [Suc k..<4] :: 'e em) (wx rd v)"
      by (rule Suc.hyps(1)) (use Suc True lane_zero [of v k] in auto)
    with True show ?thesis by (simp add: k(2) lane_of_def [symmetric] Let_def)
  next
    case False
    with movz show ?thesis by (auto simp: k(2) lane_of_def [symmetric] Let_def simp del: seq.simps)
  qed
qed

lemma sem_load_const64 [sem_intros]:
  assumes "rd < 31"
  shows "sem (load_const64 rd v) (wx rd v)"
proof (cases "v AND NOT 0xFFFF = 0")
  case True
  have "ucast (ucast v :: u16) = v"
  proof (rule bit_word_eqI)
    fix n assume n: "n < LENGTH(64)"
    have "bit (v AND NOT 0xFFFF) n = False" by (simp only: True) simp
    then have "bit v n \<longrightarrow> n < 16"
      using n by (simp only: bit_and_iff bit_not_iff bit_ffff possible_bit_word) auto
    then show "bit (ucast (ucast v :: u16) :: u64) n = bit v n"
      using n by (auto simp: bit_unsigned_iff)
  qed
  with True sem_movz64_0 [OF gpr_less [OF assms], of "ucast v"] show ?thesis
    by (simp add: load_const64_def)
next
  case False
  have "[0, 1, 2, 3] = [0..<4]" by (simp add: upt_rec)
  with False movz_lanes [OF assms, of 0 v] show ?thesis
    unfolding load_const64_def by (simp del: load_lanes.simps)
qed

section \<open>Add and subtract an immediate\<close>

lemma seq_assert: "c \<Longrightarrow> seq (debug_assert c # ms) = seq ms"
  by (rule ext) (simp add: debug_assert_def)

lemma decode_addsub_imm:
  assumes "rd < 32" "rn < 32" "unat i < 2 ^ 12"
  shows "a64_decode (push_bit 31 1 OR push_bit 30 (of_bool sb) OR push_bit 29 (of_bool fl) OR
      push_bit 23 0b100010 OR push_bit 22 (of_bool sh) OR push_bit 10 i OR push_bit 5 (ucast rn) OR
      ucast rd) =
    Some (I_AddSubImm sb fl (if sh then push_bit 12 (ucast i) else ucast i) rn rd)"
  using assms
  by (cases sb; cases fl; cases sh)
    (simp_all add: word_fld fld_of_small [OF assms(3)] a64_dec ifield_simps field_small [OF assms(3)])

lemma encode_addsub_imm_Some:
  assumes "encode_addsub_imm v = Some (sh, i)"
  shows "unat i < 2 ^ 12" "(sh = 0 \<and> v = i) \<or> (sh = 1 \<and> v = push_bit 12 i)"
proof -
  have hi: "v = push_bit 12 (drop_bit 12 v)" if "v AND 0xFFF = 0"
  proof -
    have "take_bit 12 v = 0" using that by (simp add: take_bit_eq_mask mask_numeral)
    then show ?thesis using bits_ident [of 12 v] by simp
  qed
  show "unat i < 2 ^ 12"
    using assms by (auto simp: encode_addsub_imm_def word_less_nat_alt split: if_splits)
  show "(sh = 0 \<and> v = i) \<or> (sh = 1 \<and> v = push_bit 12 i)"
    using assms hi by (auto simp: encode_addsub_imm_def split: if_splits)
qed

lemma addsub_imm_value:
  assumes "encode_addsub_imm v = Some (sh, i)"
  shows "\<exists>b. sh = of_bool b \<and> (if b then push_bit 12 (ucast i) else ucast i) = (ucast v :: u64)"
proof -
  have "push_bit 12 (ucast i) = (ucast (push_bit 12 i) :: u64)"
    using encode_addsub_imm_Some(1) [OF assms]
    by (simp add: word_unat_eq_iff push_bit_eq_mult unat_word_ariths(2))
  with encode_addsub_imm_Some(2) [OF assms] show ?thesis
    by (auto intro: exI [of _ True] exI [of _ False])
qed

lemma sem_addsub_imm:
  assumes "rd < 32" "rn < 32" "encode_addsub_imm v = Some (sh, i)"
  shows "sem (addsub_imm Sf_X (of_bool sb) (of_bool fl) sh i rn rd) (\<lambda>s.
    let a = rxsp s rn; b = (if sb then NOT (ucast v) else ucast v); r = a + b + of_bool sb
    in if fl then wx rd r (flags_awc a b sb s) else wxsp rd r s)"
proof -
  obtain b where b: "sh = of_bool b" "(if b then push_bit 12 (ucast i) else ucast i) = (ucast v :: u64)"
    using addsub_imm_value [OF assms(3)] by blast
  have i: "i < 0x1000" using encode_addsub_imm_Some(1) [OF assms(3)] by (simp add: word_less_nat_alt)
  have eq: "addsub_imm Sf_X (of_bool sb) (of_bool fl) sh i rn rd = push (push_bit 31 1 OR
      push_bit 30 (of_bool sb) OR push_bit 29 (of_bool fl) OR push_bit 23 0b100010 OR
      push_bit 22 (of_bool b) OR push_bit 10 i OR push_bit 5 (ucast rn) OR ucast rd)"
    unfolding addsub_imm_def b(1) sf_bit.simps
    by (subst seq_assert, use i in simp, subst seq_assert, simp, rule seq_single)
  show ?thesis
    unfolding eq
    by (rule sem_push [OF decode_addsub_imm [OF assms(1,2) encode_addsub_imm_Some(1) [OF assms(3)]]])
      (simp add: b(2) Let_def)
qed

lemma sem_add64_imm [sem_intros]:
  assumes "rd < 32" "rn < 32" "encode_addsub_imm v \<noteq> None"
  shows "sem (add64_imm rd rn v) (\<lambda>s. wxsp rd (rxsp s rn + ucast v) s)"
proof -
  obtain sh i where e: "encode_addsub_imm v = Some (sh, i)" using assms(3) by auto
  show ?thesis
    using sem_addsub_imm [OF assms(1,2) e, of False False]
    by (simp add: add64_imm_def e Let_def)
qed

lemma sem_sub64_imm [sem_intros]:
  assumes "rd < 32" "rn < 32" "encode_addsub_imm v \<noteq> None"
  shows "sem (sub64_imm rd rn v) (\<lambda>s. wxsp rd (rxsp s rn - ucast v) s)"
proof -
  obtain sh i where e: "encode_addsub_imm v = Some (sh, i)" using assms(3) by auto
  show ?thesis
    using sem_addsub_imm [OF assms(1,2) e, of True False]
    by (simp add: sub64_imm_def e Let_def)
qed

lemma sem_adds64_imm [sem_intros]:
  assumes "rd < 32" "rn < 32" "encode_addsub_imm v \<noteq> None"
  shows "sem (adds64_imm rd rn v) (\<lambda>s. wx rd (rxsp s rn + ucast v) (flags_awc (rxsp s rn) (ucast v) False s))"
proof -
  obtain sh i where e: "encode_addsub_imm v = Some (sh, i)" using assms(3) by auto
  show ?thesis
    using sem_addsub_imm [OF assms(1,2) e, of False True]
    by (simp add: adds64_imm_def e Let_def)
qed

lemma sem_subs64_imm [sem_intros]:
  assumes "rd < 32" "rn < 32" "encode_addsub_imm v \<noteq> None"
  shows "sem (subs64_imm rd rn v) (\<lambda>s. wx rd (rxsp s rn - ucast v) (flags_awc (rxsp s rn) (NOT (ucast v)) True s))"
proof -
  obtain sh i where e: "encode_addsub_imm v = Some (sh, i)" using assms(3) by auto
  show ?thesis
    using sem_addsub_imm [OF assms(1,2) e, of True True]
    by (simp add: subs64_imm_def e Let_def)
qed

lemma sem_cmp64_imm [sem_intros]:
  "rn < 32 \<Longrightarrow> encode_addsub_imm v \<noteq> None \<Longrightarrow>
   sem (cmp64_imm rn v) (\<lambda>s. flags_awc (rxsp s rn) (NOT (ucast v)) True s)"
  unfolding cmp64_imm_def using sem_subs64_imm [of 31 rn v] by simp

lemma sem_mov64 [sem_intros]: "rd < 32 \<Longrightarrow> rm < 32 \<Longrightarrow> sem (mov64 rd rm) (\<lambda>s. wx rd (rx s rm) s)"
  unfolding mov64_def using sem_orr64 [of rd 31 rm] by simp

lemma sem_cmp64 [sem_intros]:
  "rn < 32 \<Longrightarrow> rm < 32 \<Longrightarrow> sem (cmp64 rn rm) (\<lambda>s. flags_awc (rx s rn) (NOT (rx s rm)) True s)"
  unfolding cmp64_def using sem_subs64 [of 31 rn rm] by simp

section \<open>Conditional select, pairs\<close>

lemma cond_small: "unat (cond_bits c) < 2 ^ 4"
  by (cases c) simp_all

lemma sem_csel64 [sem_intros]:
  assumes "rd < 32" "rn < 32" "rm < 32"
  shows "sem (csel64 rd rn rm c) (\<lambda>s. wx rd (if cond_holds (unat (cond_bits c)) s then rx s rn else rx s rm) s)"
  unfolding csel64_def csel_form_def using assms
  by (intro sem_push [where i = "I_CSel False False (unat (cond_bits c)) rm rn rd"])
    (simp_all add: word_fld fld_of_small [OF cond_small] field_small [OF cond_small] a64_dec ifield_simps)

lemma sem_csinc64 [sem_intros]:
  assumes "rd < 32" "rn < 32" "rm < 32"
  shows "sem (csinc64 rd rn rm c) (\<lambda>s. wx rd (if cond_holds (unat (cond_bits c)) s then rx s rn else rx s rm + 1) s)"
  unfolding csinc64_def csel_form_def using assms
  by (intro sem_push [where i = "I_CSel False True (unat (cond_bits c)) rm rn rd"])
    (simp_all add: word_fld fld_of_small [OF cond_small] field_small [OF cond_small] a64_dec ifield_simps)

lemma cond_holds_invert:
  "c \<noteq> C_Al \<Longrightarrow> c \<noteq> C_Nv \<Longrightarrow> cond_holds (unat (cond_bits (invert c))) s = (\<not> cond_holds (unat (cond_bits c)) s)"
  by (cases c) (simp_all add: invert_def a64_conds_def cond_holds_def Let_def)

lemma sem_cset64 [sem_intros]:
  assumes "rd < 32" "c \<noteq> C_Al" "c \<noteq> C_Nv"
  shows "sem (cset64 rd c) (\<lambda>s. wx rd (of_bool (cond_holds (unat (cond_bits c)) s)) s)"
  unfolding cset64_def
  by (rule sem_weaken, rule sem_csinc64) (use assms in \<open>simp_all add: cond_holds_invert\<close>)

lemma sem_stp64_pre [sem_intros]:
  assumes "rt < 32" "rt2 < 32" "rn < 32"
  shows "sem (stp64_pre rt rt2 rn (- 16)) (\<lambda>s.
    let a = rxsp s rn - 16 in wxsp rn a (s\<lparr>amem :=
      store_le (a + 8) 8 (unat (rx s rt2)) (store_le a 8 (unat (rx s rt)) (amem s))\<rparr>))"
  unfolding stp64_pre_def ldstp_def Let_def using assms
  by (subst seq_assert, simp, subst seq_assert, simp, unfold seq_single, intro sem_push [where i = "I_StpPre (- 16) rt2 rn rt"])
    (simp_all add: word_fld a64_dec ifield_simps)

lemma sem_ldp64_post [sem_intros]:
  assumes "rt < 32" "rt2 < 32" "rn < 32"
  shows "sem (ldp64_post rt rt2 rn 16) (\<lambda>s.
    let a = rxsp s rn in wxsp rn (a + 16)
      (wx rt2 (of_nat (load_le (amem s) (a + 8) 8)) (wx rt (of_nat (load_le (amem s) a 8)) s)))"
  unfolding ldp64_post_def ldstp_def Let_def using assms
  by (subst seq_assert, simp, subst seq_assert, simp, unfold seq_single, intro sem_push [where i = "I_LdpPost 16 rt2 rn rt"])
    (simp_all add: word_fld a64_dec ifield_simps)

end
