(* ===== verification/Guest.thy ===== *)
theory Guest
  imports Lifter_Inv A64_Sem
begin

text \<open>
  The guest machine as the lifted code represents it. \<open>x86\<close> is the architectural state of the guest: general registers,
  the flags ZF, SF, OF, CF, the segment bases and the memory; \<open>guest\<close> reads it out of the host
  machine by the pinning of \<open>host_reg\<close> (CF is the complement of the host carry, the polarity that
  \<open>cond_x86_to_a64\<close> assumes). \<open>simulates f step\<close>: the code that \<open>f\<close> emits takes every host state to one
  whose guest part is \<open>step\<close> of the old guest part, and leaves the registers the run-time system
  reserves (SP, X28, X29, X30) alone. The last sections give the meaning of the words the lifter
  encodes by hand and of its address computation: after \<open>mem_address_into m r\<close> the register \<open>r\<close> and
  the returned offset add up to the x86 effective address.
\<close>

section \<open>Guest state\<close>

record x86 =
  gpr :: "gp_reg \<Rightarrow> u64"
  x_zf :: bool
  x_sf :: bool
  x_of :: bool
  x_cf :: bool
  gs_base :: u64
  fs_base :: u64
  gmem :: "u64 \<Rightarrow> u8"

definition guest :: "a64 \<Rightarrow> x86" where
  "guest s = \<lparr>gpr = (\<lambda>r. xr s (host_reg r)), x_zf = zf s, x_sf = nf s, x_of = vf s, x_cf = (\<not> cf s),
     gs_base = xr s X24, fs_base = xr s X25, gmem = amem s\<rparr>"

definition keeps_host :: "a64 \<Rightarrow> a64 \<Rightarrow> bool" where
  "keeps_host s s' \<longleftrightarrow>
     spr s' = spr s \<and> xr s' X28 = xr s X28 \<and> xr s' X29 = xr s X29 \<and> xr s' X30 = xr s X30"

definition simulates :: "'e em \<Rightarrow> (x86 \<Rightarrow> x86) \<Rightarrow> bool" where
  "simulates f step \<longleftrightarrow> (\<exists>g. sem f g \<and> (\<forall>s. guest (g s) = step (guest s) \<and> keeps_host s (g s)))"

definition set_gpr :: "gp_reg \<Rightarrow> u64 \<Rightarrow> x86 \<Rightarrow> x86" where
  "set_gpr r v st = st\<lparr>gpr := (gpr st)(r := v)\<rparr>"

text \<open>A write to a register at the four operand widths: 32-bit writes clear the upper half.\<close>

definition write_reg :: "gp_reg \<Rightarrow> op_size \<Rightarrow> u64 \<Rightarrow> x86 \<Rightarrow> x86" where
  "write_reg r sz v st = set_gpr r
     (case sz of
        B8 \<Rightarrow> v
      | B4 \<Rightarrow> take_bit 32 v
      | B2 \<Rightarrow> (gpr st r AND NOT (mask 16)) OR take_bit 16 v
      | B1 \<Rightarrow> (gpr st r AND NOT (mask 8)) OR take_bit 8 v) st"

definition sub_flags :: "u64 \<Rightarrow> u64 \<Rightarrow> x86 \<Rightarrow> x86" where
  "sub_flags a b st = st\<lparr>x_zf := (a = b), x_sf := bit (a - b) 63,
     x_of := (sint a - sint b \<noteq> sint (a - b)), x_cf := (a < b)\<rparr>"

definition add_flags :: "u64 \<Rightarrow> u64 \<Rightarrow> x86 \<Rightarrow> x86" where
  "add_flags a b st = st\<lparr>x_zf := (a + b = 0), x_sf := bit (a + b) 63,
     x_of := (sint a + sint b \<noteq> sint (a + b)), x_cf := (2 ^ 64 \<le> unat a + unat b)\<rparr>"

text \<open>The conditions of \<open>Jcc\<close>, \<open>SETcc\<close>, \<open>CMOVcc\<close> that do not read the parity flag.\<close>

definition x_cond :: "cond \<Rightarrow> x86 \<Rightarrow> bool" where
  "x_cond c st =
     (case c of
        Cond_O \<Rightarrow> x_of st | Cond_NO \<Rightarrow> \<not> x_of st | Cond_B \<Rightarrow> x_cf st | Cond_NB \<Rightarrow> \<not> x_cf st
      | Cond_E \<Rightarrow> x_zf st | Cond_NE \<Rightarrow> \<not> x_zf st | Cond_BE \<Rightarrow> x_cf st \<or> x_zf st
      | Cond_A \<Rightarrow> \<not> x_cf st \<and> \<not> x_zf st | Cond_S \<Rightarrow> x_sf st | Cond_NS \<Rightarrow> \<not> x_sf st
      | Cond_L \<Rightarrow> x_sf st \<noteq> x_of st | Cond_NL \<Rightarrow> x_sf st = x_of st
      | Cond_LE \<Rightarrow> x_zf st \<or> x_sf st \<noteq> x_of st | Cond_G \<Rightarrow> \<not> x_zf st \<and> x_sf st = x_of st
      | _ \<Rightarrow> False)"

section \<open>Reading the guest state\<close>

lemma host_reg_less [simp]: "host_reg r < 32" "host_reg r < 31"
  by (cases r; simp)+

lemma host_reg_inj [simp]: "host_reg r = host_reg r' \<longleftrightarrow> r = r'"
  by (cases r; cases r') simp_all

lemma host_reg_neq [simp]:
  "host_reg r \<noteq> 16" "host_reg r \<noteq> 17" "host_reg r \<noteq> 24" "host_reg r \<noteq> 25" "host_reg r \<noteq> 28"
  "host_reg r \<noteq> 29" "host_reg r \<noteq> 30" "host_reg r \<noteq> 31"
  by (cases r; simp)+

lemmas host_reg_neq' [simp] = host_reg_neq [symmetric]

lemma guest_wx_host [simp]: "guest (wx (host_reg r) v s) = set_gpr r v (guest s)"
  by (auto simp: guest_def wx_def set_gpr_def fun_eq_iff)

lemma guest_wx_scratch [simp]: "guest (wx 16 v s) = guest s" "guest (wx 17 v s) = guest s"
  by (auto simp: guest_def wx_def fun_eq_iff)

lemma guest_wxsp [simp]:
  "r \<noteq> 31 \<Longrightarrow> wxsp r v s = wx r v s" "r \<noteq> 31 \<Longrightarrow> rxsp s r = rx s r"
  by (simp_all add: wxsp_def wx_def rxsp_def rx_def)

lemma guest_rx_host [simp]: "rx s (host_reg r) = gpr (guest s) r"
  by (simp add: guest_def rx_def)

lemma guest_mem [simp]: "guest (s\<lparr>amem := m\<rparr>) = (guest s)\<lparr>gmem := m\<rparr>"
  by (simp add: guest_def)

lemma amem_guest: "amem s = gmem (guest s)"
  by (simp add: guest_def)

lemma keeps_host_refl [simp]: "keeps_host s s"
  by (simp add: keeps_host_def)

lemma keeps_host_wx [simp]:
  "r \<notin> {28, 29, 30} \<Longrightarrow> keeps_host s (wx r v s') = keeps_host s s'"
  by (auto simp: keeps_host_def wx_def)

lemma keeps_host_upd [simp]:
  "keeps_host s (s'\<lparr>amem := m\<rparr>) = keeps_host s s'" "keeps_host s (flags_awc a b c s') = keeps_host s s'"
  "keeps_host s (set_flags x c v s') = keeps_host s s'"
  by (auto simp: keeps_host_def flags_awc_def set_flags_def)

lemma rx_upd [simp]:
  "rx (flags_awc a b c s) r = rx s r" "rx (set_flags x p q s) r = rx s r" "rx (s\<lparr>amem := m\<rparr>) r = rx s r"
  by (simp_all add: rx_def flags_awc_def set_flags_def)

lemma unat_u64_less: "unat (w :: u64) < 2 ^ 64"
  using unsigned_less [where 'a = nat, of w] by simp

lemma unat_not_u64: "unat (NOT b :: u64) = 2 ^ 64 - 1 - unat b"
proof -
  have "NOT b = - 1 - b" by (simp add: not_eq_complement)
  moreover have "unat (- 1 - b) = unat (- 1 :: u64) - unat b"
    by (rule unat_sub) simp
  moreover have "unat (- 1 :: u64) = 2 ^ 64 - 1"
    by (simp only: unsigned_minus_1_eq_mask mask_eq_exp_minus_1) simp
  ultimately show ?thesis by simp
qed

lemma sint_not_u64: "sint (NOT b :: u64) = - sint b - 1"
proof -
  have "sint (NOT b) = NOT (sint b)"
    by (rule bit_eqI) (auto simp: bit_simps)
  then show ?thesis by (simp add: not_int_def)
qed

lemma carry_sub: "awc_carry a (NOT b) True \<longleftrightarrow> b \<le> a"
  using unat_u64_less [of b] by (auto simp: awc_carry_def word_le_nat_alt unat_not_u64)

lemma overflow_sub: "awc_overflow a (NOT b) True \<longleftrightarrow> sint a - sint b \<noteq> sint (a - b)"
  unfolding awc_overflow_def sint_not_u64 by simp

lemma guest_flags_sub [simp]: "guest (flags_awc a (NOT b) True s) = sub_flags a b (guest s)"
  by (auto simp: guest_def flags_awc_def set_flags_def sub_flags_def carry_sub overflow_sub)

text \<open>After an addition the host carry is the guest's CF itself, not its complement.\<close>

lemma guest_flags_add [simp]:
  "guest (flags_awc a b False s) =
     (add_flags a b (guest s))\<lparr>x_cf := \<not> x_cf (add_flags a b (guest s))\<rparr>"
  by (auto simp: guest_def flags_awc_def set_flags_def add_flags_def awc_carry_def awc_overflow_def)

section \<open>Hand-encoded words\<close>

lemma rd31: "rd < 31 \<Longrightarrow> (rd :: reg) \<noteq> 31"
  by auto

lemma sem_and_imm:
  assumes "rd < 31" "rs < 32"
  shows "sem (emit_and_imm_lo32 rd rs) (\<lambda>s. wx rd (take_bit 32 (rx s rs)) s)"
    "sem (emit_and_imm_byte rd rs) (\<lambda>s. wx rd (take_bit 8 (rx s rs)) s)"
    "sem (emit_and_imm_word rd rs) (\<lambda>s. wx rd (take_bit 16 (rx s rs)) s)"
proof -
  note a = gpr_less [OF assms(1)] assms(2) rd31 [OF assms(1)]
  show "sem (emit_and_imm_lo32 rd rs) (\<lambda>s. wx rd (take_bit 32 (rx s rs)) s)"
    unfolding emit_and_imm_lo32_def emitter_push_raw_def raw_word_def
    by (rule sem_push [where i = "I_AndMask (mask 32) rs rd"])
      (simp add: word_fld a64_dec ifield_simps a, simp add: a take_bit_eq_mask)
  show "sem (emit_and_imm_byte rd rs) (\<lambda>s. wx rd (take_bit 8 (rx s rs)) s)"
    unfolding emit_and_imm_byte_def raw_word_def
    by (rule sem_push [where i = "I_AndMask (mask 8) rs rd"])
      (simp add: word_fld a64_dec ifield_simps a, simp add: a take_bit_eq_mask)
  show "sem (emit_and_imm_word rd rs) (\<lambda>s. wx rd (take_bit 16 (rx s rs)) s)"
    unfolding emit_and_imm_word_def raw_word_def
    by (rule sem_push [where i = "I_AndMask (mask 16) rs rd"])
      (simp add: word_fld a64_dec ifield_simps a, simp add: a take_bit_eq_mask)
qed

lemmas sem_and_imm' [sem_intros] = sem_and_imm

lemma sem_sxt [sem_intros]:
  assumes "rd < 32" "rs < 32"
  shows "sem (emit_sxt_byte rd rs) (\<lambda>s. wx rd (signed_take_bit 7 (rx s rs)) s)"
    "sem (emit_sxt_word rd rs) (\<lambda>s. wx rd (signed_take_bit 15 (rx s rs)) s)"
    "sem (emit_sxtw rd rs) (\<lambda>s. wx rd (signed_take_bit 31 (rx s rs)) s)"
    "sem (raw_word (0x93407C00 OR push_bit 5 (ucast rs) OR ucast rd))
       (\<lambda>s. wx rd (signed_take_bit 31 (rx s rs)) s)"
  unfolding emit_sxt_byte_def emit_sxt_word_def emit_sxtw_def raw_word_def
  by (rule sem_push [where i = "I_Sbfm 0 7 rs rd"] sem_push [where i = "I_Sbfm 0 15 rs rd"]
      sem_push [where i = "I_Sbfm 0 31 rs rd"];
      simp add: word_fld a64_dec ifield_simps assms bfm_ok_def)+

lemma sem_add_lsl64 [sem_intros]:
  assumes "rd < 32" "rn < 32" "rm < 32"
  shows "sem (emit_add_lsl64 rd rn rm 1) (\<lambda>s. wx rd (rx s rn + push_bit 1 (rx s rm)) s)"
    "sem (emit_add_lsl64 rd rn rm 2) (\<lambda>s. wx rd (rx s rn + push_bit 2 (rx s rm)) s)"
    "sem (emit_add_lsl64 rd rn rm 3) (\<lambda>s. wx rd (rx s rn + push_bit 3 (rx s rm)) s)"
  unfolding emit_add_lsl64_def raw_word_def
  by (rule sem_push [where i = "I_AddSubReg False False 1 rm rn rd"]
      sem_push [where i = "I_AddSubReg False False 2 rm rn rd"]
      sem_push [where i = "I_AddSubReg False False 3 rm rn rd"];
      simp add: word_fld a64_dec ifield_simps assms)+

lemma sem_orr_lsl64 [sem_intros]:
  assumes "rd < 32" "rn < 32" "rm < 32"
  shows "sem (emit_orr_lsl64 rd rn rm 32) (\<lambda>s. wx rd (rx s rn OR push_bit 32 (rx s rm)) s)"
  unfolding emit_orr_lsl64_def raw_word_def using assms
  by (intro sem_push [where i = "I_Logic LOrr False 32 rm rn rd"])
    (simp_all add: word_fld a64_dec ifield_simps)

lemma sem_ubfm [sem_intros]:
  assumes "rd < 32" "rn < 32"
  shows "sem (emit_uxtw rd rn) (\<lambda>s. wx rd (take_bit 32 (rx s rn)) s)"
    "sem (emit_ubfm64 rd rn 32 63) (\<lambda>s. wx rd (take_bit 32 (drop_bit 32 (rx s rn))) s)"
  unfolding emit_uxtw_def emit_ubfm64_def raw_word_def
  by (rule sem_push [where i = "I_Ubfm 0 31 rn rd"] sem_push [where i = "I_Ubfm 32 63 rn rd"];
      simp add: word_fld a64_dec ifield_simps assms bfm_ok_def)+

lemma sem_mask_if_b4 [sem_intros]:
  "rd < 31 \<Longrightarrow> sem (mask_if_b4 sz rd) (\<lambda>s. if sz = B4 then wx rd (take_bit 32 (rx s rd)) s else s)"
  unfolding mask_if_b4_def by (auto intro: sem_and_imm(1) sem_Pair gpr_less)

section \<open>Effective addresses\<close>

text \<open>The address an x86 memory operand denotes.\<close>

definition x_ea :: "mem_operand \<Rightarrow> x86 \<Rightarrow> u64" where
  "x_ea m st =
     (case m_base m of None \<Rightarrow> 0 | Some b \<Rightarrow> gpr st b) +
     (case m_seg m of None \<Rightarrow> 0 | Some Gs \<Rightarrow> gs_base st | Some Fs \<Rightarrow> fs_base st) +
     (case m_index m of None \<Rightarrow> 0 | Some i \<Rightarrow> gpr st i * ucast (m_scale m)) +
     scast (m_disp m)"

text \<open>The part of the displacement that \<open>mem_address_into\<close> leaves to the load or store.\<close>

definition leftover :: "mem_operand \<Rightarrow> u32" where
  "leftover m = (if 0 <s m_disp m \<and> m_disp m < push_bit 24 1 then m_disp m else 0)"

definition sem_val :: "(emitter \<Rightarrow> ('e, 'a) outcome \<times> emitter) \<Rightarrow> 'a \<Rightarrow> (a64 \<Rightarrow> a64) \<Rightarrow> bool" where
  "sem_val f v g \<longleftrightarrow>
     (\<exists>ws. (\<forall>e. f e = (Ok v, e\<lparr>em_code := em_code e @ ws\<rparr>)) \<and> (\<forall>s. a64_run ws s = Some (g s)))"

lemma sem_val_bind: "sem f g \<Longrightarrow> sem_val k v h \<Longrightarrow> sem_val (\<lambda>e. sbind (f e) (\<lambda>_. k)) v (\<lambda>s. h (g s))"
  unfolding sem_def sem_val_def emits_def
  by (elim exE conjE, rule_tac x = "ws @ wsa" in exI) (simp add: a64_run_append)

lemma sem_val_ret: "sem_val (\<lambda>e. (Ok v, e)) v (\<lambda>s. s)"
  unfolding sem_val_def by (rule exI [of _ "[]"]) simp

lemma sem_bind_val: "sem_val f v g \<Longrightarrow> sem (k v) h \<Longrightarrow> sem (\<lambda>e. sbind (f e) k) (\<lambda>s. h (g s))"
  unfolding sem_def sem_val_def emits_def
  by (elim exE conjE, rule_tac x = "ws @ wsa" in exI) (simp add: a64_run_append)

lemma encodable_iff: "imm12_encodable v \<longleftrightarrow> encode_addsub_imm v \<noteq> None"
  by (auto simp: imm12_encodable_def encode_addsub_imm_def)

lemma sint_u32: "sint (d :: u32) = uint d - 2 ^ 32 * of_bool (bit d 31)"
proof -
  have "take_bit 32 (uint d) = uint d" by (rule take_bit_int_eq_self) (use uint_lt2p [of d] in simp_all)
  then show ?thesis by (simp add: sint_uint signed_take_bit_eq_take_bit_minus bit_uint_iff)
qed

lemma scast_word: "(scast (d :: u32) :: u64) = word_of_int (sint d)" "(ucast d :: u64) = word_of_int (uint d)"
  by simp_all

lemma scast_pos:
  assumes "0 <s d"
  shows "(scast (d :: u32) :: u64) = ucast d"
proof -
  have "sint d = uint d" using assms uint_lt2p [of d] sint_u32 [of d] by (cases "bit d 31") (auto simp: word_sless_alt)
  then show ?thesis by (metis scast_word)
qed

lemma scast_neg:
  assumes "\<not> 0 <s d" "d \<noteq> 0"
  shows "(scast (d :: u32) :: u64) = - ucast (- d)"
proof -
  have d: "0 < uint d" "uint d < 2 ^ 32"
    using assms(2) uint_lt2p [of d] by (auto simp: word_neq_0_conv [symmetric] uint_0_iff order_less_le)
  have "sint d = uint d - 2 ^ 32" using assms(1) d sint_u32 [of d] by (cases "bit d 31") (auto simp: word_sless_alt)
  moreover have "uint (- d) = 2 ^ 32 - uint d"
    using d by (simp add: uint_word_ariths(4) zmod_zminus1_eq_if)
  ultimately have "sint d = - uint (- d)" by simp
  then show ?thesis by (metis scast_word of_int_minus)
qed

lemma sem_add_imm_safe [sem_intros]:
  assumes "r < 31" "r \<noteq> 17"
  shows "\<exists>g. sem (add64_imm_safe r r d :: 'e em) g \<and> (\<forall>s. \<exists>k. g s = wx r (rx s r + ucast d) (wx 17 k s))"
    "\<exists>g. sem (sub64_imm_safe r r d :: 'e em) g \<and> (\<forall>s. \<exists>k. g s = wx r (rx s r - ucast d) (wx 17 k s))"
proof -
  have r: "r < 32" "r \<noteq> 31" using assms(1) by (auto simp: gpr_less)
  have keep: "wx r v s = wx r v (wx 17 (rx s 17) s)" for v s by simp
  show "\<exists>g. sem (add64_imm_safe r r d :: 'e em) g \<and> (\<forall>s. \<exists>k. g s = wx r (rx s r + ucast d) (wx 17 k s))"
  proof (cases "imm12_encodable d")
    case True
    then have "sem (add64_imm_safe r r d :: 'e em) (\<lambda>s. wx r (rx s r + ucast d) s)"
      using sem_add64_imm [of r r d] r by (simp add: add64_imm_safe_def encodable_iff)
    with keep show ?thesis by blast
  next
    case False
    then have "sem (add64_imm_safe r r d :: 'e em) (\<lambda>s. wx r (rx (wx 17 (ucast d) s) r + rx (wx 17 (ucast d) s) 17) (wx 17 (ucast d) s))"
      using sem_two [OF sem_load_const64 [of 17 "ucast d"] sem_add64 [of r r 17]] r
      by (simp add: add64_imm_safe_def)
    then show ?thesis using assms by (auto simp: rx_wx intro!: exI)
  qed
  show "\<exists>g. sem (sub64_imm_safe r r d :: 'e em) g \<and> (\<forall>s. \<exists>k. g s = wx r (rx s r - ucast d) (wx 17 k s))"
  proof (cases "imm12_encodable d")
    case True
    then have "sem (sub64_imm_safe r r d :: 'e em) (\<lambda>s. wx r (rx s r - ucast d) s)"
      using sem_sub64_imm [of r r d] r by (simp add: sub64_imm_safe_def encodable_iff)
    with keep show ?thesis by blast
  next
    case False
    then have "sem (sub64_imm_safe r r d :: 'e em) (\<lambda>s. wx r (rx (wx 17 (ucast d) s) r - rx (wx 17 (ucast d) s) 17) (wx 17 (ucast d) s))"
      using sem_two [OF sem_load_const64 [of 17 "ucast d"] sem_sub64 [of r r 17]] r
      by (simp add: sub64_imm_safe_def)
    then show ?thesis using assms by (auto simp: rx_wx intro!: exI)
  qed
qed

text \<open>A register that can hold an address while it is being computed.\<close>

definition addr_reg :: "mem_operand \<Rightarrow> reg \<Rightarrow> bool" where
  "addr_reg m r \<longleftrightarrow> r < 31 \<and> r \<notin> {17, 24, 25} \<and> (\<forall>i. m_index m = Some i \<longrightarrow> host_reg i \<noteq> r)"

definition scale_ok :: "mem_operand \<Rightarrow> bool" where
  "scale_ok m \<longleftrightarrow> m_scale m \<in> {1, 2, 4, 8}"

definition h_index :: "mem_operand \<Rightarrow> a64 \<Rightarrow> u64" where
  "h_index m s = (case m_index m of None \<Rightarrow> 0 | Some i \<Rightarrow> rx s (host_reg i) * ucast (m_scale m))"

definition h_seg :: "mem_operand \<Rightarrow> a64 \<Rightarrow> u64" where
  "h_seg m s = (case m_seg m of None \<Rightarrow> 0 | Some Gs \<Rightarrow> rx s 24 | Some Fs \<Rightarrow> rx s 25)"

definition h_base :: "mem_operand \<Rightarrow> a64 \<Rightarrow> u64" where
  "h_base m s = (case m_base m of None \<Rightarrow> 0 | Some b \<Rightarrow> rx s (host_reg b))"

lemma x_ea_host: "x_ea m (guest s) = h_base m s + h_seg m s + h_index m s + scast (m_disp m)"
  unfolding x_ea_def h_base_def h_seg_def h_index_def guest_rx_host
  by (auto simp: guest_def rx_def split: option.splits seg.splits)

lemma sem_base:
  "r < 31 \<Longrightarrow> sem (case m_base m of Some b \<Rightarrow> mov64 r (host_reg b) | None \<Rightarrow> load_const64 r 0)
     (\<lambda>s. wx r (h_base m s) s)"
  using sem_load_const64 [of r 0] sem_mov64 [OF gpr_less host_reg_less(1)]
  by (auto simp: h_base_def split: option.splits)

lemma sem_seg:
  assumes "r < 31"
  shows "sem (case m_seg m of Some sg \<Rightarrow> add64 r r (case sg of Gs \<Rightarrow> X24 | Fs \<Rightarrow> X25) | None \<Rightarrow> seq [])
     (\<lambda>s. wx r (rx s r + h_seg m s) s)"
  using assms sem_Pair sem_add64 [of r r 24] sem_add64 [of r r 25] gpr_less [OF assms]
  by (auto simp: h_seg_def split: option.splits seg.splits)

lemma sem_index:
  assumes "r < 31" "scale_ok m"
  shows "sem (case m_index m of Some i \<Rightarrow> add_scaled_index r (host_reg i) (m_scale m) | None \<Rightarrow> seq [])
     (\<lambda>s. wx r (rx s r + h_index m s) s)"
proof (cases "m_index m")
  case None
  with sem_Pair show ?thesis by (simp add: h_index_def)
next
  case (Some i)
  have eq: "push_bit 1 x = x * 2" "push_bit 2 x = x * 4" "push_bit 3 x = x * 8" for x :: u64
    by (simp_all add: push_bit_eq_mult)
  show ?thesis
    using assms(2) Some gpr_less [OF assms(1)] sem_add64 [of r r "host_reg i"] sem_add_lsl64 [of r r "host_reg i"]
    by (auto simp: scale_ok_def add_scaled_index_def h_index_def eq)
qed

lemma sem_address_prefix:
  assumes "addr_reg m r" "scale_ok m"
  shows "sem (seq
       [case m_base m of Some base \<Rightarrow> mov64 r (host_reg base) | None \<Rightarrow> load_const64 r 0,
        case m_seg m of Some sg \<Rightarrow> add64 r r (case sg of Gs \<Rightarrow> X24 | Fs \<Rightarrow> X25) | None \<Rightarrow> seq [],
        case m_index m of Some i \<Rightarrow> add_scaled_index r (host_reg i) (m_scale m) | None \<Rightarrow> seq []])
     (\<lambda>s. wx r (h_base m s + h_seg m s + h_index m s) s)"
proof -
  have r: "r < 31" using assms(1) by (simp add: addr_reg_def)
  have frame: "h_seg m (wx r v s) = h_seg m s" "h_index m (wx r v s) = h_index m s"
    "rx (wx r v s) r = v" for v s
    using assms(1) by (auto simp: addr_reg_def h_seg_def h_index_def rx_wx simp del: guest_rx_host
        split: option.splits seg.splits)
  show ?thesis
    by (rule sem_weaken, rule sem_Cons [OF sem_base [OF r] sem_two [OF sem_seg [OF r] sem_index [OF r assms(2)]]])
      (simp add: frame)
qed

lemma address_disp:
  assumes "r < 31" "r \<noteq> 17"
  shows "\<exists>h. sem_val (fold_disp (m_disp m) r :: emitter \<Rightarrow> ('e, u32) outcome \<times> emitter)
       (leftover m) h \<and>
     (\<forall>s. \<exists>k. h s = wx r (rx s r + scast (m_disp m) - ucast (leftover m)) (wx 17 k s))"
proof -
  have keep: "\<exists>k. s = wx r (rx s r) (wx 17 k s)" for s
    by (rule exI [of _ "rx s 17"]) simp
  consider "m_disp m = 0" | "m_disp m \<noteq> 0" "0 <s m_disp m" "m_disp m < push_bit 24 1"
    | "m_disp m \<noteq> 0" "0 <s m_disp m" "\<not> m_disp m < push_bit 24 1" | "m_disp m \<noteq> 0" "\<not> 0 <s m_disp m" by blast
  then show ?thesis
  proof cases
    case 1
    then show ?thesis using sem_val_ret [of 0] keep by (auto simp: fold_disp_def [abs_def] leftover_def)
  next
    case 2
    then show ?thesis using sem_val_ret [of "m_disp m"] keep by (auto simp: fold_disp_def [abs_def] leftover_def scast_pos)
  next
    case 3
    obtain g where g: "sem (add64_imm_safe r r (m_disp m) :: 'e em) g"
      "\<And>s. \<exists>k. g s = wx r (rx s r + ucast (m_disp m)) (wx 17 k s)"
      using sem_add_imm_safe(1) [OF assms] by blast
    with 3 sem_val_bind [OF g(1) sem_val_ret [of 0]] show ?thesis
      by (auto simp: fold_disp_def [abs_def] leftover_def scast_pos)
  next
    case 4
    obtain g where g: "sem (sub64_imm_safe r r (- m_disp m) :: 'e em) g"
      "\<And>s. \<exists>k. g s = wx r (rx s r - ucast (- m_disp m)) (wx 17 k s)"
      using sem_add_imm_safe(2) [OF assms] by blast
    with 4 sem_val_bind [OF g(1) sem_val_ret [of 0]] show ?thesis
      by (auto simp: fold_disp_def [abs_def] leftover_def scast_neg)
  qed
qed

lemma mem_address_sem:
  assumes "addr_reg m r" "scale_ok m"
  shows "\<exists>g. sem_val (mem_address_into m r :: emitter \<Rightarrow> ('e, u32) outcome \<times> emitter) (leftover m) g \<and>
    (\<forall>s. \<exists>k. g s = wx r (x_ea m (guest s) - ucast (leftover m)) (wx 17 k s))"
proof -
  have r: "r < 31" "r \<noteq> 17" "r \<noteq> 31" using assms(1) by (auto simp: addr_reg_def)
  let ?p = "\<lambda>s. wx r (h_base m s + h_seg m s + h_index m s) s"
  obtain h where h: "sem_val (fold_disp (m_disp m) r :: emitter \<Rightarrow> ('e, u32) outcome \<times> emitter)
       (leftover m) h"
    "\<And>s. \<exists>k. h s = wx r (rx s r + scast (m_disp m) - ucast (leftover m)) (wx 17 k s)"
    using address_disp [OF r(1,2)] by blast
  have "sem_val (mem_address_into m r :: emitter \<Rightarrow> ('e, u32) outcome \<times> emitter) (leftover m) (\<lambda>s. h (?p s))"
    unfolding mem_address_into_def [abs_def]
    by (rule sem_val_bind [OF sem_address_prefix [OF assms] h(1)])
  moreover have "\<exists>k. h (?p s) = wx r (x_ea m (guest s) - ucast (leftover m)) (wx 17 k s)" for s
  proof -
    obtain k where "h (?p s) = wx r (rx (?p s) r + scast (m_disp m) - ucast (leftover m)) (wx 17 k (?p s))"
      using h(2) by blast
    moreover have "wx r v (wx 17 k (wx r w s)) = wx r v (wx 17 k s)" for v w
      using r by (auto simp: wx_def)
    ultimately show ?thesis using r by (auto simp: rx_wx x_ea_host)
  qed
  ultimately show ?thesis by blast
qed

end
