(* ===== verification/Lifter_Correct.thy ===== *)
theory Lifter_Correct
  imports Guest
begin

text \<open>
  Translation correctness of the lifter, per instruction: the code emitted for the integer core
  (moves, loads and stores, \<open>LEA\<close>, \<open>ADD\<close>, \<open>SUB\<close>, \<open>CMP\<close>, \<open>PUSH\<close>, \<open>POP\<close>, \<open>SETcc\<close>, \<open>CMOVcc\<close>) simulates the
  x86 instruction, and the instructions whose emitted code does something else.
\<close>

lemma simulatesI:
  "sem f g \<Longrightarrow> (\<And>s. guest (g s) = step (guest s)) \<Longrightarrow> (\<And>s. keeps_host s (g s)) \<Longrightarrow> simulates f step"
  by (auto simp: simulates_def)

section \<open>The x86 instructions\<close>

primrec size_bytes :: "op_size \<Rightarrow> nat" where
  "size_bytes B1 = 1" | "size_bytes B2 = 2" | "size_bytes B4 = 4" | "size_bytes B8 = 8"

abbreviation width :: "op_size \<Rightarrow> nat" where
  "width sz \<equiv> 8 * size_bytes sz"

definition op_width :: "operand \<Rightarrow> op_size" where
  "op_width x = (case x of Reg _ s \<Rightarrow> s | XmmReg _ s \<Rightarrow> s | Imm _ s \<Rightarrow> s | MemOp m \<Rightarrow> m_size m | RipRel _ s \<Rightarrow> s)"

definition operand_ea :: "inst \<Rightarrow> operand \<Rightarrow> x86 \<Rightarrow> u64" where
  "operand_ea inst x st = (case x of MemOp m \<Rightarrow> x_ea m st | RipRel d _ \<Rightarrow> rip_target inst d | _ \<Rightarrow> 0)"

text \<open>The value of a source operand read at width \<open>sz\<close>, and a write to a destination operand.\<close>

definition operand_value :: "inst \<Rightarrow> op_size \<Rightarrow> operand \<Rightarrow> x86 \<Rightarrow> u64" where
  "operand_value inst sz x st =
     (case x of
        Reg r _ \<Rightarrow> gpr st r
      | Imm i _ \<Rightarrow> i
      | _ \<Rightarrow> of_nat (load_le (gmem st) (operand_ea inst x st) (size_bytes sz)))"

definition write_operand :: "inst \<Rightarrow> operand \<Rightarrow> u64 \<Rightarrow> x86 \<Rightarrow> x86" where
  "write_operand inst x v st =
     (case x of
        Reg r sz \<Rightarrow> write_reg r sz v st
      | _ \<Rightarrow> st\<lparr>gmem := store_le (operand_ea inst x st) (size_bytes (op_width x)) (unat v) (gmem st)\<rparr>)"

text \<open>The flags of a subtraction, of an addition and of a logical operation at a width.\<close>

definition sub_flags_at :: "op_size \<Rightarrow> u64 \<Rightarrow> u64 \<Rightarrow> x86 \<Rightarrow> x86" where
  "sub_flags_at sz a b st = (let n = width sz; lo = take_bit n; sg = (\<lambda>x. signed_take_bit (n - 1) (sint x)) in
     st\<lparr>x_zf := (lo a = lo b), x_sf := bit (a - b) (n - 1),
        x_of := (sg a - sg b \<noteq> sg (a - b)), x_cf := (lo a < lo b)\<rparr>)"

definition add_flags_at :: "op_size \<Rightarrow> u64 \<Rightarrow> u64 \<Rightarrow> x86 \<Rightarrow> x86" where
  "add_flags_at sz a b st = (let n = width sz; lo = take_bit n; sg = (\<lambda>x. signed_take_bit (n - 1) (sint x)) in
     st\<lparr>x_zf := (lo (a + b) = 0), x_sf := bit (a + b) (n - 1),
        x_of := (sg a + sg b \<noteq> sg (a + b)), x_cf := (2 ^ n \<le> unat (lo a) + unat (lo b))\<rparr>)"

definition logic_flags_at :: "op_size \<Rightarrow> u64 \<Rightarrow> x86 \<Rightarrow> x86" where
  "logic_flags_at sz v st = st\<lparr>x_zf := (take_bit (width sz) v = 0), x_sf := bit v (width sz - 1),
     x_of := False, x_cf := False\<rparr>"

definition op_n :: "inst \<Rightarrow> nat \<Rightarrow> operand" where
  "op_n inst k = the (operand_at inst k)"

text \<open>
  What the instruction does to the guest, by the Intel manual; the instruction pointer is the
  business of the block translator. Only the instructions below are covered.
\<close>

definition x86_step :: "inst \<Rightarrow> x86 \<Rightarrow> x86" where
  "x86_step inst st =
     (let a = op_n inst 0; b = op_n inst 1; sz = op_width a; wb = op_width b;
          va = operand_value inst sz a st; vb = operand_value inst sz b st; w = write_operand inst
      in case i_op inst of
        OpData D_Mov \<Rightarrow> w a vb st
      | OpData D_Lea \<Rightarrow> w a (operand_ea inst b st) st
      | OpData D_Movzx \<Rightarrow> w a (take_bit (width wb) (operand_value inst wb b st)) st
      | OpData D_Movsx \<Rightarrow> w a (signed_take_bit (width wb - 1) (operand_value inst wb b st)) st
      | OpData D_Movsxd \<Rightarrow> w a (signed_take_bit 31 (operand_value inst wb b st)) st
      | OpData D_Xchg \<Rightarrow> if is_mem a then w b va (w a vb st) else w a vb (w b va st)
      | OpData D_Push \<Rightarrow>
          set_gpr Rsp (gpr st Rsp - 8) (st\<lparr>gmem := store_le (gpr st Rsp - 8) 8 (unat va) (gmem st)\<rparr>)
      | OpData D_Pop \<Rightarrow>
          w a (of_nat (load_le (gmem st) (gpr st Rsp) 8)) (set_gpr Rsp (gpr st Rsp + 8) st)
      | OpData (D_Cmov c) \<Rightarrow> w a (if x_cond c st then vb else va) st
      | OpArith A_Add \<Rightarrow> add_flags_at sz va vb (w a (va + vb) st)
      | OpArith A_Sub \<Rightarrow> sub_flags_at sz va vb (w a (va - vb) st)
      | OpArith A_Neg \<Rightarrow> sub_flags_at sz 0 va (w a (0 - va) st)
      | OpArith A_Cqo \<Rightarrow> write_reg Rdx B8 (if bit (gpr st Rax) 63 then - 1 else 0) st
      | OpArith A_Cdq \<Rightarrow> write_reg Rdx B4 (if bit (gpr st Rax) 31 then - 1 else 0) st
      | OpLogic L_And \<Rightarrow> logic_flags_at sz (va AND vb) (w a (va AND vb) st)
      | OpLogic L_Or \<Rightarrow> logic_flags_at sz (va OR vb) (w a (va OR vb) st)
      | OpLogic L_Xor \<Rightarrow> logic_flags_at sz (va XOR vb) (w a (va XOR vb) st)
      | OpLogic L_Test \<Rightarrow> logic_flags_at sz (va AND vb) st
      | OpLogic L_Cmp \<Rightarrow> sub_flags_at sz va vb st
      | OpLogic L_Not \<Rightarrow> w a (NOT va) st
      | OpFlow F_Leave \<Rightarrow>
          (let bp = gpr st Rbp in
           set_gpr Rbp (of_nat (load_le (gmem st) bp 8)) (set_gpr Rsp (bp + 8) st))
      | _ \<Rightarrow> st)"

section \<open>Operands\<close>

text \<open>
  The memory operands whose leftover displacement the emitter can encode at width \<open>sz\<close>: it is
  a multiple of the width and below 4096 times the width. The others make \<open>ldst_uoff\<close> panic.
\<close>

definition offset_ok :: "op_size \<Rightarrow> u32 \<Rightarrow> bool" where
  "offset_ok sz off \<longleftrightarrow> unat off < 4096 * size_bytes sz \<and> unat off mod size_bytes sz = 0"

definition mem_ok :: "op_size \<Rightarrow> operand \<Rightarrow> bool" where
  "mem_ok sz x = (case x of
     MemOp m \<Rightarrow> scale_ok m \<and> offset_ok sz (leftover m) | RipRel _ _ \<Rightarrow> True | _ \<Rightarrow> False)"

definition operand_leftover :: "operand \<Rightarrow> u32" where
  "operand_leftover x = (case x of MemOp m \<Rightarrow> leftover m | _ \<Rightarrow> 0)"

lemma mem_ok_is_mem: "mem_ok sz x \<Longrightarrow> is_mem x"
  by (cases x) (simp_all add: mem_ok_def is_mem_def)

lemma mem_ok_offset: "mem_ok sz x \<Longrightarrow> offset_ok sz (operand_leftover x)"
  by (cases x; cases sz) (simp_all add: mem_ok_def operand_leftover_def offset_ok_def)

lemma addr16: "addr_reg m 16"
  by (auto simp: addr_reg_def)

lemma addr_sem16:
  assumes "mem_ok sz x"
  shows "\<exists>g. sem_val (addr_into_xtmp x inst 16) (operand_leftover x) g \<and>
    (\<forall>s. \<exists>k. g s = wx 16 (operand_ea inst x (guest s) - ucast (operand_leftover x)) (wx 17 k s))"
proof (cases x)
  case (MemOp m)
  then show ?thesis
    using mem_address_sem [OF addr16, of m] assms
    by (simp add: addr_into_xtmp_def [abs_def] operand_ea_def operand_leftover_def mem_ok_def)
next
  case (RipRel d z)
  have keep: "\<exists>k. wx 16 v s = wx 16 v (wx 17 k s)" for v s
    by (rule exI [of _ "rx s 17"]) simp
  show ?thesis
    by (rule exI [of _ "wx 16 (rip_target inst d)"])
      (use sem_val_bind [OF sem_load_const64 [of 16 "rip_target inst d"] sem_val_ret [of 0]] RipRel keep in
        \<open>simp add: addr_into_xtmp_def [abs_def] operand_ea_def operand_leftover_def\<close>)
qed (use assms in \<open>simp_all add: mem_ok_def\<close>)

lemma load_sized_sem:
  assumes "rt < 32" "rn < 31" "offset_ok sz off"
  shows "sem (load_sized rt rn off sz)
    (\<lambda>s. wx rt (of_nat (load_le (amem s) (rx s rn + ucast off) (size_bytes sz))) s)"
    "sem (store_sized rt rn off sz)
    (\<lambda>s. s\<lparr>amem := store_le (rx s rn + ucast off) (size_bytes sz) (unat (rx s rt)) (amem s)\<rparr>)"
proof -
  have rn: "rn < 32" "rn \<noteq> 31" using assms(2) by (auto simp: gpr_less)
  have o: "sz = B8 \<Longrightarrow> off < 4096 * 8 \<and> off mod 8 = 0" "sz = B4 \<Longrightarrow> off < 4096 * 4 \<and> off mod 4 = 0"
    "sz = B2 \<Longrightarrow> off < 4096 * 2 \<and> off mod 2 = 0" "sz = B1 \<Longrightarrow> off < 4096"
    using assms(3) by (auto simp: offset_ok_def word_less_nat_alt word_unat_eq_iff unat_mod)
  show "sem (load_sized rt rn off sz)
    (\<lambda>s. wx rt (of_nat (load_le (amem s) (rx s rn + ucast off) (size_bytes sz))) s)"
    using sem_ldr64 [OF assms(1) rn(1), of off] sem_ldr32 [OF assms(1) rn(1), of off]
      sem_ldrh [OF assms(1) rn(1), of off] sem_ldrb [OF assms(1) rn(1), of off] rn(2) o
    by (cases sz) (simp_all add: load_sized_def)
  show "sem (store_sized rt rn off sz)
    (\<lambda>s. s\<lparr>amem := store_le (rx s rn + ucast off) (size_bytes sz) (unat (rx s rt)) (amem s)\<rparr>)"
    using sem_str64 [OF assms(1) rn(1), of off] sem_str32 [OF assms(1) rn(1), of off]
      sem_strh [OF assms(1) rn(1), of off] sem_strb [OF assms(1) rn(1), of off] rn(2) o
    by (cases sz) (simp_all add: store_sized_def)
qed

lemma simulates_addr:
  assumes "mem_ok sz x" "sem (F (operand_leftover x)) h"
    "\<And>s k. guest (h (wx 16 (operand_ea inst x (guest s) - ucast (operand_leftover x)) (wx 17 k s))) = step (guest s)"
    "\<And>s s'. keeps_host s s' \<Longrightarrow> keeps_host s (h s')"
  shows "simulates (with_addr x inst 16 F) step"
proof -
  obtain g where g: "sem_val (addr_into_xtmp x inst 16) (operand_leftover x) g"
    "\<And>s. \<exists>k. g s = wx 16 (operand_ea inst x (guest s) - ucast (operand_leftover x)) (wx 17 k s)"
    using addr_sem16 [OF assms(1)] by blast
  have "sem (with_addr x inst 16 F) (\<lambda>s. h (g s))"
    unfolding with_addr_def by (rule sem_bind_val [where k = F, OF g(1) assms(2)])
  moreover have "guest (h (g s)) = step (guest s)" "keeps_host s (h (g s))" for s
    using g(2) [of s] assms(3,4) by auto
  ultimately show ?thesis by (rule simulatesI)
qed

lemma operand_value_mem:
  "is_mem x \<Longrightarrow> operand_value inst sz x st =
     of_nat (load_le (gmem st) (operand_ea inst x st) (size_bytes sz))"
  by (cases x) (simp_all add: operand_value_def is_mem_def)

text \<open>Load the operand into X17 and go on with \<open>m\<close>; store X17 or a register back.\<close>

lemma simulates_load:
  assumes "mem_ok sz x" "sem m h"
    "\<And>s k. guest (h (wx 17 (operand_value inst sz x (guest s)) (wx 16 k s))) = step (guest s)"
    "\<And>s s'. keeps_host s s' \<Longrightarrow> keeps_host s (h s')"
  shows "simulates (with_addr x inst 16 (\<lambda>l. seq [load_sized 17 16 l sz, m])) step"
proof (rule simulates_addr [OF assms(1)])
  show "sem (seq [load_sized 17 16 (operand_leftover x) sz, m])
     (\<lambda>s. h (wx 17 (of_nat (load_le (amem s) (rx s 16 + ucast (operand_leftover x)) (size_bytes sz))) s))"
    by (rule sem_two [OF load_sized_sem(1) assms(2)]) (use mem_ok_offset [OF assms(1)] in simp_all)
next
  fix s s' assume "keeps_host s s'"
  then show "keeps_host s (h (wx 17 (of_nat (load_le (amem s') (rx s' 16 + ucast (operand_leftover x)) (size_bytes sz))) s'))"
    by (intro assms(4)) simp
next
  fix s k
  have sw: "wx 17 v (wx 16 a (wx 17 b s)) = wx 17 v (wx 16 a s)" for v a b
    by (auto simp: wx_def fun_eq_iff)
  show "guest (h (wx 17 (of_nat (load_le
     (amem (wx 16 (operand_ea inst x (guest s) - ucast (operand_leftover x)) (wx 17 k s)))
     (rx (wx 16 (operand_ea inst x (guest s) - ucast (operand_leftover x)) (wx 17 k s)) 16 + ucast (operand_leftover x))
     (size_bytes sz))) (wx 16 (operand_ea inst x (guest s) - ucast (operand_leftover x)) (wx 17 k s)))) =
     step (guest s)"
    using assms(3) [of s] mem_ok_is_mem [OF assms(1)]
    by (simp add: rx_wx sw amem_guest operand_value_mem)
qed

section \<open>The integer core\<close>

text \<open>
  The instructions and operands the lifter translates exactly. A 32-bit displacement must be one
  the emitter can encode (\<open>mem_ok\<close>), an immediate one that fits \<open>i32\<close>; \<open>PUSH\<close> and \<open>POP\<close> are taken
  without RSP, \<open>LEA\<close> without its destination as index.
\<close>

definition imm_ok :: "u64 \<Rightarrow> bool" where
  "imm_ok i \<longleftrightarrow> (scast (ucast i :: u32) :: u64) = i"

definition src_ok :: "op_size \<Rightarrow> operand \<Rightarrow> bool" where
  "src_ok sz x = (case x of Reg _ _ \<Rightarrow> True | Imm i _ \<Rightarrow> imm_ok i | XmmReg _ _ \<Rightarrow> False | _ \<Rightarrow> mem_ok sz x)"

definition mov_ok :: "operand \<Rightarrow> operand \<Rightarrow> bool" where
  "mov_ok a b = (case a of
     Reg rd sz \<Rightarrow> sz \<in> {B4, B8} \<and> (case b of Imm _ _ \<Rightarrow> True | _ \<Rightarrow> src_ok sz b)
   | _ \<Rightarrow> (case b of Reg rs s \<Rightarrow> s = op_width a \<and> mem_ok s a | Imm _ _ \<Rightarrow> mem_ok (op_width a) a | _ \<Rightarrow> False))"

definition lea_ok :: "operand \<Rightarrow> operand \<Rightarrow> bool" where
  "lea_ok a b = (case a of
     Reg rd sz \<Rightarrow> sz \<in> {B4, B8} \<and>
       (case b of
          MemOp m \<Rightarrow> m_seg m = None \<and> m_index m \<noteq> Some rd \<and> scale_ok m \<and> imm12_encodable (leftover m)
        | RipRel _ _ \<Rightarrow> True | _ \<Rightarrow> False)
   | _ \<Rightarrow> False)"

definition alu_ok :: "operand \<Rightarrow> operand \<Rightarrow> bool" where
  "alu_ok a b = (case a of
     Reg rd sz \<Rightarrow> sz = B8 \<and> src_ok B8 b \<and> op_width b = B8
   | _ \<Rightarrow> mem_ok B8 a \<and> op_width a = B8 \<and> (case b of Reg rs s \<Rightarrow> s = B8 | _ \<Rightarrow> False))"

definition cmp_ok :: "operand \<Rightarrow> operand \<Rightarrow> bool" where
  "cmp_ok a b = (case a of
     Reg rd sz \<Rightarrow> sz = B8 \<and> src_ok B8 b
   | _ \<Rightarrow> mem_ok B8 a \<and> op_width a = B8 \<and>
       (case b of Reg rs s \<Rightarrow> s = B8 | Imm i _ \<Rightarrow> imm_ok i | _ \<Rightarrow> False))"

definition extend_ok :: "bool \<Rightarrow> operand \<Rightarrow> operand \<Rightarrow> bool" where
  "extend_ok is_signed a b = (case a of
     Reg rd sz \<Rightarrow> (sz = B8 \<or> sz = B4 \<and> \<not> is_signed) \<and> op_width b \<in> {B1, B2} \<and>
       (case b of Reg _ _ \<Rightarrow> True | _ \<Rightarrow> mem_ok (op_width b) b)
   | _ \<Rightarrow> False)"

definition reg8 :: "operand \<Rightarrow> bool" where
  "reg8 x = (case x of Reg r sz \<Rightarrow> sz = B8 | _ \<Rightarrow> False)"

definition xchg_ok :: "operand \<Rightarrow> operand \<Rightarrow> bool" where
  "xchg_ok a b \<longleftrightarrow> reg8 a \<and> reg8 b \<or> reg8 a \<and> mem_ok B8 b \<and> op_width b = B8 \<or>
     reg8 b \<and> mem_ok B8 a \<and> op_width a = B8"

definition stack_ok :: "operand \<Rightarrow> bool" where
  "stack_ok x = (case x of Reg r sz \<Rightarrow> sz = B8 \<and> r \<noteq> Rsp | Imm _ _ \<Rightarrow> True | _ \<Rightarrow> False)"

definition integer_core :: "inst \<Rightarrow> bool" where
  "integer_core inst =
     (case (operand_at inst 0, operand_at inst 1) of
        (Some a, Some b) \<Rightarrow>
          (case i_op inst of
             OpData D_Mov \<Rightarrow> mov_ok a b
           | OpData D_Lea \<Rightarrow> lea_ok a b
           | OpData D_Movzx \<Rightarrow> extend_ok False a b
           | OpData D_Movsx \<Rightarrow> extend_ok True a b
           | OpData D_Movsxd \<Rightarrow> reg8 a \<and> (case b of Reg _ _ \<Rightarrow> True | _ \<Rightarrow> False)
           | OpData D_Xchg \<Rightarrow> xchg_ok a b
           | OpData (D_Cmov c) \<Rightarrow> reg8 a \<and> reg8 b \<and> c \<notin> {Cond_P, Cond_NP}
           | OpArith A_Sub \<Rightarrow> alu_ok a b
           | OpLogic L_Cmp \<Rightarrow> cmp_ok a b
           | _ \<Rightarrow> False)
      | (Some a, None) \<Rightarrow>
          (case i_op inst of
             OpData D_Push \<Rightarrow> stack_ok a
           | OpData D_Pop \<Rightarrow> reg8 a \<and> stack_ok a
           | OpArith A_Neg \<Rightarrow> reg8 a
           | OpLogic L_Not \<Rightarrow> (case a of Reg _ sz \<Rightarrow> sz \<in> {B4, B8} | _ \<Rightarrow> False)
           | _ \<Rightarrow> False)
      | (None, _) \<Rightarrow>
          (case i_op inst of
             OpArith A_Cqo \<Rightarrow> True | OpFlow F_Leave \<Rightarrow> True | OpMisc M_Nop \<Rightarrow> True | _ \<Rightarrow> False))"

lemma load_le_less: "load_le m a n < 2 ^ (8 * n)"
proof -
  have "(256 :: nat) ^ n = 2 ^ (8 * n)" by (simp add: power_mult)
  with from_le_bound [of "mem_bytes m a n"] show ?thesis by (simp add: load_le_def mem_bytes_def)
qed

lemma take_bit_load [simp]:
  assumes "8 * n \<le> k"
  shows "take_bit k (of_nat (load_le m a n) :: u64) = of_nat (load_le m a n)"
proof -
  have "load_le m a n < 2 ^ k"
    using load_le_less [of m a n] power_increasing [OF assms, of "2 :: nat"] by linarith
  then show ?thesis by (metis of_nat_take_bit take_bit_nat_eq_self take_bit_of_nat)
qed

lemma mov_imm32:
  "(ucast (drop_bit 16 i AND 0xFFFF) :: u16) \<noteq> 0 \<or> take_bit 32 i = take_bit 16 (i :: u64)"
proof -
  have "take_bit 32 i = take_bit 16 i" if "lane_of i 1 = 0" using lane_zero [OF that] by simp
  then show ?thesis by (auto simp: lane_of_def)
qed

lemma ffff_mask: "(0xFFFF :: u64) = mask 16"
  by (simp add: mask_numeral)

lemma and_ffff: "(ucast (ucast (i AND 0xFFFF) :: u16) :: u64) = take_bit 16 (i :: u64)"
  unfolding ffff_mask by (rule bit_word_eqI) (auto simp: bit_simps)

lemma mov_lanes:
  "take_bit 16 i AND 0xFFFF OR take_bit 32 (push_bit 16 (take_bit 16 (drop_bit 16 i))) = take_bit 32 (i :: u64)"
  unfolding ffff_mask by (rule bit_word_eqI) (auto simp: bit_simps)

lemma sem_mov_reg_imm:
  assumes "sz \<in> {B4, B8}"
  shows "sem (mov_reg_imm rd sz i) (\<lambda>s. wx (host_reg rd) (if sz = B4 then take_bit 32 i else i) s)"
proof (cases "sz = B4")
  case True
  let ?lo = "ucast (i AND 0xFFFF) :: u16" and ?hi = "ucast (drop_bit 16 i AND 0xFFFF) :: u16"
  have "sem (seq [movz32 (host_reg rd) ?lo 0, movk32 (host_reg rd) ?hi 16]) (\<lambda>s. wx (host_reg rd) (take_bit 32 i) s)"
    by (rule sem_weaken, rule sem_two [OF sem_movz32(1) sem_movz32(2)])
      (simp_all add: rx_wx and_ffff mov_lanes del: guest_rx_host)
  moreover have "sem (movz32 (host_reg rd) ?lo 0) (\<lambda>s. wx (host_reg rd) (take_bit 16 i) s)"
    by (rule sem_weaken, rule sem_movz32(1)) (simp_all add: and_ffff)
  ultimately show ?thesis
    using True mov_imm32 [of i] by (auto simp: mov_reg_imm_def Let_def simp del: seq.simps)
next
  case False
  with assms show ?thesis by (auto simp: mov_reg_imm_def Let_def intro!: sem_load_const64)
qed

lemma sem_mov_reg_reg:
  assumes "sz \<in> {B4, B8}"
  shows "sem (mov_reg_reg rd sz rs)
    (\<lambda>s. wx (host_reg rd) (if sz = B4 then take_bit 32 (rx s (host_reg rs)) else rx s (host_reg rs)) s)"
  using assms sem_mov64 [of "host_reg rd" "host_reg rs"] sem_and_imm(1) [of "host_reg rd" "host_reg rs"]
  by (auto simp: mov_reg_reg_def Let_def)

lemma load_case: "(case sz of B1 \<Rightarrow> ldrb rd rn l | B2 \<Rightarrow> ldrh rd rn l | B4 \<Rightarrow> ldr32 rd rn l | B8 \<Rightarrow> ldr64 rd rn l) = load_sized rd rn l sz"
  "(case sz of B1 \<Rightarrow> strb rd rn l | B2 \<Rightarrow> strh rd rn l | B4 \<Rightarrow> str32 rd rn l | B8 \<Rightarrow> str64 rd rn l) = store_sized rd rn l sz"
  by (simp_all add: load_sized_def store_sized_def)

lemma simulates_load_into:
  assumes "mem_ok sz x" "step = (\<lambda>st. set_gpr rd (operand_value inst sz x st) st)"
  shows "simulates (with_addr x inst 16 (\<lambda>l. load_sized (host_reg rd) 16 l sz)) step"
  unfolding assms(2)
  by (rule simulates_addr [OF assms(1)], rule load_sized_sem(1))
    (use assms mem_ok_offset [OF assms(1)] mem_ok_is_mem [OF assms(1)] in
      \<open>simp_all add: rx_wx amem_guest operand_value_mem\<close>)

lemma simulates_store:
  assumes "mem_ok sz x" "sz = op_width x"
  shows "simulates (with_addr x inst 16 (\<lambda>l. store_sized (host_reg rs) 16 l sz))
     (\<lambda>st. write_operand inst x (gpr st rs) st)"
  by (rule simulates_addr [OF assms(1)], rule load_sized_sem(2))
    (use assms mem_ok_offset [OF assms(1)] in
      \<open>auto simp: rx_wx amem_guest write_operand_def mem_ok_def split: operand.splits\<close>)

lemma simulates_store_imm:
  assumes "mem_ok sz x" "sz = op_width x"
  shows "simulates (with_addr x inst 16 (\<lambda>l. seq [load_const64 17 i, store_sized 17 16 l sz]))
     (\<lambda>st. write_operand inst x i st)"
  by (rule simulates_addr [OF assms(1)], rule sem_two [OF sem_load_const64 load_sized_sem(2)])
    (use assms mem_ok_offset [OF assms(1)] in
      \<open>auto simp: rx_wx amem_guest write_operand_def mem_ok_def split: operand.splits\<close>)

lemma with_operand_Some: "operand_at inst k = Some x \<Longrightarrow> with_operand inst k f = f x"
  by (simp add: with_operand_def)

lemma with_two:
  "operand_at inst 0 = Some a \<Longrightarrow> operand_at inst 1 = Some b \<Longrightarrow>
   with_operand inst 0 (\<lambda>x. with_operand inst 1 (f x)) = f a b"
  by (simp add: with_operand_def)

lemma write_reg_at: "write_reg r B8 v = set_gpr r v" "write_reg r B4 v = set_gpr r (take_bit 32 v)"
  by (simp_all add: write_reg_def fun_eq_iff)

lemma mem_ok_not:
  "\<not> mem_ok sz (Reg r s)" "\<not> mem_ok sz (Imm i s)" "\<not> mem_ok sz (XmmReg n s)"
  by (simp_all add: mem_ok_def)

lemma is_mem_simps [simp]:
  "is_mem (MemOp m)" "is_mem (RipRel d s)" "\<not> is_mem (Reg r s)" "\<not> is_mem (Imm i s)" "\<not> is_mem (XmmReg n s)"
  by (simp_all add: is_mem_def)

lemma operand_value_simps [simp]:
  "operand_value inst sz (Reg r s) st = gpr st r" "operand_value inst sz (Imm i s) st = i"
  by (simp_all add: operand_value_def)

lemma op_width_simps [simp]:
  "op_width (Reg r s) = s" "op_width (Imm i s) = s" "op_width (MemOp m) = m_size m" "op_width (RipRel d s) = s"
  by (simp_all add: op_width_def)

lemma write_operand_reg [simp]: "write_operand inst (Reg r sz) v st = write_reg r sz v st"
  by (simp add: write_operand_def)

lemma mem_size_op_width: "is_mem x \<Longrightarrow> mem_size_of x = op_width x"
  by (cases x) (simp_all add: mem_size_of_def)

lemma take_bit_operand: "is_mem x \<Longrightarrow> take_bit (width sz) (operand_value inst sz x st) = operand_value inst sz x st"
  by (simp add: operand_value_mem)

lemma mov_simulates:
  assumes ops: "operand_at inst 0 = Some a" "operand_at inst 1 = Some b" and ok: "mov_ok a b"
  shows "simulates (lift_mov inst) (\<lambda>st. write_operand inst a (operand_value inst (op_width a) b st) st)"
proof (cases "\<exists>rd sz. a = Reg rd sz")
  case True
  then obtain rd sz where a: "a = Reg rd sz" by blast
  have sz: "sz \<in> {B4, B8}" using ok a by (auto simp: mov_ok_def)
  show ?thesis
  proof (cases "is_mem b")
    case True
    then have "mem_ok sz b" using ok a by (cases b) (auto simp: mov_ok_def src_ok_def)
    then have "simulates (with_addr b inst 16 (\<lambda>l. load_sized (host_reg rd) 16 l sz))
      (\<lambda>st. write_operand inst a (operand_value inst (op_width a) b st) st)"
      by (rule simulates_load_into)
        (use sz take_bit_operand [OF True, of B4 inst] in \<open>auto simp: a write_reg_at\<close>)
    then show ?thesis
      unfolding lift_mov_def with_two [OF ops]
      using True by (cases b) (simp_all add: a  load_case Let_def)
  next
    case False
    have "simulates (mov_reg_imm rd sz i) (\<lambda>st. write_reg rd sz i st)" for i
      by (rule simulatesI [OF sem_mov_reg_imm [OF sz]]) (use sz in \<open>auto simp: write_reg_at\<close>)
    moreover have "simulates (mov_reg_reg rd sz rs) (\<lambda>st. write_reg rd sz (gpr st rs) st)" for rs
      by (rule simulatesI [OF sem_mov_reg_reg [OF sz]]) (use sz in \<open>auto simp: write_reg_at\<close>)
    ultimately show ?thesis
      unfolding lift_mov_def with_two [OF ops]
      using False ok by (cases b) (simp_all add: a  mov_ok_def src_ok_def)
  qed
next
  case False
  then have m: "is_mem a" "mem_ok (op_width a) a"
    using ok by (cases a; cases b; auto simp: mov_ok_def mem_ok_not)+
  have "simulates (with_addr a inst 16 (\<lambda>l. store_sized (host_reg rs) 16 l (op_width a)))
      (\<lambda>st. write_operand inst a (gpr st rs) st)" for rs
    by (rule simulates_store [OF m(2) refl])
  moreover have "simulates (with_addr a inst 16 (\<lambda>l. seq [load_const64 17 i, store_sized 17 16 l (op_width a)]))
      (\<lambda>st. write_operand inst a i st)" for i
    by (rule simulates_store_imm [OF m(2) refl])
  ultimately show ?thesis
      unfolding lift_mov_def with_two [OF ops]
    using ok m(1) by (cases a; cases b)
      (simp_all add:  mov_ok_def load_case Let_def mem_size_op_width del: seq.simps)
qed

lemma simulates_eq: "simulates f step \<Longrightarrow> (\<And>st. step st = step' st) \<Longrightarrow> simulates f step'"
  by (simp add: simulates_def)

lemma sem_lea_tail:
  assumes "r < 31" "imm12_encodable l"
  shows "sem (seq [if l \<noteq> 0 then add64_imm r r l else seq [], mask_if_b4 sz r])
    (\<lambda>s. wx r (if sz = B4 then take_bit 32 (rx s r + ucast l) else rx s r + ucast l) s)"
proof -
  have r: "r < 32" "r \<noteq> 31" using assms(1) gpr_less by auto
  have "sem (if l \<noteq> 0 then add64_imm r r l else seq []) (\<lambda>s. wx r (rx s r + ucast l) s)"
    using sem_add64_imm [of r r l] sem_Nil assms(2) r by (auto simp: encodable_iff)
  from sem_two [OF this sem_mask_if_b4 [OF assms(1), of sz]] show ?thesis
    by (rule sem_weaken) (use r in \<open>simp add: rx_wx\<close>)
qed

lemma lea_simulates:
  assumes ops: "operand_at inst 0 = Some a" "operand_at inst 1 = Some b" and ok: "lea_ok a b"
  shows "simulates (lift_lea inst) (\<lambda>st. write_operand inst a (operand_ea inst b st) st)"
proof -
  obtain rd sz where a: "a = Reg rd sz" "sz \<in> {B4, B8}" using ok by (cases a) (auto simp: lea_ok_def)
  let ?r = "host_reg rd"
  let ?addr = "\<lambda>e. case b of MemOp m \<Rightarrow> mem_address_into m ?r e
    | RipRel disp _ \<Rightarrow> sbind (load_const64 ?r (rip_target inst disp) e) (\<lambda>_ e. (Ok 0, e))
    | _ \<Rightarrow> (Err (Unsupported Op_Lea), e)"
  have "\<exists>g. sem_val ?addr (operand_leftover b) g \<and>
     (\<forall>s. \<exists>k. g s = wx ?r (operand_ea inst b (guest s) - ucast (operand_leftover b)) (wx 17 k s))"
  proof (cases b)
    case (MemOp m)
    then have "addr_reg m ?r" "scale_ok m" using ok a by (auto simp: lea_ok_def addr_reg_def)
    from mem_address_sem [OF this] MemOp show ?thesis by (simp add: operand_ea_def operand_leftover_def)
  next
    case (RipRel d z)
    have keep: "\<exists>k. wx ?r v s = wx ?r v (wx 17 k s)" for v s
      by (rule exI [of _ "rx s 17"]) simp
    show ?thesis
      by (rule exI [of _ "wx ?r (rip_target inst d)"])
        (use sem_val_bind [OF sem_load_const64 [of ?r "rip_target inst d"] sem_val_ret [of 0]] RipRel keep in
          \<open>simp add: operand_ea_def operand_leftover_def\<close>)
  qed (use ok a in \<open>simp_all add: lea_ok_def\<close>)
  then obtain g where g: "sem_val ?addr (operand_leftover b) g"
    "\<And>s. \<exists>k. g s = wx ?r (operand_ea inst b (guest s) - ucast (operand_leftover b)) (wx 17 k s)" by blast
  have enc: "imm12_encodable (operand_leftover b)"
    using ok a by (cases b) (auto simp: lea_ok_def operand_leftover_def imm12_encodable_def)
  have "sem (lift_lea inst) (\<lambda>s. wx ?r (if sz = B4 then take_bit 32 (rx (g s) ?r + ucast (operand_leftover b))
      else rx (g s) ?r + ucast (operand_leftover b)) (g s))"
    unfolding lift_lea_def with_two [OF ops] a(1) operand.case Let_def
    by (rule sem_bind_val [where f = ?addr, OF g(1) sem_lea_tail]) (simp_all add: enc)
  then show ?thesis
  proof (rule simulatesI)
    fix s
    obtain k where k: "g s = wx ?r (operand_ea inst b (guest s) - ucast (operand_leftover b)) (wx 17 k s)"
      using g(2) by blast
    show "guest (wx ?r (if sz = B4 then take_bit 32 (rx (g s) ?r + ucast (operand_leftover b))
      else rx (g s) ?r + ucast (operand_leftover b)) (g s)) = write_operand inst a (operand_ea inst b (guest s)) (guest s)"
      using a(2) by (auto simp: k a(1) write_reg_at set_gpr_def)
    show "keeps_host s (wx ?r (if sz = B4 then take_bit 32 (rx (g s) ?r + ucast (operand_leftover b))
      else rx (g s) ?r + ucast (operand_leftover b)) (g s))"
      using host_reg_neq [of rd] by (simp add: k)
  qed
qed

section \<open>Arithmetic and comparison\<close>

lemma sub_flags_B8 [simp]: "sub_flags_at B8 a b = sub_flags a b"
proof -
  have "signed_take_bit 63 (sint x) = sint x" for x :: u64
    by (simp add: sint_uint)
  moreover have "take_bit 64 x = x" for x :: u64
    using take_bit_length_eq [of x] by simp
  ultimately show ?thesis by (simp add: sub_flags_at_def sub_flags_def fun_eq_iff)
qed

lemma set_gpr_flags [simp]:
  "sub_flags a b (set_gpr r v st) = set_gpr r v (sub_flags a b st)"
  "gpr (sub_flags a b st) = gpr st" "gmem (sub_flags a b st) = gmem st"
  by (simp_all add: sub_flags_def set_gpr_def)

lemma imm_ok_ucast:
  assumes "imm_ok i" "0 \<le>s i"
  shows "(ucast (ucast i :: u32) :: u64) = i"
proof -
  let ?d = "ucast i :: u32"
  have i: "scast ?d = i" using assms(1) by (simp add: imm_ok_def)
  show ?thesis
  proof (cases "0 <s ?d \<or> ?d = 0")
    case True
    with scast_pos [of ?d] i show ?thesis by auto
  next
    case False
    then have neg: "sint ?d < 0"
      by (metis linorder_neqE sint_0 word_sless_alt signed_eq_0_iff)
    have "sint (scast ?d :: u64) = sint ?d"
      by (rule sint_up_scast) (simp add: is_up_def source_size_def target_size_def)
    with neg i have "sint i < 0" by simp
    with assms(2) show ?thesis by (simp add: word_sle_eq)
  qed
qed

lemma cmp_reg_sem:
  assumes "rn < 31" "imm_ok i" "t < 31" "t \<noteq> rn"
  shows "\<exists>g. sem (if 0 \<le>s i \<and> imm12_encodable (ucast i) then cmp64_imm rn (ucast i)
       else seq [load_const64 t i, cmp64 rn t]) g \<and>
     (\<forall>s. \<exists>k. g s = flags_awc (rx s rn) (NOT i) True (wx t k s))"
proof (cases "0 \<le>s i \<and> imm12_encodable (ucast i)")
  case True
  have keep: "\<exists>k. flags_awc a b True s = flags_awc a b True (wx t k s)" for a b s
    by (rule exI [of _ "rx s t"]) simp
  have "sem (cmp64_imm rn (ucast i)) (\<lambda>s. flags_awc (rx s rn) (NOT i) True s)"
    using sem_cmp64_imm [of rn "ucast i"] True assms gpr_less imm_ok_ucast [of i] rd31 [OF assms(1)]
    by (simp add: encodable_iff)
  with True keep show ?thesis by auto
next
  case False
  have "sem (seq [load_const64 t i, cmp64 rn t]) (\<lambda>s. flags_awc (rx s rn) (NOT i) True (wx t i s))"
    by (rule sem_weaken, rule sem_two [OF sem_load_const64 sem_cmp64])
      (use assms gpr_less rd31 [OF assms(3)] in \<open>auto simp: rx_wx\<close>)
  with False show ?thesis by auto
qed

lemma cmp_simulates:
  assumes ops: "operand_at inst 0 = Some a" "operand_at inst 1 = Some b" and ok: "cmp_ok a b"
  shows "simulates (lift_cmp inst) (\<lambda>st. sub_flags_at (op_width a)
     (operand_value inst (op_width a) a st) (operand_value inst (op_width a) b st) st)"
proof (cases "\<exists>ra sz. a = Reg ra sz")
  case True
  then obtain ra where a: "a = Reg ra B8" and b: "src_ok B8 b" using ok by (auto simp: cmp_ok_def)
  have load: "simulates (with_addr b inst 16 (\<lambda>l. seq [load_sized 17 16 l B8, cmp64 (host_reg ra) 17] :: lift))
     (\<lambda>st. sub_flags (gpr st ra) (operand_value inst B8 b st) st)" if "mem_ok B8 b"
    by (rule simulates_load [OF that], rule sem_cmp64) (simp_all add: rx_wx)
  have reg: "simulates (cmp64 (host_reg ra) (host_reg rb) :: lift) (\<lambda>st. sub_flags (gpr st ra) (gpr st rb) st)" for rb
    by (rule simulatesI, rule sem_cmp64) simp_all
  have imm: "simulates (if 0 \<le>s i \<and> imm12_encodable (ucast i) then cmp64_imm (host_reg ra) (ucast i)
       else seq [load_const64 17 i, cmp64 (host_reg ra) 17] :: lift) (\<lambda>st. sub_flags (gpr st ra) i st)" if i: "imm_ok i" for i
  proof -
    obtain g where g: "sem (if 0 \<le>s i \<and> imm12_encodable (ucast i) then cmp64_imm (host_reg ra) (ucast i)
       else seq [load_const64 17 i, cmp64 (host_reg ra) 17] :: lift) g"
      "\<And>s. \<exists>k. g s = flags_awc (rx s (host_reg ra)) (NOT i) True (wx 17 k s)"
      using cmp_reg_sem [OF _ i, of "host_reg ra" 17] by auto
    show ?thesis
    proof (rule simulatesI [OF g(1)])
      fix s obtain k where k: "g s = flags_awc (rx s (host_reg ra)) (NOT i) True (wx 17 k s)" using g(2) by blast
      then show "guest (g s) = sub_flags (gpr (guest s) ra) i (guest s)" "keeps_host s (g s)" by simp_all
    qed
  qed
  show ?thesis
    unfolding lift_cmp_def with_two [OF ops]
    using load reg imm b by (cases b) (simp_all add: a src_ok_def del: seq.simps)
next
  case False
  then have m: "is_mem a" "mem_ok B8 a" "op_width a = B8" using ok by (cases a; auto simp: cmp_ok_def mem_ok_not)+
  have reg: "simulates (with_addr a inst 16 (\<lambda>l. seq [load_sized 17 16 l B8, cmp64 17 (host_reg rb)]))
     (\<lambda>st. sub_flags (operand_value inst B8 a st) (gpr st rb) st)" for rb
    by (rule simulates_load [OF m(2)], rule sem_cmp64) (simp_all add: rx_wx)
  have imm: "simulates (with_addr a inst 16 (\<lambda>l. seq [load_sized 17 16 l B8,
       if 0 \<le>s i \<and> imm12_encodable (ucast i) then cmp64_imm 17 (ucast i)
       else seq [load_const64 16 i, cmp64 17 16]]))
     (\<lambda>st. sub_flags (operand_value inst B8 a st) i st)" if i: "imm_ok i" for i
  proof -
    obtain g where g: "sem (if 0 \<le>s i \<and> imm12_encodable (ucast i) then cmp64_imm 17 (ucast i)
       else seq [load_const64 16 i, cmp64 17 16] :: lift) g"
      "\<And>s. \<exists>k. g s = flags_awc (rx s 17) (NOT i) True (wx 16 k s)"
      using cmp_reg_sem [OF _ i, of 17 16] by auto
    show ?thesis
    proof (rule simulates_load [OF m(2) g(1)])
      fix s k
      let ?s = "wx 17 (operand_value inst B8 a (guest s)) (wx 16 k s)"
      obtain k' where "g ?s = flags_awc (rx ?s 17) (NOT i) True (wx 16 k' ?s)" using g(2) by blast
      then show "guest (g ?s) = sub_flags (operand_value inst B8 a (guest s)) i (guest s)" by (simp add: rx_wx)
    next
      fix s s' assume "keeps_host s s'"
      moreover obtain k where "g s' = flags_awc (rx s' 17) (NOT i) True (wx 16 k s')" using g(2) by blast
      ultimately show "keeps_host s (g s')" by simp
    qed
  qed
  show ?thesis
    unfolding lift_cmp_def with_two [OF ops]
    using reg imm m ok by (cases a; cases b) (simp_all add: cmp_ok_def mem_size_of_def del: seq.simps)
qed

text \<open>Load, modify X17 by \<open>m\<close>, store back.\<close>

lemma simulates_rmw:
  assumes ok: "mem_ok sz x" and m: "sem m h"
    and h: "\<And>s. rx (h s) 16 = rx s 16" "\<And>s. rx (h s) 17 = f (rx s 17) (guest s)"
      "\<And>s. guest (h s) = fl (rx s 17) (guest s)" "\<And>v st. gmem (fl v st) = gmem st"
      "\<And>s s'. keeps_host s s' \<Longrightarrow> keeps_host s (h s')"
  shows "simulates (with_addr x inst 16 (\<lambda>l. seq [load_sized 17 16 l sz, m, store_sized 17 16 l sz]))
    (\<lambda>st. let v = operand_value inst sz x st in
       (fl v st)\<lparr>gmem := store_le (operand_ea inst x st) (size_bytes sz) (unat (f v st)) (gmem st)\<rparr>)"
proof (rule simulates_addr [OF ok])
  let ?l = "operand_leftover x"
  let ?ld = "\<lambda>s. wx 17 (of_nat (load_le (amem s) (rx s 16 + ucast ?l) (size_bytes sz))) s"
  let ?st = "\<lambda>s. s\<lparr>amem := store_le (rx s 16 + ucast ?l) (size_bytes sz) (unat (rx s 17)) (amem s)\<rparr>"
  show "sem (seq [load_sized 17 16 ?l sz, m, store_sized 17 16 ?l sz]) (\<lambda>s. ?st (h (?ld s)))"
    by (rule sem_Cons [OF load_sized_sem(1) sem_two [OF m load_sized_sem(2)]])
      (use mem_ok_offset [OF ok] in simp_all)
  fix s k
  have "amem (h s) = amem s" for s
    using h(3) [of s] h(4) [of "rx s 17" "guest s"] by (simp add: amem_guest)
  with mem_ok_is_mem [OF ok]
  show "guest (?st (h (?ld (wx 16 (operand_ea inst x (guest s) - ucast ?l) (wx 17 k s))))) =
    (let v = operand_value inst sz x (guest s) in (fl v (guest s))\<lparr>gmem :=
       store_le (operand_ea inst x (guest s)) (size_bytes sz) (unat (f v (guest s))) (gmem (guest s))\<rparr>)"
    by (simp add: h(1,2,3) rx_wx Let_def operand_value_mem) (simp add: amem_guest)
next
  fix s s' assume "keeps_host s s'"
  then show "keeps_host s (h (wx 17 (of_nat (load_le (amem s') (rx s' 16 + ucast (operand_leftover x)) (size_bytes sz))) s')
    \<lparr>amem := store_le (rx (h (wx 17 (of_nat (load_le (amem s') (rx s' 16 + ucast (operand_leftover x)) (size_bytes sz))) s')) 16 +
      ucast (operand_leftover x)) (size_bytes sz) (unat (rx (h (wx 17 (of_nat (load_le (amem s') (rx s' 16 +
      ucast (operand_leftover x)) (size_bytes sz))) s')) 17)) (amem (h (wx 17 (of_nat (load_le (amem s') (rx s' 16 +
      ucast (operand_leftover x)) (size_bytes sz))) s')))\<rparr>)"
    by (simp add: h(5))
qed

text \<open>The result and the flags of \<open>ADDS\<close>/\<open>SUBS\<close> as the guest sees them: the carry of an addition
  arrives complemented.\<close>

definition arith_res :: "arith_kind \<Rightarrow> u64 \<Rightarrow> u64 \<Rightarrow> u64" where
  "arith_res k a b = (case k of AK_Add \<Rightarrow> a + b | AK_Sub \<Rightarrow> a - b)"

definition arith_flags :: "arith_kind \<Rightarrow> u64 \<Rightarrow> u64 \<Rightarrow> x86 \<Rightarrow> x86" where
  "arith_flags k a b st = (case k of
     AK_Add \<Rightarrow> (add_flags a b st)\<lparr>x_cf := \<not> x_cf (add_flags a b st)\<rparr> | AK_Sub \<Rightarrow> sub_flags a b st)"

definition host_flags :: "arith_kind \<Rightarrow> u64 \<Rightarrow> u64 \<Rightarrow> a64 \<Rightarrow> a64" where
  "host_flags k a b s = (case k of AK_Add \<Rightarrow> flags_awc a b False s | AK_Sub \<Rightarrow> flags_awc a (NOT b) True s)"

lemma host_flags_simps [simp]:
  "guest (host_flags k a b s) = arith_flags k a b (guest s)" "rx (host_flags k a b s) r = rx s r"
  "keeps_host s' (host_flags k a b s) = keeps_host s' s" "gmem (arith_flags k a b st) = gmem st"
  "gpr (arith_flags k a b st) = gpr st" "set_gpr q v (arith_flags k a b st) = arith_flags k a b (set_gpr q v st)"
  by (cases k; simp add: host_flags_def arith_flags_def add_flags_def sub_flags_def set_gpr_def)+

lemma sem_arith_rr:
  assumes "rd < 32" "ra < 32" "rb < 32"
  shows "sem (emit_arith_rr k rd ra rb B8)
    (\<lambda>s. wx rd (arith_res k (rx s ra) (rx s rb)) (host_flags k (rx s ra) (rx s rb) s))"
  using sem_adds64 [OF assms] sem_subs64 [OF assms]
  by (cases k) (simp_all add: emit_arith_rr_def arith_res_def host_flags_def)

lemma sem_arith_imm:
  assumes "rd < 31" "rd \<noteq> 17" "imm_ok i"
  shows "\<exists>g. sem (if 0 \<le>s i \<and> imm12_encodable (ucast i) then
        seq [case k of AK_Add \<Rightarrow> adds64_imm rd rd (ucast i) | AK_Sub \<Rightarrow> subs64_imm rd rd (ucast i), mask_if_b4 B8 rd]
      else seq [load_const64 17 i, emit_arith_rr k rd rd 17 B8] :: lift) g \<and>
    (\<forall>s. \<exists>t. g s = wx rd (arith_res k (rx s rd) i) (host_flags k (rx s rd) i (wx 17 t s)))"
proof (cases "0 \<le>s i \<and> imm12_encodable (ucast i)")
  case True
  have r: "rd < 32" "rd \<noteq> 31" using assms(1) gpr_less by auto
  have keep: "\<exists>t. wx rd v (host_flags k a b s) = wx rd v (host_flags k a b (wx 17 t s))" for v a b s
    by (rule exI [of _ "rx s 17"]) simp
  have "sem (seq [case k of AK_Add \<Rightarrow> adds64_imm rd rd (ucast i) | AK_Sub \<Rightarrow> subs64_imm rd rd (ucast i), mask_if_b4 B8 rd] :: lift)
     (\<lambda>s. wx rd (arith_res k (rx s rd) i) (host_flags k (rx s rd) i s))"
  proof (cases k)
    case AK_Add
    then show ?thesis
      using sem_two [OF sem_adds64_imm [of rd rd "ucast i"] sem_mask_if_b4 [OF assms(1), of B8]] True r
        imm_ok_ucast [OF assms(3)]
      by (simp add: encodable_iff arith_res_def host_flags_def del: seq.simps)
  next
    case AK_Sub
    then show ?thesis
      using sem_two [OF sem_subs64_imm [of rd rd "ucast i"] sem_mask_if_b4 [OF assms(1), of B8]] True r
        imm_ok_ucast [OF assms(3)]
      by (simp add: encodable_iff arith_res_def host_flags_def del: seq.simps)
  qed
  with True keep show ?thesis by auto
next
  case False
  have "sem (seq [load_const64 17 i, emit_arith_rr k rd rd 17 B8] :: lift)
     (\<lambda>s. wx rd (arith_res k (rx s rd) i) (host_flags k (rx s rd) i (wx 17 i s)))"
    by (rule sem_weaken, rule sem_two [OF sem_load_const64 sem_arith_rr])
      (use assms gpr_less in \<open>auto simp: rx_wx\<close>)
  with False show ?thesis by auto
qed

lemma operand_ea_cong:
  "gpr st = gpr st' \<Longrightarrow> gs_base st = gs_base st' \<Longrightarrow> fs_base st = fs_base st' \<Longrightarrow>
   operand_ea inst x st = operand_ea inst x st'"
  by (simp add: operand_ea_def x_ea_def split: operand.splits option.splits seg.splits)

lemma operand_ea_flags [simp]: "operand_ea inst x (arith_flags k a b st) = operand_ea inst x st"
  by (rule operand_ea_cong; cases k; simp add: arith_flags_def add_flags_def sub_flags_def)

lemma gmem_flags: "(arith_flags k a b st)\<lparr>gmem := m\<rparr> = arith_flags k a b (st\<lparr>gmem := m\<rparr>)"
  by (cases k) (simp_all add: arith_flags_def add_flags_def sub_flags_def)

lemma arith_reg_simulates:
  assumes ops: "operand_at inst 0 = Some (Reg rd B8)" "operand_at inst 1 = Some b"
    and ok: "src_ok B8 b" "op_width b = B8"
  shows "simulates (lift_arith inst k) (\<lambda>st. set_gpr rd (arith_res k (gpr st rd) (operand_value inst B8 b st))
     (arith_flags k (gpr st rd) (operand_value inst B8 b st) st))"
proof -
  let ?r = "host_reg rd"
  have load: "simulates (with_addr b inst 16 (\<lambda>l. seq [load_sized 17 16 l B8, emit_arith_rr k ?r ?r 17 B8]))
     (\<lambda>st. set_gpr rd (arith_res k (gpr st rd) (operand_value inst B8 b st))
       (arith_flags k (gpr st rd) (operand_value inst B8 b st) st))" if "mem_ok B8 b"
    by (rule simulates_load [OF that], rule sem_arith_rr) (simp_all add: rx_wx)
  have reg: "simulates (emit_arith_rr k ?r ?r (host_reg rs) B8 :: lift)
     (\<lambda>st. set_gpr rd (arith_res k (gpr st rd) (gpr st rs)) (arith_flags k (gpr st rd) (gpr st rs) st))" for rs
    by (rule simulatesI, rule sem_arith_rr) simp_all
  have imm: "simulates (if 0 \<le>s i \<and> imm12_encodable (ucast i) then
        seq [case k of AK_Add \<Rightarrow> adds64_imm ?r ?r (ucast i) | AK_Sub \<Rightarrow> subs64_imm ?r ?r (ucast i), mask_if_b4 B8 ?r]
      else seq [load_const64 17 i, emit_arith_rr k ?r ?r 17 B8] :: lift)
     (\<lambda>st. set_gpr rd (arith_res k (gpr st rd) i) (arith_flags k (gpr st rd) i st))" if i: "imm_ok i" for i
  proof -
    obtain g where g: "sem (if 0 \<le>s i \<and> imm12_encodable (ucast i) then
        seq [case k of AK_Add \<Rightarrow> adds64_imm ?r ?r (ucast i) | AK_Sub \<Rightarrow> subs64_imm ?r ?r (ucast i), mask_if_b4 B8 ?r]
      else seq [load_const64 17 i, emit_arith_rr k ?r ?r 17 B8] :: lift) g"
      "\<And>s. \<exists>t. g s = wx ?r (arith_res k (rx s ?r) i) (host_flags k (rx s ?r) i (wx 17 t s))"
      using sem_arith_imm [OF _ _ i, of ?r k] by auto
    show ?thesis
    proof (rule simulatesI [OF g(1)])
      fix s obtain t where "g s = wx ?r (arith_res k (rx s ?r) i) (host_flags k (rx s ?r) i (wx 17 t s))"
        using g(2) by blast
      then show "guest (g s) = set_gpr rd (arith_res k (gpr (guest s) rd) i) (arith_flags k (gpr (guest s) rd) i (guest s))"
        "keeps_host s (g s)" by simp_all
    qed
  qed
  show ?thesis
    unfolding lift_arith_def with_two [OF ops]
    using load reg imm ok by (cases b) (simp_all add: src_ok_def mem_size_of_def Let_def del: seq.simps cong: if_cong split del: if_split)
qed

lemma arith_mem_simulates:
  assumes ops: "operand_at inst 0 = Some a" "operand_at inst 1 = Some (Reg rs s)"
    and ok: "mem_ok B8 a" "op_width a = B8"
  shows "simulates (lift_arith inst k) (\<lambda>st. let v = operand_value inst B8 a st in
     write_operand inst a (arith_res k v (gpr st rs)) (arith_flags k v (gpr st rs) st))"
proof -
  have "simulates (with_addr a inst 16 (\<lambda>l. seq [load_sized 17 16 l B8, emit_arith_rr k 17 17 (host_reg rs) B8,
      store_sized 17 16 l B8])) (\<lambda>st. let v = operand_value inst B8 a st in
     (arith_flags k v (gpr st rs) st)\<lparr>gmem := store_le (operand_ea inst a st) (size_bytes B8)
        (unat (arith_res k v (gpr st rs))) (gmem st)\<rparr>)"
    by (rule simulates_rmw [where f = "\<lambda>v st. arith_res k v (gpr st rs)" and fl = "\<lambda>v st. arith_flags k v (gpr st rs) st",
          OF ok(1) sem_arith_rr]) (simp_all add: rx_wx)
  then show ?thesis
    unfolding lift_arith_def with_two [OF ops]
    using ok by (cases a) (simp_all add: mem_ok_not mem_size_of_def write_operand_def Let_def del: seq.simps)
qed

lemma arith_simulates:
  assumes ops: "operand_at inst 0 = Some a" "operand_at inst 1 = Some b" and ok: "alu_ok a b"
  shows "simulates (lift_arith inst k) (\<lambda>st. let v = operand_value inst B8 a st; w = operand_value inst B8 b st in
     arith_flags k v w (write_operand inst a (arith_res k v w) st))"
proof (cases "\<exists>rd s. a = Reg rd s")
  case True
  then obtain rd where a: "a = Reg rd B8" "src_ok B8 b" "op_width b = B8" using ok by (auto simp: alu_ok_def)
  from arith_reg_simulates [OF ops(1) [unfolded a(1)] ops(2) a(2,3), of k]
  show ?thesis by (rule simulates_eq) (simp add: a write_reg_at Let_def)
next
  case False
  then obtain rs where b: "b = Reg rs B8" "mem_ok B8 a" "op_width a = B8"
    using ok by (cases a; cases b) (auto simp: alu_ok_def mem_ok_not)
  have fl: "write_operand inst a v (arith_flags k p q st) = arith_flags k p q (write_operand inst a v st)" for v p q st
    using b(2) by (cases a) (simp_all add: mem_ok_not write_operand_def gmem_flags)
  from arith_mem_simulates [OF ops(1) ops(2) [unfolded b(1)] b(2,3), of k]
  show ?thesis by (rule simulates_eq) (simp add: b(1) Let_def fl)
qed

section \<open>Extensions, exchanges, conditional moves, the stack\<close>

lemma sem_extend_mem:
  assumes "rd < 31" "offset_ok B1 l"
  shows "sem (seq [ldrb rd 16 l, emit_sxt_byte rd rd])
    (\<lambda>s. wx rd (signed_take_bit 7 (of_nat (load_le (amem s) (rx s 16 + ucast l) 1))) s)"
  using sem_two [OF load_sized_sem(1) [of rd 16 B1 l] sem_sxt(1) [of rd rd]] assms gpr_less rd31
  by (auto simp: load_sized_def rx_wx intro: sem_weaken)

lemma sem_extend_mem16:
  assumes "rd < 31" "offset_ok B2 l"
  shows "sem (seq [ldrh rd 16 l, emit_sxt_word rd rd])
    (\<lambda>s. wx rd (signed_take_bit 15 (of_nat (load_le (amem s) (rx s 16 + ucast l) 2))) s)"
  using sem_two [OF load_sized_sem(1) [of rd 16 B2 l] sem_sxt(2) [of rd rd]] assms gpr_less rd31
  by (auto simp: load_sized_def rx_wx intro: sem_weaken)

definition extended :: "bool \<Rightarrow> op_size \<Rightarrow> u64 \<Rightarrow> u64" where
  "extended is_signed sz v = (if is_signed then signed_take_bit (width sz - 1) v else take_bit (width sz) v)"

lemma extend_reg_sem:
  assumes "sz \<in> {B1, B2}"
  shows "sem (case sz of
       B1 \<Rightarrow> if sg then emit_sxt_byte (host_reg rd) (host_reg rs) else emit_and_imm_byte (host_reg rd) (host_reg rs)
     | B2 \<Rightarrow> if sg then emit_sxt_word (host_reg rd) (host_reg rs) else emit_and_imm_word (host_reg rd) (host_reg rs)
     | _ \<Rightarrow> x) (\<lambda>s. wx (host_reg rd) (extended sg sz (rx s (host_reg rs))) s)"
  using assms sem_sxt [of "host_reg rd" "host_reg rs"] sem_and_imm [of "host_reg rd" "host_reg rs"]
  by (auto simp: extended_def)

lemma extend_mem_sem:
  assumes "sz \<in> {B1, B2}" "offset_ok sz l"
  shows "sem (case sz of
       B1 \<Rightarrow> if sg then seq [ldrb (host_reg rd) 16 l, emit_sxt_byte (host_reg rd) (host_reg rd)] else ldrb (host_reg rd) 16 l
     | B2 \<Rightarrow> if sg then seq [ldrh (host_reg rd) 16 l, emit_sxt_word (host_reg rd) (host_reg rd)] else ldrh (host_reg rd) 16 l
     | _ \<Rightarrow> x) (\<lambda>s. wx (host_reg rd) (extended sg sz (of_nat (load_le (amem s) (rx s 16 + ucast l) (size_bytes sz)))) s)"
proof (cases sg)
  case True
  with assms sem_extend_mem [of "host_reg rd" l] sem_extend_mem16 [of "host_reg rd" l] show ?thesis
    by (auto simp: extended_def simp del: seq.simps)
next
  case False
  with assms load_sized_sem(1) [of "host_reg rd" 16 sz l] show ?thesis
    by (auto simp: extended_def load_sized_def)
qed

lemma extend_simulates:
  assumes ops: "operand_at inst 0 = Some a" "operand_at inst 1 = Some b" and ok: "extend_ok sg a b"
  shows "simulates (lift_movzx_or_movsx inst sg)
     (\<lambda>st. write_operand inst a (extended sg (op_width b) (operand_value inst (op_width b) b st)) st)"
proof -
  obtain rd sz where a: "a = Reg rd sz" "sz = B8 \<or> sz = B4 \<and> \<not> sg" and b: "op_width b \<in> {B1, B2}"
    using ok by (cases a) (auto simp: extend_ok_def)
  have w: "write_reg rd sz (extended sg (op_width b) v) = set_gpr rd (extended sg (op_width b) v)" for v
    using a(2) b by (auto simp: write_reg_at extended_def)
  show ?thesis
  proof (cases "is_mem b")
    case True
    then have m: "mem_ok (op_width b) b" using ok a by (cases b) (auto simp: extend_ok_def)
    have "simulates (with_addr b inst 16 (\<lambda>l. case op_width b of
       B1 \<Rightarrow> if sg then seq [ldrb (host_reg rd) 16 l, emit_sxt_byte (host_reg rd) (host_reg rd)] else ldrb (host_reg rd) 16 l
     | B2 \<Rightarrow> if sg then seq [ldrh (host_reg rd) 16 l, emit_sxt_word (host_reg rd) (host_reg rd)] else ldrh (host_reg rd) 16 l
     | _ \<Rightarrow> fail (Unsupported (i_op inst))))
     (\<lambda>st. write_operand inst a (extended sg (op_width b) (operand_value inst (op_width b) b st)) st)"
      by (rule simulates_addr [OF m], rule extend_mem_sem [OF b mem_ok_offset [OF m]])
        (use True in \<open>simp_all add: a(1) w rx_wx amem_guest operand_value_mem\<close>)
    then show ?thesis
      unfolding lift_movzx_or_movsx_def with_two [OF ops]
      using True by (cases b) (simp_all add: a(1) mem_size_of_def Let_def del: seq.simps)
  next
    case False
    then obtain rs s where r: "b = Reg rs s" using ok a by (cases b) (auto simp: extend_ok_def mem_ok_not)
    show ?thesis
      unfolding lift_movzx_or_movsx_def with_two [OF ops] a(1) r operand.case Let_def
      by (rule simulatesI [OF extend_reg_sem]) (use b w in \<open>simp_all add: r\<close>)
  qed
qed

lemma movsxd_simulates:
  assumes ops: "operand_at inst 0 = Some (Reg rd B8)" "operand_at inst 1 = Some (Reg rs s)"
  shows "simulates (lift_movsxd inst) (\<lambda>st. set_gpr rd (signed_take_bit 31 (gpr st rs)) st)"
  unfolding lift_movsxd_def with_two [OF ops] prod.case operand.case
  by (rule simulatesI, rule sem_sxt(3)) simp_all

lemma set_gpr_same [simp]: "set_gpr r (gpr st r) st = st"
  by (simp add: set_gpr_def)

lemma set_gpr_gmem [simp]: "gmem (set_gpr r v st) = gmem st" "gpr (st\<lparr>gmem := m\<rparr>) = gpr st"
  "gpr (set_gpr r v st) q = (if q = r then v else gpr st q)"
  "(set_gpr r v st)\<lparr>gmem := m\<rparr> = set_gpr r v (st\<lparr>gmem := m\<rparr>)"
  by (simp_all add: set_gpr_def)

lemma xchg_mem_simulates:
  assumes "mem_ok B8 x" "op_width x = B8"
  shows "simulates (with_addr x inst 16 (\<lambda>l. let hr = host_reg r; sz = mem_size_of x in
       seq [load_sized 17 16 l sz, store_sized hr 16 l sz, mov64 hr 17]))
     (\<lambda>st. write_operand inst (Reg r B8) (operand_value inst B8 x st) (write_operand inst x (gpr st r) st))"
proof -
  have s: "mem_size_of x = B8" using mem_size_op_width [OF mem_ok_is_mem] assms by simp
  let ?l = "operand_leftover x"
  have "sem (seq [load_sized 17 16 ?l B8, store_sized (host_reg r) 16 ?l B8, mov64 (host_reg r) 17])
    (\<lambda>s. let t = wx 17 (of_nat (load_le (amem s) (rx s 16 + ucast ?l) 8)) s;
             u = t\<lparr>amem := store_le (rx t 16 + ucast ?l) 8 (unat (rx t (host_reg r))) (amem t)\<rparr>
         in wx (host_reg r) (rx u 17) u)"
    by (rule sem_weaken, rule sem_Cons [OF load_sized_sem(1) sem_two [OF load_sized_sem(2) sem_mov64]])
      (use mem_ok_offset [OF assms(1)] in \<open>simp_all add: Let_def\<close>)
  note sem3 = this
  have wr: "write_operand inst x v st = st\<lparr>gmem := store_le (operand_ea inst x st) 8 (unat v) (gmem st)\<rparr>" for v st
    using assms by (cases x) (simp_all add: write_operand_def mem_ok_not)
  show ?thesis
    unfolding s Let_def
    by (rule simulates_addr [OF assms(1)], rule sem3)
      (use mem_ok_is_mem [OF assms(1)] in
        \<open>simp_all add: Let_def rx_wx operand_value_mem wr write_reg_at amem_guest\<close>)
qed

lemma xchg_simulates:
  assumes ops: "operand_at inst 0 = Some a" "operand_at inst 1 = Some b" and ok: "xchg_ok a b"
  shows "simulates (lift_xchg inst) (\<lambda>st. let va = operand_value inst B8 a st; vb = operand_value inst B8 b st in
     if is_mem a then write_operand inst b va (write_operand inst a vb st)
     else write_operand inst a vb (write_operand inst b va st))"
proof -
  consider ra rb where "a = Reg ra B8" "b = Reg rb B8" | ra where "a = Reg ra B8" "mem_ok B8 b" "op_width b = B8"
    | rb where "b = Reg rb B8" "mem_ok B8 a" "op_width a = B8"
    using ok by (cases a; cases b) (auto simp: xchg_ok_def reg8_def mem_ok_not)
  then show ?thesis
  proof cases
    case (1 ra rb)
    have "simulates (seq [mov64 16 (host_reg ra), mov64 (host_reg ra) (host_reg rb), mov64 (host_reg rb) 16] :: lift)
      (\<lambda>st. set_gpr ra (gpr st rb) (set_gpr rb (gpr st ra) st))" if "ra \<noteq> rb"
      by (rule simulatesI, rule sem_Cons [OF sem_mov64 sem_two [OF sem_mov64 sem_mov64]])
        (use that in \<open>simp_all add: rx_wx set_gpr_def fun_upd_twist\<close>)
    moreover have "simulates (seq [] :: lift) (\<lambda>st. st)"
      by (rule simulatesI, rule sem_Nil) simp_all
    ultimately show ?thesis
      unfolding lift_xchg_def with_two [OF ops] using 1 by (simp add: Let_def write_reg_at del: seq.simps)
  next
    case (2 ra)
    with mem_ok_is_mem [OF 2(2)] xchg_mem_simulates [OF 2(2,3), of inst ra] show ?thesis
      unfolding lift_xchg_def with_two [OF ops]
      by (cases b) (simp_all add: Let_def del: seq.simps)
  next
    case (3 rb)
    with mem_ok_is_mem [OF 3(2)] xchg_mem_simulates [OF 3(2,3), of inst rb] show ?thesis
      unfolding lift_xchg_def with_two [OF ops]
      by (cases a) (simp_all add: Let_def del: seq.simps)
  qed
qed

text \<open>The condition codes: the branch condition chosen for an x86 condition holds on the host exactly
  when the x86 condition holds on the guest.\<close>

lemma cond_x86_holds:
  assumes "c \<notin> {Cond_P, Cond_NP}"
  shows "\<exists>k. cond_x86_to_a64 c = Some k \<and> (\<forall>s. cond_holds (unat (cond_bits k)) s = x_cond c (guest s))"
  using assms by (cases c) (auto simp: cond_holds_def x_cond_def guest_def Let_def)

lemma cmov_simulates:
  assumes ops: "operand_at inst 0 = Some (Reg rd B8)" "operand_at inst 1 = Some (Reg rs B8)"
    and c: "c \<notin> {Cond_P, Cond_NP}"
  shows "simulates (lift_cmov inst c) (\<lambda>st. set_gpr rd (if x_cond c st then gpr st rs else gpr st rd) st)"
proof -
  obtain k where k: "cond_x86_to_a64 c = Some k" "\<And>s. cond_holds (unat (cond_bits k)) s = x_cond c (guest s)"
    using cond_x86_holds [OF c] by blast
  show ?thesis
    unfolding lift_cmov_def with_two [OF ops] prod.case operand.case k(1) option.case
    by (rule simulatesI, rule sem_csel64) (simp_all add: k(2))
qed

lemma guest_pinned [simp]:
  "rx s 19 = gpr (guest s) Rsp" "guest (wx 19 v s) = set_gpr Rsp v (guest s)"
  "rx s 0 = gpr (guest s) Rax" "guest (wx 0 v s) = set_gpr Rax v (guest s)"
  "rx s 2 = gpr (guest s) Rdx" "guest (wx 2 v s) = set_gpr Rdx v (guest s)"
  "rx s 5 = gpr (guest s) Rbp" "guest (wx 5 v s) = set_gpr Rbp v (guest s)"
  using guest_rx_host [of s Rsp] guest_wx_host [of Rsp v s] guest_rx_host [of s Rax] guest_wx_host [of Rax v s]
    guest_rx_host [of s Rdx] guest_wx_host [of Rdx v s] guest_rx_host [of s Rbp] guest_wx_host [of Rbp v s]
  by (simp_all del: guest_rx_host guest_wx_host)

lemma push_sem: "rs < 32 \<Longrightarrow> sem (str64 rs 19 0) (\<lambda>s. s\<lparr>amem := store_le (rx s 19) 8 (unat (rx s rs)) (amem s)\<rparr>)"
  using sem_str64 [of rs 19 0] by simp

lemma stack_moves:
  "sem (sub64_imm 19 19 8) (\<lambda>s. wx 19 (rx s 19 - 8) s)" "sem (add64_imm 19 19 8) (\<lambda>s. wx 19 (rx s 19 + 8) s)"
  using sem_sub64_imm [of 19 19 8] sem_add64_imm [of 19 19 8] by (simp_all add: encode_addsub_imm_def)

lemma pop_sem: "rd < 32 \<Longrightarrow> sem (ldr64 rd 19 0) (\<lambda>s. wx rd (of_nat (load_le (amem s) (rx s 19) 8)) s)"
  using sem_ldr64 [of rd 19 0] by simp

lemma host_reg_19 [simp]: "host_reg r = 19 \<longleftrightarrow> r = Rsp" "19 = host_reg r \<longleftrightarrow> r = Rsp"
  by (cases r; simp)+

lemma push_simulates:
  assumes op: "operand_at inst 0 = Some a" and ok: "stack_ok a"
  shows "simulates (lift_push inst) (\<lambda>st. set_gpr Rsp (gpr st Rsp - 8)
     (st\<lparr>gmem := store_le (gpr st Rsp - 8) 8 (unat (operand_value inst B8 a st)) (gmem st)\<rparr>))"
proof -
  have reg: "simulates (seq [sub64_imm 19 19 8, str64 (host_reg rs) 19 0] :: lift)
    (\<lambda>st. set_gpr Rsp (gpr st Rsp - 8) (st\<lparr>gmem := store_le (gpr st Rsp - 8) 8 (unat (gpr st rs)) (gmem st)\<rparr>))"
    if "rs \<noteq> Rsp" for rs
    by (rule simulatesI, rule sem_two [OF stack_moves(1) push_sem]) (use that in \<open>simp_all add: amem_guest\<close>)
  have imm: "simulates (seq [sub64_imm 19 19 8, seq [load_const64 16 i, str64 16 19 0]] :: lift)
    (\<lambda>st. set_gpr Rsp (gpr st Rsp - 8) (st\<lparr>gmem := store_le (gpr st Rsp - 8) 8 (unat i) (gmem st)\<rparr>))" for i
    by (rule simulatesI, rule sem_two [OF stack_moves(1) sem_two [OF sem_load_const64 push_sem]])
      (simp_all add: rx_wx amem_guest)
  show ?thesis
    unfolding lift_push_def with_operand_Some [OF op]
    using reg imm ok by (cases a) (simp_all add: stack_ok_def del: seq.simps)
qed

lemma pop_simulates:
  assumes op: "operand_at inst 0 = Some (Reg rd B8)" and "rd \<noteq> Rsp"
  shows "simulates (lift_pop inst)
     (\<lambda>st. set_gpr rd (of_nat (load_le (gmem st) (gpr st Rsp) 8)) (set_gpr Rsp (gpr st Rsp + 8) st))"
  unfolding lift_pop_def with_operand_Some [OF op] operand.case
  by (rule simulatesI, rule sem_two [OF pop_sem stack_moves(2)])
    (use assms in \<open>auto simp: amem_guest set_gpr_def fun_upd_twist\<close>)

lemma leave_simulates:
  "simulates lift_leave (\<lambda>st. set_gpr Rbp (of_nat (load_le (gmem st) (gpr st Rbp) 8)) (set_gpr Rsp (gpr st Rbp + 8) st))"
proof -
  have "sem lift_leave (\<lambda>s. let t = wx 19 (rx s 5) s; u = wx 5 (of_nat (load_le (amem t) (rx t 19) 8)) t in wx 19 (rx u 19 + 8) u)"
    unfolding lift_leave_def host_reg.simps
    by (rule sem_weaken, rule sem_Cons [OF sem_mov64 sem_two [OF pop_sem stack_moves(2)]]) (simp_all add: Let_def)
  then show ?thesis
    by (rule simulatesI) (auto simp: Let_def amem_guest set_gpr_def fun_upd_twist)
qed

lemma sem_neg_not:
  assumes "rd < 31"
  shows "sem (raw_word (0xEB000000 OR push_bit 16 (ucast rd) OR push_bit 5 31 OR ucast rd))
       (\<lambda>s. wx rd (0 - rx s rd) (flags_awc 0 (NOT (rx s rd)) True s))"
    "sem (raw_word (0xAA200000 OR push_bit 16 (ucast rd) OR push_bit 5 31 OR ucast rd)) (\<lambda>s. wx rd (NOT (rx s rd)) s)"
  unfolding raw_word_def
  by (rule sem_push [where i = "I_AddSubReg True True 0 rd 31 rd"] sem_push [where i = "I_Logic LOrr True 0 rd 31 rd"];
      simp add: word_fld a64_dec ifield_simps gpr_less [OF assms])+

lemma neg_simulates:
  assumes op: "operand_at inst 0 = Some (Reg rd B8)"
  shows "simulates (lift_neg inst) (\<lambda>st. sub_flags 0 (gpr st rd) (set_gpr rd (0 - gpr st rd) st))"
  unfolding lift_neg_def with_operand_Some [OF op] operand.case Let_def
  by (rule simulatesI, rule sem_two [OF sem_neg_not(1) sem_mask_if_b4]) simp_all

lemma not_simulates:
  assumes op: "operand_at inst 0 = Some (Reg rd sz)" "sz \<in> {B4, B8}"
  shows "simulates (lift_not inst) (\<lambda>st. write_reg rd sz (NOT (gpr st rd)) st)"
  unfolding lift_not_def with_operand_Some [OF op(1)] operand.case Let_def
  by (rule simulatesI, rule sem_two [OF sem_neg_not(2) sem_mask_if_b4])
    (use op(2) in \<open>auto simp: write_reg_at set_gpr_def\<close>)

lemma asr63: "signed_take_bit 0 (drop_bit 63 v) = (if bit v 63 then - 1 else 0 :: u64)"
  by (rule bit_word_eqI) (auto simp: bit_simps simp del: signed_take_bit_0)

lemma cqo_simulates: "simulates lift_cqo (\<lambda>st. set_gpr Rdx (if bit (gpr st Rax) 63 then - 1 else 0) st)"
proof (rule simulatesI)
  show "sem lift_cqo (\<lambda>s. wx 2 (if bit (rx s 0) 63 then - 1 else 0) s)"
    unfolding lift_cqo_def host_reg.simps Let_def raw_word_def asr63 [symmetric]
    by (rule sem_push [where i = "I_Sbfm 63 63 0 2"]) (simp_all add: a64_dec ifield_simps bfm_ok_def)
qed simp_all

section \<open>Translation of the integer core\<close>

lemma op_n_eq: "operand_at inst k = Some x \<Longrightarrow> op_n inst k = x"
  by (simp add: op_n_def)

lemmas lift_groups = lift_def lift_data_def lift_arith_op_def lift_logic_op_def lift_flow_op_def lift_misc_op_def
lemmas step_defs = x86_step_def [abs_def] Let_def

lemma core_two:
  assumes ops: "operand_at inst 0 = Some a" "operand_at inst 1 = Some b" and core: "integer_core inst"
  shows "simulates (lift legacy32 inst) (x86_step inst)"
proof -
  note n = op_n_eq [OF ops(1)] op_n_eq [OF ops(2), unfolded One_nat_def]
  consider "i_op inst = Op_Mov" "mov_ok a b" | "i_op inst = Op_Lea" "lea_ok a b"
    | "i_op inst = Op_Movzx" "extend_ok False a b" | "i_op inst = Op_Movsx" "extend_ok True a b"
    | "i_op inst = Op_Xchg" "xchg_ok a b" | "i_op inst = Op_Sub" "alu_ok a b" | "i_op inst = Op_Cmp" "cmp_ok a b"
    | rd rs s where "i_op inst = Op_Movsxd" "a = Reg rd B8" "b = Reg rs s"
    | c rd rs where "i_op inst = Op_Cmov c" "a = Reg rd B8" "b = Reg rs B8" "c \<notin> {Cond_P, Cond_NP}"
    using core unfolding integer_core_def ops option.case prod.case
    by (auto simp: reg8_def split: op.splits data_op.splits arith_op.splits logic_op.splits operand.splits)
  then show ?thesis
  proof cases
    case 1
    with mov_simulates [OF ops 1(2)] show ?thesis by (simp add: lift_groups step_defs n)
  next
    case 2
    with lea_simulates [OF ops 2(2)] show ?thesis by (simp add: lift_groups step_defs n)
  next
    case 3
    with extend_simulates [OF ops 3(2)] show ?thesis by (simp add: lift_groups step_defs n extended_def)
  next
    case 4
    with extend_simulates [OF ops 4(2)] show ?thesis by (simp add: lift_groups step_defs n extended_def)
  next
    case 5
    have "op_width a = B8" using 5(2) by (cases a) (auto simp: xchg_ok_def reg8_def mem_ok_not)
    with 5 xchg_simulates [OF ops 5(2)] show ?thesis by (simp add: lift_groups step_defs n cong: if_cong)
  next
    case 6
    have "op_width a = B8" using 6(2) by (cases a) (auto simp: alu_ok_def mem_ok_not)
    with 6 arith_simulates [OF ops 6(2), of AK_Sub] show ?thesis
      by (simp add: lift_groups step_defs n arith_flags_def arith_res_def)
  next
    case 7
    with cmp_simulates [OF ops 7(2)] show ?thesis by (simp add: lift_groups step_defs n)
  next
    case (8 rd rs s)
    with movsxd_simulates [OF ops(1) [unfolded 8(2)] ops(2) [unfolded 8(3)]] show ?thesis
      by (simp add: lift_groups step_defs n write_reg_at)
  next
    case (9 c rd rs)
    with cmov_simulates [OF ops(1) [unfolded 9(2)] ops(2) [unfolded 9(3)] 9(4)] show ?thesis
      by (simp add: lift_groups step_defs n write_reg_at cong: if_cong)
  qed
qed

lemma core_one:
  assumes ops: "operand_at inst 0 = Some a" "operand_at inst 1 = None" and core: "integer_core inst"
  shows "simulates (lift legacy32 inst) (x86_step inst)"
proof -
  note n = op_n_eq [OF ops(1)]
  consider "i_op inst = Op_Push" "stack_ok a" | rd where "i_op inst = Op_Pop" "a = Reg rd B8" "rd \<noteq> Rsp"
    | rd where "i_op inst = Op_Neg" "a = Reg rd B8" | rd sz where "i_op inst = Op_Not" "a = Reg rd sz" "sz \<in> {B4, B8}"
    using core unfolding integer_core_def ops option.case prod.case
    by (auto simp: reg8_def stack_ok_def split: op.splits data_op.splits arith_op.splits logic_op.splits operand.splits)
  then show ?thesis
  proof cases
    case 1
    have "operand_value inst (op_width a) a = operand_value inst B8 a"
      using 1(2) by (cases a) (auto simp: stack_ok_def fun_eq_iff)
    with 1 push_simulates [OF ops(1) 1(2)] show ?thesis by (simp add: lift_groups step_defs n)
  next
    case (2 rd)
    with pop_simulates [OF ops(1) [unfolded 2(2)] 2(3)] show ?thesis by (simp add: lift_groups step_defs n write_reg_at)
  next
    case (3 rd)
    with neg_simulates [OF ops(1) [unfolded 3(2)]] show ?thesis by (simp add: lift_groups step_defs n write_reg_at)
  next
    case (4 rd sz)
    with not_simulates [OF ops(1) [unfolded 4(2)] 4(3)] show ?thesis by (simp add: lift_groups step_defs n)
  qed
qed

lemma core_none:
  assumes ops: "operand_at inst 0 = None" and core: "integer_core inst"
  shows "simulates (lift legacy32 inst) (x86_step inst)"
proof -
  consider "i_op inst = Op_Cqo" | "i_op inst = Op_Leave" | "i_op inst = Op_Nop"
    using core unfolding integer_core_def ops option.case prod.case
    by (auto split: op.splits arith_op.splits flow_op.splits misc_op.splits)
  then show ?thesis
  proof cases
    case 1
    with cqo_simulates show ?thesis by (simp add: lift_groups step_defs write_reg_at)
  next
    case 2
    with leave_simulates show ?thesis by (simp add: lift_groups step_defs)
  next
    case 3
    have "simulates (em_nop :: lift) (\<lambda>st. st)" by (rule simulatesI [OF sem_nop]) simp_all
    with 3 show ?thesis by (simp add: lift_groups step_defs)
  qed
qed

lemma core_simulates: "integer_core inst \<Longrightarrow> simulates (lift legacy32 inst) (x86_step inst)"
  using core_two core_one core_none by (metis not_None_eq)

text \<open>
  C4: translation correctness of the lifter on the integer core. For every instruction and operand
  combination in \<open>integer_core\<close> (\<open>MOV\<close> with register, immediate and memory operands, \<open>LEA\<close>, \<open>MOVZX\<close>,
  \<open>MOVSX\<close>, \<open>MOVSXD\<close>, \<open>XCHG\<close>, \<open>CMOVcc\<close>, \<open>SUB\<close>, \<open>CMP\<close>, \<open>NEG\<close>, \<open>NOT\<close>, \<open>PUSH\<close>, \<open>POP\<close>, \<open>CQO\<close>, \<open>LEAVE\<close>, \<open>NOP\<close>) the
  lifter returns \<open>Ok\<close>, and the AArch64 words it appends, run on any machine state, take the guest
  registers, flags and memory to exactly what the x86 instruction does to them, and leave SP, X28, X29
  and X30 unchanged.
\<close>

theorem lift_simulates:
  assumes "integer_core inst"
  shows "simulates (lift legacy32 inst) (x86_step inst)"
  using assms by (rule core_simulates)

text \<open>\<open>SUB RAX, [RBX + 8*RCX - 16]\<close>\<close>

definition sub_mem_inst :: inst where
  "sub_mem_inst = \<lparr>i_op = Op_Sub,
     i_operands = [Some (Reg Rax B8), Some (MemOp \<lparr>m_base = Some Rbx, m_index = Some Rcx, m_scale = 8,
       m_disp = - 16, m_size = B8, m_seg = None\<rparr>), None], i_len = 5, i_guest_rip = 0x1000\<rparr>"

theorem lift_simulates_witness:
  "integer_core sub_mem_inst \<and> simulates (lift False sub_mem_inst) (x86_step sub_mem_inst)"
proof -
  have "integer_core sub_mem_inst"
    by (simp add: integer_core_def sub_mem_inst_def operand_at_def alu_ok_def src_ok_def mem_ok_def scale_ok_def
        leftover_def offset_ok_def word_sless_alt)
  then show ?thesis using lift_simulates [of sub_mem_inst False] by simp
qed

section \<open>Building blocks\<close>

text \<open>
  C27: \<open>load_const64\<close> loads any 64-bit constant into any register but XZR: the words it appends,
  run on any state, set the register to the constant and change nothing else.
\<close>

theorem load_const64_exact:
  assumes "rd < 31"
  shows "\<exists>ws. (\<forall>e. load_const64 rd v e = (Ok (), e\<lparr>em_code := em_code e @ ws\<rparr>)) \<and>
    (\<forall>s. a64_run ws s = Some (wx rd v s))"
  using sem_load_const64 [OF assms, of v] by (simp add: sem_def emits_def)

theorem load_const64_exact_witness:
  "\<exists>ws. (\<forall>e. load_const64 3 0xDEADBEEF00C0FFEE e = (Ok (), e\<lparr>em_code := em_code e @ ws\<rparr>)) \<and>
    (\<forall>s. a64_run ws s = Some (wx 3 0xDEADBEEF00C0FFEE s))"
  by (rule load_const64_exact) simp

text \<open>
  C26: address computation. For every memory operand with a legal scale and every host register that can
  hold an address, \<open>mem_address_into\<close> returns an offset and emits code after which register plus offset
  is the x86 effective address (base, segment base, scaled index, sign-extended displacement), with
  only that register and X17 changed.
\<close>

theorem mem_address_exact:
  assumes "addr_reg m r" "scale_ok m"
  shows "\<exists>ws off. (\<forall>e. (mem_address_into m r e :: (lifter_error, u32) outcome \<times> emitter) = (Ok off, e\<lparr>em_code := em_code e @ ws\<rparr>)) \<and>
    (\<forall>s. \<exists>s' k. a64_run ws s = Some s' \<and> rx s' r + ucast off = x_ea m (guest s) \<and>
       s' = wx r (rx s' r) (wx 17 k s))"
proof -
  have r: "r \<noteq> 31" using assms(1) by (auto simp: addr_reg_def)
  obtain g ws where g: "\<forall>e. (mem_address_into m r e :: (lifter_error, u32) outcome \<times> emitter) = (Ok (leftover m), e\<lparr>em_code := em_code e @ ws\<rparr>)"
      "\<forall>s. a64_run ws s = Some (g s)"
    and k: "\<forall>s. \<exists>k. g s = wx r (x_ea m (guest s) - ucast (leftover m)) (wx 17 k s)"
    using mem_address_sem [OF assms] by (auto simp: sem_val_def)
  have "\<exists>k. rx (g s) r + ucast (leftover m) = x_ea m (guest s) \<and> g s = wx r (rx (g s) r) (wx 17 k s)" for s
  proof -
    obtain k where "g s = wx r (x_ea m (guest s) - ucast (leftover m)) (wx 17 k s)" using k by blast
    with r show ?thesis by (auto simp: rx_wx)
  qed
  with g show ?thesis by blast
qed

text \<open>\<open>GS:[R12 + 4*RDI - 0x12345]\<close>: a displacement that needs the X17 path.\<close>

definition gs_operand :: mem_operand where
  "gs_operand = \<lparr>m_base = Some R12, m_index = Some Rdi, m_scale = 4, m_disp = - 0x12345, m_size = B8, m_seg = Some Gs\<rparr>"

theorem mem_address_exact_witness:
  "addr_reg gs_operand 16 \<and>
   (\<exists>ws off. (\<forall>e. (mem_address_into gs_operand 16 e :: (lifter_error, u32) outcome \<times> emitter) = (Ok off, e\<lparr>em_code := em_code e @ ws\<rparr>)) \<and>
    (\<forall>s. \<exists>s' k. a64_run ws s = Some s' \<and> rx s' 16 + ucast off = x_ea gs_operand (guest s) \<and>
       s' = wx 16 (rx s' 16) (wx 17 k s)))"
proof -
  have "addr_reg gs_operand 16" "scale_ok gs_operand"
    by (simp_all add: addr_reg_def gs_operand_def scale_ok_def)
  then show ?thesis using mem_address_exact [of gs_operand 16] by simp
qed

text \<open>
  Condition codes. For the 14 x86 conditions that do not read the parity flag, the AArch64 condition
  chosen holds in a host state exactly when the x86 condition holds of the guest flags.
\<close>

theorem condition_codes_exact:
  assumes "c \<noteq> Cond_P" "c \<noteq> Cond_NP"
  shows "\<exists>k. cond_x86_to_a64 c = Some k \<and> (\<forall>s. cond_holds (unat (cond_bits k)) s = x_cond c (guest s))"
  using assms by (intro cond_x86_holds) simp

theorem condition_codes_exact_witness:
  "\<exists>k. cond_x86_to_a64 Cond_BE = Some k \<and> (\<forall>s. cond_holds (unat (cond_bits k)) s = x_cond Cond_BE (guest s))"
  by (rule condition_codes_exact) simp_all

end
