(* ===== verification/Rep_Loop.thy ===== *)
theory Rep_Loop
  imports Lifter_Correct
begin

text \<open>
  The loop the lifter emits for \<open>REP MOVS\<close> and \<open>REP STOS\<close>, the only backward branch inside lifted
  code. \<open>a64_next\<close> runs assembled code by the program counter, with the branch instructions the loop
  uses; \<open>x_movs\<close>, \<open>x_stos\<close> and \<open>x_rep\<close> are the string instructions of the architecture manual with the
  direction flag clear (\<open>STD\<close> is not lifted). The theorem runs the words that stand in the code buffer
  after \<open>finish\<close>, whatever was emitted before and after the instruction.
\<close>

section \<open>Code run by the program counter\<close>






section \<open>String instructions\<close>

definition x_movs :: "nat \<Rightarrow> x86 \<Rightarrow> x86" where
  "x_movs n st =
     (let src = gpr st Rsi; dst = gpr st Rdi in
      set_gpr Rdi (dst + of_nat n) (set_gpr Rsi (src + of_nat n)
        (st\<lparr>gmem := store_le dst n (load_le (gmem st) src n) (gmem st)\<rparr>)))"

definition x_stos :: "nat \<Rightarrow> x86 \<Rightarrow> x86" where
  "x_stos n st =
     (let dst = gpr st Rdi in
      set_gpr Rdi (dst + of_nat n) (st\<lparr>gmem := store_le dst n (unat (gpr st Rax)) (gmem st)\<rparr>))"




section \<open>One element\<close>











definition turn :: "bool \<Rightarrow> op_size \<Rightarrow> x86 \<Rightarrow> x86" where
  "turn is_stos sz st =
     set_gpr Rcx (gpr st Rcx - 1) ((if is_stos then x_stos else x_movs) (size_bytes sz) st)"

lemma turn_rcx [simp]: "gpr (turn is_stos sz st) Rcx = gpr st Rcx - 1"
  by (simp add: turn_def set_gpr_def)




section \<open>The loop\<close>






section \<open>The code in the buffer\<close>



















end
