(* ===== verification/Block.thy ===== *)
theory Block
  imports Decoder_Correct Lifter_Sse
begin

text \<open>
  \<open>quantum-jit/src/block.rs\<close>: translation of a basic block. \<open>translate_for_dispatcher\<close> decodes up to the
  first control-flow instruction, emits a prologue that loads the guest registers from the context X0
  points to, lifts the body and emits an exit that spills the registers and returns the next guest
  address in X0; direct exits start with a branch the dispatcher can patch. \<open>translate_with_stack\<close> is the
  older single-function form with branches inside the block. Errors of the decoder, the lifter and
  the emitter are wrapped by \<open>map_err\<close>, the \<open>From\<close> conversions of the source.
\<close>

datatype block_error =
    BE_Decode decode_error
  | BE_Lift lifter_error
  | BE_LiftAt u64 op bytes lifter_error
  | BE_TargetOutOfBlock u64 u64
  | BE_UnsupportedCondition
  | BE_BadOperand
  | BE_Finish finish_error

record block =
  host_bytes :: bytes
  guest_len :: nat
  chain_patches :: "(u32 \<times> u64) list"

definition map_err :: "('e \<Rightarrow> 'f) \<Rightarrow> ('e, 'a) outcome \<times> 's \<Rightarrow> ('f, 'a) outcome \<times> 's" where
  "map_err f m =
     (case fst m of Ok x \<Rightarrow> (Ok x, snd m) | Err e \<Rightarrow> (Err (f e), snd m) | Panic p \<Rightarrow> (Panic p, snd m))"

section \<open>The trap detector\<close>

definition detect_drm_int3_trap :: "inst list \<Rightarrow> u64 option" where
  "detect_drm_int3_trap insts =
     (if length insts < 2 then None
      else
        let int3 = insts ! 0; jmp = insts ! 1 in
        if i_op int3 \<noteq> Op_Int3 then None
        else if i_op jmp \<noteq> Op_Jmp then None
        else
          (case operand_at jmp 0 of
             Some (Imm rel _) \<Rightarrow>
               let jmp_end = i_guest_rip jmp + ucast (i_len jmp); target = jmp_end + rel in
               if target = i_guest_rip int3 then Some jmp_end else None
           | _ \<Rightarrow> None))"

definition STOP_SENTINEL :: u64 where "STOP_SENTINEL = 0xDEADDEADDEADDEAD"
definition DISPATCHER_HOT_ENTRY_OFFSET :: u32 where "DISPATCHER_HOT_ENTRY_OFFSET = 16"

datatype isa_mode = Long | Legacy32

section \<open>Decoding a block\<close>

definition ends_block :: "op \<Rightarrow> bool" where
  "ends_block op =
     (case op of
        OpFlow f \<Rightarrow>
          (case f of
             F_Jmp \<Rightarrow> True | F_Jcc _ \<Rightarrow> True | F_Ret \<Rightarrow> True | F_RetImm \<Rightarrow> True | F_Ud2 \<Rightarrow> True
           | F_JmpIndirect \<Rightarrow> True | F_Call \<Rightarrow> True | _ \<Rightarrow> False)
      | _ \<Rightarrow> False)"

function decode_insts ::
  "(op \<Rightarrow> bool) \<Rightarrow> decoder \<Rightarrow> inst list \<Rightarrow> (decode_error, inst list) outcome \<times> decoder" where
  "decode_insts is_terminator d insts =
     sbind (decoder_next d) (\<lambda>inst d.
       let insts = insts @ [inst] in
       if is_terminator (i_op inst) \<or> d_remaining d = 0 then (Ok insts, d)
       else decode_insts is_terminator d insts)"
  by pat_completeness auto

termination
proof (relation "measure (\<lambda>(_, d, _). d_remaining d)")
  fix d :: decoder and inst d' and is_terminator :: "op \<Rightarrow> bool" and insts insts'
  assume a: "decoder_next d = (Ok inst, d')" and r: "\<not> (is_terminator (i_op inst) \<or> d_remaining d' = 0)"
  have "same_input d d'" using post_decoder_next [of d] a by (simp add: dec_post_def)
  moreover have "d_pos d < d_pos d'" using next_progress [OF a] by simp
  ultimately show "((is_terminator, d', insts'), (is_terminator, d, insts)) \<in> measure (\<lambda>(_, d, _). d_remaining d)"
    using r by (auto simp: d_remaining_def same_input_def)
qed simp_all

section \<open>Prologue and epilogue\<close>

definition emit_ctx_to_regs :: "'e em" where
  "emit_ctx_to_regs = seq
     [ldr64 X0 X28 0, ldr64 X1 X28 8, ldr64 X2 X28 16, ldr64 X3 X28 24, ldr64 X19 X28 32, ldr64 X5 X28 40,
      ldr64 X6 X28 48, ldr64 X7 X28 56, ldr64 X8 X28 64, ldr64 X9 X28 72, ldr64 10 X28 80, ldr64 11 X28 88,
      ldr64 X12 X28 96, ldr64 X13 X28 104, ldr64 X14 X28 112, ldr64 X15 X28 120]"

definition emit_regs_to_ctx :: "'e em" where
  "emit_regs_to_ctx = seq
     [str64 X0 X28 0, str64 X1 X28 8, str64 X2 X28 16, str64 X3 X28 24, str64 X19 X28 32, str64 X5 X28 40,
      str64 X6 X28 48, str64 X7 X28 56, str64 X8 X28 64, str64 X9 X28 72, str64 10 X28 80, str64 11 X28 88,
      str64 X12 X28 96, str64 X13 X28 104, str64 X14 X28 112, str64 X15 X28 120]"

definition emit_host_epilogue :: "'e em" where
  "emit_host_epilogue = seq
     [ldp64_post X24 X25 SP 16, ldp64_post X19 X28 SP 16, ldp64_post X29 X30 SP 16, em_ret]"

definition emit_epilogue_const_rip :: "u64 \<Rightarrow> 'e em" where
  "emit_epilogue_const_rip next_rip = seq [emit_regs_to_ctx, load_const64 X0 next_rip, emit_host_epilogue]"

definition dispatcher_prologue :: "'e em" where
  "dispatcher_prologue = seq
     [stp64_pre X29 X30 SP (- 16), stp64_pre X19 X28 SP (- 16), stp64_pre X24 X25 SP (- 16), mov64 X28 X0,
      emit_ctx_to_regs, ldr64 X24 X28 144, ldr64 X25 X28 152]"

section \<open>Body\<close>

definition inst_bytes :: "bytes \<Rightarrow> u64 \<Rightarrow> inst \<Rightarrow> ('e, bytes) outcome" where
  "inst_bytes bytes start_rip inst =
     (let inst_off = unat (i_guest_rip inst - start_rip); len = unat (i_len inst) in
      if inst_off + len \<ge> 2 ^ 64 then Panic ''attempt to add with overflow''
      else Ok (case get_range bytes inst_off len of Some raw \<Rightarrow> raw | None \<Rightarrow> []))"

primrec lift_body :: "bool \<Rightarrow> bytes \<Rightarrow> u64 \<Rightarrow> inst list \<Rightarrow> block_error em" where
  "lift_body legacy32 bytes start_rip [] e = (Ok (), e)"
| "lift_body legacy32 bytes start_rip (inst # insts) e =
     (case lift legacy32 inst e of
        (Ok _, e) \<Rightarrow> lift_body legacy32 bytes start_rip insts e
      | (Err er, e) \<Rightarrow>
          (obind (inst_bytes bytes start_rip inst) (\<lambda>raw. Err (BE_LiftAt (i_guest_rip inst) (i_op inst) raw er)), e)
      | (Panic p, e) \<Rightarrow> (Panic p, e))"

section \<open>Terminators\<close>

definition em_fail :: "'e \<Rightarrow> emitter \<Rightarrow> ('e, 'a) outcome \<times> emitter" where
  "em_fail er e = (Err er, e)"

definition next_rip :: "inst \<Rightarrow> u64" where
  "next_rip inst = i_guest_rip inst + ucast (i_len inst)"

text \<open>\<open>let rel = match term.operands[0] { Some(Operand::Imm(rel, _)) => rel, _ => return Err(BadOperand) }\<close>\<close>

definition with_rel :: "inst \<Rightarrow> (i64 \<Rightarrow> emitter \<Rightarrow> (block_error, 'a) outcome \<times> emitter) \<Rightarrow>
    emitter \<Rightarrow> (block_error, 'a) outcome \<times> emitter" where
  "with_rel inst f = (case operand_at inst 0 of Some (Imm rel _) \<Rightarrow> f rel | _ \<Rightarrow> em_fail BE_BadOperand)"

text \<open>A chainable exit: the offset of the placeholder branch is the patch site.\<close>

definition chain_exit :: "u64 \<Rightarrow> emitter \<Rightarrow> ('e, (u32 \<times> u64) list) outcome \<times> emitter" where
  "chain_exit target e =
     sbind (emit_regs_to_ctx e) (\<lambda>_ e.
       let patch = (of_nat (length (em_bytes e)) :: u32, target) in
       sbind (seq [raw_word 0x14000001, load_const64 X0 target, emit_host_epilogue] e) (\<lambda>_ e.
         (Ok [patch], e)))"

definition ret_exit :: "u32 \<Rightarrow> 'e em" where
  "ret_exit pop = seq
     [ldr64 X16 X19 0, add64_imm X19 X19 pop, emit_regs_to_ctx, mov64 X0 X16, emit_host_epilogue]"

definition no_patches :: "'e em \<Rightarrow> emitter \<Rightarrow> ('e, (u32 \<times> u64) list) outcome \<times> emitter" where
  "no_patches f e = sbind (f e) (\<lambda>_ e. (Ok [], e))"

definition jcc_exit :: "cond \<Rightarrow> inst \<Rightarrow> i64 \<Rightarrow> emitter \<Rightarrow> (block_error, (u32 \<times> u64) list) outcome \<times> emitter" where
  "jcc_exit c inst rel e =
     (case cond_x86_to_a64 c of
        None \<Rightarrow> (Err BE_UnsupportedCondition, e)
      | Some a64_cond \<Rightarrow>
          sbind (make_label e) (\<lambda>taken_label e.
          sbind (b_cond a64_cond taken_label e) (\<lambda>_ e.
          sbind (chain_exit (next_rip inst) e) (\<lambda>fall e.
          sbind (bind_label taken_label e) (\<lambda>_ e.
          sbind (chain_exit (next_rip inst + rel) e) (\<lambda>taken e. (Ok (fall @ taken), e)))))))"

definition jmp_indirect_exit :: "inst \<Rightarrow> block_error em" where
  "jmp_indirect_exit inst =
     (case operand_at inst 0 of
        None \<Rightarrow> em_fail BE_BadOperand
      | Some target \<Rightarrow> seq
          [case target of
             Reg r _ \<Rightarrow> mov64 X16 (host_reg r)
           | _ \<Rightarrow>
               if is_mem target then
                 (\<lambda>e. sbind (map_err BE_Lift (addr_into_xtmp target inst X16 e))
                    (\<lambda>leftover. ldr64 X16 X16 leftover))
               else em_fail BE_BadOperand,
           emit_regs_to_ctx, mov64 X0 X16, emit_host_epilogue])"

definition emit_terminator :: "inst \<Rightarrow> emitter \<Rightarrow> (block_error, (u32 \<times> u64) list) outcome \<times> emitter" where
  "emit_terminator term =
     (case i_op term of
        OpFlow f \<Rightarrow>
          (case f of
             F_Ud2 \<Rightarrow> no_patches (emit_epilogue_const_rip STOP_SENTINEL)
           | F_RetImm \<Rightarrow> with_rel term (\<lambda>imm e.
               sbind (add_or_panic 8 (ucast imm), e) (\<lambda>pop. no_patches (ret_exit pop)))
           | F_Ret \<Rightarrow> no_patches (ret_exit 8)
           | F_Jmp \<Rightarrow> with_rel term (\<lambda>rel. chain_exit (next_rip term + rel))
           | F_Call \<Rightarrow> with_rel term (\<lambda>rel. no_patches (seq
               [sub64_imm X19 X19 8, load_const64 X16 (next_rip term), str64 X16 X19 0,
                emit_epilogue_const_rip (next_rip term + rel)]))
           | F_Jcc c \<Rightarrow> with_rel term (\<lambda>rel. jcc_exit c term rel)
           | F_JmpIndirect \<Rightarrow> no_patches (jmp_indirect_exit term)
           | _ \<Rightarrow> no_patches (emit_epilogue_const_rip STOP_SENTINEL))
      | _ \<Rightarrow> no_patches (emit_epilogue_const_rip STOP_SENTINEL))"

definition translate_for_dispatcher :: "bytes \<Rightarrow> u64 \<Rightarrow> isa_mode \<Rightarrow> (block_error, block) outcome" where
  "translate_for_dispatcher bytes start_rip mode =
     (let d = (case mode of Long \<Rightarrow> Decoder_new bytes start_rip | Legacy32 \<Rightarrow> Decoder_new_legacy32 bytes start_rip);
          m = map_err BE_Decode (decode_insts ends_block d [])
      in obind (fst m) (\<lambda>insts.
        fst (sbind (dispatcher_prologue new_emitter) (\<lambda>_ e.
             sbind (lift_body (mode = Legacy32) bytes start_rip (butlast insts) e) (\<lambda>_ e.
             sbind (emit_terminator (last insts) e) (\<lambda>patches e.
             sbind (map_err BE_Finish (finish e)) (\<lambda>_ e.
               (Ok \<lparr>host_bytes = em_bytes e, guest_len = d_pos (snd m), chain_patches = patches\<rparr>, e))))))))"

section \<open>Blocks with internal branches\<close>

definition find_label :: "(u64 \<times> label) list \<Rightarrow> u64 \<Rightarrow> label option" where
  "find_label labels rip = map_option snd (find (\<lambda>(r, _). r = rip) labels)"

primrec make_labels :: "inst list \<Rightarrow> emitter \<Rightarrow> (block_error, (u64 \<times> label) list) outcome \<times> emitter" where
  "make_labels [] e = (Ok [], e)"
| "make_labels (inst # insts) e =
     sbind (make_label e) (\<lambda>l e. sbind (make_labels insts e) (\<lambda>ls e. (Ok ((i_guest_rip inst, l) # ls), e)))"

definition with_target :: "(u64 \<times> label) list \<Rightarrow> inst \<Rightarrow> (label \<Rightarrow> block_error em) \<Rightarrow> block_error em" where
  "with_target labels inst f = with_rel inst (\<lambda>rel.
     let target_rip = next_rip inst + rel in
     case find_label labels target_rip of
       None \<Rightarrow> em_fail (BE_TargetOutOfBlock (i_guest_rip inst) target_rip)
     | Some target \<Rightarrow> f target)"

definition translate_inst :: "(u64 \<times> label) list \<Rightarrow> inst \<Rightarrow> block_error em" where
  "translate_inst labels inst =
     (case i_op inst of
        OpFlow (F_Jcc c) \<Rightarrow> with_target labels inst (\<lambda>target.
          case cond_x86_to_a64 c of
            None \<Rightarrow> em_fail BE_UnsupportedCondition
          | Some a64_cond \<Rightarrow> b_cond a64_cond target)
      | OpFlow F_Jmp \<Rightarrow> with_target labels inst em_b
      | _ \<Rightarrow> (\<lambda>e. map_err BE_Lift (lift False inst e)))"

primrec translate_insts :: "(u64 \<times> label) list \<Rightarrow> (inst \<times> label) list \<Rightarrow> block_error em" where
  "translate_insts labels [] e = (Ok (), e)"
| "translate_insts labels (p # ps) e =
     sbind (bind_label (snd p) e) (\<lambda>_ e.
     sbind (translate_inst labels (fst p) e) (\<lambda>_. translate_insts labels ps))"

definition translate_with_stack :: "bytes \<Rightarrow> u64 \<Rightarrow> u64 option \<Rightarrow> (op \<Rightarrow> bool) \<Rightarrow> (block_error, block) outcome" where
  "translate_with_stack bytes start_rip stack_top is_terminator =
     (let m = map_err BE_Decode (decode_insts is_terminator (Decoder_new bytes start_rip) [])
      in obind (fst m) (\<lambda>insts.
        fst (sbind ((case stack_top of
                       None \<Rightarrow> seq []
                     | Some sp \<Rightarrow> seq [stp64_pre X19 20 SP (- 16), load_const64 X19 sp]) new_emitter) (\<lambda>_ e.
             sbind (make_labels insts e) (\<lambda>labels e.
             sbind (translate_insts labels (zip insts (map snd labels)) e) (\<lambda>_ e.
             sbind (map_err BE_Finish (finish e)) (\<lambda>_ e.
               (Ok \<lparr>host_bytes = em_bytes e, guest_len = d_pos (snd m), chain_patches = []\<rparr>, e))))))))"

definition translate :: "bytes \<Rightarrow> u64 \<Rightarrow> (op \<Rightarrow> bool) \<Rightarrow> (block_error, block) outcome" where
  "translate bytes start_rip is_terminator = translate_with_stack bytes start_rip None is_terminator"

end
