(* ===== verification/Lifter_Gaps.thy ===== *)
theory Lifter_Gaps
  imports Lifter_Correct
begin

text \<open>
  Where the emitted code and the x86 instruction part. For each, the exact effect of the emitted code
  is proved as a simulation of another step, and the two steps are compared: \<open>ADD\<close> leaves the carry
  complemented, \<open>AND\<close>, \<open>OR\<close>, \<open>XOR\<close> leave the flags alone, \<open>TEST\<close> sets CF, \<open>CDQ\<close> shifts by 3
  instead of 31, \<open>PUSH RSP\<close> pushes the decremented RSP, a 32-bit \<open>CMP\<close> takes its flags from 64 bits.
\<close>

section \<open>Addition\<close>

definition flip_cf :: "x86 \<Rightarrow> x86" where
  "flip_cf st = st\<lparr>x_cf := \<not> x_cf st\<rparr>"

lemma add_flags_B8 [simp]: "add_flags_at B8 a b = add_flags a b"
proof -
  have "signed_take_bit 63 (sint x) = sint x" for x :: u64
    by (simp add: sint_uint)
  moreover have "take_bit 64 x = x" for x :: u64
    using take_bit_length_eq [of x] by simp
  ultimately show ?thesis by (simp add: add_flags_at_def add_flags_def fun_eq_iff)
qed

text \<open>
  C29: \<open>ADD\<close> on 64-bit operands (register with register, immediate or memory, memory with register)
  computes the sum, ZF, SF and OF of the x86 instruction, and leaves CF complemented: the host carry
  after \<open>ADDS\<close> is the x86 carry, while the condition mapping reads the host carry as not-CF.
\<close>

theorem add_complements_carry:
  assumes "i_op inst = Op_Add" "operand_at inst 0 = Some a" "operand_at inst 1 = Some b" "alu_ok a b"
  shows "simulates (lift legacy32 inst) (\<lambda>st. flip_cf (x86_step inst st))"
proof -
  have w: "op_width a = B8" using assms(4) by (cases a) (auto simp: alu_ok_def mem_ok_not)
  have n: "op_n inst 0 = a" "op_n inst (Suc 0) = b"
    using op_n_eq [OF assms(2)] op_n_eq [OF assms(3)] by simp_all
  from arith_simulates [OF assms(2,3,4), of AK_Add] show ?thesis
    by (simp add: lift_groups assms(1) step_defs n w flip_cf_def arith_flags_def arith_res_def)
qed

text \<open>\<open>ADD RAX, 1\<close>\<close>

definition add_imm_inst :: inst where
  "add_imm_inst = \<lparr>i_op = Op_Add, i_operands = [Some (Reg Rax B8), Some (Imm 1 B8), None], i_len = 4,
     i_guest_rip = 0x1000\<rparr>"

theorem add_complements_carry_witness:
  "simulates (lift False add_imm_inst) (\<lambda>st. flip_cf (x86_step add_imm_inst st))"
  by (rule add_complements_carry [of _ "Reg Rax B8" "Imm 1 B8"])
    (simp_all add: add_imm_inst_def operand_at_def alu_ok_def src_ok_def imm_ok_def)

section \<open>Logical operations\<close>

definition logic_res :: "logic_op \<Rightarrow> u64 \<Rightarrow> u64 \<Rightarrow> u64" where
  "logic_res l a b = (case l of L_And \<Rightarrow> a AND b | L_Or \<Rightarrow> a OR b | _ \<Rightarrow> a XOR b)"

definition keep_flags :: "x86 \<Rightarrow> x86 \<Rightarrow> x86" where
  "keep_flags st st' = st'\<lparr>x_zf := x_zf st, x_sf := x_sf st, x_of := x_of st, x_cf := x_cf st\<rparr>"

lemma sem_logic_rr:
  assumes "rd < 31" "ra < 32" "rb < 32"
  shows "sem (emit_bitop_rr BO_And rd ra rb B8) (\<lambda>s. wx rd (rx s ra AND rx s rb) s)"
    "sem (emit_bitop_rr BO_Or rd ra rb B8) (\<lambda>s. wx rd (rx s ra OR rx s rb) s)"
    "sem (emit_xor_rr rd ra rb B8) (\<lambda>s. wx rd (rx s ra XOR rx s rb) s)"
  using sem_two [OF sem_and64 [of rd ra rb] sem_mask_if_b4 [of rd B8]]
    sem_two [OF sem_orr64 [of rd ra rb] sem_mask_if_b4 [of rd B8]] sem_eor64 [of rd ra rb] assms gpr_less
  by (simp_all add: emit_bitop_rr_def emit_xor_rr_def del: seq.simps)

text \<open>
  \<open>AND\<close>, \<open>OR\<close> and \<open>XOR\<close> of two 64-bit registers put the right value into the destination, also
  when the two registers are the same and \<open>XOR\<close> becomes a move of zero, but the emitted code does not
  touch the flags: the guest keeps the flags it had before.
\<close>

theorem logic_keeps_flags:
  assumes "l \<in> {L_And, L_Or, L_Xor}" "i_op inst = OpLogic l"
    "operand_at inst 0 = Some (Reg rd B8)" "operand_at inst 1 = Some (Reg rs B8)"
  shows "simulates (lift legacy32 inst) (\<lambda>st. keep_flags st (x86_step inst st))"
proof -
  have n: "op_n inst 0 = Reg rd B8" "op_n inst (Suc 0) = Reg rs B8"
    using op_n_eq [OF assms(3)] op_n_eq [OF assms(4)] by simp_all
  have "simulates (lift legacy32 inst) (\<lambda>st. set_gpr rd (logic_res l (gpr st rd) (gpr st rs)) st)"
  proof (cases "l = L_Xor \<and> rd = rs")
    case True
    have "simulates (movz64 (host_reg rs) 0 0 :: lift) (\<lambda>st. set_gpr rs 0 st)"
      by (rule simulatesI, rule sem_movz64_0) simp_all
    with True show ?thesis
      unfolding lift_groups assms(2) op.case logic_op.case lift_xor_def with_two [OF assms(3,4)]
      by (simp add: logic_res_def lift_xor_def with_two [OF assms(3,4)])
  next
    case False
    have "simulates (emit_bitop_rr BO_And (host_reg rd) (host_reg rd) (host_reg rs) B8 :: lift)
        (\<lambda>st. set_gpr rd (gpr st rd AND gpr st rs) st)"
      "simulates (emit_bitop_rr BO_Or (host_reg rd) (host_reg rd) (host_reg rs) B8 :: lift)
        (\<lambda>st. set_gpr rd (gpr st rd OR gpr st rs) st)"
      "simulates (emit_xor_rr (host_reg rd) (host_reg rd) (host_reg rs) B8 :: lift)
        (\<lambda>st. set_gpr rd (gpr st rd XOR gpr st rs) st)"
      by (rule simulatesI, rule sem_logic_rr; simp)+
    with False assms(1) show ?thesis
      unfolding lift_groups assms(2) op.case lift_xor_def lift_bitop_def with_two [OF assms(3,4)]
      by (auto simp: logic_res_def Let_def)
  qed
  then show ?thesis
    by (rule simulates_eq)
      (use assms(1) in \<open>auto simp: step_defs assms(2) n logic_res_def keep_flags_def logic_flags_at_def
        write_reg_at set_gpr_def\<close>)
qed

definition and_inst :: inst where
  "and_inst = \<lparr>i_op = Op_And, i_operands = [Some (Reg Rax B8), Some (Reg Rcx B8), None], i_len = 3, i_guest_rip = 0\<rparr>"

theorem logic_keeps_flags_witness:
  "simulates (lift False and_inst) (\<lambda>st. keep_flags st (x86_step and_inst st))"
  by (rule logic_keeps_flags [of L_And _ Rax Rcx]) (simp_all add: and_inst_def operand_at_def)

section \<open>Instructions with another effect\<close>

definition test_inst :: inst where
  "test_inst = \<lparr>i_op = Op_Test, i_operands = [Some (Reg Rax B8), Some (Reg Rax B8), None], i_len = 3, i_guest_rip = 0\<rparr>"

definition cdq_inst :: inst where
  "cdq_inst = \<lparr>i_op = Op_Cdq, i_operands = [None, None, None], i_len = 1, i_guest_rip = 0\<rparr>"

definition push_rsp_inst :: inst where
  "push_rsp_inst = \<lparr>i_op = Op_Push, i_operands = [Some (Reg Rsp B8), None, None], i_len = 1, i_guest_rip = 0\<rparr>"

definition cmp32_inst :: inst where
  "cmp32_inst = \<lparr>i_op = Op_Cmp, i_operands = [Some (Reg Rax B4), Some (Reg Rcx B4), None], i_len = 2, i_guest_rip = 0\<rparr>"

text \<open>A guest state with one register set.\<close>

definition with_reg :: "gp_reg \<Rightarrow> u64 \<Rightarrow> x86" where
  "with_reg r v = \<lparr>gpr = (\<lambda>_. 0)(r := v), x_zf = False, x_sf = False, x_of = False, x_cf = False,
     gs_base = 0, fs_base = 0, gmem = (\<lambda>_. 0)\<rparr>"

text \<open>\<open>TEST RAX, RAX\<close> computes ZF, SF, OF but always sets CF, where x86 clears it.\<close>

lemma test_sets_carry:
  "simulates (lift legacy32 test_inst) (\<lambda>st. (x86_step test_inst st)\<lparr>x_cf := True\<rparr>)"
  "\<not> x_cf (x86_step test_inst st)"
proof -
  have "simulates (ands64 31 0 0 :: lift) (\<lambda>st. (logic_flags_at B8 (gpr st Rax) st)\<lparr>x_cf := True\<rparr>)"
    by (rule simulatesI, rule sem_ands64)
      (simp_all add: guest_def set_flags_def logic_flags_at_def rx_def keeps_host_def take_bit_length_eq [of "_ :: u64", simplified])
  then show "simulates (lift legacy32 test_inst) (\<lambda>st. (x86_step test_inst st)\<lparr>x_cf := True\<rparr>)"
    by (simp add: test_inst_def lift_groups lift_test_def with_operand_def operand_at_def step_defs op_n_def)
  show "\<not> x_cf (x86_step test_inst st)"
    by (simp add: test_inst_def step_defs op_n_def operand_at_def logic_flags_at_def)
qed

text \<open>\<open>CDQ\<close> with EAX = 8: the second word of the emitted code is \<open>ASR #3\<close>, so EDX becomes 1 instead of 0.\<close>

definition cdq_emitted :: "x86 \<Rightarrow> x86" where
  "cdq_emitted st = set_gpr Rdx (take_bit 32 (signed_take_bit 60 (drop_bit 3 (signed_take_bit 31 (gpr st Rax))))) st"

lemma cdq_shifts_by_3:
  "simulates (lift legacy32 cdq_inst) cdq_emitted"
  "gpr (cdq_emitted (with_reg Rax 8)) Rdx = 1" "gpr (x86_step cdq_inst (with_reg Rax 8)) Rdx = 0"
proof -
  have asr: "sem (raw_word (0x9343FC00 OR push_bit 5 (ucast (2 :: reg)) OR ucast (2 :: reg)))
     (\<lambda>s. wx 2 (signed_take_bit 60 (drop_bit 3 (rx s 2))) s)"
    unfolding raw_word_def
    by (rule sem_push [where i = "I_Sbfm 3 63 2 2"]) (simp_all add: a64_dec ifield_simps bfm_ok_def)
  have "simulates lift_cdq cdq_emitted"
    unfolding lift_cdq_def Let_def host_reg.simps
    by (rule simulatesI, rule sem_Cons [OF sem_sxt(4) sem_two [OF asr sem_and_imm(1)]])
      (simp_all add: cdq_emitted_def set_gpr_def)
  then show "simulates (lift legacy32 cdq_inst) cdq_emitted"
    by (simp add: cdq_inst_def lift_groups)
  show "gpr (cdq_emitted (with_reg Rax 8)) Rdx = 1"
    by (simp add: cdq_emitted_def with_reg_def)
  show "gpr (x86_step cdq_inst (with_reg Rax 8)) Rdx = 0"
    by (simp add: cdq_inst_def step_defs with_reg_def write_reg_at set_gpr_def bit_numeral_rec)
qed

text \<open>\<open>PUSH RSP\<close> stores RSP after the decrement; x86 stores the value it had before.\<close>

lemma push_rsp_stores_new_rsp:
  "simulates (lift legacy32 push_rsp_inst) (\<lambda>st. set_gpr Rsp (gpr st Rsp - 8)
     (st\<lparr>gmem := store_le (gpr st Rsp - 8) 8 (unat (gpr st Rsp - 8)) (gmem st)\<rparr>))"
  "x86_step push_rsp_inst st = set_gpr Rsp (gpr st Rsp - 8)
     (st\<lparr>gmem := store_le (gpr st Rsp - 8) 8 (unat (gpr st Rsp)) (gmem st)\<rparr>)"
proof -
  have "simulates (seq [sub64_imm 19 19 8, str64 19 19 0] :: lift) (\<lambda>st. set_gpr Rsp (gpr st Rsp - 8)
     (st\<lparr>gmem := store_le (gpr st Rsp - 8) 8 (unat (gpr st Rsp - 8)) (gmem st)\<rparr>))"
    by (rule simulatesI, rule sem_two [OF stack_moves(1) push_sem]) (simp_all add: amem_guest)
  then show "simulates (lift legacy32 push_rsp_inst) (\<lambda>st. set_gpr Rsp (gpr st Rsp - 8)
     (st\<lparr>gmem := store_le (gpr st Rsp - 8) 8 (unat (gpr st Rsp - 8)) (gmem st)\<rparr>))"
    by (simp add: push_rsp_inst_def lift_groups lift_push_def with_operand_def operand_at_def del: seq.simps)
  show "x86_step push_rsp_inst st = set_gpr Rsp (gpr st Rsp - 8)
     (st\<lparr>gmem := store_le (gpr st Rsp - 8) 8 (unat (gpr st Rsp)) (gmem st)\<rparr>)"
    by (simp add: push_rsp_inst_def step_defs op_n_def operand_at_def)
qed

text \<open>
  \<open>CMP EAX, ECX\<close> compares the 64-bit registers. With EAX = FFFFFFFF and ECX = 0 the x86 result is
  negative and "less" holds; the emitted comparison says "not less".
\<close>

lemma cmp32_compares_64_bits:
  "simulates (lift legacy32 cmp32_inst) (\<lambda>st. sub_flags (gpr st Rax) (gpr st Rcx) st)"
  "\<not> x_cond Cond_L (sub_flags 0xFFFFFFFF 0 st)"
  "x_cond Cond_L (x86_step cmp32_inst (with_reg Rax 0xFFFFFFFF))"
proof -
  have "simulates (cmp64 0 1 :: lift) (\<lambda>st. sub_flags (gpr st Rax) (gpr st Rcx) st)"
    using simulatesI [OF sem_cmp64 [of "host_reg Rax" "host_reg Rcx"], of "\<lambda>st. sub_flags (gpr st Rax) (gpr st Rcx) st"]
    by (simp del: guest_pinned guest_rx_host add: guest_rx_host [of _ Rax, simplified] guest_rx_host [of _ Rcx, simplified])
  then show "simulates (lift legacy32 cmp32_inst) (\<lambda>st. sub_flags (gpr st Rax) (gpr st Rcx) st)"
    by (simp add: cmp32_inst_def lift_groups lift_cmp_def with_operand_def operand_at_def)
  show "\<not> x_cond Cond_L (sub_flags 0xFFFFFFFF 0 st)"
    by (simp add: x_cond_def sub_flags_def bit_numeral_rec)
  show "x_cond Cond_L (x86_step cmp32_inst (with_reg Rax 0xFFFFFFFF))"
    by (simp add: x_cond_def cmp32_inst_def step_defs op_n_def operand_at_def with_reg_def sub_flags_at_def
        bit_numeral_rec)
qed

text \<open>
  C30: the code emitted for four instructions has an effect other than the instruction's: \<open>CDQ\<close> shifts by
  3 instead of 31 (EAX = 8 gives EDX = 1), \<open>TEST\<close> sets CF instead of clearing it, \<open>PUSH RSP\<close> stores the
  decremented RSP, and \<open>CMP\<close> of 32-bit registers takes the flags of the 64-bit difference, so that
  FFFFFFFF is not less than 0.
\<close>

theorem lift_deviations:
  "simulates (lift legacy32 cdq_inst) cdq_emitted \<and>
     gpr (cdq_emitted (with_reg Rax 8)) Rdx \<noteq> gpr (x86_step cdq_inst (with_reg Rax 8)) Rdx \<and>
   simulates (lift legacy32 test_inst) (\<lambda>st. (x86_step test_inst st)\<lparr>x_cf := True\<rparr>) \<and>
     \<not> x_cf (x86_step test_inst st) \<and>
   simulates (lift legacy32 push_rsp_inst) (\<lambda>st. set_gpr Rsp (gpr st Rsp - 8)
     (st\<lparr>gmem := store_le (gpr st Rsp - 8) 8 (unat (gpr st Rsp - 8)) (gmem st)\<rparr>)) \<and>
   x86_step push_rsp_inst st = set_gpr Rsp (gpr st Rsp - 8)
     (st\<lparr>gmem := store_le (gpr st Rsp - 8) 8 (unat (gpr st Rsp)) (gmem st)\<rparr>) \<and>
   simulates (lift legacy32 cmp32_inst) (\<lambda>st. sub_flags (gpr st Rax) (gpr st Rcx) st) \<and>
   \<not> x_cond Cond_L (sub_flags 0xFFFFFFFF 0 st) \<and> x_cond Cond_L (x86_step cmp32_inst (with_reg Rax 0xFFFFFFFF))"
  using cdq_shifts_by_3 test_sets_carry push_rsp_stores_new_rsp cmp32_compares_64_bits by simp

end
