(* ===== verification/Block_Correct.thy ===== *)
theory Block_Correct
  imports Block Lifter_Gaps
begin

text \<open>
  Correctness of block translation: calling the code of a block with a context in X0 runs the guest
  instructions on the registers of the context, leaves the resulting registers in the context and
  returns the guest address that follows. \<open>exec_block\<close> runs a word sequence with the branches a block
  contains (\<open>B\<close>, \<open>B.cond\<close>, \<open>RET\<close>), all of which go forward.
\<close>

section \<open>Running a block\<close>

definition RET_WORD :: u32 where "RET_WORD = 0xD65F03C0"

text \<open>The distance in words of a branch, when \<open>w\<close> is one.\<close>

definition branch_distance :: "u32 \<Rightarrow> a64 \<Rightarrow> int option" where
  "branch_distance w s =
     (if field 26 6 w = 0b000101 then Some (signed_take_bit 25 (uint (field 0 26 w)))
      else if field 24 8 w = 0b01010100 \<and> field 4 1 w = 0 then
        Some (if cond_holds (unat (field 0 4 w)) s then signed_take_bit 18 (uint (field 5 19 w)) else 1)
      else None)"

function exec_block :: "u32 list \<Rightarrow> a64 \<Rightarrow> a64 option" where
  "exec_block [] s = None"
| "exec_block (w # ws) s =
     (case a64_decode w of
        Some i \<Rightarrow> Option.bind (a64_exec i s) (exec_block ws)
      | None \<Rightarrow>
          if w = RET_WORD then Some s
          else (case branch_distance w s of
                  None \<Rightarrow> None
                | Some k \<Rightarrow> if 1 \<le> k then exec_block (drop (nat (k - 1)) ws) s else None))"
  by pat_completeness auto

termination
  by (relation "measure (\<lambda>(ws, _). length ws)") (auto simp: less_Suc_eq_le)

declare exec_block.simps(2) [simp del]

lemma exec_run: "a64_run ws s = Some s' \<Longrightarrow> exec_block (ws @ rest) s = exec_block rest s'"
  by (induction ws arbitrary: s)
    (auto simp: exec_block.simps(2) a64_step_def bind_eq_Some_conv split: option.splits)

lemma exec_ret: "exec_block (RET_WORD # ws) s = Some s"
  by (simp add: exec_block.simps(2) RET_WORD_def a64_dec ifield_simps)

lemma exec_b_next: "exec_block (0x14000001 # ws) s = exec_block ws s"
proof -
  have "a64_decode 0x14000001 = None" by (simp add: a64_dec ifield_simps)
  moreover have "branch_distance 0x14000001 s = Some 1"
    by (simp add: branch_distance_def ifield_simps)
  ultimately show ?thesis by (simp add: exec_block.simps(2) RET_WORD_def)
qed

section \<open>Memory\<close>

lemma store_bytes_other:
  "(\<And>i. i < length bs \<Longrightarrow> a + of_nat i \<noteq> x) \<Longrightarrow> store_bytes a bs m x = m x"
proof (induction bs arbitrary: a m)
  case (Cons b bs)
  have "a \<noteq> x" using Cons.prems [of 0] by simp
  moreover have "store_bytes (a + 1) bs (m(a := b)) x = (m(a := b)) x"
    by (rule Cons.IH) (use Cons.prems [of "Suc i" for i] in \<open>auto simp: add.assoc\<close>)
  ultimately show ?case by simp
qed simp

lemma of_nat_u64_eq: "i < 2 ^ 64 \<Longrightarrow> j < 2 ^ 64 \<Longrightarrow> (of_nat i :: u64) = of_nat j \<longleftrightarrow> i = j"
  by (auto simp: word_of_nat_eq_iff take_bit_nat_eq_self)

lemma store_bytes_same:
  "length bs < 2 ^ 64 \<Longrightarrow> k < length bs \<Longrightarrow> store_bytes a bs m (a + of_nat k) = bs ! k"
proof (induction bs arbitrary: a m k)
  case (Cons b bs)
  show ?case
  proof (cases k)
    case 0
    have "store_bytes (a + 1) bs (m(a := b)) a = (m(a := b)) a"
    proof (rule store_bytes_other)
      fix i assume "i < length bs"
      then have "(of_nat (Suc i) :: u64) \<noteq> of_nat 0"
        using Cons.prems(1) by (subst of_nat_u64_eq) auto
      then show "a + 1 + of_nat i \<noteq> a" by (simp add: add.assoc)
    qed
    with 0 show ?thesis by simp
  next
    case (Suc k')
    have "store_bytes (a + 1) bs (m(a := b)) (a + 1 + of_nat k') = bs ! k'"
      by (rule Cons.IH) (use Cons.prems Suc in auto)
    with Suc show ?thesis by (simp add: add.assoc)
  qed
qed simp

lemma store_le_other: "(\<And>i. i < n \<Longrightarrow> a + of_nat i \<noteq> x) \<Longrightarrow> store_le a n v m x = m x"
  unfolding store_le_def by (rule store_bytes_other) simp

lemma load_store_same:
  assumes "n < 2 ^ 64"
  shows "load_le (store_le a n v m) a n = v mod 256 ^ n"
proof -
  have "mem_bytes (store_le a n v m) a n = to_le n v"
    using assms by (intro nth_equalityI) (simp_all add: mem_bytes_def store_le_def store_bytes_same)
  then show ?thesis by (simp add: load_le_def from_le_to_le)
qed

lemma load_le_cong: "(\<And>i. i < n \<Longrightarrow> m (a + of_nat i) = m' (a + of_nat i)) \<Longrightarrow> load_le m a n = load_le m' a n"
  unfolding load_le_def mem_bytes_def by (rule arg_cong [where f = from_le]) simp

lemma load_store_u64 [simp]: "load_le (store_le a 8 (unat (v :: u64)) m) a 8 = unat v"
  using load_store_same [of 8 a "unat v" m] unat_u64_less [of v] by simp

section \<open>The register slots of the context\<close>

definition slot :: "gp_reg \<Rightarrow> u64" where
  "slot r = of_nat (8 * unat (gp_index r))"

definition in_ctx :: "u64 \<Rightarrow> u64 \<Rightarrow> bool" where
  "in_ctx ctx a \<longleftrightarrow> (\<exists>k<128. a = ctx + of_nat k)"

lemma gp_index_16: "unat (gp_index r) < 16"
  by (cases r) simp_all

lemma gp_index_inj: "unat (gp_index r) = unat (gp_index q) \<longleftrightarrow> r = q"
  by (cases r; cases q) simp_all

lemma slot_plus: "slot r + of_nat i = of_nat (8 * unat (gp_index r) + i)"
  by (simp add: slot_def)

lemma slot_in_ctx: "i < 8 \<Longrightarrow> in_ctx ctx (ctx + slot r + of_nat i)"
  unfolding in_ctx_def using gp_index_16 [of r]
  by (intro exI [of _ "8 * unat (gp_index r) + i"]) (auto simp: add.assoc slot_plus)

lemma slot_disjoint:
  assumes "r \<noteq> q" "i < 8" "j < 8"
  shows "ctx + slot r + of_nat i \<noteq> ctx + slot q + of_nat j"
proof -
  have "8 * unat (gp_index r) + i \<noteq> 8 * unat (gp_index q) + j"
    using assms gp_index_inj [of r q] by presburger
  then show ?thesis
    using assms gp_index_16 [of r] gp_index_16 [of q]
    by (subst add.assoc, subst add.assoc) (simp add: slot_plus of_nat_u64_eq del: of_nat_add of_nat_mult)
qed

lemma sem_map:
  "(\<And>x. x \<in> set xs \<Longrightarrow> sem (f x) (g x)) \<Longrightarrow> sem (seq (map f xs)) (fold g xs)"
proof (induction xs)
  case Nil
  show ?case using sem_Nil by (simp add: id_def)
next
  case (Cons x xs)
  show ?case unfolding list.map fold.simps comp_def by (rule sem_Cons) (use Cons in auto)
qed

definition load_slot :: "gp_reg \<Rightarrow> a64 \<Rightarrow> a64" where
  "load_slot r s = wx (host_reg r) (of_nat (load_le (amem s) (rx s 28 + slot r) 8)) s"

definition store_slot :: "gp_reg \<Rightarrow> a64 \<Rightarrow> a64" where
  "store_slot r s = s\<lparr>amem := store_le (rx s 28 + slot r) 8 (unat (rx s (host_reg r))) (amem s)\<rparr>"

lemma load_slot_sel [simp]:
  "amem (load_slot r s) = amem s" "spr (load_slot r s) = spr s" "nf (load_slot r s) = nf s"
  "zf (load_slot r s) = zf s" "cf (load_slot r s) = cf s" "vf (load_slot r s) = vf s"
  "xr (load_slot r s) = (xr s)(host_reg r := of_nat (load_le (amem s) (xr s 28 + slot r) 8))"
  by (simp_all add: load_slot_def wx_def rx_def)

lemma store_slot_sel [simp]:
  "xr (store_slot r s) = xr s" "spr (store_slot r s) = spr s"
  "amem (store_slot r s) = store_le (xr s 28 + slot r) 8 (unat (xr s (host_reg r))) (amem s)"
  by (simp_all add: store_slot_def rx_def)

lemma slot_offset: "ucast (8 * ucast (gp_index r) :: u32) = slot r" "8 * ucast (gp_index r) < (32768 :: u32)"
  "8 * ucast (gp_index r) mod 8 = (0 :: u32)"
  by (cases r; simp add: slot_def)+

lemma ctx_code_eq:
  "(emit_ctx_to_regs :: 'e em) = seq (map (\<lambda>r. ldr64 (host_reg r) 28 (8 * ucast (gp_index r))) gp_regs)"
  "(emit_regs_to_ctx :: 'e em) = seq (map (\<lambda>r. str64 (host_reg r) 28 (8 * ucast (gp_index r))) gp_regs)"
  by (simp_all add: emit_ctx_to_regs_def emit_regs_to_ctx_def gp_regs_def del: seq.simps)

lemma sem_ctx_to_regs: "sem (emit_ctx_to_regs :: 'e em) (fold load_slot gp_regs)"
  unfolding ctx_code_eq
  by (rule sem_map, rule sem_weaken, rule sem_ldr64) (simp_all add: load_slot_def slot_offset)

lemma sem_regs_to_ctx: "sem (emit_regs_to_ctx :: 'e em) (fold store_slot gp_regs)"
  unfolding ctx_code_eq
  by (rule sem_map, rule sem_weaken, rule sem_str64) (simp_all add: store_slot_def slot_offset)

lemma gp_regs_all: "set gp_regs = UNIV" "distinct gp_regs"
proof -
  have "r \<in> set gp_regs" for r by (cases r) (simp_all add: gp_regs_def)
  then show "set gp_regs = UNIV" by auto
qed (simp add: gp_regs_def)

lemma fold_load_slot:
  "amem (fold load_slot rs s) = amem s" "spr (fold load_slot rs s) = spr s"
  "nf (fold load_slot rs s) = nf s" "zf (fold load_slot rs s) = zf s"
  "cf (fold load_slot rs s) = cf s" "vf (fold load_slot rs s) = vf s"
  "q \<notin> host_reg ` set rs \<Longrightarrow> xr (fold load_slot rs s) q = xr s q"
  by (induction rs arbitrary: s) simp_all

lemma fold_load_slot_reg:
  "r \<in> set rs \<Longrightarrow> xr (fold load_slot rs s) (host_reg r) = of_nat (load_le (amem s) (xr s 28 + slot r) 8)"
proof (induction rs arbitrary: s)
  case (Cons q rs)
  show ?case
  proof (cases "r \<in> set rs")
    case True
    with Cons.IH [of "load_slot q s"] show ?thesis by simp
  next
    case False
    with Cons.prems have "r = q" by simp
    moreover have "xr (fold load_slot rs (load_slot r s)) (host_reg r) = xr (load_slot r s) (host_reg r)"
      by (rule fold_load_slot(7)) (use False in auto)
    ultimately show ?thesis by simp
  qed
qed simp

lemma fold_store_slot_regs:
  "xr (fold store_slot rs s) = xr s" "spr (fold store_slot rs s) = spr s"
  by (induction rs arbitrary: s) simp_all

lemma fold_store_slot_other:
  "(\<And>r i. r \<in> set rs \<Longrightarrow> i < 8 \<Longrightarrow> xr s 28 + slot r + of_nat i \<noteq> a) \<Longrightarrow> amem (fold store_slot rs s) a = amem s a"
proof (induction rs arbitrary: s)
  case (Cons q rs)
  have "amem (fold store_slot rs (store_slot q s)) a = amem (store_slot q s) a"
    by (rule Cons.IH) (use Cons.prems in auto)
  also have "\<dots> = amem s a"
    using Cons.prems [of q] by (simp add: store_le_other)
  finally show ?case by simp
qed simp

lemma fold_store_slot_reg:
  "distinct rs \<Longrightarrow> r \<in> set rs \<Longrightarrow>
   load_le (amem (fold store_slot rs s)) (xr s 28 + slot r) 8 = unat (xr s (host_reg r))"
proof (induction rs arbitrary: s)
  case (Cons q rs)
  show ?case
  proof (cases "r = q")
    case True
    have "load_le (amem (fold store_slot rs (store_slot r s))) (xr s 28 + slot r) 8 =
        load_le (amem (store_slot r s)) (xr s 28 + slot r) 8"
    proof (rule load_le_cong, rule fold_store_slot_other)
      fix i p j assume "i < (8 :: nat)" "p \<in> set rs" "j < (8 :: nat)"
      then show "xr (store_slot r s) 28 + slot p + of_nat j \<noteq> xr s 28 + slot r + of_nat i"
        using slot_disjoint [of p r j i "xr s 28"] Cons.prems True by auto
    qed
    with True show ?thesis by simp
  next
    case False
    with Cons.IH [of "store_slot q s"] Cons.prems show ?thesis by simp
  qed
qed simp

section \<open>Entry\<close>

text \<open>
  The memory after the prologue has saved X29, X30, X19, X28, X24 and X25 below the stack pointer, and the
  guest state it has loaded from the context.
\<close>

definition saved_regs :: "(reg \<times> u64) list" where
  "saved_regs = [(29, 16), (30, 8), (19, 32), (28, 24), (24, 48), (25, 40)]"

definition frame_mem :: "a64 \<Rightarrow> u64 \<Rightarrow> u8" where
  "frame_mem s = fold (\<lambda>(r, d). store_le (spr s - d) 8 (unat (xr s r))) saved_regs (amem s)"

definition entry_state :: "a64 \<Rightarrow> x86" where
  "entry_state s = (let m = frame_mem s; ctx = xr s 0; read = (\<lambda>d. of_nat (load_le m (ctx + d) 8)) in
     \<lparr>gpr = (\<lambda>r. read (slot r)), x_zf = zf s, x_sf = nf s, x_of = vf s, x_cf = (\<not> cf s),
      gs_base = read 144, fs_base = read 152, gmem = m\<rparr>)"

lemma sem_push_frame:
  "sem (seq [stp64_pre 29 30 31 (- 16), stp64_pre 19 28 31 (- 16), stp64_pre 24 25 31 (- 16)])
     (\<lambda>s. s\<lparr>amem := frame_mem s, spr := spr s - 48\<rparr>)"
proof -
  have "sem (stp64_pre r q 31 (- 16) :: 'e em) (\<lambda>s. s\<lparr>amem := store_le (spr s - 8) 8 (unat (xr s q))
      (store_le (spr s - 16) 8 (unat (xr s r)) (amem s)), spr := spr s - 16\<rparr>)" if "r < 31" "q < 31" for r q
    by (rule sem_weaken, rule sem_stp64_pre)
      (use that gpr_less rd31 in \<open>auto simp: Let_def wxsp_def rxsp_def rx_def\<close>)
  note stp = this
  show ?thesis
    by (rule sem_weaken, (rule sem_Cons [OF stp] sem_Nil | simp)+)
      (simp add: frame_mem_def saved_regs_def)
qed

lemma sem_append: "sem (seq ms) g \<Longrightarrow> sem (seq ns) h \<Longrightarrow> sem (seq (ms @ ns)) (\<lambda>s. h (g s))"
proof -
  have "seq (ms @ ns) = seq [seq ms, seq ns]"
    by (rule ext) (simp only: seq_append seq.simps(2) [of _ "[_]"] seq_single)
  then show "sem (seq ms) g \<Longrightarrow> sem (seq ns) h \<Longrightarrow> sem (seq (ms @ ns)) (\<lambda>s. h (g s))"
    by (simp only: sem_two)
qed

lemma sem_dispatcher_prologue:
  "\<exists>g. sem (dispatcher_prologue :: 'e em) g \<and>
     (\<forall>s. guest (g s) = entry_state s \<and> spr (g s) = spr s - 48 \<and> xr (g s) 28 = xr s 0)"
proof -
  let ?load = "\<lambda>r d s. wx r (of_nat (load_le (amem s) (xr s 28 + d) 8)) s"
  let ?g = "\<lambda>s. ?load 25 152 (?load 24 144 (fold load_slot gp_regs
      (wx 28 (rx s 0) s)))"
  have split: "dispatcher_prologue = (seq ([stp64_pre 29 30 31 (- 16), stp64_pre 19 28 31 (- 16),
       stp64_pre 24 25 31 (- 16)] @ [mov64 28 0, emit_ctx_to_regs, ldr64 24 28 144, ldr64 25 28 152]) :: 'e em)"
    by (simp add: dispatcher_prologue_def del: seq.simps)
  have "sem (seq [mov64 28 0, emit_ctx_to_regs, ldr64 24 28 144, ldr64 25 28 152] :: 'e em) ?g"
    by (rule sem_weaken, (rule sem_Cons [OF sem_mov64] sem_Cons [OF sem_ctx_to_regs] sem_Cons [OF sem_ldr64] sem_Nil
        | (simp; fail))+) (simp add: rxsp_def)
  then have "sem (dispatcher_prologue :: 'e em) (\<lambda>s. ?g (s\<lparr>amem := frame_mem s, spr := spr s - 48\<rparr>))"
    unfolding split by (rule sem_append [OF sem_push_frame])
  moreover have "guest (?g (s\<lparr>amem := m, spr := p\<rparr>)) = entry_state s \<and> spr (?g (s\<lparr>amem := m, spr := p\<rparr>)) = p \<and>
      xr (?g (s\<lparr>amem := m, spr := p\<rparr>)) 28 = xr s 0" if "m = frame_mem s" for s m p
    using that
    by (simp add: Let_def guest_def entry_state_def wx_def rx_def fold_load_slot fold_load_slot_reg gp_regs_all image_iff)
  ultimately show ?thesis by blast
qed

section \<open>Exits\<close>

text \<open>
  What the caller of a block finds when it returns, for a context at \<open>ctx\<close> and the stack pointer \<open>sp\<close> of
  the call: the next guest address in X0, the guest registers in the context, the guest flags in the host
  flags, the rest of memory as the guest left it, and in the callee-saved registers what the frame below
  \<open>sp\<close> holds for them.
\<close>

definition exit_ok :: "u64 \<Rightarrow> u64 \<Rightarrow> u64 \<times> x86 \<Rightarrow> a64 \<Rightarrow> bool" where
  "exit_ok ctx sp p s' \<longleftrightarrow> (case p of (rip, st) \<Rightarrow>
     xr s' 0 = rip \<and> spr s' = sp \<and>
     (\<forall>r. load_le (amem s') (ctx + slot r) 8 = unat (gpr st r)) \<and>
     (\<forall>a. \<not> in_ctx ctx a \<longrightarrow> amem s' a = gmem st a) \<and>
     zf s' = x_zf st \<and> nf s' = x_sf st \<and> vf s' = x_of st \<and> cf s' = (\<not> x_cf st) \<and>
     (\<forall>(r, d) \<in> set saved_regs. xr s' r = of_nat (load_le (amem s') (sp - d) 8)))"

definition runs :: "'e em \<Rightarrow> (a64 \<Rightarrow> a64) \<Rightarrow> bool" where
  "runs f g \<longleftrightarrow> (\<exists>ws. emits f ws \<and> (\<forall>s rest. exec_block (ws @ rest) s = exec_block rest (g s)))"

definition exits :: "(emitter \<Rightarrow> ('e, 'a) outcome \<times> emitter) \<Rightarrow> (a64 \<Rightarrow> u64 \<times> x86) \<Rightarrow> bool" where
  "exits f F \<longleftrightarrow> (\<exists>ws. (\<forall>e. \<exists>v. f e = (Ok v, e\<lparr>em_code := em_code e @ ws\<rparr>)) \<and>
     (\<forall>s rest. \<exists>s'. exec_block (ws @ rest) s = Some s' \<and> exit_ok (xr s 28) (spr s + 48) (F s) s'))"

lemma sem_runs: "sem f g \<Longrightarrow> runs f g"
  unfolding sem_def runs_def using exec_run by blast

lemma runs_placeholder: "runs (raw_word 0x14000001) (\<lambda>s. s)"
  unfolding runs_def emits_def
  by (rule exI [of _ "[0x14000001]"]) (simp add: raw_word_def push_def exec_b_next)

lemma runs_two: "runs m g \<Longrightarrow> runs n h \<Longrightarrow> runs (seq [m, n]) (\<lambda>s. h (g s))"
  unfolding runs_def
proof (elim exE conjE)
  fix ws ws' assume "emits m ws" "emits n ws'" and
    run: "\<forall>s rest. exec_block (ws @ rest) s = exec_block rest (g s)" "\<forall>s rest. exec_block (ws' @ rest) s = exec_block rest (h s)"
  then have "emits (seq [m, n]) (ws @ ws')" using emits_Cons [of m ws "[n]" ws'] by (simp only: seq_single)
  with run show "\<exists>ws. emits (seq [m, n]) ws \<and> (\<forall>s rest. exec_block (ws @ rest) s = exec_block rest (h (g s)))"
    by (intro exI [of _ "ws @ ws'"]) simp
qed

lemma exits_pre:
  assumes "runs f g" "exits m F" "\<And>s. spr (g s) = spr s" "\<And>s. xr (g s) 28 = xr s 28"
  shows "exits (\<lambda>e. sbind (f e) (\<lambda>_. m)) (\<lambda>s. F (g s))"
proof -
  obtain ws where f: "emits f ws" "\<And>s rest. exec_block (ws @ rest) s = exec_block rest (g s)"
    using assms(1) by (auto simp: runs_def)
  obtain ws' where m: "\<And>e. \<exists>v. m e = (Ok v, e\<lparr>em_code := em_code e @ ws'\<rparr>)"
    "\<And>s rest. \<exists>s'. exec_block (ws' @ rest) s = Some s' \<and> exit_ok (xr s 28) (spr s + 48) (F s) s'"
    using assms(2) by (auto simp: exits_def)
  have "\<exists>v. sbind (f e) (\<lambda>_. m) = (Ok v, e\<lparr>em_code := em_code e @ ws @ ws'\<rparr>)" for e
    using f(1) m(1) [of "e\<lparr>em_code := em_code e @ ws\<rparr>"] by (auto simp: emits_def)
  moreover have "\<exists>s'. exec_block ((ws @ ws') @ rest) s = Some s' \<and> exit_ok (xr s 28) (spr s + 48) (F (g s)) s'" for s rest
    using m(2) [of rest "g s"] assms(3,4) [of s] by (simp add: f(2))
  ultimately show ?thesis unfolding exits_def by blast
qed

definition host_pops :: "a64 \<Rightarrow> a64" where
  "host_pops s = (let ld = (\<lambda>d. of_nat (load_le (amem s) (spr s + d) 8)) in
     s\<lparr>spr := spr s + 48, xr := (xr s)(24 := ld 0, 25 := ld 8, 19 := ld 16, 28 := ld 24, 29 := ld 32, 30 := ld 40)\<rparr>)"

lemma sem_host_pops:
  "sem (seq [ldp64_post 24 25 31 16, ldp64_post 19 28 31 16, ldp64_post 29 30 31 16] :: 'e em) host_pops"
proof -
  have "sem (ldp64_post r q 31 16 :: 'e em) (\<lambda>s. s\<lparr>spr := spr s + 16, xr := (xr s)(r := of_nat (load_le (amem s) (spr s) 8),
      q := of_nat (load_le (amem s) (spr s + 8) 8))\<rparr>)" if "r < 31" "q < 31" for r q
    by (rule sem_weaken, rule sem_ldp64_post)
      (use that gpr_less rd31 in \<open>auto simp: Let_def wxsp_def rxsp_def wx_def\<close>)
  note ldp = this
  show ?thesis
    by (rule sem_weaken, (rule sem_Cons [OF ldp] sem_Nil | (simp; fail))+)
      (simp add: host_pops_def Let_def add.assoc)
qed

lemma emits_em_ret: "emits (em_ret :: 'e em) [RET_WORD]"
  by (simp add: emits_def em_ret_def em_ret_to_def push_def RET_WORD_def)

lemma host_epilogue_exec:
  "\<exists>ws. emits (emit_host_epilogue :: 'e em) ws \<and> (\<forall>s rest. exec_block (ws @ rest) s = Some (host_pops s))"
proof -
  obtain ws where ws: "emits (seq [ldp64_post 24 25 31 16, ldp64_post 19 28 31 16, ldp64_post 29 30 31 16] :: 'e em) ws"
    "\<And>s. a64_run ws s = Some (host_pops s)"
    using sem_host_pops by (auto simp: sem_def)
  have "(emit_host_epilogue :: 'e em) e = (Ok (), e\<lparr>em_code := em_code e @ ws @ [RET_WORD]\<rparr>)" for e
  proof -
    have "(emit_host_epilogue :: 'e em) e =
        sbind (seq [ldp64_post 24 25 31 16, ldp64_post 19 28 31 16, ldp64_post 29 30 31 16] e) (\<lambda>_. (em_ret :: 'e em))"
      using seq_append [of "[ldp64_post 24 25 31 16, ldp64_post 19 28 31 16, ldp64_post 29 30 31 16]" "[em_ret :: 'e em]" e]
      unfolding emit_host_epilogue_def seq_single append_Cons append_Nil by simp
    then show ?thesis
      using ws(1) emits_em_ret [where 'e = 'e] unfolding emits_def by simp
  qed
  then show ?thesis
    unfolding emits_def using exec_run [OF ws(2)] by (intro exI [of _ "ws @ [RET_WORD]"]) (simp add: exec_ret)
qed

lemma fold_store_slot_flags:
  "nf (fold store_slot rs s) = nf s" "zf (fold store_slot rs s) = zf s"
  "cf (fold store_slot rs s) = cf s" "vf (fold store_slot rs s) = vf s"
  by (induction rs arbitrary: s) (simp_all add: store_slot_def)

lemma fold_store_slot_ext: "\<exists>m. fold store_slot rs s = s\<lparr>amem := m\<rparr>"
proof (induction rs arbitrary: s)
  case Nil
  show ?case by (rule exI [of _ "amem s"]) simp
next
  case (Cons r rs)
  from Cons.IH [of "store_slot r s"] show ?case by (auto simp: store_slot_def)
qed

lemma exit_ok_pops:
  "exit_ok (xr s 28) (spr s + 48) (v, guest s) (host_pops (wx 0 v (fold store_slot gp_regs s)))"
proof -
  have "load_le (amem (fold store_slot gp_regs s)) (xr s 28 + slot r) 8 = unat (gpr (guest s) r)" for r
    using fold_store_slot_reg [of gp_regs r s] by (simp add: gp_regs_all guest_def)
  moreover have "amem (fold store_slot gp_regs s) a = amem s a" if "\<not> in_ctx (xr s 28) a" for a
    by (rule fold_store_slot_other) (use that slot_in_ctx in blast)
  ultimately show ?thesis
    by (simp add: exit_ok_def host_pops_def wx_def Let_def fold_store_slot_regs fold_store_slot_flags saved_regs_def guest_def
        add.commute [of "spr s"])
qed

lemma exits_tail:
  assumes m: "runs (m :: 'e em) g" and g: "\<And>s. g s = wx 0 (v s) s" and v: "\<And>s m. v (s\<lparr>amem := m\<rparr>) = v s"
  shows "exits (seq [emit_regs_to_ctx, m, emit_host_epilogue]) (\<lambda>s. (v s, guest s))"
proof -
  obtain ws where ws: "emits (seq [emit_regs_to_ctx, m]) ws"
    "\<And>s rest. exec_block (ws @ rest) s = exec_block rest (g (fold store_slot gp_regs s))"
    using runs_two [OF sem_runs [OF sem_regs_to_ctx] m] by (auto simp: runs_def)
  obtain ep where ep: "emits (emit_host_epilogue :: 'e em) ep" "\<And>s rest. exec_block (ep @ rest) s = Some (host_pops s)"
    using host_epilogue_exec [where 'e = 'e] by blast
  have "v (fold store_slot gp_regs s) = v s" for s using fold_store_slot_ext [of gp_regs s] v by metis
  then have "exec_block ((ws @ ep) @ rest) s = Some (host_pops (wx 0 (v s) (fold store_slot gp_regs s)))" for s rest
    by (simp add: ws(2) ep(2) g)
  moreover have "seq [emit_regs_to_ctx, m, emit_host_epilogue] e = (Ok (), e\<lparr>em_code := em_code e @ ws @ ep\<rparr>)" for e
    using seq_append [of "[emit_regs_to_ctx, m]" "[emit_host_epilogue]" e] ws(1) ep(1)
    unfolding emits_def seq_single append_Cons append_Nil by simp
  ultimately show ?thesis unfolding exits_def using exit_ok_pops by (intro exI [of _ "ws @ ep"]) auto
qed

lemma exits_weaken: "exits f F \<Longrightarrow> (\<And>s. F s = G s) \<Longrightarrow> exits f G"
  by (simp add: exits_def)

lemma exits_Cons:
  "runs f g \<Longrightarrow> exits (seq ms) F \<Longrightarrow> (\<And>s. spr (g s) = spr s) \<Longrightarrow> (\<And>s. xr (g s) 28 = xr s 28) \<Longrightarrow>
   exits (seq (f # ms)) (\<lambda>s. F (g s))"
  unfolding seq.simps(2) by (rule exits_pre)

lemma exits_same:
  assumes "exits f F" "\<And>e x e'. f e = (Ok x, e') \<Longrightarrow> \<exists>v. g e = (Ok v, e')"
  shows "exits g F"
proof -
  obtain ws where ws: "\<And>e. \<exists>v. f e = (Ok v, e\<lparr>em_code := em_code e @ ws\<rparr>)"
    "\<forall>s rest. \<exists>s'. exec_block (ws @ rest) s = Some s' \<and> exit_ok (xr s 28) (spr s + 48) (F s) s'"
    using assms(1) by (auto simp: exits_def)
  have "\<exists>v. g e = (Ok v, e\<lparr>em_code := em_code e @ ws\<rparr>)" for e using ws(1) [of e] assms(2) by blast
  with ws(2) show ?thesis unfolding exits_def by blast
qed

lemma exits_no_patches: "exits f F \<Longrightarrow> exits (no_patches f) F"
  by (erule exits_same) (simp add: no_patches_def)

lemma exits_const_rip: "exits (emit_epilogue_const_rip v) (\<lambda>s. (v, guest s))"
  unfolding emit_epilogue_const_rip_def
  by (rule exits_tail [OF sem_runs [OF sem_load_const64]]) simp_all

lemma exits_x16: "exits (seq [emit_regs_to_ctx, mov64 0 16, emit_host_epilogue]) (\<lambda>s. (xr s 16, guest s))"
  by (rule exits_tail [OF sem_runs [OF sem_mov64]]) (simp_all add: rx_def)

lemma exits_chain: "exits (chain_exit t :: _ \<Rightarrow> ('e, _) outcome \<times> _) (\<lambda>s. (t, guest s))"
proof -
  have "exits (seq [emit_regs_to_ctx, seq [raw_word 0x14000001, load_const64 0 t], emit_host_epilogue] :: 'e em)
     (\<lambda>s. (t, guest s))"
    by (rule exits_tail [OF runs_two [OF runs_placeholder sem_runs [OF sem_load_const64]]]) simp_all
  then show ?thesis
    by (rule exits_same) (auto simp: chain_exit_def Let_def sbind_eq_Ok)
qed

definition PLACEHOLDER :: u32 where "PLACEHOLDER = 0x14000001"

lemma length_em_bytes [simp]: "length (em_bytes e) = 4 * length (em_code e)"
proof -
  have "length (concat (map u32_to_le ws)) = 4 * length ws" for ws by (induction ws) simp_all
  then show ?thesis by (simp add: em_bytes_def)
qed

text \<open>A direct exit: spill the registers, the placeholder, then return to the dispatcher.\<close>

lemma chain_exit_parts:
  "\<exists>pre post. (\<forall>e. (chain_exit t e :: ('e, _) outcome \<times> _) =
       (Ok [(of_nat (4 * (length (em_code e) + length pre)), t)], e\<lparr>em_code := em_code e @ pre @ PLACEHOLDER # post\<rparr>)) \<and>
     (\<forall>s. a64_run pre s = Some (fold store_slot gp_regs s)) \<and>
     (\<forall>s rest. \<exists>s'. exec_block (PLACEHOLDER # post @ rest) (fold store_slot gp_regs s) = Some s' \<and>
        exit_ok (xr s 28) (spr s + 48) (t, guest s) s')"
proof -
  obtain pre c ep where w: "emits (emit_regs_to_ctx :: 'e em) pre" "emits (load_const64 0 t :: 'e em) c"
    "emits (emit_host_epilogue :: 'e em) ep" and pre: "\<And>s. a64_run pre s = Some (fold store_slot gp_regs s)"
    using sem_regs_to_ctx [where 'e = 'e] sem_load_const64 [of 0 t, where 'a = 'e] host_epilogue_exec [where 'e = 'e]
    by (auto simp: sem_def)
  have "emits (seq [raw_word 0x14000001, load_const64 0 t, emit_host_epilogue] :: 'e em) (PLACEHOLDER # c @ ep)"
    using w by (simp add: emits_def raw_word_def push_def PLACEHOLDER_def)
  with w(1) have code: "(chain_exit t e :: ('e, _) outcome \<times> _) =
     (Ok [(of_nat (4 * (length (em_code e) + length pre)), t)], e\<lparr>em_code := em_code e @ pre @ PLACEHOLDER # c @ ep\<rparr>)" for e
    unfolding emits_def chain_exit_def Let_def by (simp del: seq.simps of_nat_mult)
  obtain ws where ws: "\<And>e. \<exists>v. (chain_exit t e :: ('e, _) outcome \<times> _) = (Ok v, e\<lparr>em_code := em_code e @ ws\<rparr>)"
    "\<And>s rest. \<exists>s'. exec_block (ws @ rest) s = Some s' \<and> exit_ok (xr s 28) (spr s + 48) (t, guest s) s'"
    using exits_chain [of t, where 'e = 'e] unfolding exits_def by blast
  have "ws = pre @ PLACEHOLDER # c @ ep"
    using ws(1) [of new_emitter] code [of new_emitter] by (auto dest: arg_cong [where f = em_code])
  then have "\<exists>s'. exec_block (PLACEHOLDER # (c @ ep) @ rest) (fold store_slot gp_regs s) = Some s' \<and>
      exit_ok (xr s 28) (spr s + 48) (t, guest s) s'" for s rest
    using ws(2) [of rest s] exec_run [OF pre, of "PLACEHOLDER # (c @ ep) @ rest" s] by simp
  with code pre show ?thesis by blast
qed

definition ret_state :: "u64 \<Rightarrow> x86 \<Rightarrow> u64 \<times> x86" where
  "ret_state pop st = (of_nat (load_le (gmem st) (gpr st Rsp) 8), set_gpr Rsp (gpr st Rsp + pop) st)"

lemma exits_ret:
  assumes "encode_addsub_imm pop \<noteq> None"
  shows "exits (ret_exit pop) (\<lambda>s. ret_state (ucast pop) (guest s))"
proof -
  have l: "runs (ldr64 16 19 0 :: 'a em) (\<lambda>s. wx 16 (of_nat (load_le (amem s) (xr s 19) 8)) s)"
    by (rule sem_runs, rule sem_weaken, rule sem_ldr64) (simp_all add: rxsp_def)
  have a: "runs (add64_imm 19 19 pop :: 'a em) (\<lambda>s. wx 19 (xr s 19 + ucast pop) s)"
    by (rule sem_runs, rule sem_weaken, rule sem_add64_imm) (use assms in \<open>simp_all add: rx_def\<close>)
  show ?thesis
    unfolding ret_exit_def
    by (rule exits_weaken, rule exits_Cons [OF l], rule exits_Cons [OF a exits_x16])
      (auto simp: ret_state_def wx_def guest_def set_gpr_def fun_eq_iff)
qed

definition call_state :: "u64 \<Rightarrow> u64 \<Rightarrow> x86 \<Rightarrow> u64 \<times> x86" where
  "call_state ret target st = (target, set_gpr Rsp (gpr st Rsp - 8)
     (st\<lparr>gmem := store_le (gpr st Rsp - 8) 8 (unat ret) (gmem st)\<rparr>))"

lemma exits_call:
  "exits (seq [sub64_imm 19 19 8, load_const64 16 ret, str64 16 19 0, emit_epilogue_const_rip target])
     (\<lambda>s. call_state ret target (guest s))"
proof -
  have a: "runs (sub64_imm 19 19 8 :: 'a em) (\<lambda>s. wx 19 (xr s 19 - 8) s)"
    by (rule sem_runs, rule sem_weaken, rule sem_sub64_imm) (simp_all add: rx_def encode_addsub_imm_def)
  have st: "runs (str64 16 19 0 :: 'a em) (\<lambda>s. s\<lparr>amem := store_le (xr s 19) 8 (unat (xr s 16)) (amem s)\<rparr>)"
    by (rule sem_runs, rule sem_weaken, rule sem_str64) (simp_all add: rxsp_def rx_def)
  show ?thesis
    by (rule exits_weaken, rule exits_Cons [OF a], rule exits_Cons [OF sem_runs [OF sem_load_const64]], simp,
        rule exits_Cons [OF st], subst seq_single, rule exits_const_rip)
      (auto simp: call_state_def wx_def guest_def set_gpr_def fun_eq_iff)
qed

lemma sem_val_map_err: "sem_val f v g \<Longrightarrow> sem_val (\<lambda>e. map_err h (f e)) v g"
  unfolding sem_val_def map_err_def by (elim exE conjE) (rule exI, auto)

lemma xr_wx16 [simp]: "xr (wx 16 v s) 16 = v"
  by (simp add: wx_def)

definition target_ok :: "operand \<Rightarrow> bool" where
  "target_ok x = (case x of Reg r sz \<Rightarrow> sz = B8 | _ \<Rightarrow> mem_ok B8 x)"

lemma target_runs:
  assumes "target_ok x"
  shows "\<exists>g. runs (case x of Reg r _ \<Rightarrow> mov64 16 (host_reg r)
           | _ \<Rightarrow> if is_mem x then (\<lambda>e. sbind (map_err BE_Lift (addr_into_xtmp x inst 16 e)) (\<lambda>l. ldr64 16 16 l))
               else em_fail BE_BadOperand) g \<and>
     (\<forall>s. xr (g s) 16 = operand_value inst B8 x (guest s) \<and> guest (g s) = guest s \<and> keeps_host s (g s))"
proof (cases "is_mem x")
  case False
  then obtain r where x: "x = Reg r B8" using assms by (cases x) (auto simp: target_ok_def mem_ok_def)
  show ?thesis
    unfolding x by (rule exI, rule conjI, unfold operand.case, rule sem_runs, rule sem_mov64)
      (auto simp: operand_value_def)
next
  case True
  then have ok: "mem_ok B8 x" using assms by (cases x) (auto simp: target_ok_def)
  obtain g where g: "sem_val (addr_into_xtmp x inst 16) (operand_leftover x) g"
    "\<And>s. \<exists>k. g s = wx 16 (operand_ea inst x (guest s) - ucast (operand_leftover x)) (wx 17 k s)"
    using addr_sem16 [OF ok] by blast
  let ?h = "\<lambda>s. wx 16 (of_nat (load_le (amem s) (rx s 16 + ucast (operand_leftover x)) 8)) s"
  have "sem (ldr64 16 16 (operand_leftover x) :: block_error em) ?h"
    using load_sized_sem(1) [of 16 16 B8 "operand_leftover x"] mem_ok_offset [OF ok] by (simp add: load_sized_def)
  then have "runs (\<lambda>e. sbind (map_err BE_Lift (addr_into_xtmp x inst 16 e)) (\<lambda>l. ldr64 16 16 l)) (\<lambda>s. ?h (g s))"
    by (intro sem_runs sem_bind_val [OF sem_val_map_err [OF g(1)]])
  moreover have "xr (?h (g s)) 16 = operand_value inst B8 x (guest s) \<and> guest (?h (g s)) = guest s \<and> keeps_host s (?h (g s))" for s
    using g(2) [of s] True
    by (auto simp: operand_value_mem rx_wx amem_guest)
  ultimately show ?thesis using True by (cases x) auto
qed

lemma exits_jmp_indirect:
  assumes "operand_at inst 0 = Some x" "target_ok x"
  shows "exits (jmp_indirect_exit inst) (\<lambda>s. (operand_value inst B8 x (guest s), guest s))"
proof -
  obtain g where g: "runs (case x of Reg r _ \<Rightarrow> mov64 16 (host_reg r)
      | _ \<Rightarrow> if is_mem x then (\<lambda>e. sbind (map_err BE_Lift (addr_into_xtmp x inst 16 e)) (\<lambda>l. ldr64 16 16 l))
          else em_fail BE_BadOperand) g"
    "\<And>s. xr (g s) 16 = operand_value inst B8 x (guest s) \<and> guest (g s) = guest s \<and> keeps_host s (g s)"
    using target_runs [OF assms(2)] by blast
  show ?thesis
    unfolding jmp_indirect_exit_def assms(1) option.case
    by (rule exits_weaken, rule exits_Cons [OF g(1) exits_x16]) (use g(2) in \<open>auto simp: keeps_host_def\<close>)
qed

section \<open>Control transfers\<close>

text \<open>
  The guest address and state after a control-flow instruction, and the operands for which the translation
  of the instruction is exact. \<open>UD2\<close> stops the guest with \<open>STOP_SENTINEL\<close>.
\<close>

definition imm_of :: "inst \<Rightarrow> u64" where
  "imm_of inst = (case operand_at inst 0 of Some (Imm v _) \<Rightarrow> v | _ \<Rightarrow> 0)"

definition x86_branch :: "inst \<Rightarrow> x86 \<Rightarrow> u64 \<times> x86" where
  "x86_branch inst st =
     (let next = next_rip inst; target = next + imm_of inst in
      case i_op inst of
        OpFlow F_Ret \<Rightarrow> ret_state 8 st
      | OpFlow F_RetImm \<Rightarrow> ret_state (8 + imm_of inst) st
      | OpFlow F_Jmp \<Rightarrow> (target, st)
      | OpFlow F_Call \<Rightarrow> call_state next target st
      | OpFlow (F_Jcc c) \<Rightarrow> (if x_cond c st then target else next, st)
      | OpFlow F_JmpIndirect \<Rightarrow> (operand_value inst B8 (op_n inst 0) st, st)
      | _ \<Rightarrow> (STOP_SENTINEL, st))"

definition has_imm :: "inst \<Rightarrow> bool" where
  "has_imm inst = (case operand_at inst 0 of Some (Imm _ _) \<Rightarrow> True | _ \<Rightarrow> False)"

definition branch_ok :: "inst \<Rightarrow> bool" where
  "branch_ok inst =
     (case i_op inst of
        OpFlow F_Ud2 \<Rightarrow> True
      | OpFlow F_Ret \<Rightarrow> True
      | OpFlow F_RetImm \<Rightarrow> has_imm inst \<and> imm_of inst < 0xFF8
      | OpFlow F_Jmp \<Rightarrow> has_imm inst
      | OpFlow F_Call \<Rightarrow> has_imm inst
      | OpFlow (F_Jcc c) \<Rightarrow> has_imm inst \<and> c \<notin> {Cond_P, Cond_NP}
      | OpFlow F_JmpIndirect \<Rightarrow> (case operand_at inst 0 of Some x \<Rightarrow> target_ok x | None \<Rightarrow> False)
      | _ \<Rightarrow> False)"

lemma with_rel_imm: "has_imm inst \<Longrightarrow> with_rel inst f = f (imm_of inst)"
  by (auto simp: has_imm_def with_rel_def imm_of_def split: option.splits operand.splits)

lemma ret_imm_small:
  assumes "imm < (0xFF8 :: u64)"
  shows "add_or_panic 8 (ucast imm :: u32) = Ok (8 + ucast imm)" "encode_addsub_imm (8 + ucast imm :: u32) \<noteq> None"
    "(ucast (8 + ucast imm :: u32) :: u64) = 8 + imm"
proof -
  have i: "unat imm < 0xFF8" using assms by (simp add: word_less_nat_alt)
  then have u: "unat (ucast imm :: u32) = unat imm" by (simp add: unsigned_ucast_eq take_bit_nat_eq_self)
  show "add_or_panic 8 (ucast imm :: u32) = Ok (8 + ucast imm)"
    using i u by (simp add: add_or_panic_def)
  have s: "unat (8 + ucast imm :: u32) = 8 + unat imm" using i u by (simp add: unat_word_ariths(1))
  then show "encode_addsub_imm (8 + ucast imm :: u32) \<noteq> None"
    using i by (simp add: encode_addsub_imm_def word_less_nat_alt)
  have "unat (ucast (8 + ucast imm :: u32) :: u64) = 8 + unat imm" using s i by (simp add: unsigned_ucast_eq take_bit_nat_eq_self)
  also have "\<dots> = unat (8 + imm)" using i by (simp add: unat_word_ariths(1))
  finally show "(ucast (8 + ucast imm :: u32) :: u64) = 8 + imm" by (simp add: word_unat_eq_iff)
qed

lemma exits_terminator:
  assumes "branch_ok inst" "\<And>c. i_op inst \<noteq> OpFlow (F_Jcc c)"
  shows "exits (emit_terminator inst) (\<lambda>s. x86_branch inst (guest s))"
proof -
  consider "i_op inst = OpFlow F_Ud2" | "i_op inst = OpFlow F_Ret" | "i_op inst = OpFlow F_RetImm" "has_imm inst" "imm_of inst < 0xFF8"
    | "i_op inst = OpFlow F_Jmp" "has_imm inst" | "i_op inst = OpFlow F_Call" "has_imm inst"
    | x where "i_op inst = OpFlow F_JmpIndirect" "operand_at inst 0 = Some x" "target_ok x"
    using assms unfolding branch_ok_def by (auto split: op.splits flow_op.splits option.splits)
  then show ?thesis
  proof cases
    case 1
    then show ?thesis using exits_no_patches [OF exits_const_rip] by (simp add: emit_terminator_def x86_branch_def)
  next
    case 2
    then show ?thesis using exits_no_patches [OF exits_ret [of 8]]
      by (simp add: emit_terminator_def x86_branch_def encode_addsub_imm_def)
  next
    case 3
    then show ?thesis using exits_no_patches [OF exits_ret [OF ret_imm_small(2) [OF 3(3)]]] ret_imm_small(3) [OF 3(3)]
      by (simp add: emit_terminator_def x86_branch_def with_rel_imm ret_imm_small(1) [OF 3(3)])
  next
    case 4
    then show ?thesis using exits_chain by (simp add: emit_terminator_def x86_branch_def with_rel_imm)
  next
    case 5
    then show ?thesis using exits_no_patches [OF exits_call]
      by (simp add: emit_terminator_def x86_branch_def with_rel_imm Let_def del: seq.simps)
  next
    case 6
    then show ?thesis using exits_no_patches [OF exits_jmp_indirect [OF 6(2,3)]]
      by (simp add: emit_terminator_def x86_branch_def op_n_eq [OF 6(2)])
  qed
qed

section \<open>Conditional exits\<close>

definition bcond_word :: "a64_cond \<Rightarrow> u32 \<Rightarrow> u32" where
  "bcond_word c k = 0x54000000 OR push_bit 5 k OR cond_bits c"

lemma bcond_word_fld:
  "unat k < 2 ^ 18 \<Longrightarrow> bcond_word c k = 0x54000000 OR fld 5 19 k OR fld 0 4 (cond_bits c)"
  "unat k < 2 ^ 18 \<Longrightarrow> bcond_word c k = 0x54000000 OR fld 5 18 k OR fld 0 4 (cond_bits c)"
proof -
  have c: "fld 0 4 (cond_bits c) = cond_bits c" by (rule fld_0_of_small [OF cond_small, symmetric])
  show "unat k < 2 ^ 18 \<Longrightarrow> bcond_word c k = 0x54000000 OR fld 5 19 k OR fld 0 4 (cond_bits c)"
    by (subst fld_of_small [symmetric]) (simp_all add: c bcond_word_def)
  show "unat k < 2 ^ 18 \<Longrightarrow> bcond_word c k = 0x54000000 OR fld 5 18 k OR fld 0 4 (cond_bits c)"
    by (subst fld_of_small [symmetric]) (simp_all add: c bcond_word_def)
qed

lemma bcond_word_patch:
  assumes "unat k < 2 ^ 18"
  shows "patch_branch (push_bit 24 0b1010100 OR (cond_bits c AND 0xF)) Branch19 (int (unat k)) = Ok (bcond_word c k)"
proof -
  have m: "k AND 0x7FFFF = k"
    using take_bit_small [of k 19] assms by (simp add: take_bit_eq_mask mask_numeral)
  have b: "(push_bit 24 0b1010100 OR (cond_bits c AND 0xF)) AND 0xFF00001F = 0x54000000 OR cond_bits c"
    by (cases c) simp_all
  have r: "- (2 ^ 18) \<le> int (unat k)" "int (unat k) < 2 ^ 18"
    using assms by (simp_all del: int_nat_eq of_nat_unat add: order_trans [OF _ of_nat_0_le_iff])
  have "(0x54000000 OR cond_bits c) OR push_bit 5 k = bcond_word c k" by (simp add: bcond_word_def or.assoc or.commute or.left_commute)
  with r m show ?thesis by (simp only: patch_branch_def Let_def fixup_kind.case b) simp
qed

lemma bcond_word_decode:
  assumes "unat k < 2 ^ 18"
  shows "a64_decode (bcond_word c k) = None" "bcond_word c k \<noteq> RET_WORD"
    "branch_distance (bcond_word c k) s = Some (if cond_holds (unat (cond_bits c)) s then uint k else 1)"
proof -
  note w = bcond_word_fld(1) [OF assms, of c]
  have k: "unat k < 2 ^ 19" using assms by simp
  have op: "field 24 8 (bcond_word c k) = 0x54" unfolding w by (simp add: ifield_simps)
  have nret: "bcond_word c k \<noteq> RET_WORD" "bcond_word c k \<noteq> 0xD503201F"
    using op by (auto simp: RET_WORD_def ifield_simps)
  then show "a64_decode (bcond_word c k) = None" "bcond_word c k \<noteq> RET_WORD"
    unfolding bcond_word_fld(2) [OF assms] by (simp_all add: a64_dec ifield_simps)
  have "uint k < 2 ^ 18" using assms by (metis of_nat_less_iff of_nat_numeral of_nat_power uint_nat)
  moreover have "- (2 ^ 18) \<le> uint k" by (rule order_trans [of _ 0]) simp_all
  ultimately have "signed_take_bit 18 (uint k) = uint k" by (intro signed_take_bit_int_eq_self)
  then show "branch_distance (bcond_word c k) s = Some (if cond_holds (unat (cond_bits c)) s then uint k else 1)"
    unfolding w by (simp add: branch_distance_def ifield_simps field_small [OF cond_small] field_small [OF k])
qed

lemma bcond_word_exec:
  assumes "unat k < 2 ^ 18" "0 < unat k"
  shows "exec_block (bcond_word c k # ws) s =
    (if cond_holds (unat (cond_bits c)) s then exec_block (drop (unat k - 1) ws) s else exec_block ws s)"
proof -
  have "1 \<le> uint k" "nat (uint k - 1) = unat k - 1"
    unfolding uint_nat [of k] using assms(2) by (presburger, subst nat_diff_distrib', presburger, presburger, simp only: nat_int nat_one_as_int)
  then show ?thesis using bcond_word_decode [OF assms(1)] by (simp add: exec_block.simps(2))
qed

text \<open>Chainable exits are short: the branch over the fall-through exit always reaches.\<close>

definition code_le :: "nat \<Rightarrow> (emitter \<Rightarrow> ('e, 'a) outcome \<times> emitter) \<Rightarrow> bool" where
  "code_le n f \<longleftrightarrow> (\<forall>e. length (em_code (snd (f e))) \<le> length (em_code e) + n)"

lemma code_le_bind:
  assumes "code_le a m" "\<And>x. code_le b (k x)"
  shows "code_le (a + b) (\<lambda>e. sbind (m e) k)"
  unfolding code_le_def
proof
  fix e
  obtain r e' where m: "m e = (r, e')" by (cases "m e")
  then have e': "length (em_code e') \<le> length (em_code e) + a" using assms(1) unfolding code_le_def by (metis snd_conv)
  show "length (em_code (snd (sbind (m e) k))) \<le> length (em_code e) + (a + b)"
  proof (cases r)
    case (Ok x)
    have "length (em_code (snd (k x e'))) \<le> length (em_code e') + b" using assms(2) [of x] by (simp add: code_le_def)
    with e' Ok show ?thesis by (simp add: m)
  qed (use e' in \<open>simp_all add: m\<close>)
qed

lemma code_le_rules:
  "code_le 0 (seq [])" "code_le a m \<Longrightarrow> code_le b (seq ms) \<Longrightarrow> code_le (a + b) (seq (m # ms))"
  "code_le 1 (push w)" "code_le 1 (raw_word w)" "code_le 0 (debug_assert c)" "code_le 0 (\<lambda>e. (Ok x, e))"
proof -
  show "code_le a m \<Longrightarrow> code_le b (seq ms) \<Longrightarrow> code_le (a + b) (seq (m # ms))"
    unfolding seq.simps(2) by (rule code_le_bind)
qed (simp_all add: code_le_def push_def raw_word_def debug_assert_def)

lemma code_le_mono: "code_le a f \<Longrightarrow> a \<le> b \<Longrightarrow> code_le b f"
  unfolding code_le_def by (meson add_left_mono le_trans)

lemma code_le_assert: "code_le n m \<Longrightarrow> code_le n (seq [debug_assert c, m])"
  using code_le_rules(2) [OF code_le_rules(5) code_le_rules(2) [OF _ code_le_rules(1)], of n m c]
  by (simp del: seq.simps)

lemma code_le_two: "code_le a m \<Longrightarrow> code_le b n \<Longrightarrow> code_le (a + b) (seq [m, n])"
  using code_le_rules(2) [of a m b "[n]"] by (simp only: seq_single)

lemma code_le_methods:
  "code_le 1 (str64 rt rn d :: 'e em)" "code_le 1 (ldp64_post rt rt2 rn i :: 'e em)" "code_le 1 (em_ret :: 'e em)"
  "code_le 1 (movz64 rd w l :: 'e em)" "code_le 1 (movk64 rd w l :: 'e em)"
proof -
  show "code_le 1 (str64 rt rn d :: 'e em)"
    unfolding str64_def ldst_uoff_def by (intro code_le_assert code_le_rules(3))
  show "code_le 1 (movz64 rd w l :: 'e em)" "code_le 1 (movk64 rd w l :: 'e em)"
    unfolding movz64_def movk64_def movw_def by (intro code_le_assert code_le_rules(3))+
  show "code_le 1 (em_ret :: 'e em)" unfolding em_ret_def em_ret_to_def by (rule code_le_rules(3))
  have "code_le (0 + 1) (seq [debug_assert c, debug_assert c', push w] :: 'e em)" for c c' w
    by (rule code_le_rules(2) [OF code_le_rules(5)], rule code_le_assert, rule code_le_rules(3))
  then show "code_le 1 (ldp64_post rt rt2 rn i :: 'e em)" unfolding ldp64_post_def ldstp_def Let_def by simp
qed

lemma code_le_lanes: "code_le (Suc (length ks)) (load_lanes rd v b ks :: 'e em)"
proof (induction ks arbitrary: b)
  case Nil
  show ?case using code_le_methods(4) [of rd 0 0] code_le_mono [OF code_le_rules(1), of 1]
    by (cases b) simp_all
next
  case (Cons k ks)
  have "code_le (Suc (Suc (length ks))) (seq [movz64 rd p q, load_lanes rd v b ks] :: 'e em)"
    "code_le (Suc (Suc (length ks))) (seq [movk64 rd p q, load_lanes rd v b ks] :: 'e em)" for p q b
    using code_le_two [OF code_le_methods(4) Cons.IH] code_le_two [OF code_le_methods(5) Cons.IH]
    by (simp_all del: seq.simps)
  then show ?case using code_le_mono [OF Cons.IH, of "Suc (Suc (length ks))"]
    by (simp add: Let_def del: seq.simps)
qed

lemma code_le_const: "code_le 5 (load_const64 rd v :: 'e em)"
proof -
  have "Suc (length [0, 1, 2, 3 :: nat]) = 5" by simp
  then have "code_le 5 (load_lanes rd v False [0, 1, 2, 3] :: 'e em)"
    using code_le_lanes [of "[0, 1, 2, 3]" rd v False, where 'e = 'e] by (simp only:)
  then show ?thesis unfolding load_const64_def by (simp add: code_le_mono [OF code_le_methods(4)] del: load_lanes.simps)
qed

lemma code_le_map: "(\<And>x. code_le 1 (f x)) \<Longrightarrow> code_le (length xs) (seq (map f xs))"
proof (induction xs)
  case (Cons x xs)
  have "code_le (1 + length xs) (seq (f x # map f xs))" 
    by (rule code_le_rules(2), rule Cons.prems, rule Cons.IH, rule Cons.prems)
  then show ?case unfolding list.map by (rule code_le_mono) simp
qed (simp add: code_le_def)

lemma snd_sbind_ret: "snd (sbind m (\<lambda>_ e. (Ok v, e))) = snd m"
  by (cases m; cases "fst m") (auto simp: sbind_def)

lemma code_le_chain: "code_le 26 (chain_exit t :: _ \<Rightarrow> ('e, _) outcome \<times> _)"
proof -
  have "length gp_regs = 16" by (simp add: gp_regs_def)
  moreover have "code_le (length gp_regs) (emit_regs_to_ctx :: 'e em)"
    unfolding ctx_code_eq by (rule code_le_map, rule code_le_methods(1))
  ultimately have r: "code_le 16 (emit_regs_to_ctx :: 'e em)" by simp
  have "code_le (1 + (1 + (1 + (1 + 0)))) (emit_host_epilogue :: 'e em)"
    unfolding emit_host_epilogue_def by (intro code_le_rules(1,2) code_le_methods)
  then have "code_le 4 (emit_host_epilogue :: 'e em)" by (rule code_le_mono) simp
  then have "code_le (1 + (5 + (4 + 0))) (seq [raw_word 0x14000001, load_const64 0 t, emit_host_epilogue] :: 'e em)"
    by (intro code_le_rules(1,2,4) code_le_const)
  then have "code_le 10 (\<lambda>e. let patch = (of_nat (length (em_bytes e)) :: u32, t) in
      sbind (seq [raw_word 0x14000001, load_const64 0 t, emit_host_epilogue] e) (\<lambda>_ e. (Ok [patch] :: ('e, _) outcome, e)))"
    by (simp add: code_le_def Let_def snd_sbind_ret del: seq.simps)
  then have "code_le (16 + 10) (chain_exit t :: _ \<Rightarrow> ('e, _) outcome \<times> _)"
    unfolding chain_exit_def by (intro code_le_bind r)
  then show ?thesis by simp
qed

text \<open>\<open>terminates f F\<close>: on an emitter without labels, \<open>f\<close> and then \<open>finish\<close> succeed, and the code added exits with \<open>F\<close>.\<close>

definition terminates :: "(emitter \<Rightarrow> (block_error, 'a) outcome \<times> emitter) \<Rightarrow> (a64 \<Rightarrow> u64 \<times> x86) \<Rightarrow> bool" where
  "terminates f F \<longleftrightarrow> (\<exists>ws.
     (\<forall>e. em_labels e = [] \<longrightarrow> em_fixups e = [] \<longrightarrow>
        (\<exists>v e1 e2. f e = (Ok v, e1) \<and> finish e1 = (Ok (), e2) \<and> em_code e2 = em_code e @ ws)) \<and>
     (\<forall>s. \<exists>s'. exec_block ws s = Some s' \<and> exit_ok (xr s 28) (spr s + 48) (F s) s'))"

lemma exits_terminates: "exits f F \<Longrightarrow> terminates f F"
  unfolding exits_def terminates_def
proof (elim exE conjE)
  fix ws assume f: "\<forall>e. \<exists>v. f e = (Ok v, e\<lparr>em_code := em_code e @ ws\<rparr>)" and
    x: "\<forall>s rest. \<exists>s'. exec_block (ws @ rest) s = Some s' \<and> exit_ok (xr s 28) (spr s + 48) (F s) s'"
  have "\<exists>v e1 e2. f e = (Ok v, e1) \<and> finish e1 = (Ok (), e2) \<and> em_code e2 = em_code e @ ws"
    if "em_fixups e = []" for e
    using f [rule_format, of e] that by (auto simp: finish_def)
  with x [rule_format, of "[]"] show "\<exists>ws. (\<forall>e. em_labels e = [] \<longrightarrow> em_fixups e = [] \<longrightarrow>
        (\<exists>v e1 e2. f e = (Ok v, e1) \<and> finish e1 = (Ok (), e2) \<and> em_code e2 = em_code e @ ws)) \<and>
     (\<forall>s. \<exists>s'. exec_block ws s = Some s' \<and> exit_ok (xr s 28) (spr s + 48) (F s) s')"
    by (intro exI [of _ ws]) auto
qed

lemma jcc_code:
  assumes k: "cond_x86_to_a64 c = Some k" and e: "em_labels e = []" "em_fixups e = []"
    and fall: "\<And>e. (chain_exit (next_rip inst) e :: (block_error, _) outcome \<times> _) =
        (Ok (v1 (length (em_code e))), e\<lparr>em_code := em_code e @ fall\<rparr>)"
    and taken: "\<And>e. (chain_exit (next_rip inst + rel) e :: (block_error, _) outcome \<times> _) =
        (Ok (v2 (length (em_code e))), e\<lparr>em_code := em_code e @ taken\<rparr>)"
    and n: "n = Suc (length (em_code e))" and d: "d = of_nat (Suc (length fall))"
  shows "unat d = Suc (length fall)" "unat d < 2 ^ 18"
    "\<exists>e1 e2. jcc_exit c inst rel e = (Ok (v1 n @ v2 (n + length fall)), e1) \<and> finish e1 = (Ok (), e2) \<and>
       em_code e2 = em_code e @ bcond_word k d # fall @ taken"
proof -
  have "length fall \<le> 26"
    using code_le_chain [of "next_rip inst", where 'e = block_error] fall [of new_emitter]
    by (auto simp: code_le_def dest!: spec [of _ new_emitter])
  then show d': "unat d = Suc (length fall)" "unat d < 2 ^ 18"
    unfolding d by (simp_all add: unsigned_of_nat take_bit_nat_eq_self del: of_nat_Suc)
  let ?w = "bcond_word k d" and ?b = "push_bit 24 0b1010100 OR (cond_bits k AND 0xF) :: u32"
  have p: "patch_branch ?b Branch19 (int (Suc (length fall))) = Ok ?w"
    using bcond_word_patch [OF d'(2), of k] by (simp only: d'(1))
  let ?fx = "\<lparr>fx_word_index = length (em_code e), fx_kind = Branch19, fx_label = 0\<rparr>"
  define e1 where "e1 = e\<lparr>em_code := em_code e @ [?b], em_labels := [None], em_fixups := [?fx]\<rparr>"
  have b: "(b_cond k 0 :: block_error em) (e\<lparr>em_labels := [None]\<rparr>) = (Ok (), e1)"
    using e by (simp add: b_cond_def emit_branch_def push_def Let_def e1_def)
  have l: "em_labels e1 = [None]" "length (em_code e1) = n" by (simp_all add: e1_def n)
  let ?e2 = "e1\<lparr>em_code := em_code e1 @ fall, em_labels := [Some (length (em_code e1 @ fall))]\<rparr>"
  have d4: "int (Suc (length (em_code e) + length fall)) - int (length (em_code e)) = int (Suc (length fall))" by simp
  have "jcc_exit c inst rel e = (Ok (v1 n @ v2 (n + length fall)), ?e2\<lparr>em_code := em_code ?e2 @ taken\<rparr>)"
    using b e by (simp add: jcc_exit_def k make_label_def bind_label_def fall taken l)
  moreover have "finish (?e2\<lparr>em_code := em_code ?e2 @ taken\<rparr>) =
      (Ok (), ?e2\<lparr>em_code := em_code e @ ?w # fall @ taken, em_fixups := []\<rparr>)"
    using e p by (simp add: d4 finish_def e1_def nth_append Let_def del: of_nat_Suc)
  ultimately show "\<exists>e1 e2. jcc_exit c inst rel e = (Ok (v1 n @ v2 (n + length fall)), e1) \<and> finish e1 = (Ok (), e2) \<and>
       em_code e2 = em_code e @ ?w # fall @ taken" by auto
qed

lemma jcc_terminates:
  assumes "c \<notin> {Cond_P, Cond_NP}"
  shows "terminates (jcc_exit c inst rel)
     (\<lambda>s. (if x_cond c (guest s) then next_rip inst + rel else next_rip inst, guest s))"
proof -
  obtain k where k: "cond_x86_to_a64 c = Some k" "\<And>s. cond_holds (unat (cond_bits k)) s = x_cond c (guest s)"
    using cond_x86_holds [OF assms] by blast
  have chain: "\<exists>v ws. (\<forall>e. (chain_exit t e :: (block_error, _) outcome \<times> _) = (Ok (v (length (em_code e))), e\<lparr>em_code := em_code e @ ws\<rparr>)) \<and>
      (\<forall>s rest. \<exists>s'. exec_block (ws @ rest) s = Some s' \<and> exit_ok (xr s 28) (spr s + 48) (t, guest s) s')" for t
  proof -
    obtain pre post where code: "\<And>e. (chain_exit t e :: (block_error, _) outcome \<times> _) =
       (Ok [(of_nat (4 * (length (em_code e) + length pre)), t)], e\<lparr>em_code := em_code e @ pre @ PLACEHOLDER # post\<rparr>)"
      and run: "\<And>s. a64_run pre s = Some (fold store_slot gp_regs s)"
        "\<And>s rest. \<exists>s'. exec_block (PLACEHOLDER # post @ rest) (fold store_slot gp_regs s) = Some s' \<and>
          exit_ok (xr s 28) (spr s + 48) (t, guest s) s'"
      using chain_exit_parts [of t, where 'e = block_error] by blast
    show ?thesis using code run(2) exec_run [OF run(1)]
      by (intro exI [of _ "\<lambda>n. [(of_nat (4 * (n + length pre)), t)]"] exI [of _ "pre @ PLACEHOLDER # post"]) simp
  qed
  obtain v1 fall where fall: "\<And>e. (chain_exit (next_rip inst) e :: (block_error, _) outcome \<times> _) =
      (Ok (v1 (length (em_code e))), e\<lparr>em_code := em_code e @ fall\<rparr>)"
    "\<And>s rest. \<exists>s'. exec_block (fall @ rest) s = Some s' \<and> exit_ok (xr s 28) (spr s + 48) (next_rip inst, guest s) s'"
    using chain [of "next_rip inst"] by blast
  obtain v2 taken where taken: "\<And>e. (chain_exit (next_rip inst + rel) e :: (block_error, _) outcome \<times> _) =
      (Ok (v2 (length (em_code e))), e\<lparr>em_code := em_code e @ taken\<rparr>)"
    "\<And>s rest. \<exists>s'. exec_block (taken @ rest) s = Some s' \<and> exit_ok (xr s 28) (spr s + 48) (next_rip inst + rel, guest s) s'"
    using chain [of "next_rip inst + rel"] by blast
  note code = jcc_code [OF k(1) _ _ fall(1) taken(1) refl refl]
  have d: "unat (of_nat (Suc (length fall)) :: u32) = Suc (length fall)" "unat (of_nat (Suc (length fall)) :: u32) < 2 ^ 18"
    using code(1,2) [of new_emitter] by (simp_all add: new_emitter_def del: of_nat_Suc)
  have "\<exists>s'. exec_block (bcond_word k (of_nat (Suc (length fall))) # fall @ taken) s = Some s' \<and> exit_ok (xr s 28) (spr s + 48)
      (if x_cond c (guest s) then next_rip inst + rel else next_rip inst, guest s) s'" for s
    using fall(2) [of taken s] taken(2) [of "[]" s] d
    by (simp add: bcond_word_exec k(2) del: of_nat_Suc)
  with code(3) show ?thesis unfolding terminates_def by blast
qed

lemma terminator_terminates:
  assumes "branch_ok inst"
  shows "terminates (emit_terminator inst) (\<lambda>s. x86_branch inst (guest s))"
proof (cases "\<exists>c. i_op inst = OpFlow (F_Jcc c)")
  case True
  then obtain c where c: "i_op inst = OpFlow (F_Jcc c)" by blast
  with assms have "has_imm inst" "c \<notin> {Cond_P, Cond_NP}" by (simp_all add: branch_ok_def)
  with jcc_terminates [of c inst "imm_of inst"] c show ?thesis
    by (simp add: emit_terminator_def x86_branch_def with_rel_imm Let_def)
next
  case False
  with assms show ?thesis by (intro exits_terminates exits_terminator) auto
qed

section \<open>Blocks\<close>

lemma lift_body_simulates:
  "list_all integer_core insts \<Longrightarrow> simulates (lift_body legacy32 bytes rip insts) (fold x86_step insts)"
proof (induction insts)
  case Nil
  have "simulates (seq [] :: block_error em) (\<lambda>st. st)" by (rule simulatesI [OF sem_Nil]) simp_all
  moreover have "lift_body legacy32 bytes rip [] = seq []" by (rule ext) simp
  ultimately show ?case by (simp add: id_def)
next
  case (Cons inst insts)
  obtain g where g: "sem (lift legacy32 inst) g" "\<And>s. guest (g s) = x86_step inst (guest s)" "\<And>s. keeps_host s (g s)"
    using core_simulates [of inst legacy32] Cons.prems by (auto simp: simulates_def)
  obtain h where h: "sem (lift_body legacy32 bytes rip insts) h" "\<And>s. guest (h s) = fold x86_step insts (guest s)"
    "\<And>s. keeps_host s (h s)"
    using Cons by (auto simp: simulates_def)
  obtain ws ws' where ws: "emits (lift legacy32 inst) ws" "\<And>s. a64_run ws s = Some (g s)"
    "emits (lift_body legacy32 bytes rip insts) ws'" "\<And>s. a64_run ws' s = Some (h s)"
    using g(1) h(1) by (auto simp: sem_def)
  have "emits (lift_body legacy32 bytes rip (inst # insts)) (ws @ ws')"
    using ws(1,3) by (simp add: emits_def)
  moreover have "a64_run (ws @ ws') s = Some (h (g s))" for s by (simp add: a64_run_append ws)
  ultimately have "sem (lift_body legacy32 bytes rip (inst # insts)) (\<lambda>s. h (g s))" unfolding sem_def by blast
  then show ?case
    by (rule simulatesI) (use g(2,3) h(2,3) in \<open>auto simp: keeps_host_def\<close>)
qed

definition run_block :: "inst list \<Rightarrow> x86 \<Rightarrow> u64 \<times> x86" where
  "run_block insts st = x86_branch (last insts) (fold x86_step (butlast insts) st)"

lemma frame_disjoint:
  assumes "k \<noteq> k'" "k \<le> 6" "k' \<le> 6" "i < 8" "j < 8"
  shows "(sp :: u64) - of_nat (8 * k) + of_nat i \<noteq> sp - of_nat (8 * k') + of_nat j"
proof
  have swap: "sp - x + a = sp - y + b \<Longrightarrow> y + a = x + b" for x y a b :: u64
    by (simp add: diff_add_eq diff_eq_eq add_diff_eq)
  assume "sp - of_nat (8 * k) + of_nat i = sp - of_nat (8 * k') + of_nat j"
  from swap [OF this] have "(of_nat (8 * k' + i) :: u64) = of_nat (8 * k + j)" by (simp only: of_nat_add)
  then have "8 * k' + i = 8 * k + j" 
    by (rule iffD1 [OF of_nat_u64_eq, rotated 2]) (use assms in simp_all)
  then have "(8 * k' + i) div 8 = (8 * k + j) div 8" by simp
  with assms show False by simp
qed

lemma frame_load_other:
  assumes "d \<noteq> d'" "d \<in> {8, 16, 24, 32, 40, 48}" "d' \<in> {8, 16, 24, 32, 40, 48}"
  shows "load_le (store_le (sp - d') 8 v m) (sp - d) 8 = load_le m (sp - d) 8"
proof -
  have k: "\<exists>k\<le>6. d = of_nat (8 * k)" if "d \<in> {8, 16, 24, 32, 40, 48 :: u64}" for d
  proof -
    have "d \<in> (\<lambda>k. of_nat (8 * k)) ` {1, 2, 3, 4, 5, 6 :: nat}" using that by simp
    moreover have "k \<le> 6" if "k \<in> {1, 2, 3, 4, 5, 6 :: nat}" for k using that by auto
    ultimately show ?thesis by blast
  qed
  obtain k k' where k: "k \<le> 6" "d = of_nat (8 * k)" "k' \<le> 6" "d' = of_nat (8 * k')"
    using k [OF assms(2)] k [OF assms(3)] by blast
  show ?thesis
    unfolding k(2,4)
  proof (intro load_le_cong store_le_other)
    fix i j assume "i < (8 :: nat)" "j < (8 :: nat)"
    then show "sp - of_nat (8 * k') + of_nat j \<noteq> sp - of_nat (8 * k) + of_nat i"
      using k assms(1) by (intro frame_disjoint) auto
  qed
qed

lemma frame_loads:
  "(r, d) \<in> set saved_regs \<Longrightarrow> load_le (frame_mem s) (spr s - d) 8 = unat (xr s r)"
  by (auto simp: frame_mem_def saved_regs_def frame_load_other)

lemma translate_block:
  assumes "decode_insts ends_block (Decoder_new bytes rip) [] = (Ok insts, d)"
    "list_all integer_core (butlast insts)" "branch_ok (last insts)"
  shows "\<exists>blk ws. translate_for_dispatcher bytes rip Long = Ok blk \<and> host_bytes blk = concat (map u32_to_le ws) \<and>
     guest_len blk = d_pos d \<and>
     (\<forall>s. \<exists>s'. exec_block ws s = Some s' \<and> exit_ok (xr s 0) (spr s) (run_block insts (entry_state s)) s')"
proof -
  obtain p g where p: "emits (dispatcher_prologue :: block_error em) p" "\<And>s. a64_run p s = Some (g s)"
    and g: "\<And>s. guest (g s) = entry_state s \<and> spr (g s) = spr s - 48 \<and> xr (g s) 28 = xr s 0"
    using sem_dispatcher_prologue [where 'e = block_error] by (auto simp: sem_def)
  obtain b h where b: "emits (lift_body False bytes rip (butlast insts)) b" "\<And>s. a64_run b s = Some (h s)"
    and h: "\<And>s. guest (h s) = fold x86_step (butlast insts) (guest s) \<and> keeps_host s (h s)"
    using lift_body_simulates [OF assms(2), of False bytes rip] by (auto simp: simulates_def sem_def)
  obtain t where t: "\<And>e. em_labels e = [] \<Longrightarrow> em_fixups e = [] \<Longrightarrow> \<exists>v e1 e2. emit_terminator (last insts) e = (Ok v, e1) \<and>
      finish e1 = (Ok (), e2) \<and> em_code e2 = em_code e @ t"
    "\<And>s. \<exists>s'. exec_block t s = Some s' \<and> exit_ok (xr s 28) (spr s + 48) (x86_branch (last insts) (guest s)) s'"
    using terminator_terminates [OF assms(3)] unfolding terminates_def by blast
  let ?e = "new_emitter\<lparr>em_code := p @ b\<rparr>"
  obtain v e1 e2 where e: "emit_terminator (last insts) ?e = (Ok v, e1)" "finish e1 = (Ok (), e2)" "em_code e2 = p @ b @ t"
    using t(1) [of ?e] by (auto simp: new_emitter_def)
  have "translate_for_dispatcher bytes rip Long = Ok \<lparr>host_bytes = em_bytes e2, guest_len = d_pos d, chain_patches = v\<rparr>"
    using assms(1) p(1) b(1) e
    by (simp add: translate_for_dispatcher_def map_err_def emits_def new_emitter_def)
  moreover have "em_bytes e2 = concat (map u32_to_le (p @ b @ t))" using e(3) by (simp add: em_bytes_def)
  moreover have "\<exists>s'. exec_block (p @ b @ t) s = Some s' \<and> exit_ok (xr s 0) (spr s) (run_block insts (entry_state s)) s'" for s
  proof -
    have "exec_block (p @ b @ t) s = exec_block t (h (g s))"
      using exec_run [OF p(2), of "b @ t"] exec_run [OF b(2), of t] by simp
    then show ?thesis using t(2) [of "h (g s)"] g [of s] h [of "g s"] by (simp add: keeps_host_def run_block_def)
  qed
  ultimately show ?thesis
    by (intro exI [of _ "\<lparr>host_bytes = em_bytes e2, guest_len = d_pos d, chain_patches = v\<rparr>"] exI [of _ "p @ b @ t"]) simp
qed

lemma exit_saved:
  assumes "exit_ok ctx (spr s) p s'"
  shows "\<forall>(r, d) \<in> set saved_regs. load_le (amem s') (spr s - d) 8 = load_le (frame_mem s) (spr s - d) 8 \<longrightarrow>
     xr s' r = xr s r"
  using assms frame_loads [of _ _ s] by (auto simp: exit_ok_def split: prod.splits)

text \<open>
  C1: translation correctness of basic blocks. When the bytes at \<open>rip\<close> decode to a block whose instructions
  before the last are in the integer core and whose last one is a control transfer (\<open>JMP\<close>, \<open>Jcc\<close>, \<open>CALL\<close>,
  \<open>RET\<close>, \<open>RET imm\<close>, indirect \<open>JMP\<close>, \<open>UD2\<close>), \<open>translate_for_dispatcher\<close> succeeds, reports the number of guest
  bytes the decoder consumed, and the code it returns, called from any machine state with a context
  address in X0, runs to its \<open>RET\<close>. X0 then holds the guest address that follows, the context the registers,
  the host flags the flags and the memory outside the context the memory that the x86 instructions
  produce from the registers of the context; the stack pointer is back, and so is every callee-saved
  register whose slot in the frame the guest did not overwrite.
\<close>

theorem block_correct:
  assumes "decode_insts ends_block (Decoder_new bytes rip) [] = (Ok insts, d)"
    "list_all integer_core (butlast insts)" "branch_ok (last insts)"
  shows "\<exists>blk ws. translate_for_dispatcher bytes rip Long = Ok blk \<and> host_bytes blk = concat (map u32_to_le ws) \<and>
     guest_len blk = d_pos d \<and>
     (\<forall>s. \<exists>s'. exec_block ws s = Some s' \<and>
        exit_ok (xr s 0) (spr s) (run_block insts (entry_state s)) s' \<and>
        (\<forall>(r, d) \<in> set saved_regs. load_le (amem s') (spr s - d) 8 = load_le (frame_mem s) (spr s - d) 8 \<longrightarrow>
           xr s' r = xr s r))"
  using translate_block [OF assms] exit_saved by meson

text \<open>\<open>SUB RAX, RBX; JNE +16\<close>\<close>

definition loop_bytes :: bytes where
  "loop_bytes = [0x48, 0x29, 0xD8, 0x75, 0x10]"

definition loop_insts :: "inst list" where
  "loop_insts =
     [\<lparr>i_op = Op_Sub, i_operands = [Some (Reg Rax B8), Some (Reg Rbx B8), None], i_len = 3, i_guest_rip = 0x1000\<rparr>,
      \<lparr>i_op = OpFlow (F_Jcc Cond_NE), i_operands = [Some (Imm 16 B1), None, None], i_len = 2, i_guest_rip = 0x1003\<rparr>]"

lemma loop_decodes:
  "decode_insts ends_block (Decoder_new loop_bytes 0x1000) [] =
     (Ok loop_insts, \<lparr>d_bytes = loop_bytes, d_pos = 5, d_guest_rip = 0x1000, d_long_mode = True\<rparr>)"
  by code_simp

theorem block_correct_witness:
  "\<exists>blk ws. translate_for_dispatcher loop_bytes 0x1000 Long = Ok blk \<and> host_bytes blk = concat (map u32_to_le ws) \<and>
     guest_len blk = 5 \<and> (\<forall>s. \<exists>s'. exec_block ws s = Some s' \<and>
        exit_ok (xr s 0) (spr s) (run_block loop_insts (entry_state s)) s')"
proof -
  have "list_all integer_core (butlast loop_insts)" "branch_ok (last loop_insts)"
    by (simp_all add: loop_insts_def integer_core_def operand_at_def alu_ok_def src_ok_def op_width_def
        branch_ok_def has_imm_def)
  from block_correct [OF loop_decodes this] show ?thesis by fastforce
qed

end
