(* ===== verification/Runtime.thy ===== *)
theory Runtime
  imports Mem Emitter_Correct "HOL-Library.Mapping"
begin

text \<open>
  The run-time services of \<open>quantum-runtime\<close> above the memory manager: the code cache (\<open>codecache.rs\<close>), the
  block map of the dispatcher with its chain patching (\<open>dispatcher.rs\<close>), the guest stack (\<open>guest_stack.rs\<close>),
  the process and thread blocks (\<open>peb.rs\<close>), the two driver registries (\<open>thread_registry.rs\<close>,
  \<open>callback_registry.rs\<close>) and host descriptors (\<open>fd.rs\<close>). Operations pass the state of the kernel \<open>'k\<close> along;
  a pointer into a region is its address, and a store through a raw pointer is a store into the bytes
  of the region that holds it. The second half shows that the dispatcher implements a log of installed
  blocks: installing appends an entry, patching rewrites four bytes of one entry, and a lookup returns
  the address of the latest entry for a guest address.
\<close>

unbundle bit_operations_syntax

section \<open>Code cache\<close>

record code_cache =
  cc_region :: region
  cc_used :: nat

definition code_cache_new :: "'k host \<Rightarrow> 'k \<Rightarrow> nat \<Rightarrow> code_cache result \<times> 'k" where
  "code_cache_new H k capacity =
     sbind (mm_allocate_jit (mach_vm_manager H) k capacity) (\<lambda>region k.
       (Ok \<lparr>cc_region = region, cc_used = 0\<rparr>, k))"

definition cc_capacity :: "code_cache \<Rightarrow> nat" where
  "cc_capacity c = r_len (cc_region c)"

definition cc_base :: "code_cache \<Rightarrow> u64" where
  "cc_base c = r_base (cc_region c)"

text \<open>\<open>(4 - (used & 3)) & 3\<close>\<close>

definition cc_pad :: "nat \<Rightarrow> nat" where
  "cc_pad used = (4 - used mod 4) mod 4"

text \<open>Writing \<open>bs\<close> at an offset of a region that holds it.\<close>

definition region_write :: "nat \<Rightarrow> bytes \<Rightarrow> region \<Rightarrow> region" where
  "region_write off bs r = r\<lparr>r_mem := put_range (r_mem r) off bs\<rparr>"

definition cc_install :: "'k host \<Rightarrow> bytes \<Rightarrow> code_cache \<Rightarrow> 'k \<Rightarrow> u64 result \<times> code_cache \<times> 'k" where
  "cc_install H bs c k =
     (if cc_used c + length bs \<ge> 2 ^ 64 then (Panic ''attempt to add with overflow'', c, k)
      else if cc_used c + length bs > r_len (cc_region c)
      then (Err (Host ''codecache:install (oversize)'' 0), c, k)
      else
        let dst = r_base (cc_region c) + of_nat (cc_used c);
            k1 = mm_flip_jit (mach_vm_manager H) k dst (length bs) True;
            region = region_write (cc_used c) bs (cc_region c);
            k2 = mm_flip_jit (mach_vm_manager H) k1 dst (length bs) False;
            used = cc_used c + length bs;
            c' = \<lparr>cc_region = region, cc_used = used + cc_pad used\<rparr>
        in if dst = 0 then (Panic ''non-null'', c', k2) else (Ok dst, c', k2))"

section \<open>Dispatcher\<close>

definition RT_STOP_SENTINEL :: u64 where "RT_STOP_SENTINEL = 0xDEADDEADDEADDEAD"

record guest_context =
  gc_gprs :: "u64 list"
  gc_rip :: u64
  gc_flags :: u64
  gc_gs_base :: u64
  gc_fs_base :: u64
  gc_xmms :: "bytes list"

record dispatcher =
  di_cache :: code_cache
  di_map :: "(u64, u64) mapping"

definition dispatcher_new :: "'k host \<Rightarrow> 'k \<Rightarrow> nat \<Rightarrow> dispatcher result \<times> 'k" where
  "dispatcher_new H k cache_size =
     sbind (code_cache_new H k cache_size) (\<lambda>c k. (Ok \<lparr>di_cache = c, di_map = Mapping.empty\<rparr>, k))"

definition di_lookup :: "dispatcher \<Rightarrow> u64 \<Rightarrow> u64 option" where
  "di_lookup d guest_rip = Mapping.lookup (di_map d) guest_rip"

definition di_install :: "'k host \<Rightarrow> u64 \<Rightarrow> bytes \<Rightarrow> dispatcher \<Rightarrow> 'k \<Rightarrow> u64 result \<times> dispatcher \<times> 'k" where
  "di_install H guest_rip host_bytes d k =
     (case cc_install H host_bytes (di_cache d) k of
        (Ok ptr, c, k) \<Rightarrow> (Ok ptr, \<lparr>di_cache = c, di_map = Mapping.update guest_rip ptr (di_map d)\<rparr>, k)
      | (Err e, c, k) \<Rightarrow> (Err e, d\<lparr>di_cache := c\<rparr>, k)
      | (Panic p, c, k) \<Rightarrow> (Panic p, d\<lparr>di_cache := c\<rparr>, k))"

definition block_count :: "dispatcher \<Rightarrow> nat" where
  "block_count d = Mapping.size (di_map d)"

text \<open>
  \<open>patch_chain\<close>: addresses are read as \<open>isize\<close>. The store is defined when the patch site lies inside the
  code cache, which the source demands of its caller; the model panics otherwise.
\<close>

definition chain_word :: "int \<Rightarrow> u32" where
  "chain_word words = 0x14000000 OR (word_of_int words AND 0x03FFFFFF)"

definition patch_chain :: "'k host \<Rightarrow> u64 \<Rightarrow> u64 \<Rightarrow> dispatcher \<Rightarrow> 'k \<Rightarrow> (error, bool) outcome \<times> dispatcher \<times> 'k" where
  "patch_chain H patch_site target_host_addr d k =
     (let delta = sint target_host_addr - sint patch_site in
      if \<not> (- (2 ^ 63) \<le> delta \<and> delta < 2 ^ 63) then (Panic ''attempt to subtract with overflow'', d, k)
      else if delta mod 4 \<noteq> 0 then (Ok False, d, k)
      else
        let words = delta div 4 in
        if \<not> (- (2 ^ 25) \<le> words \<and> words \<le> 2 ^ 25 - 1) then (Ok False, d, k)
        else
          let new_word = chain_word words;
              region = cc_region (di_cache d);
              off = unat (patch_site - r_base region)
          in if off + 4 > r_len region then (Panic ''store outside the code cache'', d, k)
             else
               let k1 = mm_flip_jit (mach_vm_manager H) k patch_site 4 True;
                   d' = d\<lparr>di_cache := (di_cache d)\<lparr>cc_region := region_write off (u32_to_le new_word) region\<rparr>\<rparr>;
                   k2 = mm_flip_jit (mach_vm_manager H) k1 patch_site 4 False
               in (Ok True, d', h_icache_invalidate H k2 patch_site 4))"

section \<open>Guest stack\<close>

definition DEFAULT_GUEST_STACK_SIZE :: nat where "DEFAULT_GUEST_STACK_SIZE = 1024 * 1024"

record guest_stack = gs_region :: region

definition guest_stack_new :: "'k host \<Rightarrow> 'k \<Rightarrow> nat \<Rightarrow> guest_stack result \<times> 'k" where
  "guest_stack_new H k sz =
     sbind (mm_allocate (mach_vm_manager H) k None sz PROT_RW) (\<lambda>region k. (Ok \<lparr>gs_region = region\<rparr>, k))"

definition guest_stack_default :: "'k host \<Rightarrow> 'k \<Rightarrow> guest_stack result \<times> 'k" where
  "guest_stack_default H k = guest_stack_new H k DEFAULT_GUEST_STACK_SIZE"

definition gs_top :: "guest_stack \<Rightarrow> (error, u64) outcome" where
  "gs_top g =
     obind (add_or_panic (r_base (gs_region g)) (of_nat (r_len (gs_region g)))) (\<lambda>t. Ok (t AND NOT 0xF))"

definition gs_base_addr :: "guest_stack \<Rightarrow> u64" where
  "gs_base_addr g = r_base (gs_region g)"

text \<open>The store of the sentinel goes into the region when the slot lies in it.\<close>

definition entry_rsp :: "u64 \<Rightarrow> guest_stack \<Rightarrow> (error, u64) outcome \<times> guest_stack" where
  "entry_rsp sentinel g =
     (case gs_top g of
        Ok t \<Rightarrow>
          if t < 8 then (Panic ''attempt to subtract with overflow'', g)
          else
            let rsp = t - 8; off = unat (rsp - r_base (gs_region g)) in
            if off + 8 > r_len (gs_region g) then (Panic ''store outside the stack'', g)
            else (Ok rsp, g\<lparr>gs_region := region_write off (u64_to_le sentinel) (gs_region g)\<rparr>)
      | Err e \<Rightarrow> (Err e, g)
      | Panic p \<Rightarrow> (Panic p, g))"

definition gs_is_empty :: "guest_stack \<Rightarrow> bool" where
  "gs_is_empty g \<longleftrightarrow> r_len (gs_region g) = 0"

section \<open>Process and thread blocks\<close>

definition TEB_OFF_SELF :: nat where "TEB_OFF_SELF = 0x30"
definition TEB_OFF_PEB :: nat where "TEB_OFF_PEB = 0x60"
definition TEB_OFF_LAST_ERROR :: nat where "TEB_OFF_LAST_ERROR = 0x68"
definition TEB_OFF_THREAD_ID :: nat where "TEB_OFF_THREAD_ID = 0x48"
definition PEB_OFF_IMAGE_BASE :: nat where "PEB_OFF_IMAGE_BASE = 0x10"
definition PEB_OFF_PROCESS_HEAP :: nat where "PEB_OFF_PROCESS_HEAP = 0x30"

record process_control_block =
  peb_addr :: u64
  teb_addr :: u64
  pcb_backing :: region

definition pcb_new :: "'k host \<Rightarrow> 'k \<Rightarrow> u64 \<Rightarrow> u64 \<Rightarrow> u32 \<Rightarrow> process_control_block result \<times> 'k" where
  "pcb_new H k image_base process_heap thread_id =
     sbind (mm_allocate (mach_vm_manager H) k None (16 * 1024) PROT_RW) (\<lambda>region k.
     sbind (add_or_panic (r_base region) 0x1000, k) (\<lambda>peb k.
       let teb = r_base region;
           m0 = r_mem region;
           m1 = put_range m0 TEB_OFF_SELF (u64_to_le teb);
           m2 = put_range m1 TEB_OFF_PEB (u64_to_le peb);
           m3 = put_range m2 TEB_OFF_LAST_ERROR (u32_to_le 0);
           m4 = put_range m3 TEB_OFF_THREAD_ID (u64_to_le (ucast thread_id));
           m5 = put_range m4 (0x1000 + PEB_OFF_IMAGE_BASE) (u64_to_le image_base);
           m6 = put_range m5 (0x1000 + PEB_OFF_PROCESS_HEAP) (u64_to_le process_heap)
       in (Ok \<lparr>peb_addr = peb, teb_addr = teb, pcb_backing = region\<lparr>r_mem := m6\<rparr>\<rparr>, k)))"

section \<open>Registries\<close>

text \<open>
  The process-wide slots hold the driver's trait object: a function from the arguments of its method and the
  state \<open>'k\<close> to the result and the new state.
\<close>

type_synonym 'k spawner = "u64 \<Rightarrow> u64 \<Rightarrow> 'k \<Rightarrow> bool option \<times> 'k"
type_synonym 'k invoker = "u64 \<Rightarrow> u64 list \<Rightarrow> 'k \<Rightarrow> u64 \<times> 'k"

definition register_spawner :: "'k spawner \<Rightarrow> 'k spawner option \<Rightarrow> 'k spawner option" where
  "register_spawner spawner slot = Some spawner"

definition registry_spawn :: "'k spawner option \<Rightarrow> u64 \<Rightarrow> u64 \<Rightarrow> 'k \<Rightarrow> bool option \<times> 'k" where
  "registry_spawn slot start_rip param k =
     (case slot of None \<Rightarrow> (None, k) | Some s \<Rightarrow> s start_rip param k)"

definition register_invoker :: "'k invoker \<Rightarrow> 'k invoker option \<Rightarrow> 'k invoker option" where
  "register_invoker invoker slot = Some invoker"

definition registry_invoke :: "'k invoker option \<Rightarrow> u64 \<Rightarrow> u64 list \<Rightarrow> 'k \<Rightarrow> u64 option \<times> 'k" where
  "registry_invoke slot rip args k =
     (case slot of None \<Rightarrow> (None, k) | Some f \<Rightarrow> (case f rip args k of (v, k) \<Rightarrow> (Some v, k)))"

definition is_registered :: "'k invoker option \<Rightarrow> bool" where
  "is_registered slot \<longleftrightarrow> slot \<noteq> None"

section \<open>Host descriptors\<close>

datatype std_stream = Std_In | Std_Out | Std_Err

definition STDIN_FILENO :: u32 where "STDIN_FILENO = 0"
definition STDOUT_FILENO :: u32 where "STDOUT_FILENO = 1"
definition STDERR_FILENO :: u32 where "STDERR_FILENO = 2"

primrec std_fd :: "std_stream \<Rightarrow> u32" where
  "std_fd Std_In = STDIN_FILENO" | "std_fd Std_Out = STDOUT_FILENO" | "std_fd Std_Err = STDERR_FILENO"

definition O_RDONLY :: u32 where "O_RDONLY = 0x0000"
definition O_WRONLY :: u32 where "O_WRONLY = 0x0001"
definition O_RDWR :: u32 where "O_RDWR = 0x0002"
definition O_APPEND :: u32 where "O_APPEND = 0x0008"
definition O_CREAT :: u32 where "O_CREAT = 0x0200"
definition O_TRUNC :: u32 where "O_TRUNC = 0x0400"
definition O_EXCL :: u32 where "O_EXCL = 0x0800"

record open_flags =
  of_read :: bool
  of_write :: bool
  of_append :: bool
  of_create :: bool
  of_truncate :: bool
  of_exclusive :: bool

definition to_host :: "open_flags \<Rightarrow> u32" where
  "to_host f =
     (let f0 = (case (of_read f, of_write f) of (True, False) \<Rightarrow> O_RDONLY | (False, True) \<Rightarrow> O_WRONLY | _ \<Rightarrow> O_RDWR);
          f1 = (if of_append f then f0 OR O_APPEND else f0);
          f2 = (if of_create f then f1 OR O_CREAT else f1);
          f3 = (if of_truncate f then f2 OR O_TRUNC else f2)
      in if of_exclusive f then f3 OR O_EXCL else f3)"

definition STDIO_TAG :: u32 where "STDIO_TAG = 0x80000000"

datatype host_fd = HostFd (fd_raw: u32)

definition from_std :: "std_stream \<Rightarrow> host_fd" where
  "from_std s = HostFd (std_fd s OR STDIO_TAG)"

text \<open>The POSIX calls, over the kernel state.\<close>

record 'k posix =
  px_open :: "'k \<Rightarrow> bytes \<Rightarrow> u32 \<Rightarrow> u16 \<Rightarrow> u32 \<times> 'k"
  px_write :: "'k \<Rightarrow> u32 \<Rightarrow> bytes \<Rightarrow> int \<times> 'k"
  px_read :: "'k \<Rightarrow> u32 \<Rightarrow> nat \<Rightarrow> int \<times> bytes \<times> 'k"
  px_close :: "'k \<Rightarrow> u32 \<Rightarrow> 'k"
  px_errno :: "'k \<Rightarrow> int"

definition open_cstr :: "'k posix \<Rightarrow> bytes \<Rightarrow> open_flags \<Rightarrow> u16 \<Rightarrow> 'k \<Rightarrow> host_fd result \<times> 'k" where
  "open_cstr P path flags mode k =
     (let (fd, k) = px_open P k path (to_host flags) mode in
      if fd <s 0 then (Err (Host ''open'' (px_errno P k)), k) else (Ok (HostFd fd), k))"

definition fd_write :: "'k posix \<Rightarrow> host_fd \<Rightarrow> bytes \<Rightarrow> 'k \<Rightarrow> nat result \<times> 'k" where
  "fd_write P h buf k =
     (let (n, k) = px_write P k (fd_raw h AND NOT STDIO_TAG) buf in
      if n < 0 then (Err (Host ''write'' (px_errno P k)), k) else (Ok (nat n), k))"

definition fd_read :: "'k posix \<Rightarrow> host_fd \<Rightarrow> nat \<Rightarrow> 'k \<Rightarrow> (nat result \<times> bytes) \<times> 'k" where
  "fd_read P h len k =
     (let (n, buf, k) = px_read P k (fd_raw h AND NOT STDIO_TAG) len in
      if n < 0 then ((Err (Host ''read'' (px_errno P k)), buf), k) else ((Ok (nat n), buf), k))"

definition fd_drop :: "'k posix \<Rightarrow> host_fd \<Rightarrow> 'k \<Rightarrow> 'k" where
  "fd_drop P h k = (if fd_raw h AND STDIO_TAG = 0 then px_close P k (fd_raw h) else k)"

section \<open>The dispatcher implements a log of blocks\<close>

text \<open>
  An entry of the log is the guest address of a block, its offset in the code cache and its present bytes. The
  dispatcher represents a log when every entry lies inside the used part of the region at a multiple of
  four, holds exactly its bytes, entries do not overlap, and the block map sends a guest address to
  the latest entry for it.
\<close>

type_synonym log_entry = "u64 \<times> nat \<times> bytes"

definition log_lookup :: "u64 \<Rightarrow> log_entry list \<Rightarrow> u64 \<Rightarrow> u64 option" where
  "log_lookup base L = map_of (rev (map (\<lambda>(rip, off, bs). (rip, base + of_nat off)) L))"

definition entry_ok :: "code_cache \<Rightarrow> log_entry \<Rightarrow> bool" where
  "entry_ok c e = (case e of (rip, off, bs) \<Rightarrow>
     off mod 4 = 0 \<and> off + length bs \<le> cc_used c \<and> get_range (r_mem (cc_region c)) off (length bs) = Some bs)"

definition before :: "log_entry \<Rightarrow> log_entry \<Rightarrow> bool" where
  "before e e' \<longleftrightarrow> fst (snd e) + length (snd (snd e)) \<le> fst (snd e')"

definition represents :: "dispatcher \<Rightarrow> log_entry list \<Rightarrow> bool" where
  "represents d L \<longleftrightarrow>
     cc_used (di_cache d) mod 4 = 0 \<and> list_all (entry_ok (di_cache d)) L \<and> sorted_wrt before L \<and>
     di_lookup d = log_lookup (cc_base (di_cache d)) L"

lemma cc_pad_aligns: "(used + cc_pad used) mod 4 = 0"
proof -
  consider "used mod 4 = 0" | "used mod 4 = 1" | "used mod 4 = 2" | "used mod 4 = 3" by linarith
  then show ?thesis by cases (simp_all add: cc_pad_def, presburger+)
qed

lemma log_lookup_snoc:
  "log_lookup base (L @ [(rip, off, bs)]) = (log_lookup base L)(rip \<mapsto> base + of_nat off)"
  by (auto simp: log_lookup_def)

lemma new_represents: "dispatcher_new H k n = (Ok d, k') \<Longrightarrow> represents d [] \<and> cc_capacity (di_cache d) = n"
  by (auto simp: dispatcher_new_def code_cache_new_def sbind_eq_Ok represents_def di_lookup_def log_lookup_def
      cc_capacity_def lookup_empty fun_eq_iff dest: mach.allocate_jit_len)

lemma cc_install_cases:
  assumes "cc_install H bs c k = (r, c', k')"
  shows "r = Ok p \<Longrightarrow> p = cc_base c + of_nat (cc_used c) \<and> cc_used c + length bs \<le> cc_capacity c \<and>
      c' = \<lparr>cc_region = region_write (cc_used c) bs (cc_region c), cc_used = cc_used c + length bs + cc_pad (cc_used c + length bs)\<rparr>"
    "r = Err e \<Longrightarrow> c' = c \<and> cc_capacity c < cc_used c + length bs"
  using assms by (auto simp: cc_install_def cc_base_def cc_capacity_def Let_def split: if_splits)

lemma entry_ok_install:
  assumes "entry_ok c e" "cc_used c + length bs \<le> cc_capacity c" "cc_used c \<le> u"
  shows "entry_ok \<lparr>cc_region = region_write (cc_used c) bs (cc_region c), cc_used = u\<rparr> e"
proof -
  obtain rip off b where e: "e = (rip, off, b)" by (cases e)
  with assms show ?thesis
    using get_put_disjoint [of "cc_used c" bs "r_mem (cc_region c)" off "length b"]
    by (simp add: entry_ok_def region_write_def cc_capacity_def)
qed

lemma install_represents:
  assumes rep: "represents d L" and inst: "di_install H rip bs d k = (r, d', k')"
  shows "r = Ok p \<Longrightarrow> p = cc_base (di_cache d) + of_nat (cc_used (di_cache d)) \<and>
      represents d' (L @ [(rip, cc_used (di_cache d), bs)]) \<and> cc_capacity (di_cache d') = cc_capacity (di_cache d)"
    "r = Err e \<Longrightarrow> d' = d"
proof -
  obtain r0 c' where c: "cc_install H bs (di_cache d) k = (r0, c', k')" "r0 = r"
    "r = Ok p \<Longrightarrow> d' = \<lparr>di_cache = c', di_map = Mapping.update rip p (di_map d)\<rparr>" "r = Err e \<Longrightarrow> d' = d\<lparr>di_cache := c'\<rparr>"
    using inst by (auto simp: di_install_def split: prod.splits outcome.splits)
  show "d' = d" if "r = Err e" using cc_install_cases(2) [OF c(1), of e] c(2,4) that by simp
  assume ok: "r = Ok p"
  note i = cc_install_cases(1) [OF c(1), of p, unfolded c(2), OF ok]
  let ?c = "di_cache d"
  have e: "list_all (entry_ok c') L"
    using rep i entry_ok_install [of ?c _ bs] by (auto simp: represents_def list_all_iff)
  have n: "entry_ok c' (rip, cc_used ?c, bs)"
    using rep i get_put_same [of "cc_used ?c" bs "r_mem (cc_region ?c)"]
    by (auto simp: represents_def entry_ok_def region_write_def cc_capacity_def)
  have s: "sorted_wrt before (L @ [(rip, cc_used ?c, bs)])"
    using rep by (auto simp: represents_def sorted_wrt_append before_def list_all_iff entry_ok_def)
  have b: "cc_base c' = cc_base ?c" "cc_capacity c' = cc_capacity ?c" "cc_used c' mod 4 = 0"
    using i by (simp_all add: cc_base_def region_write_def cc_capacity_def length_put_range cc_pad_aligns)
  have "di_lookup d' = log_lookup (cc_base c') (L @ [(rip, cc_used ?c, bs)])"
    using rep i c(3) [OF ok] b by (auto simp: represents_def log_lookup_snoc di_lookup_def fun_eq_iff lookup_update')
  with e n s b i c(3) [OF ok] show "p = cc_base ?c + of_nat (cc_used ?c) \<and>
      represents d' (L @ [(rip, cc_used ?c, bs)]) \<and> cc_capacity (di_cache d') = cc_capacity ?c"
    by (simp add: represents_def)
qed

lemma chain_word_patch: "in_reach Branch26 w \<Longrightarrow> patch_branch 0x14000000 Branch26 w = Ok (chain_word w)"
  by (simp add: patch_branch_eq opcode_mask_def chain_word_def)

lemma chain_word_exact:
  assumes "in_reach Branch26 w"
  shows "branch_offset Branch26 (chain_word w) = w" "chain_word w AND 0xFC000000 = 0x14000000"
  using patch_branch_offset [OF chain_word_patch [OF assms]] patch_branch_opcode [OF chain_word_patch [OF assms]]
  by (simp_all add: opcode_mask_def)

text \<open>Rewriting part of one entry in place.\<close>

lemma sorted_before_update:
  assumes "sorted_wrt before L" "i < length L" "L ! i = (rip, off, bs)" "length bs' = length bs"
  shows "sorted_wrt before (L[i := (rip, off, bs')])"
  using assms unfolding sorted_wrt_iff_nth_less by (fastforce simp: nth_list_update before_def)

lemma entries_disjoint:
  assumes "sorted_wrt before L" "i < length L" "j < length L" "i \<noteq> j" "L ! i = (rip, off, bs)" "L ! j = (rip', off', bs')"
  shows "off' + length bs' \<le> off \<or> off + length bs \<le> off'"
  using assms sorted_wrt_nth_less [OF assms(1), of i j] sorted_wrt_nth_less [OF assms(1), of j i]
  by (cases "i < j") (auto simp: before_def)

lemma log_lookup_update:
  "i < length L \<Longrightarrow> L ! i = (rip, off, bs) \<Longrightarrow> log_lookup base (L[i := (rip, off, bs')]) = log_lookup base L"
  unfolding log_lookup_def map_update by (metis (no_types, lifting) length_map list_update_id nth_map old.prod.case)

lemma get_put_inside:
  assumes "get_range m off n = Some bs" "a + length ys \<le> n"
  shows "get_range (put_range m (off + a) ys) off n = Some (put_range bs a ys)"
proof -
  have m: "off + n \<le> length m" "bs = take n (drop off m)" "length bs = n"
    using assms(1) by (auto simp: get_range_Some)
  have "take n (drop off (put_range m (off + a) ys)) = put_range bs a ys"
  proof (rule nth_equalityI)
    show "length (take n (drop off (put_range m (off + a) ys))) = length (put_range bs a ys)"
      using m assms(2) by (simp add: length_put_range)
    fix i assume "i < length (take n (drop off (put_range m (off + a) ys)))"
    then have "i < n" by simp
    with m assms(2) show "take n (drop off (put_range m (off + a) ys)) ! i = put_range bs a ys ! i"
      by (auto simp: nth_put_range length_put_range)
  qed
  with m assms(2) show ?thesis by (simp add: get_range_def length_put_range)
qed

lemma write_represents:
  assumes rep: "represents d L" and L: "i < length L" "L ! i = (rip, off, bs)" and a: "a + length ys \<le> length bs"
  shows "represents (d\<lparr>di_cache := (di_cache d)\<lparr>cc_region := region_write (off + a) ys (cc_region (di_cache d))\<rparr>\<rparr>)
     (L[i := (rip, off, put_range bs a ys)])"
    (is "represents ?d (L[i := ?e])")
proof -
  let ?m = "r_mem (cc_region (di_cache d))"
  have s: "sorted_wrt before L" and ok: "\<And>j. j < length L \<Longrightarrow> entry_ok (di_cache d) (L ! j)"
    using rep by (auto simp: represents_def list_all_length)
  have i: "get_range ?m off (length bs) = Some bs" "off mod 4 = 0" "off + length bs \<le> cc_used (di_cache d)"
    using ok [OF L(1)] L(2) by (auto simp: entry_ok_def)
  have len: "length (put_range bs a ys) = length bs" using a by (simp add: length_put_range)
  have "entry_ok (di_cache ?d) (L[i := ?e] ! j)" if j: "j < length L" for j
  proof (cases "j = i")
    case True
    with get_put_inside [OF i(1) a] i len L(1) show ?thesis by (simp add: entry_ok_def region_write_def)
  next
    case False
    obtain rip' off' bs' where e: "L ! j = (rip', off', bs')" by (cases "L ! j")
    have "off' + length bs' \<le> off \<or> off + length bs \<le> off'" using entries_disjoint [OF s L(1) j _ L(2) e] False by simp
    moreover have "off + a + length ys \<le> length ?m" using i(1) a by (auto simp: get_range_Some)
    ultimately have "get_range (put_range ?m (off + a) ys) off' (length bs') = get_range ?m off' (length bs')"
      using a by (intro get_put_disjoint) auto
    with ok [OF j] e False show ?thesis by (simp add: entry_ok_def region_write_def)
  qed
  then have "list_all (entry_ok (di_cache ?d)) (L[i := ?e])" by (simp add: list_all_length)
  moreover have "di_lookup ?d = log_lookup (cc_base (di_cache ?d)) (L[i := ?e])"
    using rep log_lookup_update [OF L] by (simp add: represents_def di_lookup_def cc_base_def region_write_def fun_eq_iff)
  ultimately show ?thesis
    using rep sorted_before_update [OF s L len] by (simp add: represents_def)
qed

lemma patch_represents:
  assumes "represents d L" "i < length L" "L ! i = (rip, off, bs)" "a + 4 \<le> length bs"
    and "cc_capacity (di_cache d) < 2 ^ 64" "site = cc_base (di_cache d) + of_nat (off + a)"
    and "delta = sint target - sint site" "- (2 ^ 63) \<le> delta" "delta < 2 ^ 63"
    and "patch_chain H site target d k = (r, d', k')"
  shows "if delta mod 4 = 0 \<and> in_reach Branch26 (delta div 4)
     then r = Ok True \<and> cc_capacity (di_cache d') = cc_capacity (di_cache d) \<and>
          represents d' (L[i := (rip, off, put_range bs a (u32_to_le (chain_word (delta div 4))))])
     else r = Ok False \<and> d' = d"
proof -
  let ?m = "r_mem (cc_region (di_cache d))"
  have "entry_ok (di_cache d) (rip, off, bs)"
    using assms(1-3) by (metis list_all_length represents_def)
  then have m: "off + length bs \<le> length ?m" by (simp add: entry_ok_def get_range_Some)
  then have o: "unat (site - r_base (cc_region (di_cache d))) = off + a"
    using assms(4-6) by (simp add: cc_base_def cc_capacity_def unsigned_of_nat take_bit_nat_eq_self del: of_nat_add)
  show ?thesis
  proof (cases "delta mod 4 = 0 \<and> in_reach Branch26 (delta div 4)")
    case True
    then have reach: "- (2 ^ 25) \<le> delta div 4" "delta div 4 \<le> 2 ^ 25 - 1"
      by (simp_all add: in_reach_def branch_reach_def)
    have "represents (d\<lparr>di_cache := (di_cache d)\<lparr>cc_region := region_write (off + a)
        (u32_to_le (chain_word (delta div 4))) (cc_region (di_cache d))\<rparr>\<rparr>)
       (L[i := (rip, off, put_range bs a (u32_to_le (chain_word (delta div 4))))])"
      using assms(1-4) by (intro write_represents) simp_all
    moreover have "r = Ok True" "d' = d\<lparr>di_cache := (di_cache d)\<lparr>cc_region := region_write (off + a)
        (u32_to_le (chain_word (delta div 4))) (cc_region (di_cache d))\<rparr>\<rparr>"
      using assms(4,7-10) True reach m o by (simp_all add: patch_chain_def Let_def)
    ultimately show ?thesis using True m assms(4)
      by (auto simp: cc_capacity_def region_write_def length_put_range)
  next
    case False
    then have "delta mod 4 \<noteq> 0 \<or> \<not> (- (2 ^ 25) \<le> delta div 4 \<and> delta div 4 \<le> 2 ^ 25 - 1)"
      by (auto simp: in_reach_def branch_reach_def)
    then have "patch_chain H site target d k = (Ok False, d, k)"
      unfolding patch_chain_def Let_def using assms(7-9) by auto
    with assms(10) False show ?thesis by auto
  qed
qed

lemma install_result:
  assumes "di_install H rip bs d k = (r, d', k')" "cc_used (di_cache d) + length bs < 2 ^ 64"
    "cc_base (di_cache d) + of_nat (cc_used (di_cache d)) \<noteq> 0"
  shows "r = (if cc_used (di_cache d) + length bs \<le> cc_capacity (di_cache d)
     then Ok (cc_base (di_cache d) + of_nat (cc_used (di_cache d)))
     else Err (Host ''codecache:install (oversize)'' 0))"
  using assms by (auto simp: di_install_def cc_install_def cc_base_def cc_capacity_def Let_def split: if_splits)

text \<open>
  Chain patching. Let the dispatcher represent the log \<open>L\<close>, and let the patch site be the word at offset \<open>a\<close> of
  entry \<open>i\<close>. When the distance to the target is a multiple of four bytes within reach of \<open>B\<close>,
  \<open>patch_chain\<close> returns true and the dispatcher represents the log in which exactly that word is
  replaced by an unconditional branch whose offset leads from the site to the target; otherwise it
  returns false and changes nothing. Every other block keeps its bytes and its address.
\<close>

theorem patch_chain_exact:
  assumes "represents d L" "i < length L" "L ! i = (rip, off, bs)" "a + 4 \<le> length bs"
    and "cc_capacity (di_cache d) < 2 ^ 64" "site = cc_base (di_cache d) + of_nat (off + a)"
    and "delta = sint target - sint site" "- (2 ^ 63) \<le> delta" "delta < 2 ^ 63"
    and "patch_chain H site target d k = (r, d', k')"
  shows "if delta mod 4 = 0 \<and> in_reach Branch26 (delta div 4)
     then r = Ok True \<and> (\<exists>w. w AND 0xFC000000 = 0x14000000 \<and> branch_offset Branch26 w = delta div 4 \<and>
            represents d' (L[i := (rip, off, put_range bs a (u32_to_le w))]))
     else r = Ok False \<and> d' = d"
  using patch_represents [OF assms] chain_word_exact [of "delta div 4"] by (auto split: if_splits)

text \<open>
  C31: installing a block refines appending to the log. A block that fits in the rest of the code cache is placed
  at the next multiple of four, its address is returned and becomes what a lookup of its guest address
  gives, and the blocks installed before keep their addresses and bytes; one that does not fit is
  refused with the oversize error and nothing changes.
\<close>

theorem install_refines:
  assumes "represents d L" "di_install H rip bs d k = (r, d', k')" "cc_used (di_cache d) + length bs < 2 ^ 64"
    and "p = cc_base (di_cache d) + of_nat (cc_used (di_cache d))" "p \<noteq> 0"
  shows "if cc_used (di_cache d) + length bs \<le> cc_capacity (di_cache d)
     then r = Ok p \<and> represents d' (L @ [(rip, cc_used (di_cache d), bs)]) \<and> di_lookup d' = (di_lookup d)(rip \<mapsto> p)
     else r = Err (Host ''codecache:install (oversize)'' 0) \<and> d' = d"
proof (cases "cc_used (di_cache d) + length bs \<le> cc_capacity (di_cache d)")
  case True
  have r: "r = Ok p" using install_result [OF assms(2,3)] assms(4,5) True by simp
  have l: "di_lookup d' = (di_lookup d)(rip \<mapsto> p)"
    using assms(2) r by (auto simp: di_install_def di_lookup_def lookup_update' fun_eq_iff split: prod.splits outcome.splits)
  show ?thesis using install_represents(1) [OF assms(1,2) r] True r l by simp
next
  case False
  have r: "r = Err (Host ''codecache:install (oversize)'' 0)" using install_result [OF assms(2,3)] assms(4,5) False by simp
  show ?thesis using install_represents(2) [OF assms(1,2) r] False r by simp
qed

section \<open>A small dispatcher\<close>

definition unit_host :: "unit host" where
  "unit_host = \<lparr>h_vm_allocate = (\<lambda>k a n f. (0, 0x10000, \<lambda>_. 0, k)), h_vm_deallocate = (\<lambda>k a n. k),
     h_vm_protect = (\<lambda>k a n p. (0, k)), h_mmap_jit = (\<lambda>k n. (0x10000, \<lambda>_. 0, k)), h_errno = (\<lambda>k. 0),
     h_jit_write_protect = (\<lambda>k w. k), h_icache_invalidate = (\<lambda>k a n. k)\<rparr>"

definition empty_dispatcher :: dispatcher where
  "empty_dispatcher = \<lparr>di_cache = \<lparr>cc_region = \<lparr>r_base = 0x10000, r_mem = replicate 16 0, r_is_jit = True\<rparr>, cc_used = 0\<rparr>,
     di_map = Mapping.empty\<rparr>"

definition one_block :: dispatcher where
  "one_block = \<lparr>di_cache = \<lparr>cc_region = \<lparr>r_base = 0x10000, r_mem = [1, 0, 0, 0x14, 2] @ replicate 11 0, r_is_jit = True\<rparr>, cc_used = 8\<rparr>,
     di_map = Mapping.update 0x1000 0x10000 Mapping.empty\<rparr>"

lemma small_dispatchers:
  "cc_used (di_cache empty_dispatcher) = 0" "cc_base (di_cache empty_dispatcher) = 0x10000"
  "cc_capacity (di_cache empty_dispatcher) = 16" "cc_base (di_cache one_block) = 0x10000"
  "cc_capacity (di_cache one_block) = 16"
  by code_simp+

lemma one_block_represents: "represents one_block [(0x1000, 0, [1, 0, 0, 0x14, 2])]"
proof -
  have "entry_ok (di_cache one_block) (0x1000, 0, [1, 0, 0, 0x14, 2])" by code_simp
  moreover have "cc_used (di_cache one_block) mod 4 = 0" by code_simp
  moreover have "di_lookup one_block x = log_lookup (cc_base (di_cache one_block)) [(0x1000, 0, [1, 0, 0, 0x14, 2])] x" for x
    by (simp add: one_block_def log_lookup_def di_lookup_def cc_base_def lookup_update' lookup_empty)
  ultimately show ?thesis by (simp add: represents_def fun_eq_iff)
qed

theorem install_refines_witness:
  "fst (di_install unit_host 0x1000 [1, 0, 0, 0x14, 2] empty_dispatcher ()) = Ok 0x10000 \<and>
   represents (fst (snd (di_install unit_host 0x1000 [1, 0, 0, 0x14, 2] empty_dispatcher ()))) [(0x1000, 0, [1, 0, 0, 0x14, 2])]"
proof -
  obtain r d' k' where i: "di_install unit_host 0x1000 [1, 0, 0, 0x14, 2] empty_dispatcher () = (r, d', k')"
    by (metis prod_cases3)
  have "represents empty_dispatcher []"
    by (simp add: represents_def empty_dispatcher_def log_lookup_def di_lookup_def lookup_empty fun_eq_iff)
  from install_refines [OF this i _ refl] show ?thesis
    by (simp add: i small_dispatchers)
qed

theorem patch_chain_exact_witness:
  "\<exists>w. branch_offset Branch26 w = 2 \<and>
     represents (fst (snd (patch_chain unit_host 0x10000 0x10008 one_block ()))) [(0x1000, 0, put_range [1, 0, 0, 0x14, 2] 0 (u32_to_le w))]"
proof -
  obtain r d' k' where p: "patch_chain unit_host 0x10000 0x10008 one_block () = (r, d', k')"
    by (metis prod_cases3)
  have "sint (0x10008 :: u64) - sint (0x10000 :: u64) = 8" by simp
  then show ?thesis
    using patch_chain_exact [OF one_block_represents _ _ _ _ _ refl _ _ p, where i = 0 and a = 0]
    by (simp add: p small_dispatchers in_reach_def branch_reach_def) blast
qed

end
