(* ===== verification/Imports.thy ===== *)
theory Imports
  imports Image_Map
begin

text \<open>
  \<open>quantum-loader/src/imports.rs\<close> and \<open>delay_imports.rs\<close>: the import and delay-import directories
  and the wiring of the import address table. The descriptor loops stop only because a read past the
  image fails, so they are \<open>partial_function (option)\<close>: \<open>None\<close> is a loop that does not return, and
  termination on every image of at most 2 GiB is a theorem. Strings are their UTF-8 bytes. The
  resolver is the caller's closure, a parameter with its own state.
\<close>

section \<open>Data\<close>

definition IMPORT_DESCRIPTOR_SIZE :: u32 where "IMPORT_DESCRIPTOR_SIZE = 20"
definition IMPORT_BY_ORDINAL_FLAG_64 :: u64 where "IMPORT_BY_ORDINAL_FLAG_64 = push_bit 63 1"
definition IMPORT_ORDINAL_MASK_64 :: u64 where "IMPORT_ORDINAL_MASK_64 = 0xFFFF"
definition DELAY_DESCRIPTOR_SIZE :: u32 where "DELAY_DESCRIPTOR_SIZE = 32"

datatype import_entry =
    ImportName (ie_hint: u16) (ie_name: bytes) (iat_slot_rva: u32)
  | ImportOrdinal (ie_ordinal: u16) (iat_slot_rva: u32)

record dll_imports =
  di_name :: bytes
  di_iat_rva :: u32
  di_ilt_rva :: u32
  di_entries :: "import_entry list"

record import_table =
  it_dlls :: "dll_imports list"

record delay_dll_imports =
  dd_name :: bytes
  dd_attributes :: u32
  dd_module_handle_rva :: u32
  dd_iat_rva :: u32
  dd_int_rva :: u32
  dd_bound_iat_rva :: u32
  dd_unload_iat_rva :: u32
  dd_time_date_stamp :: u32
  dd_entries :: "import_entry list"

record delay_import_table =
  dt_dlls :: "delay_dll_imports list"

section \<open>Strings\<close>

function read_cstr_loop :: "loaded_image \<Rightarrow> u32 \<Rightarrow> u32 \<Rightarrow> bytes \<Rightarrow> bytes result" where
  "read_cstr_loop img rva off out =
     obind (ok_or (rva_to_slice img off 1) (Malformed ''cstr oob'' (unat off))) (\<lambda>s.
     let b = s ! 0 in
     if b = 0 then Ok out
     else
       let out1 = out @ [b] in
       obind (ok_or (checked_add off 1) (Malformed ''cstr overflow'' (unat off))) (\<lambda>off1.
       if length out1 > 4096 then Err (Malformed ''cstr unbounded'' (unat rva))
       else read_cstr_loop img rva off1 out1))"
  by pat_completeness auto
termination
  by (relation "measure (\<lambda>(img, rva, off, out). 4097 - length out)") auto

declare read_cstr_loop.simps [simp del]

definition read_cstr :: "loaded_image \<Rightarrow> u32 \<Rightarrow> bytes result" where
  "read_cstr img rva =
     obind (read_cstr_loop img rva rva []) (\<lambda>out.
     if utf8_valid out then Ok out else Err (Malformed ''cstr utf8'' (unat rva)))"

section \<open>Thunk arrays\<close>

text \<open>One thunk: an ordinal or the RVA of a hint and a name.\<close>

definition parse_thunk :: "loaded_image \<Rightarrow> u64 \<Rightarrow> u32 \<Rightarrow> import_entry result" where
  "parse_thunk img thunk slot_rva =
     (if thunk AND IMPORT_BY_ORDINAL_FLAG_64 \<noteq> 0
      then Ok (ImportOrdinal (ucast (thunk AND IMPORT_ORDINAL_MASK_64)) slot_rva)
      else
        let by_name_rva = ucast (thunk AND 0x7FFFFFFF) :: u32 in
        obind (ok_or (rva_to_slice img by_name_rva 2) (Malformed ''by-name hint'' (unat by_name_rva))) (\<lambda>hint_bytes.
        let hint = u16_from_le [hint_bytes ! 0, hint_bytes ! 1] in
        obind (add_or_panic by_name_rva 2) (\<lambda>name_rva.
        obind (read_cstr img name_rva) (\<lambda>name.
        Ok (ImportName hint name slot_rva)))))"

definition thunk_at :: "loaded_image \<Rightarrow> u32 \<Rightarrow> u32 \<Rightarrow> u64 result" where
  "thunk_at img array_rva idx =
     obind (ok_or (checked_mul idx 8) (Malformed ''thunk index overflow'' (unat array_rva))) (\<lambda>o8.
     obind (ok_or (checked_add array_rva o8) (Malformed ''thunk rva overflow'' (unat array_rva))) (\<lambda>off.
     obind (ok_or (rva_to_slice img off 8) (Malformed ''thunk slot oob'' (unat off))) (\<lambda>slot.
     Ok (u64_from_le slot))))"

function parse_thunks ::
  "loaded_image \<Rightarrow> u32 \<Rightarrow> u32 \<Rightarrow> u32 \<Rightarrow> import_entry list \<Rightarrow> import_entry list result" where
  "parse_thunks img array_rva iat_rva idx entries =
     obind (thunk_at img array_rva idx) (\<lambda>thunk.
     if thunk = 0 then Ok entries
     else
       obind (mul_or_panic idx 8) (\<lambda>o8.
       obind (ok_or (checked_add iat_rva o8) (Malformed ''iat slot rva overflow'' (unat iat_rva))) (\<lambda>slot_rva.
       obind (parse_thunk img thunk slot_rva) (\<lambda>e.
       obind (add_or_panic idx 1) (\<lambda>idx1.
       if idx1 > 65536 then Err (Malformed ''thunk array unbounded'' (unat array_rva))
       else parse_thunks img array_rva iat_rva idx1 (entries @ [e]))))))"
  by pat_completeness auto
termination
proof (relation "measure (\<lambda>(img, array_rva, iat_rva, idx, entries). 65537 - unat idx)", goal_cases)
  case (2 img array_rva iat_rva idx entries thunk o8 slot_rva e idx1)
  then have "unat idx1 = unat idx + 1" "unat idx1 \<le> 65536"
    by (auto simp: add_or_panic_Ok not_less word_le_nat_alt unat_word_ariths)
  then show ?case by simp
qed simp

declare parse_thunks.simps [simp del]

definition parse_thunk_array :: "loaded_image \<Rightarrow> u32 \<Rightarrow> u32 \<Rightarrow> import_entry list result" where
  "parse_thunk_array img ilt_rva iat_rva =
     (let array_rva = (if ilt_rva \<noteq> 0 then ilt_rva else iat_rva) in
      if array_rva = 0 then Ok [] else parse_thunks img array_rva iat_rva 0 [])"

section \<open>Import descriptors\<close>

text \<open>
  One descriptor: \<open>None\<close> is the terminator, known by three of its five fields. The Rust loop reads the descriptor, tests for
  the terminator and parses the rest.
\<close>

definition read_descriptor :: "loaded_image \<Rightarrow> u32 \<Rightarrow> u32 \<Rightarrow> dll_imports option result" where
  "read_descriptor img end cursor =
     (if saturating_add cursor IMPORT_DESCRIPTOR_SIZE > end
      then Err (Malformed ''import descriptor past directory'' (unat cursor))
      else
        obind (ok_or (rva_to_slice img cursor (unat IMPORT_DESCRIPTOR_SIZE))
                     (Malformed ''import descriptor'' (unat cursor))) (\<lambda>bytes.
        let original_first_thunk = u32_from_le (sub bytes 0 4);
            name_rva = u32_from_le (sub bytes 12 16);
            first_thunk = u32_from_le (sub bytes 16 20)
        in if original_first_thunk = 0 \<and> name_rva = 0 \<and> first_thunk = 0 then Ok None
           else
             obind (read_cstr img name_rva) (\<lambda>dll_name.
             obind (parse_thunk_array img original_first_thunk first_thunk) (\<lambda>entries.
             Ok (Some \<lparr>di_name = dll_name, di_iat_rva = first_thunk,
                       di_ilt_rva = original_first_thunk, di_entries = entries\<rparr>)))))"

partial_function (option) parse_descriptors ::
  "loaded_image \<Rightarrow> u32 \<Rightarrow> u32 \<Rightarrow> dll_imports list \<Rightarrow> import_table result option" where
  "parse_descriptors img end cursor dlls =
     (case read_descriptor img end cursor of
        Err e \<Rightarrow> Some (Err e)
      | Panic p \<Rightarrow> Some (Panic p)
      | Ok d \<Rightarrow>
          (case d of
             None \<Rightarrow> Some (Ok \<lparr>it_dlls = dlls\<rparr>)
           | Some dll \<Rightarrow>
               parse_descriptors img end (saturating_add cursor IMPORT_DESCRIPTOR_SIZE) (dlls @ [dll])))"

definition parse_with_directory :: "loaded_image \<Rightarrow> nat \<Rightarrow> import_table result option" where
  "parse_with_directory img directory =
     (case data_dir img directory of
        None \<Rightarrow> Some (Ok \<lparr>it_dlls = []\<rparr>)
      | Some dir \<Rightarrow>
          parse_descriptors img (saturating_add (virtual_address dir) (dir_size dir)) (virtual_address dir) [])"

definition parse_imports :: "loaded_image \<Rightarrow> import_table result option" where
  "parse_imports img = parse_with_directory img DIR_IMPORT"

section \<open>Delay-load descriptors\<close>

definition read_delay_descriptor :: "loaded_image \<Rightarrow> u32 \<Rightarrow> u32 \<Rightarrow> delay_dll_imports option result" where
  "read_delay_descriptor img end cursor =
     (if saturating_add cursor DELAY_DESCRIPTOR_SIZE > end
      then Err (Malformed ''delay-load descriptor past directory'' (unat cursor))
      else
        obind (ok_or (rva_to_slice img cursor (unat DELAY_DESCRIPTOR_SIZE))
                     (Malformed ''delay-load descriptor'' (unat cursor))) (\<lambda>bytes.
        let attributes = u32_from_le (sub bytes 0 4);
            name_rva = u32_from_le (sub bytes 4 8);
            module_handle_rva = u32_from_le (sub bytes 8 12);
            iat_rva = u32_from_le (sub bytes 12 16);
            int_rva = u32_from_le (sub bytes 16 20);
            bound_iat_rva = u32_from_le (sub bytes 20 24);
            unload_iat_rva = u32_from_le (sub bytes 24 28);
            time_date_stamp = u32_from_le (sub bytes 28 32)
        in if attributes = 0 \<and> name_rva = 0 \<and> iat_rva = 0 \<and> int_rva = 0 then Ok None
           else
             obind (read_cstr img name_rva) (\<lambda>dll_name.
             obind (parse_thunk_array img int_rva iat_rva) (\<lambda>entries.
             Ok (Some \<lparr>dd_name = dll_name, dd_attributes = attributes,
                       dd_module_handle_rva = module_handle_rva, dd_iat_rva = iat_rva,
                       dd_int_rva = int_rva, dd_bound_iat_rva = bound_iat_rva,
                       dd_unload_iat_rva = unload_iat_rva, dd_time_date_stamp = time_date_stamp,
                       dd_entries = entries\<rparr>)))))"

partial_function (option) parse_delay_descriptors ::
  "loaded_image \<Rightarrow> u32 \<Rightarrow> u32 \<Rightarrow> delay_dll_imports list \<Rightarrow> delay_import_table result option" where
  "parse_delay_descriptors img end cursor dlls =
     (case read_delay_descriptor img end cursor of
        Err e \<Rightarrow> Some (Err e)
      | Panic p \<Rightarrow> Some (Panic p)
      | Ok d \<Rightarrow>
          (case d of
             None \<Rightarrow> Some (Ok \<lparr>dt_dlls = dlls\<rparr>)
           | Some dll \<Rightarrow>
               parse_delay_descriptors img end (saturating_add cursor DELAY_DESCRIPTOR_SIZE) (dlls @ [dll])))"

definition parse_delay_imports :: "loaded_image \<Rightarrow> delay_import_table result option" where
  "parse_delay_imports img =
     (case data_dir img DIR_DELAY_IMPORT of
        None \<Rightarrow> Some (Ok \<lparr>dt_dlls = []\<rparr>)
      | Some dir \<Rightarrow>
          parse_delay_descriptors img (saturating_add (virtual_address dir) (dir_size dir)) (virtual_address dir) [])"

section \<open>Wiring the import address table\<close>

fun decimal :: "nat \<Rightarrow> bytes" where
  "decimal n = (if n < 10 then [of_nat (48 + n)] else decimal (n div 10) @ [of_nat (48 + n mod 10)])"

declare decimal.simps [simp del]

definition lookup_name :: "import_entry \<Rightarrow> bytes" where
  "lookup_name e =
     (case e of ImportName hint name slot \<Rightarrow> name
              | ImportOrdinal ordinal slot \<Rightarrow> [0x23] @ decimal (unat ordinal))"

type_synonym 's resolver = "'s \<Rightarrow> bytes \<Rightarrow> bytes \<Rightarrow> u64 option \<times> 's"

definition wire_entry ::
  "'s resolver \<Rightarrow> bytes \<Rightarrow> import_entry \<Rightarrow> loaded_image \<times> 's \<Rightarrow> unit result \<times> loaded_image \<times> 's" where
  "wire_entry resolver dll_name e st =
     (let (r, s1) = resolver (snd st) dll_name (lookup_name e);
          target = (case r of None \<Rightarrow> 0 | Some a \<Rightarrow> a)
      in case rva_to_slice_mut (fst st) (iat_slot_rva e) 8 of
           None \<Rightarrow> (Err (Malformed ''iat slot oob'' (unat (iat_slot_rva e))), fst st, s1)
         | Some (slot, write) \<Rightarrow> (Ok (), write (u64_to_le target), s1))"

primrec wire_entries ::
  "'s resolver \<Rightarrow> bytes \<Rightarrow> import_entry list \<Rightarrow> loaded_image \<times> 's \<Rightarrow> unit result \<times> loaded_image \<times> 's" where
  "wire_entries resolver dll_name [] st = (Ok (), st)"
| "wire_entries resolver dll_name (e # es) st =
     sbind (wire_entry resolver dll_name e st) (\<lambda>_ st1. wire_entries resolver dll_name es st1)"

primrec wire_dlls ::
  "'s resolver \<Rightarrow> dll_imports list \<Rightarrow> loaded_image \<times> 's \<Rightarrow> unit result \<times> loaded_image \<times> 's" where
  "wire_dlls resolver [] st = (Ok (), st)"
| "wire_dlls resolver (d # ds) st =
     sbind (wire_entries resolver (di_name d) (di_entries d) st) (\<lambda>_ st1. wire_dlls resolver ds st1)"

definition wire_iat ::
  "loaded_image \<Rightarrow> import_table \<Rightarrow> 's resolver \<Rightarrow> 's \<Rightarrow> unit result \<times> loaded_image \<times> 's" where
  "wire_iat img imports resolver s = wire_dlls resolver (it_dlls imports) (img, s)"

section \<open>What the strings are\<close>

text \<open>\<open>s\<close> is the NUL-terminated string at offset \<open>n\<close> of \<open>mem\<close>.\<close>

primrec cstr_at :: "bytes \<Rightarrow> nat \<Rightarrow> bytes \<Rightarrow> bool" where
  "cstr_at mem n [] \<longleftrightarrow> n < length mem \<and> mem ! n = 0"
| "cstr_at mem n (b # s) \<longleftrightarrow> n < length mem \<and> mem ! n = b \<and> b \<noteq> 0 \<and> cstr_at mem (Suc n) s"

lemma rva_to_slice_1:
  assumes "image_bounded img"
  shows "rva_to_slice img off (Suc 0) = (if unat off < length (img_mem img) then Some [img_mem img ! unat off] else None)"
  using assms unat_u32_less [of off]
  by (auto simp: rva_to_slice_def usize_checked_add_def take_Suc_conv_app_nth Cons_nth_drop_Suc [symmetric])

lemma read_cstr_loop_Ok:
  assumes "image_bounded img" "length out \<le> 4096"
  shows "read_cstr_loop img rva off out = Ok t \<longleftrightarrow>
    (\<exists>s. t = out @ s \<and> cstr_at (img_mem img) (unat off) s \<and> length out + length s \<le> 4096)"
  using assms
proof (induction img rva off out rule: read_cstr_loop.induct)
  case (1 img rva off out)
  let ?m = "img_mem img"
  note unf = read_cstr_loop.simps [of img rva off out] rva_to_slice_1 [OF 1(2)]
  show ?case
  proof (cases "unat off < length ?m \<and> ?m ! unat off \<noteq> 0")
    case True
    have sm: "unat off + 1 < 4294967296" using True 1(2) by (simp add: image_bounded_def)
    then have ca: "checked_add off 1 = Some (off + 1)" and u: "unat (off + 1) = Suc (unat off)"
      by (simp_all add: checked_add_def unat_word_ariths)
    have e: "(\<exists>s. t = out @ s \<and> cstr_at ?m (unat off) s \<and> length out + length s \<le> 4096) \<longleftrightarrow>
      (\<exists>s. t = (out @ [?m ! unat off]) @ s \<and> cstr_at ?m (Suc (unat off)) s \<and> Suc (length out) + length s \<le> 4096)"
      (is "?l \<longleftrightarrow> ?r")
    proof
      assume ?l
      then obtain s where s: "t = out @ s" "cstr_at ?m (unat off) s" "length out + length s \<le> 4096" by blast
      with True show ?r by (cases s) auto
    next
      assume ?r
      then obtain s where s: "t = (out @ [?m ! unat off]) @ s" "cstr_at ?m (Suc (unat off)) s"
        "Suc (length out) + length s \<le> 4096" by blast
      show ?l by (rule exI [of _ "?m ! unat off # s"]) (use s True in auto)
    qed
    show ?thesis
    proof (cases "length out = 4096")
      case True
      then show ?thesis using e ca \<open>unat off < length ?m \<and> ?m ! unat off \<noteq> 0\<close> by (simp add: unf)
    next
      case False
      with 1(3) have l: "length (out @ [?m ! unat off]) \<le> 4096" by simp
      have "rva_to_slice img off (Suc 0) = Some [?m ! unat off]" using True by (simp add: rva_to_slice_1 [OF 1(2)])
      then have "read_cstr_loop img rva (off + 1) (out @ [?m ! unat off]) = Ok t \<longleftrightarrow>
        (\<exists>s. t = (out @ [?m ! unat off]) @ s \<and> cstr_at ?m (unat (off + 1)) s \<and>
             length (out @ [?m ! unat off]) + length s \<le> 4096)"
        using 1(1) [of "[?m ! unat off]" "?m ! unat off" "out @ [?m ! unat off]" "off + 1"] True ca l 1(2) by simp
      then show ?thesis using e ca True l by (simp add: unf u)
    qed
  next
    case False
    have "(\<exists>s. t = out @ s \<and> cstr_at ?m (unat off) s \<and> length out + length s \<le> 4096) \<longleftrightarrow>
       t = out \<and> unat off < length ?m" if "\<not> (unat off < length ?m) \<or> ?m ! unat off = 0"
    proof -
      have "cstr_at ?m (unat off) s \<longleftrightarrow> s = [] \<and> unat off < length ?m" for s
        using that by (cases s) auto
      then show ?thesis using 1(3) by auto
    qed
    with False show ?thesis by (auto simp: unf)
  qed
qed

lemma read_cstr_Ok:
  assumes "image_bounded img"
  shows "read_cstr img rva = Ok s \<longleftrightarrow>
    cstr_at (img_mem img) (unat rva) s \<and> length s \<le> 4096 \<and> utf8_valid s"
  using read_cstr_loop_Ok [OF assms, of "[]" rva rva] by (auto simp: read_cstr_def outcome_simps split: if_splits)

lemma read_cstr_no_panic: "no_panic (read_cstr img rva)"
proof -
  have "no_panic (read_cstr_loop img rva off out)" for off out
  proof (induction img rva off out rule: read_cstr_loop.induct)
    case (1 img rva off out)
    show ?case
      by (subst read_cstr_loop.simps) (auto intro!: no_panic_intros 1)
  qed
  then show ?thesis by (simp add: read_cstr_def) (intro no_panic_intros)
qed

section \<open>What the thunk arrays are\<close>

text \<open>
  The import format over the bytes of the image. A name is a NUL-terminated UTF-8 string of at most
  4096 bytes. A 64-bit thunk with bit 63 set holds an ordinal in its low 16 bits; otherwise its low 31
  bits are the RVA of a hint and a name. A thunk array is read up to its zero thunk, the IAT slot eight
  bytes further each time.
\<close>

definition name_at :: "bytes \<Rightarrow> nat \<Rightarrow> bytes \<Rightarrow> bool" where
  "name_at mem n s \<longleftrightarrow> cstr_at mem n s \<and> length s \<le> 4096 \<and> utf8_valid s"

definition thunk_entry :: "bytes \<Rightarrow> nat \<Rightarrow> import_entry \<Rightarrow> bool" where
  "thunk_entry mem t e =
     (case e of
        ImportOrdinal ordinal slot \<Rightarrow> t \<ge> 2 ^ 63 \<and> unat ordinal = t mod 2 ^ 16
      | ImportName hint name slot \<Rightarrow>
          t < 2 ^ 63 \<and> t mod 2 ^ 31 + 2 \<le> length mem \<and> unat hint = le_field mem (t mod 2 ^ 31) 2 \<and>
          name_at mem (t mod 2 ^ 31 + 2) name)"

primrec thunk_layout :: "bytes \<Rightarrow> nat \<Rightarrow> nat \<Rightarrow> import_entry list \<Rightarrow> bool" where
  "thunk_layout mem arr iat [] \<longleftrightarrow> arr + 8 \<le> length mem \<and> le_field mem arr 8 = 0"
| "thunk_layout mem arr iat (e # es) \<longleftrightarrow>
     arr + 8 \<le> length mem \<and> le_field mem arr 8 \<noteq> 0 \<and> unat (iat_slot_rva e) = iat \<and>
     thunk_entry mem (le_field mem arr 8) e \<and> thunk_layout mem (arr + 8) (iat + 8) es"

lemma le_field_bound: "le_field b off n < 256 ^ n"
proof -
  have "le_field b off n < 256 ^ length (take n (drop off b))"
    unfolding le_field_def by (rule from_le_bound)
  also have "\<dots> \<le> 256 ^ n" by (rule power_increasing) simp_all
  finally show ?thesis .
qed

lemma rva_to_slice_field:
  assumes "image_bounded img" "rva_to_slice img a n = Some ys"
  shows "unat a + n \<le> length (img_mem img)" "ys = take n (drop (unat a) (img_mem img))" "length ys = n"
  using assms by (auto simp: rva_to_slice_Some slice_simps)

lemma thunk_at_Ok:
  assumes "image_bounded img" "unat idx \<le> 65536"
  shows "thunk_at img arr idx = Ok t \<longleftrightarrow>
    unat arr + 8 * unat idx + 8 \<le> length (img_mem img) \<and>
    unat t = le_field (img_mem img) (unat arr + 8 * unat idx) 8"
proof (cases "unat arr + 8 * unat idx < 4294967296")
  case True
  have u: "unat (idx * 8) = 8 * unat idx" using assms(2) unat_mul_small [of idx 8] by simp
  have v: "unat (arr + idx * 8) = unat arr + 8 * unat idx"
    using True unat_add_small [of arr "idx * 8"] u by simp
  have "thunk_at img arr idx = obind (ok_or (rva_to_slice img (arr + idx * 8) 8)
      (Malformed ''thunk slot oob'' (unat (arr + idx * 8)))) (\<lambda>slot. Ok (u64_from_le slot))"
    using assms(2) True u by (simp add: thunk_at_def checked_mul_def checked_add_def)
  then show ?thesis
    using True assms(1)
    by (auto simp: outcome_simps rva_to_slice_Some slice_simps v le_field_def unat_u64_from_le image_bounded_def
        word_unat_eq_iff)
next
  case False
  then show ?thesis
    using assms by (auto simp: thunk_at_def outcome_simps checked_mul_Some checked_add_Some unat_mul_small
        image_bounded_def)
qed

lemma thunk_bits:
  "t AND IMPORT_BY_ORDINAL_FLAG_64 \<noteq> 0 \<longleftrightarrow> 2 ^ 63 \<le> unat (t :: u64)"
  "unat (ucast (t AND IMPORT_ORDINAL_MASK_64) :: u16) = unat t mod 2 ^ 16"
  "unat (ucast (t AND 0x7FFFFFFF) :: u32) = unat t mod 2 ^ 31"
proof -
  have "t AND push_bit 63 1 \<noteq> 0 \<longleftrightarrow> bit t 63"
    using and_exp_eq_0_iff_not_bit [of t 63] by (simp add: push_bit_eq_mult)
  moreover have "bit t 63 \<longleftrightarrow> 2 ^ 63 \<le> unat t"
  proof -
    have "unat t div 2 ^ 63 < 2" using unsigned_less [where 'a = nat, of t] by (simp add: less_mult_imp_div_less)
    then have "odd (unat t div 2 ^ 63) \<longleftrightarrow> unat t div 2 ^ 63 = 1"
      unfolding less_2_cases_iff by (elim disjE) simp_all
    also have "\<dots> \<longleftrightarrow> 2 ^ 63 \<le> unat t"
      using \<open>unat t div 2 ^ 63 < 2\<close> div_greater_zero_iff [of "unat t" "2 ^ 63"] by (auto simp del: div_greater_zero_iff)
    finally show ?thesis using bit_unsigned_iff [where 'a = nat, of t 63] by (simp add: bit_iff_odd)
  qed
  ultimately show "t AND IMPORT_BY_ORDINAL_FLAG_64 \<noteq> 0 \<longleftrightarrow> 2 ^ 63 \<le> unat (t :: u64)"
    by (simp add: IMPORT_BY_ORDINAL_FLAG_64_def)
  have "t AND 0xFFFF = take_bit 16 t" "t AND 0x7FFFFFFF = take_bit 31 t"
    using take_bit_eq_mask [of 16 t] take_bit_eq_mask [of 31 t] by (simp_all add: mask_numeral)
  moreover have "unat t mod 2 ^ 31 < 4294967296"
    by (rule less_trans [OF mod_less_divisor]) simp_all
  ultimately show "unat (ucast (t AND IMPORT_ORDINAL_MASK_64) :: u16) = unat t mod 2 ^ 16"
    "unat (ucast (t AND 0x7FFFFFFF) :: u32) = unat t mod 2 ^ 31"
    by (simp_all add: IMPORT_ORDINAL_MASK_64_def unsigned_ucast_eq unat_word_ariths take_bit_eq_mod)
qed


lemma parse_thunk_Ok:
  assumes "image_bounded img"
  shows "parse_thunk img t slot = Ok e \<longleftrightarrow> iat_slot_rva e = slot \<and> thunk_entry (img_mem img) (unat t) e"
proof (cases "2 ^ 63 \<le> unat t")
  case True
  then show ?thesis
    using thunk_bits [of t]
    by (cases e) (auto simp: parse_thunk_def thunk_entry_def word_unat_eq_iff)
next
  case False
  let ?p = "ucast (t AND 0x7FFFFFFF) :: u32"
  have p: "unat ?p = unat t mod 2 ^ 31" by (rule thunk_bits)
  then have s: "unat ?p + 2 < 4294967296" by (simp add: less_le_trans [OF mod_less_divisor])
  then have q: "unat (?p + 2) = unat ?p + 2" using unat_add_small [of ?p 2] by simp
  have h: "rva_to_slice img ?p 2 = Some hb \<Longrightarrow> [hb ! 0, hb ! Suc 0] = hb" for hb
    using rva_to_slice_field(3) [OF assms, of ?p 2 hb] by (auto simp: numeral_2_eq_2 length_Suc_conv)
  have a: "add_or_panic ?p 2 = Ok (?p + 2)" using s by (simp add: add_or_panic_def)
  have n: "\<not> (t AND IMPORT_BY_ORDINAL_FLAG_64 \<noteq> 0)" using False thunk_bits(1) [of t] by simp
  have "parse_thunk img t slot = Ok e \<longleftrightarrow>
    (\<exists>hb name. rva_to_slice img ?p 2 = Some hb \<and> read_cstr img (?p + 2) = Ok name \<and>
       e = ImportName (u16_from_le hb) name slot)"
    unfolding parse_thunk_def Let_def if_not_P [OF n] a
    by (cases "rva_to_slice img ?p 2") (auto simp: outcome_simps h)
  also have "\<dots> \<longleftrightarrow> iat_slot_rva e = slot \<and> thunk_entry (img_mem img) (unat t) e"
    using False s
    by (cases e) (auto simp: rva_to_slice_Some slice_simps read_cstr_Ok [OF assms] q thunk_entry_def name_at_def
        le_field_def p unat_u16_from_le word_unat_eq_iff)
  finally show ?thesis .
qed

lemma parse_thunks_Ok:
  assumes "image_bounded img" "unat idx \<le> 65536"
  shows "parse_thunks img arr iat idx es = Ok r \<longleftrightarrow>
    (\<exists>ns. r = es @ ns \<and> unat idx + length ns \<le> 65536 \<and>
      thunk_layout (img_mem img) (unat arr + 8 * unat idx) (unat iat + 8 * unat idx) ns)"
  using assms
proof (induction img arr iat idx es rule: parse_thunks.induct)
  case (1 img arr iat idx es)
  let ?m = "img_mem img" and ?a = "unat arr + 8 * unat idx"
  note t_iff = thunk_at_Ok [OF 1(2,3), of arr]
  show ?case
  proof (cases "?a + 8 \<le> length ?m \<and> le_field ?m ?a 8 \<noteq> 0")
    case False
    have "thunk_layout ?m ?a i ns \<longleftrightarrow> ns = [] \<and> ?a + 8 \<le> length ?m" for i ns
      using False by (cases ns) auto
    moreover have "thunk_at img arr idx = Ok t \<longleftrightarrow> t = 0 \<and> ?a + 8 \<le> length ?m" for t
      using False by (auto simp: t_iff unat_eq_0)
    ultimately show ?thesis
      using 1(3) by (subst parse_thunks.simps) (auto simp: outcome_simps)
  next
    case True
    let ?t = "of_nat (le_field ?m ?a 8) :: u64"
    have "le_field ?m ?a 8 < 2 ^ 64" using le_field_bound [of ?m ?a 8] by simp
    then have ut: "unat ?t = le_field ?m ?a 8" by (simp add: unat_of_nat)
    with True have t: "thunk_at img arr idx = Ok ?t" and t0: "?t \<noteq> 0"
      by (auto simp: t_iff)
    have u8: "mul_or_panic idx 8 = Ok (idx * 8)" "unat (idx * 8) = 8 * unat idx"
      and u1: "add_or_panic idx 1 = Ok (idx + 1)" "unat (idx + 1) = Suc (unat idx)"
      using 1(3) unat_mul_small [of idx 8] unat_add_small [of idx 1]
      by (simp_all add: mul_or_panic_def add_or_panic_def)
    have le: "65536 < idx + 1 \<longleftrightarrow> \<not> Suc (unat idx) \<le> 65536"
      using u1(2) by (simp add: word_less_nat_alt not_le)
    have ih: "parse_thunks img arr iat (idx + 1) (es @ [e]) = Ok r \<longleftrightarrow>
      (\<exists>ns. r = es @ e # ns \<and> Suc (unat idx) + length ns \<le> 65536 \<and>
         thunk_layout ?m (?a + 8) (unat iat + 8 * unat idx + 8) ns)"
      if "checked_add iat (idx * 8) = Some slot" "parse_thunk img ?t slot = Ok e" "Suc (unat idx) \<le> 65536"
      for slot e
      using 1(1) [OF t t0 u8(1) _ that(2) u1(1)] that le u1(2) 1(2)
      by (simp add: ac_simps)
    have "parse_thunks img arr iat idx es = Ok r \<longleftrightarrow>
      (\<exists>slot e. checked_add iat (idx * 8) = Some slot \<and> parse_thunk img ?t slot = Ok e \<and>
         Suc (unat idx) \<le> 65536 \<and> parse_thunks img arr iat (idx + 1) (es @ [e]) = Ok r)"
      by (subst parse_thunks.simps) (auto simp: t t0 u8 u1 le outcome_simps)
    also have "\<dots> \<longleftrightarrow> (\<exists>e ns. r = es @ e # ns \<and> unat (iat_slot_rva e) = unat iat + 8 * unat idx \<and>
         thunk_entry ?m (le_field ?m ?a 8) e \<and> Suc (unat idx) + length ns \<le> 65536 \<and>
         thunk_layout ?m (?a + 8) (unat iat + 8 * unat idx + 8) ns)" (is "?l \<longleftrightarrow> ?r")
    proof
      assume ?l
      then obtain slot e where s: "checked_add iat (idx * 8) = Some slot" "parse_thunk img ?t slot = Ok e"
        "Suc (unat idx) \<le> 65536" "parse_thunks img arr iat (idx + 1) (es @ [e]) = Ok r" by blast
      then have "iat_slot_rva e = slot" "thunk_entry ?m (le_field ?m ?a 8) e"
        by (simp_all add: parse_thunk_Ok [OF 1(2)] ut)
      with ih [OF s(1,2,3)] s(4) unat_checked_add [OF s(1)] u8(2) show ?r by auto
    next
      assume ?r
      then obtain e ns where e: "r = es @ e # ns" "unat (iat_slot_rva e) = unat iat + 8 * unat idx"
        "thunk_entry ?m (le_field ?m ?a 8) e" "Suc (unat idx) + length ns \<le> 65536"
        "thunk_layout ?m (?a + 8) (unat iat + 8 * unat idx + 8) ns" by blast
      have s: "unat iat + unat (idx * 8) < 2 ^ LENGTH(32)"
        using e(2) u8(2) unat_u32_less [of "iat_slot_rva e"] by simp
      then have c: "checked_add iat (idx * 8) = Some (iat_slot_rva e)"
        using e(2) u8(2) unat_add_small [OF s] by (simp add: checked_add_def word_unat_eq_iff)
      have p: "parse_thunk img ?t (iat_slot_rva e) = Ok e"
        using e(3) by (simp add: parse_thunk_Ok [OF 1(2)] ut)
      from c p e(4) ih [OF c p] e(1,5) show ?l by (intro exI conjI) auto
    qed
    also have "\<dots> \<longleftrightarrow> (\<exists>ns. r = es @ ns \<and> unat idx + length ns \<le> 65536 \<and>
         thunk_layout ?m ?a (unat iat + 8 * unat idx) ns)" (is "_ \<longleftrightarrow> ?q")
    proof
      assume ?q
      then obtain ns where ns: "r = es @ ns" "unat idx + length ns \<le> 65536"
        "thunk_layout ?m ?a (unat iat + 8 * unat idx) ns" by blast
      with True obtain e ns' where "ns = e # ns'" by (cases ns) auto
      with ns show "\<exists>e ns. r = es @ e # ns \<and> unat (iat_slot_rva e) = unat iat + 8 * unat idx \<and>
         thunk_entry ?m (le_field ?m ?a 8) e \<and> Suc (unat idx) + length ns \<le> 65536 \<and>
         thunk_layout ?m (?a + 8) (unat iat + 8 * unat idx + 8) ns" by auto
    qed (use True in \<open>auto intro: exI [of _ "_ # _"]\<close>)
    finally show ?thesis .
  qed
qed

lemma parse_thunk_array_Ok:
  assumes "image_bounded img"
  shows "parse_thunk_array img ilt iat = Ok es \<longleftrightarrow>
    (if ilt = 0 \<and> iat = 0 then es = []
     else length es \<le> 65536 \<and>
          thunk_layout (img_mem img) (unat (if ilt \<noteq> 0 then ilt else iat)) (unat iat) es)"
  using parse_thunks_Ok [OF assms, of 0 "if ilt \<noteq> 0 then ilt else iat" iat "[]" es]
  by (auto simp: parse_thunk_array_def)

lemma parse_thunk_no_panic: "no_panic (parse_thunk img t slot)"
proof -
  have "t AND 0x7FFFFFFF = take_bit 31 t"
    using take_bit_eq_mask [of 31 t] by (simp add: mask_numeral)
  moreover have "unat (take_bit 31 t) < 2 ^ 31"
    using take_bit_nat_less_exp [of 31 "unat t"] by (simp add: unsigned_take_bit_eq)
  ultimately have b: "unat (ucast (t AND 0x7FFFFFFF) :: u32) < 2 ^ 31"
    by (simp add: unsigned_ucast_eq take_bit_nat_eq_self)
  then show ?thesis
    unfolding parse_thunk_def Let_def
    by (intro no_panic_intros no_panic_add read_cstr_no_panic) simp
qed

lemma parse_thunks_no_panic: "unat idx \<le> 65536 \<Longrightarrow> no_panic (parse_thunks img array_rva iat_rva idx es)"
proof (induction img array_rva iat_rva idx es rule: parse_thunks.induct)
  case (1 img array_rva iat_rva idx es)
  have m: "no_panic (mul_or_panic idx 8)" and a: "no_panic (add_or_panic idx 1)"
    using 1(2) by (simp_all add: mul_or_panic_def add_or_panic_def)
  have t: "no_panic (thunk_at img array_rva idx)"
    unfolding thunk_at_def by (intro no_panic_intros)
  show ?case
    by (subst parse_thunks.simps)
       (intro no_panic_intros m a t parse_thunk_no_panic 1(1), simp_all add: not_less word_le_nat_alt)
qed

lemma parse_thunk_array_no_panic: "no_panic (parse_thunk_array img ilt_rva iat_rva)"
  unfolding parse_thunk_array_def Let_def by (intro no_panic_intros parse_thunks_no_panic) simp

section \<open>Descriptor walks\<close>

text \<open>
  The import and the delay-import loop differ in their descriptors only. The contract: the loop
  unfolds to one read per turn, a descriptor that is read lies inside the image, reading cannot
  panic. It gives termination on bounded images and exactly which tables the loop returns:
  \<open>records_at\<close> is a list of descriptors that read one after the other, then a terminator.
\<close>

primrec records_at :: "(u32 \<Rightarrow> 'd option result) \<Rightarrow> u32 \<Rightarrow> u32 \<Rightarrow> 'd list \<Rightarrow> bool" where
  "records_at rd step cursor [] \<longleftrightarrow> rd cursor = Ok None"
| "records_at rd step cursor (d # ds) \<longleftrightarrow> rd cursor = Ok (Some d) \<and> records_at rd step (cursor + step) ds"

locale descriptor_walk =
  fixes read_desc :: "loaded_image \<Rightarrow> u32 \<Rightarrow> u32 \<Rightarrow> 'd option result"
    and step :: u32
    and table :: "'d list \<Rightarrow> 't"
    and walk :: "loaded_image \<Rightarrow> u32 \<Rightarrow> u32 \<Rightarrow> 'd list \<Rightarrow> 't result option"
  assumes walk_unfold: "walk img end cursor ds =
      (case read_desc img end cursor of
         Err e \<Rightarrow> Some (Err e)
       | Panic p \<Rightarrow> Some (Panic p)
       | Ok d \<Rightarrow> (case d of None \<Rightarrow> Some (Ok (table ds))
                | Some x \<Rightarrow> walk img end (saturating_add cursor step) (ds @ [x])))"
    and step_range: "0 < unat step" "unat step \<le> 64"
    and read_bound: "read_desc img end cursor = Ok (Some d) \<Longrightarrow>
      unat cursor + unat step \<le> length (img_mem img)"
    and read_no_panic: "no_panic (read_desc img end cursor)"
begin

lemma walk_next:
  assumes "image_bounded img" "read_desc img end cursor = Ok (Some d)"
  shows "saturating_add cursor step = cursor + step" and "unat (cursor + step) = unat cursor + unat step"
    and "unat cursor + unat step \<le> 2147483648"
proof -
  show b: "unat cursor + unat step \<le> 2147483648"
    using read_bound [OF assms(2)] assms(1) by (simp add: image_bounded_def)
  then show "saturating_add cursor step = cursor + step" by (simp add: saturating_add_def)
  from b show "unat (cursor + step) = unat cursor + unat step" by (intro unat_add_small) simp
qed

lemma walk_total:
  assumes "image_bounded img"
  shows "\<exists>r. walk img end cursor ds = Some r \<and> no_panic r"
proof (induction "2147483648 - unat cursor" arbitrary: cursor ds rule: less_induct)
  case less
  show ?case
  proof (cases "\<exists>d. read_desc img end cursor = Ok (Some d)")
    case True
    then obtain d where d: "read_desc img end cursor = Ok (Some d)" by blast
    note n = walk_next [OF assms d]
    have "2147483648 - unat (cursor + step) < 2147483648 - unat cursor"
      using n(2,3) step_range(1) by linarith
    from less [OF this, of "ds @ [d]"] show ?thesis
      by (subst walk_unfold) (simp add: d n(1))
  next
    case False
    then show ?thesis
      using read_no_panic [of img "end" cursor]
      by (subst walk_unfold) (auto split: outcome.splits option.splits)
  qed
qed

lemma walk_iff:
  assumes "image_bounded img"
  shows "walk img end cursor ds = Some (Ok t) \<longleftrightarrow>
    (\<exists>ns. t = table (ds @ ns) \<and> records_at (read_desc img end) step cursor ns)"
proof (induction "2147483648 - unat cursor" arbitrary: cursor ds rule: less_induct)
  case less
  show ?case
  proof (cases "\<exists>d. read_desc img end cursor = Ok (Some d)")
    case True
    then obtain d where d: "read_desc img end cursor = Ok (Some d)" by blast
    note n = walk_next [OF assms d]
    have lt: "2147483648 - unat (cursor + step) < 2147483648 - unat cursor"
      using n(2,3) step_range(1) by linarith
    have "walk img end cursor ds = Some (Ok t) \<longleftrightarrow> walk img end (cursor + step) (ds @ [d]) = Some (Ok t)"
      by (subst walk_unfold) (simp add: d n(1))
    also have "\<dots> \<longleftrightarrow> (\<exists>ns. t = table (ds @ ns) \<and> records_at (read_desc img end) step cursor ns)"
      unfolding less [OF lt]
    proof
      assume "\<exists>ns. t = table (ds @ ns) \<and> records_at (read_desc img end) step cursor ns"
      then obtain ns where "t = table (ds @ ns)" "records_at (read_desc img end) step cursor ns" by blast
      then show "\<exists>ns. t = table ((ds @ [d]) @ ns) \<and> records_at (read_desc img end) step (cursor + step) ns"
        using d by (cases ns) auto
    qed (use d in \<open>auto intro: exI [of _ "d # _"]\<close>)
    finally show ?thesis .
  next
    case False
    then have "records_at (read_desc img end) step cursor ns \<longleftrightarrow> ns = [] \<and> read_desc img end cursor = Ok None" for ns
      by (cases ns) auto
    with False show ?thesis
      by (subst walk_unfold) (auto split: outcome.splits option.splits)
  qed
qed

end

interpretation imp: descriptor_walk read_descriptor IMPORT_DESCRIPTOR_SIZE
  "\<lambda>ds. \<lparr>it_dlls = ds\<rparr>" parse_descriptors
proof (unfold_locales, goal_cases)
  case (1 img "end" cursor ds)
  then show ?case by (subst parse_descriptors.simps) simp
next
  case (4 img "end" cursor d)
  then obtain bytes where "rva_to_slice img cursor (unat IMPORT_DESCRIPTOR_SIZE) = Some bytes"
    by (auto simp: read_descriptor_def outcome_simps split: if_splits)
  with img.slice_bound show ?case by blast
next
  case (5 img "end" cursor)
  then show ?case
    unfolding read_descriptor_def Let_def
    by (intro no_panic_intros read_cstr_no_panic parse_thunk_array_no_panic)
qed (simp_all add: IMPORT_DESCRIPTOR_SIZE_def)

interpretation delay: descriptor_walk read_delay_descriptor DELAY_DESCRIPTOR_SIZE
  "\<lambda>ds. \<lparr>dt_dlls = ds\<rparr>" parse_delay_descriptors
proof (unfold_locales, goal_cases)
  case (1 img "end" cursor ds)
  then show ?case by (subst parse_delay_descriptors.simps) simp
next
  case (4 img "end" cursor d)
  then obtain bytes where "rva_to_slice img cursor (unat DELAY_DESCRIPTOR_SIZE) = Some bytes"
    by (auto simp: read_delay_descriptor_def outcome_simps split: if_splits)
  with img.slice_bound show ?case by blast
next
  case (5 img "end" cursor)
  then show ?case
    unfolding read_delay_descriptor_def Let_def
    by (intro no_panic_intros read_cstr_no_panic parse_thunk_array_no_panic)
qed (simp_all add: DELAY_DESCRIPTOR_SIZE_def)

section \<open>What wiring does\<close>

definition import_list :: "dll_imports list \<Rightarrow> (bytes \<times> import_entry) list" where
  "import_list ds = concat (map (\<lambda>d. map (Pair (di_name d)) (di_entries d)) ds)"

text \<open>The addresses the resolver gives when asked for the imports in order, \<open>0\<close> for none.\<close>

primrec resolved :: "'s resolver \<Rightarrow> (bytes \<times> import_entry) list \<Rightarrow> 's \<Rightarrow> u64 list \<times> 's" where
  "resolved resolver [] s = ([], s)"
| "resolved resolver (p # ps) s =
     (let (r, s1) = resolver s (fst p) (lookup_name (snd p)); (vs, s2) = resolved resolver ps s1
      in ((case r of None \<Rightarrow> 0 | Some a \<Rightarrow> a) # vs, s2))"

definition slot_patches :: "(bytes \<times> import_entry) list \<Rightarrow> u64 list \<Rightarrow> patch list" where
  "slot_patches ps vs = map (\<lambda>(p, v). (iat_slot_rva (snd p), 8, \<lambda>_. u64_to_le v)) (zip ps vs)"

lemma length_resolved [simp]: "length (fst (resolved resolver ps s)) = length ps"
  by (induction ps arbitrary: s) (simp_all add: Let_def split_def)

text \<open>Wiring is patching, entry by entry.\<close>

primrec wire_list ::
  "'s resolver \<Rightarrow> (bytes \<times> import_entry) list \<Rightarrow> loaded_image \<times> 's \<Rightarrow> unit result \<times> loaded_image \<times> 's" where
  "wire_list resolver [] st = (Ok (), st)"
| "wire_list resolver (p # ps) st =
     sbind (wire_entry resolver (fst p) (snd p) st) (\<lambda>_ st1. wire_list resolver ps st1)"

lemma sbind_assoc: "sbind (sbind m f) g = sbind m (\<lambda>x s. sbind (f x s) g)"
  by (cases m, rename_tac r s, case_tac r) simp_all

lemma wire_list_append:
  "wire_list resolver (ps @ qs) st = sbind (wire_list resolver ps st) (\<lambda>_ st1. wire_list resolver qs st1)"
  by (induction ps arbitrary: st) (simp_all add: sbind_assoc)

lemma wire_dlls_list: "wire_dlls resolver ds st = wire_list resolver (import_list ds) st"
proof -
  have e: "wire_entries resolver n es st = wire_list resolver (map (Pair n) es) st" for n es st
    by (induction es arbitrary: st) simp_all
  show ?thesis
    by (induction ds arbitrary: st) (simp_all add: import_list_def wire_list_append e)
qed

lemma wire_list_patches:
  assumes "\<forall>p \<in> set ps. unat (iat_slot_rva (snd p)) + 8 \<le> length (img_mem img)"
  shows "\<exists>img'. wire_list resolver ps (img, s) = (Ok (), img', snd (resolved resolver ps s)) \<and>
    patch_all rva_to_slice_mut (slot_patches ps (fst (resolved resolver ps s))) img = Some img'"
  using assms
proof (induction ps arbitrary: img s)
  case (Cons p ps)
  obtain r s1 where r: "resolver s (fst p) (lookup_name (snd p)) = (r, s1)" by fastforce
  let ?v = "case r of None \<Rightarrow> 0 | Some a \<Rightarrow> a"
  have "unat (iat_slot_rva (snd p)) + 8 < 18446744073709551616"
    using unat_u32_less [of "iat_slot_rva (snd p)"] by simp
  then have "\<exists>old wr. rva_to_slice_mut img (iat_slot_rva (snd p)) 8 = Some (old, wr)"
    using Cons.prems by (simp add: rva_to_slice_mut_def usize_checked_add_def)
  then obtain old wr where m: "rva_to_slice_mut img (iat_slot_rva (snd p)) 8 = Some (old, wr)" by blast
  have "length (img_mem (wr (u64_to_le ?v))) = length (img_mem img)"
    by (rule img.extent_mut [OF m]) simp
  with Cons.prems have "\<forall>p \<in> set ps. unat (iat_slot_rva (snd p)) + 8 \<le> length (img_mem (wr (u64_to_le ?v)))"
    by simp
  from Cons.IH [OF this, of s1] show ?case
    by (auto simp: wire_entry_def r m slot_patches_def Let_def split_def)
qed (simp add: slot_patches_def)

section \<open>Properties\<close>

text \<open>
  An image of 94 bytes that imports \<open>#7\<close> and \<open>f\<close> from the DLL \<open>a\<close>: one descriptor and the
  terminator at RVA 8, the lookup table at 48, the address table at 72, the hint and names at 88.
\<close>

definition import_image :: loaded_image where
  "import_image =
     \<lparr>img_region = \<lparr>r_base = 0x10000, r_mem =
        [0, 0, 0, 0, 0, 0, 0, 0,
         48, 0, 0, 0, 0, 0, 0, 0, 0, 0, 0, 0, 92, 0, 0, 0, 72, 0, 0, 0,
         0, 0, 0, 0, 0, 0, 0, 0, 0, 0, 0, 0, 0, 0, 0, 0, 0, 0, 0, 0,
         7, 0, 0, 0, 0, 0, 0, 0x80, 88, 0, 0, 0, 0, 0, 0, 0, 0, 0, 0, 0, 0, 0, 0, 0,
         0, 0, 0, 0, 0, 0, 0, 0, 0, 0, 0, 0, 0, 0, 0, 0,
         1, 0, 0x66, 0, 0x61, 0], r_is_jit = False\<rparr>,
      preferred_base = 0x10000, actual_base = 0x10000, size_of_image = 94,
      size_of_headers = 8, entry_rva = 0, subsystem = 3, img_bitness = X86_64, img_sections = [],
      data_directories = [default_directory, \<lparr>virtual_address = 8, dir_size = 40\<rparr>]\<rparr>"

definition import_image_entries :: "import_entry list" where
  "import_image_entries = [ImportOrdinal 7 72, ImportName 1 [0x66] 80]"

definition import_image_dll :: dll_imports where
  "import_image_dll = \<lparr>di_name = [0x61], di_iat_rva = 72, di_ilt_rva = 48, di_entries = import_image_entries\<rparr>"

lemma import_image_bounded: "image_bounded import_image"
  by (simp add: image_bounded_def import_image_def)

lemma import_image_slice:
  "unat a + n \<le> 94 \<Longrightarrow> rva_to_slice import_image a n = Some (take n (drop (unat a) (img_mem import_image)))"
  by (simp add: rva_to_slice_def usize_checked_add_def import_image_def)

lemma import_image_cstr: "read_cstr import_image 92 = Ok [0x61]" "read_cstr import_image 90 = Ok [0x66]"
  by (simp_all add: read_cstr_Ok [OF import_image_bounded])
     (simp_all add: import_image_def)

lemma import_image_thunks: "parse_thunk_array import_image 48 72 = Ok import_image_entries"
proof -
  have t: "thunk_at import_image 48 0 = Ok 0x8000000000000007" "thunk_at import_image 48 1 = Ok 88"
    "thunk_at import_image 48 2 = Ok 0"
    by (simp_all add: thunk_at_def checked_mul_def checked_add_def import_image_slice)
       (simp_all add: import_image_def u64_from_le_def)
  have p: "parse_thunk import_image 0x8000000000000007 72 = Ok (ImportOrdinal 7 72)"
    by (simp add: parse_thunk_def IMPORT_BY_ORDINAL_FLAG_64_def IMPORT_ORDINAL_MASK_64_def)
  have "rva_to_slice import_image 88 2 = Some [1, 0]"
    by (simp add: import_image_slice) (simp add: import_image_def)
  then have q: "parse_thunk import_image 88 80 = Ok (ImportName 1 [0x66] 80)"
    by (simp add: parse_thunk_def IMPORT_BY_ORDINAL_FLAG_64_def add_or_panic_def import_image_cstr
        u16_from_le_def)
  show ?thesis
    by (simp add: parse_thunk_array_def parse_thunks.simps [of _ _ _ 0] parse_thunks.simps [of _ _ _ 1]
        parse_thunks.simps [of _ _ _ 2] t mul_or_panic_def checked_add_def p q add_or_panic_def
        import_image_entries_def)
qed

lemma import_image_parse: "parse_imports import_image = Some (Ok \<lparr>it_dlls = [import_image_dll]\<rparr>)"
proof -
  have d: "data_dir import_image DIR_IMPORT = Some \<lparr>virtual_address = 8, dir_size = 40\<rparr>"
    by (simp add: data_dir_def import_image_def DIR_IMPORT_def)
  have s: "rva_to_slice import_image 8 20 = Some (u32_to_le 48 @ replicate 8 0 @ u32_to_le 92 @ u32_to_le 72)"
    "rva_to_slice import_image 28 20 = Some (replicate 20 0)"
    by (simp_all add: import_image_slice) (simp_all add: import_image_def u32_to_le_def eval_simps)
  have r: "read_descriptor import_image 48 8 = Ok (Some import_image_dll)"
    by (simp add: read_descriptor_def IMPORT_DESCRIPTOR_SIZE_def saturating_add_def s sub_def
        import_image_cstr import_image_thunks import_image_dll_def)
  have z: "read_descriptor import_image 48 28 = Ok None"
    by (simp add: read_descriptor_def IMPORT_DESCRIPTOR_SIZE_def saturating_add_def s sub_def
        eval_simps u32_from_le_def)
  show ?thesis
    by (simp add: parse_imports_def parse_with_directory_def d saturating_add_def r z
        parse_descriptors.simps [of _ _ 8] parse_descriptors.simps [of _ _ 28] IMPORT_DESCRIPTOR_SIZE_def)
qed

text \<open>
  C17: a name is read exactly. On an image of at most 2 GiB, \<open>read_cstr\<close> returns \<open>s\<close> if and only
  if \<open>s\<close> is the NUL-terminated string at that RVA, inside the image, at most 4096 bytes long and
  valid UTF-8.
\<close>

theorem read_cstr_exact:
  assumes "image_bounded img"
  shows "read_cstr img rva = Ok s \<longleftrightarrow>
    cstr_at (img_mem img) (unat rva) s \<and> length s \<le> 4096 \<and> utf8_valid s"
  using assms by (rule read_cstr_Ok)

theorem read_cstr_exact_witness:
  "read_cstr import_image 90 = Ok [0x66] \<and> cstr_at (img_mem import_image) 90 [0x66]"
  using read_cstr_exact [OF import_image_bounded, of 90 "[0x66]"] import_image_cstr(2) by simp

text \<open>
  The import directory over the bytes of the image: 20-byte records with the lookup table's RVA in
  bytes 0 to 3, the name's RVA in bytes 12 to 15 and the address table's RVA in bytes 16 to 19, up to
  a record in which these three are zero (its time stamp and forwarder chain are free), all inside
  \<open>[off, e)\<close>.
\<close>

definition dll_record :: "bytes \<Rightarrow> nat \<Rightarrow> dll_imports \<Rightarrow> bool" where
  "dll_record mem off d \<longleftrightarrow>
     le_field mem off 4 = unat (di_ilt_rva d) \<and> le_field mem (off + 16) 4 = unat (di_iat_rva d) \<and>
     (di_ilt_rva d \<noteq> 0 \<or> di_iat_rva d \<noteq> 0 \<or> le_field mem (off + 12) 4 \<noteq> 0) \<and>
     name_at mem (le_field mem (off + 12) 4) (di_name d) \<and>
     (if di_ilt_rva d = 0 \<and> di_iat_rva d = 0 then di_entries d = []
      else length (di_entries d) \<le> 65536 \<and>
           thunk_layout mem (unat (if di_ilt_rva d \<noteq> 0 then di_ilt_rva d else di_iat_rva d))
             (unat (di_iat_rva d)) (di_entries d))"

primrec import_layout :: "bytes \<Rightarrow> nat \<Rightarrow> nat \<Rightarrow> dll_imports list \<Rightarrow> bool" where
  "import_layout mem off e [] \<longleftrightarrow>
     off + 20 \<le> e \<and> off + 20 \<le> length mem \<and>
     le_field mem off 4 = 0 \<and> le_field mem (off + 12) 4 = 0 \<and> le_field mem (off + 16) 4 = 0"
| "import_layout mem off e (d # ds) \<longleftrightarrow>
     off + 20 \<le> e \<and> off + 20 \<le> length mem \<and> dll_record mem off d \<and> import_layout mem (off + 20) e ds"

lemma read_descriptor_bytes:
  assumes "image_bounded img" "unat cursor + 20 \<le> length (img_mem img)" "unat cursor + 20 \<le> unat va + unat sz"
  shows "read_descriptor img (saturating_add va sz) cursor =
    (let m = img_mem img;
         ilt = u32_from_le (take 4 (drop (unat cursor) m));
         name = u32_from_le (take 4 (drop (unat cursor + 12) m));
         iat = u32_from_le (take 4 (drop (unat cursor + 16) m))
     in if ilt = 0 \<and> name = 0 \<and> iat = 0 then Ok None
        else obind (read_cstr img name) (\<lambda>n. obind (parse_thunk_array img ilt iat) (\<lambda>es.
          Ok (Some \<lparr>di_name = n, di_iat_rva = iat, di_ilt_rva = ilt, di_entries = es\<rparr>))))"
proof -
  let ?m = "img_mem img" and ?c = "unat cursor"
  have "\<not> saturating_add cursor 20 > saturating_add va sz"
    using assms by (simp add: word_less_nat_alt unat_saturating_add image_bounded_def)
  moreover have "rva_to_slice img cursor 20 = Some (take 20 (drop ?c ?m))"
    using assms by (simp add: rva_to_slice_Some slice_simps image_bounded_def)
  moreover have "sub (take 20 (drop ?c ?m)) 0 4 = take 4 (drop ?c ?m)"
    "sub (take 20 (drop ?c ?m)) 12 16 = take 4 (drop (?c + 12) ?m)"
    "sub (take 20 (drop ?c ?m)) 16 20 = take 4 (drop (?c + 16) ?m)"
    by (simp_all add: sub_def take_drop min_def add.commute)
  ultimately show ?thesis by (simp add: read_descriptor_def IMPORT_DESCRIPTOR_SIZE_def Let_def)
qed

lemma read_descriptor_inside:
  assumes "image_bounded img" "read_descriptor img (saturating_add va sz) cursor = Ok x"
  shows "unat cursor + 20 \<le> length (img_mem img)" "unat cursor + 20 \<le> unat va + unat sz"
proof -
  have "\<not> saturating_add cursor 20 > saturating_add va sz" "rva_to_slice img cursor 20 \<noteq> None"
    using assms(2) by (auto simp: read_descriptor_def IMPORT_DESCRIPTOR_SIZE_def outcome_simps split: if_splits)
  then show "unat cursor + 20 \<le> length (img_mem img)" "unat cursor + 20 \<le> unat va + unat sz"
    using assms(1)
    by (auto simp: rva_to_slice_Some slice_simps word_less_nat_alt unat_saturating_add image_bounded_def)
qed

lemma descriptor_of_fields:
  assumes "image_bounded img"
  shows "(if ilt = 0 \<and> name = 0 \<and> iat = 0 then Ok None
     else obind (read_cstr img name) (\<lambda>n. obind (parse_thunk_array img ilt iat) (\<lambda>es.
       Ok (Some \<lparr>di_name = n, di_iat_rva = iat, di_ilt_rva = ilt, di_entries = es\<rparr>)))) = Ok (Some d) \<longleftrightarrow>
    di_ilt_rva d = ilt \<and> di_iat_rva d = iat \<and> (ilt \<noteq> 0 \<or> iat \<noteq> 0 \<or> name \<noteq> 0) \<and>
    name_at (img_mem img) (unat name) (di_name d) \<and> parse_thunk_array img ilt iat = Ok (di_entries d)"
  by (cases d) (auto simp: outcome_simps read_cstr_Ok [OF assms] name_at_def)

lemma read_descriptor_Ok:
  assumes "image_bounded img"
  shows "read_descriptor img (saturating_add va sz) cursor = Ok (Some d) \<longleftrightarrow>
      unat cursor + 20 \<le> unat va + unat sz \<and> unat cursor + 20 \<le> length (img_mem img) \<and>
      dll_record (img_mem img) (unat cursor) d"
    and "read_descriptor img (saturating_add va sz) cursor = Ok None \<longleftrightarrow>
      import_layout (img_mem img) (unat cursor) (unat va + unat sz) []"
proof -
  let ?in = "unat cursor + 20 \<le> unat va + unat sz \<and> unat cursor + 20 \<le> length (img_mem img)"
  let ?m = "img_mem img" and ?c = "unat cursor"
  have f: "le_field ?m (?c + i) 4 = unat (u32_from_le (take 4 (drop (?c + i) ?m)))" if ?in "i \<le> 16" for i
    using that unat_u32_from_le [of "take 4 (drop (?c + i) ?m)"] by (auto simp: le_field_def)
  have f0: "le_field ?m ?c 4 = unat (u32_from_le (take 4 (drop ?c ?m)))" if ?in
    using f [OF that, of 0] by simp
  have out: "read_descriptor img (saturating_add va sz) cursor \<noteq> Ok x" if "\<not> ?in" for x
    using that read_descriptor_inside [OF assms] by blast
  show "read_descriptor img (saturating_add va sz) cursor = Ok (Some d) \<longleftrightarrow>
      ?c + 20 \<le> unat va + unat sz \<and> ?c + 20 \<le> length ?m \<and> dll_record ?m ?c d"
  proof (cases ?in)
    case True
    let ?w = "\<lambda>i. u32_from_le (take 4 (drop (?c + i) ?m))"
    have "read_descriptor img (saturating_add va sz) cursor = Ok (Some d) \<longleftrightarrow>
      di_ilt_rva d = ?w 0 \<and> di_iat_rva d = ?w 16 \<and> (?w 0 \<noteq> 0 \<or> ?w 16 \<noteq> 0 \<or> ?w 12 \<noteq> 0) \<and>
      name_at ?m (unat (?w 12)) (di_name d) \<and> parse_thunk_array img (?w 0) (?w 16) = Ok (di_entries d)"
      using True by (simp only: read_descriptor_bytes [OF assms] Let_def descriptor_of_fields [OF assms] add_0_right)
    also have "\<dots> \<longleftrightarrow> dll_record ?m ?c d"
      unfolding dll_record_def f [OF True order_refl] f [OF True, of 12, simplified] f0 [OF True]
        parse_thunk_array_Ok [OF assms, symmetric] unat_eq_0 word_unat_eq_iff [symmetric]
      by auto
    finally show ?thesis using True by simp
  qed (use out in auto)
  show "read_descriptor img (saturating_add va sz) cursor = Ok None \<longleftrightarrow>
      import_layout ?m ?c (unat va + unat sz) []"
  proof (cases ?in)
    case True
    then show ?thesis
      using read_descriptor_bytes [OF assms, of cursor va sz] f [of 12] f [of 16] f0
      by (auto simp: Let_def outcome_simps word_unat_eq_iff)
  qed (use out in auto)
qed

lemma records_at_layout:
  assumes "image_bounded img"
  shows "records_at (read_descriptor img (saturating_add va sz)) IMPORT_DESCRIPTOR_SIZE cursor ds \<longleftrightarrow>
    import_layout (img_mem img) (unat cursor) (unat va + unat sz) ds"
proof (induction ds arbitrary: cursor)
  case (Cons d ds)
  have "unat (cursor + 20) = unat cursor + 20" if "unat cursor + 20 \<le> length (img_mem img)"
    using that assms unat_add_small [of cursor 20] by (simp add: image_bounded_def)
  with Cons.IH [of "cursor + 20"] show ?case
    by (auto simp: read_descriptor_Ok(1) [OF assms] IMPORT_DESCRIPTOR_SIZE_def)
qed (simp add: read_descriptor_Ok(2) [OF assms] del: import_layout.simps)

text \<open>
  C16: the import table is exactly the one the bytes spell. On an image of at most 2 GiB with an import
  directory, \<open>parse\<close> returns a table if and only if its DLLs are, in order, the 20-byte records of the
  directory up to the record whose lookup, name and address RVAs are all zero: each with its
  NUL-terminated name, its two RVAs and the entries its thunk array spells up to the zero thunk (by
  ordinal, or by hint and name), the \<open>i\<close>-th with the IAT slot \<open>8 * i\<close> bytes into the address table,
  every byte read lying inside the image and every record inside the directory.
\<close>

theorem parse_imports_collects:
  assumes "image_bounded img" "data_dir img DIR_IMPORT = Some d"
  shows "parse_imports img = Some (Ok t) \<longleftrightarrow>
    import_layout (img_mem img) (unat (virtual_address d))
      (unat (virtual_address d) + unat (dir_size d)) (it_dlls t)"
proof -
  have "parse_imports img = Some (Ok t) \<longleftrightarrow>
    parse_descriptors img (saturating_add (virtual_address d) (dir_size d)) (virtual_address d) [] = Some (Ok t)"
    using assms(2) by (simp add: parse_imports_def parse_with_directory_def)
  also have "\<dots> \<longleftrightarrow> (\<exists>ds. t = \<lparr>it_dlls = ds\<rparr> \<and>
    import_layout (img_mem img) (unat (virtual_address d)) (unat (virtual_address d) + unat (dir_size d)) ds)"
    by (simp add: imp.walk_iff [OF assms(1)] records_at_layout [OF assms(1)])
  also have "\<dots> \<longleftrightarrow> import_layout (img_mem img) (unat (virtual_address d))
      (unat (virtual_address d) + unat (dir_size d)) (it_dlls t)"
    by (cases t) auto
  finally show ?thesis .
qed

theorem parse_imports_collects_witness:
  "parse_imports import_image = Some (Ok \<lparr>it_dlls = [import_image_dll]\<rparr>) \<and>
   import_layout (img_mem import_image) 8 48 [import_image_dll]"
proof -
  have d: "data_dir import_image DIR_IMPORT = Some \<lparr>virtual_address = 8, dir_size = 40\<rparr>"
    by (simp add: data_dir_def import_image_def DIR_IMPORT_def)
  show ?thesis
    using parse_imports_collects [OF import_image_bounded d, of "\<lparr>it_dlls = [import_image_dll]\<rparr>"]
      import_image_parse by simp
qed

text \<open>
  C18: parsing imports and delay imports returns, with a table or an error and never a panic, on
  every image of at most 2 GiB, whatever the directories hold.
\<close>

theorem parse_imports_returns:
  assumes "image_bounded img"
  shows "(\<exists>r. parse_imports img = Some r \<and> no_panic r) \<and>
         (\<exists>r. parse_delay_imports img = Some r \<and> no_panic r)"
  using imp.walk_total [OF assms] delay.walk_total [OF assms]
  by (auto simp: parse_imports_def parse_with_directory_def parse_delay_imports_def split: option.splits)

theorem parse_imports_returns_witness:
  "\<exists>r. parse_imports import_image = Some r \<and> no_panic r"
  using parse_imports_returns [OF import_image_bounded] by blast

text \<open>
  C15: wiring fills the import address table. When every IAT slot lies in the image and no two
  overlap, \<open>wire_iat\<close> succeeds, asks the resolver once per import in table order, and leaves in each
  slot the resolver's address, or zero for an unresolved import; every range that meets no slot is
  unchanged. The success on an unresolved import is what the body does (\<open>unwrap_or(0)\<close>, with the
  comment "Permissive: unresolved imports get NULL"); it contradicts the function's doc comment, which
  says that a resolver returning \<open>None\<close> fails the wiring.
\<close>

theorem wire_iat_fills:
  assumes "\<forall>p \<in> set (import_list (it_dlls t)). unat (iat_slot_rva (snd p)) + 8 \<le> length (img_mem img)"
    and "sorted_wrt (\<lambda>p q. slot_disjoint (iat_slot_rva (snd p)) 8 (iat_slot_rva (snd q)) 8) (import_list (it_dlls t))"
    and "resolved resolver (import_list (it_dlls t)) s = (vs, s')"
  shows "\<exists>img'. wire_iat img t resolver s = (Ok (), img', s') \<and>
     (\<forall>i < length vs. rva_to_slice img' (iat_slot_rva (snd (import_list (it_dlls t) ! i))) 8 = Some (u64_to_le (vs ! i))) \<and>
     (\<forall>a n. (\<forall>p \<in> set (import_list (it_dlls t)). slot_disjoint (iat_slot_rva (snd p)) 8 a n) \<longrightarrow>
        rva_to_slice img' a n = rva_to_slice img a n)"
proof -
  let ?l = "import_list (it_dlls t)"
  have len: "length vs = length ?l" using assms(3) length_resolved [of resolver ?l s] by simp
  obtain img' where w: "wire_list resolver ?l (img, s) = (Ok (), img', s')"
    and p: "patch_all rva_to_slice_mut (slot_patches ?l vs) img = Some img'"
    using wire_list_patches [OF assms(1), of resolver s] assms(3) by auto
  have wf: "\<forall>p \<in> set (slot_patches ?l vs). patch_wf p"
    by (auto simp: slot_patches_def patch_wf_def)
  have d: "patches_disjoint (slot_patches ?l vs)"
    using assms(2) by (auto simp: patches_disjoint_def slot_patches_def sorted_wrt_iff_nth_less len)
  have "rva_to_slice img' (iat_slot_rva (snd (?l ! i))) 8 = Some (u64_to_le (vs ! i))" if "i < length vs" for i
  proof -
    have "(iat_slot_rva (snd (?l ! i)), 8, \<lambda>_. u64_to_le (vs ! i)) \<in> set (slot_patches ?l vs)"
      using that len by (force simp: slot_patches_def set_zip)
    from img.patch_all_slot [OF p wf d this] show ?thesis by auto
  qed
  moreover have "rva_to_slice img' a n = rva_to_slice img a n"
    if "\<forall>p \<in> set ?l. slot_disjoint (iat_slot_rva (snd p)) 8 a n" for a n
    by (rule img.patch_all_frame [OF p wf]) (use that in \<open>fastforce simp: slot_patches_def dest: set_zip_leftD\<close>)
  ultimately show ?thesis using w by (auto simp: wire_iat_def wire_dlls_list)
qed

theorem wire_iat_fills_witness:
  "\<exists>img'. wire_iat import_image \<lparr>it_dlls = [import_image_dll]\<rparr>
       (\<lambda>s dll name. (if name = [0x66] then Some (0xDEAD0000 + of_nat s) else None, Suc s)) 0 = (Ok (), img', 2) \<and>
     rva_to_slice img' 72 8 = Some (u64_to_le 0) \<and> rva_to_slice img' 80 8 = Some (u64_to_le 0xDEAD0001)"
proof -
  let ?t = "\<lparr>it_dlls = [import_image_dll]\<rparr>"
  let ?r = "\<lambda>s (dll :: bytes) name. (if name = [0x66] then Some (0xDEAD0000 + of_nat s) else None, Suc s)"
  have l: "import_list (it_dlls ?t) = [([0x61], ImportOrdinal 7 72), ([0x61], ImportName 1 [0x66] 80)]"
    by (simp add: import_list_def import_image_dll_def import_image_entries_def)
  have a: "\<forall>p \<in> set (import_list (it_dlls ?t)). unat (iat_slot_rva (snd p)) + 8 \<le> length (img_mem import_image)"
    unfolding l by (simp add: import_image_def)
  have b: "sorted_wrt (\<lambda>p q. slot_disjoint (iat_slot_rva (snd p)) 8 (iat_slot_rva (snd q)) 8) (import_list (it_dlls ?t))"
    unfolding l by (simp add: slot_disjoint_def)
  have c: "resolved ?r (import_list (it_dlls ?t)) 0 = ([0, 0xDEAD0001], 2)"
    unfolding l by (simp add: lookup_name_def decimal.simps)
  obtain img' where w: "wire_iat import_image ?t ?r 0 = (Ok (), img', 2)"
    and v: "\<forall>i < length [0, 0xDEAD0001 :: u64]. rva_to_slice img' (iat_slot_rva (snd (import_list (it_dlls ?t) ! i))) 8
              = Some (u64_to_le ([0, 0xDEAD0001] ! i))"
    using wire_iat_fills [OF a b c] by blast
  from v [rule_format, of 0] v [rule_format, of 1] w show ?thesis unfolding l by auto
qed

end
