(* ===== verification/Reloc.thy ===== *)
theory Reloc
  imports Image_Map
begin

text \<open>
  \<open>quantum-loader/src/reloc.rs\<close>: base relocations. \<open>apply_reloc\<close> is \<open>apply\<close>: it walks the
  blocks of the relocation directory and patches the image in place. The directory is read from the
  image that is being patched, so the meaning of the walk is stated against \<open>reloc_entries\<close>, the
  table as the image holds it before the first patch; the walk implements it whenever no fixup
  overwrites the table.
\<close>

section \<open>Data\<close>

definition REL_ABSOLUTE :: u16 where "REL_ABSOLUTE = 0"
definition REL_HIGH :: u16 where "REL_HIGH = 1"
definition REL_LOW :: u16 where "REL_LOW = 2"
definition REL_HIGHLOW :: u16 where "REL_HIGHLOW = 3"
definition REL_HIGHADJ :: u16 where "REL_HIGHADJ = 4"
definition REL_DIR64 :: u16 where "REL_DIR64 = 10"

record reloc_stats =
  blocks :: u32
  absolute :: u32
  dir64 :: u32
  highlow :: u32

definition default_stats :: reloc_stats where
  "default_stats = \<lparr>blocks = 0, absolute = 0, dir64 = 0, highlow = 0\<rparr>"

section \<open>Operations\<close>

text \<open>One entry of a block: its type in the top four bits, its page offset in the low twelve.\<close>

definition entry_type :: "u16 \<Rightarrow> u16" where
  "entry_type raw = drop_bit 12 raw AND 0xF"

definition entry_target :: "u32 \<Rightarrow> u16 \<Rightarrow> u32" where
  "entry_target page_rva raw = saturating_add page_rva (ucast (raw AND 0x0FFF))"

definition apply_entry ::
  "u64 \<Rightarrow> u32 \<Rightarrow> u16 \<Rightarrow> reloc_stats \<Rightarrow> loaded_image \<Rightarrow> reloc_stats result \<times> loaded_image" where
  "apply_entry delta page_rva raw stats img =
     (let ty = entry_type raw; target_rva = entry_target page_rva raw in
      if ty = REL_ABSOLUTE then
        (obind (add_or_panic (absolute stats) 1) (\<lambda>n. Ok (stats\<lparr>absolute := n\<rparr>)), img)
      else if ty = REL_DIR64 then
        (case rva_to_slice_mut img target_rva 8 of
           None \<Rightarrow> (Err (Malformed ''DIR64 oob'' (unat target_rva)), img)
         | Some (slot, write) \<Rightarrow>
             let new = u64_from_le slot + delta in
             (obind (add_or_panic (dir64 stats) 1) (\<lambda>n. Ok (stats\<lparr>dir64 := n\<rparr>)),
              write (u64_to_le new)))
      else if ty = REL_HIGHLOW then
        (case rva_to_slice_mut img target_rva 4 of
           None \<Rightarrow> (Err (Malformed ''HIGHLOW oob'' (unat target_rva)), img)
         | Some (slot, write) \<Rightarrow>
             let new = u32_from_le slot + ucast delta in
             (obind (add_or_panic (highlow stats) 1) (\<lambda>n. Ok (stats\<lparr>highlow := n\<rparr>)),
              write (u32_to_le new)))
      else
        (Err (Unsupported
          ''unsupported base relocation type (HIGH/LOW/HIGHADJ are PE32-era)''), img))"

primrec apply_entries ::
  "u64 \<Rightarrow> u32 \<Rightarrow> u16 list \<Rightarrow> reloc_stats \<Rightarrow> loaded_image \<Rightarrow> reloc_stats result \<times> loaded_image" where
  "apply_entries delta page_rva [] stats img = (Ok stats, img)"
| "apply_entries delta page_rva (raw # raws) stats img =
     sbind (apply_entry delta page_rva raw stats img)
       (\<lambda>stats1 img1. apply_entries delta page_rva raws stats1 img1)"

text \<open>The snapshot of a block's entries: the \<open>u16\<close> at every even offset.\<close>

definition snapshot_entries :: "bytes \<Rightarrow> nat \<Rightarrow> u16 list" where
  "snapshot_entries raw entry_count =
     map (\<lambda>i. u16_from_le [raw ! (i * 2), raw ! (i * 2 + 1)]) [0 ..< entry_count]"

text \<open>The block header, read and checked: \<open>(page_rva, block_size)\<close>; then the block's entries.\<close>

definition read_block_header :: "loaded_image \<Rightarrow> u32 \<Rightarrow> u32 \<Rightarrow> (u32 \<times> u32) result" where
  "read_block_header img cursor end =
     obind (ok_or (rva_to_slice img cursor 8) (Malformed ''reloc block header'' (unat cursor))) (\<lambda>header.
     let page_rva = u32_from_le (sub header 0 4); block_size = u32_from_le (sub header 4 8) in
     if block_size < 8 then Err (Malformed ''reloc block_size < 8'' (unat cursor))
     else if saturating_add cursor block_size > end then Err (Malformed ''reloc block past dir'' (unat cursor))
     else Ok (page_rva, block_size))"

definition read_block_entries :: "loaded_image \<Rightarrow> u32 \<Rightarrow> u32 \<Rightarrow> u16 list result" where
  "read_block_entries img cursor block_size =
     (let entry_count = unat (block_size - 8) div 2 in
      obind (add_or_panic cursor 8) (\<lambda>entries_off.
      if entry_count > 4096 div 2 then Err (Malformed ''reloc block oversized'' (unat cursor))
      else
        obind (ok_or (rva_to_slice img entries_off (entry_count * 2))
                     (Malformed ''reloc entries'' (unat entries_off))) (\<lambda>raw.
        Ok (snapshot_entries raw entry_count))))"

lemma read_block_progress:
  assumes "read_block_header img cursor end = Ok (page, bs)"
  shows "8 \<le> unat bs" and "saturating_add cursor bs \<le> end"
  using assms
  by (auto simp: read_block_header_def Let_def outcome_simps not_less word_le_nat_alt split: if_splits)

lemma saturating_add_step:
  assumes "cursor < end" "8 \<le> unat bs" "saturating_add cursor bs \<le> (end :: u32)"
  shows "unat end - unat (saturating_add cursor bs) < unat end - unat cursor"
  using assms unat_u32_less [of "end"]
  by (simp add: word_less_nat_alt word_le_nat_alt unat_saturating_add min_def split: if_splits)

function apply_blocks ::
  "u64 \<Rightarrow> u32 \<Rightarrow> u32 \<Rightarrow> reloc_stats \<Rightarrow> loaded_image \<Rightarrow> reloc_stats result \<times> loaded_image" where
  "apply_blocks delta end cursor stats img =
     (if cursor < end then
        sbind (read_block_header img cursor end, img) (\<lambda>(page_rva, block_size) img0.
        sbind (add_or_panic (blocks stats) 1, img0) (\<lambda>n img0.
        sbind (read_block_entries img0 cursor block_size, img0) (\<lambda>entries img0.
        sbind (apply_entries delta page_rva entries (stats\<lparr>blocks := n\<rparr>) img0) (\<lambda>stats1 img1.
        apply_blocks delta end (saturating_add cursor block_size) stats1 img1))))
      else (Ok stats, img))"
  by pat_completeness auto
termination
  by (relation "measure (\<lambda>(delta, end, cursor, stats, img). unat end - unat cursor)")
     (auto intro!: saturating_add_step dest: read_block_progress)

declare apply_blocks.simps [simp del]

definition reloc_delta :: "loaded_image \<Rightarrow> u64" where
  "reloc_delta img = actual_base img - preferred_base img"

definition apply_reloc :: "loaded_image \<Rightarrow> reloc_stats result \<times> loaded_image" where
  "apply_reloc img =
     (let delta = reloc_delta img in
      if delta = 0 then (Ok default_stats, img)
      else case data_dir img DIR_BASERELOC of
        None \<Rightarrow> (Ok default_stats, img)
      | Some dir \<Rightarrow>
          apply_blocks delta (saturating_add (virtual_address dir) (dir_size dir))
            (virtual_address dir) default_stats img)"

section \<open>What the relocation table says\<close>

text \<open>
  The table as data: the entries \<open>(page, raw)\<close> of all blocks from \<open>cursor\<close> on, read from one
  image, and the patch an entry stands for.
\<close>

definition block_header :: "loaded_image \<Rightarrow> u32 \<Rightarrow> u32 \<times> u32" where
  "block_header img cursor =
     (case rva_to_slice img cursor 8 of
        None \<Rightarrow> (0, 0)
      | Some h \<Rightarrow> (u32_from_le (sub h 0 4), u32_from_le (sub h 4 8)))"

definition block_entries :: "loaded_image \<Rightarrow> u32 \<Rightarrow> nat \<Rightarrow> u16 list" where
  "block_entries img cursor n =
     (case rva_to_slice img (cursor + 8) (n * 2) of None \<Rightarrow> [] | Some raw \<Rightarrow> snapshot_entries raw n)"

function reloc_entries :: "loaded_image \<Rightarrow> u32 \<Rightarrow> u32 \<Rightarrow> (u32 \<times> u16) list" where
  "reloc_entries img end cursor =
     (if unat cursor + 8 \<le> unat end \<and> 8 \<le> unat (snd (block_header img cursor)) \<and>
         unat cursor + unat (snd (block_header img cursor)) \<le> unat end
      then map (Pair (fst (block_header img cursor)))
             (block_entries img cursor ((unat (snd (block_header img cursor)) - 8) div 2)) @
           reloc_entries img end (cursor + snd (block_header img cursor))
      else [])"
  by pat_completeness auto
termination
proof (relation "measure (\<lambda>(img, end, cursor). unat end - unat cursor)", goal_cases)
  case (2 img "end" cursor)
  then have "unat (cursor + snd (block_header img cursor)) = unat cursor + unat (snd (block_header img cursor))"
    using unat_u32_less [of "end"] by (intro unat_add_small) simp
  with 2 show ?case by auto
qed simp

declare reloc_entries.simps [simp del]

definition entry_patch :: "u64 \<Rightarrow> u32 \<times> u16 \<Rightarrow> patch list" where
  "entry_patch delta e =
     (if entry_type (snd e) = REL_DIR64
      then [(entry_target (fst e) (snd e), 8, \<lambda>old. u64_to_le (u64_from_le old + delta))]
      else if entry_type (snd e) = REL_HIGHLOW
      then [(entry_target (fst e) (snd e), 4, \<lambda>old. u32_to_le (u32_from_le old + ucast delta))]
      else [])"

definition entry_patches :: "u64 \<Rightarrow> (u32 \<times> u16) list \<Rightarrow> patch list" where
  "entry_patches delta es = concat (map (entry_patch delta) es)"

definition count_type :: "u16 \<Rightarrow> (u32 \<times> u16) list \<Rightarrow> nat" where
  "count_type ty es = length (filter (\<lambda>e. entry_type (snd e) = ty) es)"

definition stats_plus :: "reloc_stats \<Rightarrow> (u32 \<times> u16) list \<Rightarrow> reloc_stats \<Rightarrow> bool" where
  "stats_plus st es st' \<longleftrightarrow>
     absolute st' = absolute st + of_nat (count_type REL_ABSOLUTE es) \<and>
     dir64 st' = dir64 st + of_nat (count_type REL_DIR64 es) \<and>
     highlow st' = highlow st + of_nat (count_type REL_HIGHLOW es)"

lemmas rel_type_defs = REL_ABSOLUTE_def REL_DIR64_def REL_HIGHLOW_def

lemma entry_patches_simps [simp]:
  "entry_patches delta [] = []"
  "entry_patches delta (e # es) = entry_patch delta e @ entry_patches delta es"
  "entry_patches delta (es @ es') = entry_patches delta es @ entry_patches delta es'"
  by (simp_all add: entry_patches_def)

lemma entry_patches_wf: "p \<in> set (entry_patches delta es) \<Longrightarrow> patch_wf p"
  by (auto simp: entry_patches_def entry_patch_def patch_wf_def split: if_splits)

lemma stats_plus_Nil [simp]: "stats_plus st [] st' \<longleftrightarrow>
    absolute st' = absolute st \<and> dir64 st' = dir64 st \<and> highlow st' = highlow st"
  by (simp add: stats_plus_def count_type_def)

lemma stats_plus_append:
  "stats_plus st es st1 \<Longrightarrow> stats_plus st1 es' st' \<Longrightarrow> stats_plus st (es @ es') st'"
  by (auto simp: stats_plus_def count_type_def)

lemma apply_entry_Ok:
  assumes "apply_entry delta page raw st img = (Ok st', img')"
  shows "patch_all rva_to_slice_mut (entry_patch delta (page, raw)) img = Some img'"
    and "stats_plus st [(page, raw)] st'" and "blocks st' = blocks st"
  using assms
  by (auto simp: apply_entry_def entry_patch_def Let_def outcome_simps rel_type_defs
      stats_plus_def count_type_def split: if_splits option.splits)

lemma apply_entries_Ok:
  assumes "apply_entries delta page raws st img = (Ok st', img')"
  shows "patch_all rva_to_slice_mut (entry_patches delta (map (Pair page) raws)) img = Some img'"
    and "stats_plus st (map (Pair page) raws) st'" and "blocks st' = blocks st"
  using assms
proof (induction raws arbitrary: st img)
  case (Cons raw raws)
  have ex: "\<exists>st1 img1. apply_entry delta page raw st img = (Ok st1, img1) \<and>
      apply_entries delta page raws st1 img1 = (Ok st', img')"
    if "apply_entries delta page (raw # raws) st img = (Ok st', img')" for st img
    using that by (simp add: outcome_simps)
  {
    case 1
    from ex [OF this] show ?case
      using apply_entry_Ok(1) Cons.IH(1) by (fastforce simp: patch_all_append)
  next
    case 2
    from ex [OF this] obtain st1 img1 where "apply_entry delta page raw st img = (Ok st1, img1)"
      "apply_entries delta page raws st1 img1 = (Ok st', img')" by blast
    then show ?case
      using stats_plus_append [OF apply_entry_Ok(2) Cons.IH(2)] by simp
  next
    case 3
    from ex [OF this] show ?case using apply_entry_Ok(3) Cons.IH(3) by metis
  }
qed simp_all

section \<open>The walk implements the table\<close>

lemma saturating_add_u32:
  "unat a + unat b < 4294967296 \<Longrightarrow> saturating_add a b = (a + b :: u32)"
  by (simp add: saturating_add_def)

text \<open>In a bounded image a block whose header and entries are read does not wrap the cursor.\<close>

lemma block_reads:
  assumes h: "read_block_header img cursor end = Ok (page, bs)"
    and e: "read_block_entries img cursor bs = Ok raws" and b: "image_bounded img"
  shows "block_header img cursor = (page, bs)"
    and "block_entries img cursor ((unat bs - 8) div 2) = raws"
    and "unat cursor + unat bs \<le> unat end"
    and "saturating_add cursor bs = cursor + bs" and "unat (cursor + bs) = unat cursor + unat bs"
    and "length raws = (unat bs - 8) div 2"
proof -
  obtain hd where hd: "rva_to_slice img cursor 8 = Some hd" "page = u32_from_le (sub hd 0 4)"
    "bs = u32_from_le (sub hd 4 8)"
    using h by (auto simp: read_block_header_def Let_def outcome_simps split: if_splits)
  then show "block_header img cursor = (page, bs)" by (simp add: block_header_def)
  have bs: "8 \<le> unat bs" and s: "saturating_add cursor bs \<le> end"
    using read_block_progress [OF h] by auto
  then have m: "unat (bs - 8) = unat bs - 8" by (simp add: unat_sub word_le_nat_alt)
  obtain raw where raw: "rva_to_slice img (cursor + 8) ((unat bs - 8) div 2 * 2) = Some raw"
    "raws = snapshot_entries raw ((unat bs - 8) div 2)" "(unat bs - 8) div 2 \<le> 2048"
    using e by (auto simp: read_block_entries_def Let_def outcome_simps m split: if_splits)
  then show "block_entries img cursor ((unat bs - 8) div 2) = raws" by (simp add: block_entries_def)
  show "length raws = (unat bs - 8) div 2" by (simp add: raw(2) snapshot_entries_def)
  have "unat cursor + 8 \<le> length (img_mem img)" using img.slice_bound [OF hd(1)] by simp
  with b raw(3) have w: "unat cursor + unat bs < 4294967296" by (auto simp: image_bounded_def)
  then show u: "unat (cursor + bs) = unat cursor + unat bs" by (intro unat_add_small) simp
  from w show "saturating_add cursor bs = cursor + bs" by (rule saturating_add_u32)
  with s u show "unat cursor + unat bs \<le> unat end" by (simp add: word_le_nat_alt)
qed

text \<open>Two images that agree on the directory have the same table.\<close>

definition agree_on :: "loaded_image \<Rightarrow> loaded_image \<Rightarrow> nat \<Rightarrow> nat \<Rightarrow> bool" where
  "agree_on img img' lo hi \<longleftrightarrow>
     (\<forall>a n. lo \<le> unat a \<longrightarrow> unat a + n \<le> hi \<longrightarrow> rva_to_slice img a n = rva_to_slice img' a n)"

lemma agree_on_sub: "agree_on i j lo hi \<Longrightarrow> lo \<le> lo' \<Longrightarrow> agree_on i j lo' hi"
  by (auto simp: agree_on_def)

lemma reloc_entries_cong:
  "agree_on img img' (unat cursor) (unat end) \<Longrightarrow> reloc_entries img end cursor = reloc_entries img' end cursor"
proof (induction img "end" cursor rule: reloc_entries.induct)
  case (1 img "end" cursor)
  let ?bs = "snd (block_header img cursor)"
  show ?case
  proof (cases "unat cursor + 8 \<le> unat end \<and> 8 \<le> unat ?bs \<and> unat cursor + unat ?bs \<le> unat end")
    case True
    have e: "unat end < 4294967296" by (rule unat_u32_less)
    have u: "unat (cursor + ?bs) = unat cursor + unat ?bs"
      using True e by (intro unat_add_small) simp
    have u8: "unat (cursor + 8) = unat cursor + 8"
      using True e unat_add_small [of cursor 8] by simp
    have h: "block_header img' cursor = block_header img cursor"
      using 1(2) True by (simp add: block_header_def agree_on_def)
    have "block_entries img' cursor n = block_entries img cursor n" if "n = (unat ?bs - 8) div 2" for n
    proof -
      have "unat (cursor + 8) + n * 2 \<le> unat end" using that True u8 by linarith
      then show ?thesis using 1(2) u8 by (simp add: block_entries_def agree_on_def)
    qed
    moreover have "reloc_entries img end (cursor + ?bs) = reloc_entries img' end (cursor + ?bs)"
      using 1(1) [OF True] agree_on_sub [OF 1(2)] u by simp
    ultimately show ?thesis
      using True h by (simp add: reloc_entries.simps [of _ "end" cursor])
  next
    case False
    have "block_header img' cursor = block_header img cursor" if "unat cursor + 8 \<le> unat end"
      using 1(2) that by (simp add: block_header_def agree_on_def)
    with False show ?thesis by (auto simp: reloc_entries.simps [of _ "end" cursor])
  qed
qed

definition outside :: "nat \<Rightarrow> nat \<Rightarrow> patch \<Rightarrow> bool" where
  "outside lo hi p \<longleftrightarrow> unat (fst p) + fst (snd p) \<le> lo \<or> hi \<le> unat (fst p)"

lemma patch_all_agree:
  assumes "patch_all rva_to_slice_mut ps i = Some i'" "\<forall>p \<in> set ps. patch_wf p"
    and "\<forall>p \<in> set ps. outside lo hi p"
  shows "agree_on i' i lo hi"
proof -
  have "rva_to_slice i' a n = rva_to_slice i a n" if "lo \<le> unat a" "unat a + n \<le> hi" for a n
    using assms that
    by (intro img.patch_all_frame) (auto simp: outside_def slot_disjoint_def)
  then show ?thesis by (simp add: agree_on_def)
qed

lemma apply_blocks_step:
  assumes "apply_blocks delta end cursor st img = (Ok st', img')" "cursor < end"
  obtains page bs raws st1 img1 n where
    "read_block_header img cursor end = Ok (page, bs)" "read_block_entries img cursor bs = Ok raws"
    "apply_entries delta page raws (st\<lparr>blocks := n\<rparr>) img = (Ok st1, img1)"
    "apply_blocks delta end (saturating_add cursor bs) st1 img1 = (Ok st', img')"
  using assms by (subst (asm) apply_blocks.simps) (auto simp: outcome_simps)

lemma apply_blocks_refines:
  assumes "apply_blocks delta end cursor st img = (Ok st', img')" "image_bounded img"
    and "\<forall>p \<in> set (entry_patches delta (reloc_entries img end cursor)). outside lo (unat end) p"
    and "lo \<le> unat cursor"
  shows "patch_all rva_to_slice_mut (entry_patches delta (reloc_entries img end cursor)) img = Some img' \<and>
         stats_plus st (reloc_entries img end cursor) st'"
  using assms
proof (induction "unat end - unat cursor" arbitrary: cursor st img rule: less_induct)
  case 1: less
  show ?case
  proof (cases "cursor < end")
    case True
    obtain page bs raws st1 img1 n where
      h: "read_block_header img cursor end = Ok (page, bs)" and e: "read_block_entries img cursor bs = Ok raws"
      and a: "apply_entries delta page raws (st\<lparr>blocks := n\<rparr>) img = (Ok st1, img1)"
      and r: "apply_blocks delta end (saturating_add cursor bs) st1 img1 = (Ok st', img')"
      using apply_blocks_step [OF 1(2) True] .
    note br = block_reads [OF h e 1(3)]
    have es: "reloc_entries img end cursor = map (Pair page) raws @ reloc_entries img end (cursor + bs)"
      using br read_block_progress(1) [OF h] by (simp add: reloc_entries.simps [of img "end" cursor])
    let ?ps = "entry_patches delta (map (Pair page) raws)"
    note ap = apply_entries_Ok [OF a]
    have wf: "\<forall>p \<in> set ?ps. patch_wf p" using entry_patches_wf by blast
    have "agree_on img1 img lo (unat end)"
      using ap(1) wf 1(4) by (intro patch_all_agree) (auto simp: es)
    then have c: "reloc_entries img1 end (cursor + bs) = reloc_entries img end (cursor + bs)"
      using 1(5) br(5) by (intro reloc_entries_cong) (auto elim: agree_on_sub)
    have b1: "image_bounded img1" using patch_all_bounded [OF ap(1) wf 1(3)] .
    have "patch_all rva_to_slice_mut (entry_patches delta (reloc_entries img1 end (cursor + bs))) img1 = Some img' \<and>
          stats_plus st1 (reloc_entries img1 end (cursor + bs)) st'"
      using 1(1) [of "saturating_add cursor bs" st1 img1] r b1 1(4,5) br c
        saturating_add_step [OF True read_block_progress [OF h]] by (simp add: es)
    with ap c es stats_plus_append show ?thesis
      by (auto simp: patch_all_append stats_plus_def count_type_def)
  next
    case False
    have "reloc_entries img end cursor = []"
      using False by (subst reloc_entries.simps) (simp add: word_less_nat_alt)
    with 1(2) False show ?thesis by (subst (asm) apply_blocks.simps) auto
  qed
qed

section \<open>No panic\<close>

text \<open>
  The counters cannot overflow: each entry takes two bytes of the directory and each block at least
  eight, so a counter is at most half the cursor.
\<close>

definition counters_below :: "nat \<Rightarrow> reloc_stats \<Rightarrow> bool" where
  "counters_below m st \<longleftrightarrow> 2 * unat (blocks st) \<le> m \<and> 2 * unat (absolute st) \<le> m \<and>
     2 * unat (dir64 st) \<le> m \<and> 2 * unat (highlow st) \<le> m"

lemma inc_below:
  assumes "2 * unat (c :: u32) \<le> m" "m < 4294967296"
  shows "add_or_panic c 1 = Ok (c + 1)" and "2 * unat (c + 1) \<le> Suc (Suc m)"
proof -
  show "add_or_panic c 1 = Ok (c + 1)" using assms by (simp add: add_or_panic_def)
  show "2 * unat (c + 1) \<le> Suc (Suc m)" using assms by (simp add: unat_word_ariths)
qed

lemma apply_entry_no_panic:
  assumes "counters_below m st" "m < 4294967296"
  shows "no_panic (fst (apply_entry delta page raw st img))"
    and "apply_entry delta page raw st img = (Ok st', img') \<Longrightarrow> counters_below (m + 2) st'"
  using assms
  by (auto simp: apply_entry_def Let_def counters_below_def inc_below split: option.splits if_splits)

lemma apply_entries_no_panic:
  assumes "counters_below m st" "m + 2 * length raws < 4294967296"
  shows "no_panic (fst (apply_entries delta page raws st img))"
    and "apply_entries delta page raws st img = (Ok st', img') \<Longrightarrow> counters_below (m + 2 * length raws) st'"
  using assms
proof (induction raws arbitrary: m st img)
  case (Cons raw raws)
  {
    case 1
    then show ?case
      using apply_entry_no_panic [OF 1(1), of delta page raw img] Cons.IH(1) [of "m + 2"]
      by (auto intro!: no_panic_sbind)
  next
    case 2
    then obtain st1 img1 where a: "apply_entry delta page raw st img = (Ok st1, img1)"
      and r: "apply_entries delta page raws st1 img1 = (Ok st', img')"
      by (auto simp: outcome_simps)
    have "counters_below (m + 2) st1" using apply_entry_no_panic(2) [OF 2(2) _ a] 2(3) by simp
    from Cons.IH(2) [OF r this] 2(3) show ?case by simp
  }
qed simp_all

text \<open>One turn of the loop, given that the rest of the walk does not panic.\<close>

lemma block_turn_no_panic:
  assumes h: "read_block_header img cursor end = Ok (page, bs)"
    and c: "counters_below (unat cursor) st" and b: "image_bounded img"
    and rest: "\<And>st1 img1. counters_below (unat (saturating_add cursor bs)) st1 \<Longrightarrow> image_bounded img1 \<Longrightarrow>
      no_panic (fst (k st1 img1))"
  shows "no_panic (fst (sbind (add_or_panic (blocks st) 1, img) (\<lambda>n img0.
      sbind (read_block_entries img0 cursor bs, img0) (\<lambda>entries img0.
      sbind (apply_entries delta page entries (st\<lparr>blocks := n\<rparr>) img0) k))))"
proof -
  obtain hd where hd: "rva_to_slice img cursor 8 = Some hd"
    using h by (auto simp: read_block_header_def outcome_simps)
  have c8: "unat cursor + 8 < 4294967296"
    using img.slice_bound [OF hd] b by (simp add: image_bounded_def)
  then have ep: "no_panic (read_block_entries img cursor bs)"
    unfolding read_block_entries_def Let_def by (intro no_panic_intros no_panic_add) simp_all
  have inc: "add_or_panic (blocks st) 1 = (Ok (blocks st + 1) :: u32 result)"
    "counters_below (unat cursor + 2) (st\<lparr>blocks := blocks st + 1\<rparr>)"
    using c inc_below [of "blocks st" "unat cursor"] c8 by (auto simp: counters_below_def)
  have "no_panic (fst (sbind (apply_entries delta page raws (st\<lparr>blocks := blocks st + 1\<rparr>) img) k))"
    if e: "read_block_entries img cursor bs = Ok raws" for raws
  proof (rule no_panic_sbind)
    note br = block_reads [OF h e b]
    have le: "unat cursor + 2 + 2 * length raws \<le> unat cursor + unat bs"
      using br(6) read_block_progress(1) [OF h] by simp
    moreover have "unat cursor + unat bs < 4294967296"
      using br(3) unat_u32_less [of "end"] by simp
    ultimately have sm: "unat cursor + 2 + 2 * length raws < 4294967296" by simp
    note ae = apply_entries_no_panic [OF inc(2) sm, of delta page img]
    show "no_panic (fst (apply_entries delta page raws (st\<lparr>blocks := blocks st + 1\<rparr>) img))" by (rule ae(1))
    fix st1 img1
    assume a: "apply_entries delta page raws (st\<lparr>blocks := blocks st + 1\<rparr>) img = (Ok st1, img1)"
    have "counters_below (unat (cursor + bs)) st1"
      using ae(2) [OF a] le br(5) by (auto simp: counters_below_def)
    moreover have "image_bounded img1"
      using apply_entries_Ok(1) [OF a] b entry_patches_wf by (blast intro: patch_all_bounded)
    ultimately show "no_panic (fst (k st1 img1))" using rest br(4) by simp
  qed
  with inc(1) ep show ?thesis by (cases "read_block_entries img cursor bs") simp_all
qed

lemma apply_blocks_no_panic:
  assumes "counters_below (unat cursor) st" "image_bounded img"
  shows "no_panic (fst (apply_blocks delta end cursor st img))"
  using assms
proof (induction "unat end - unat cursor" arbitrary: cursor st img rule: less_induct)
  case less
  have hp: "no_panic (read_block_header img cursor end)"
    by (simp add: read_block_header_def Let_def) (intro no_panic_intros)
  show ?case
  proof (cases "cursor < end \<and> (\<exists>page bs. read_block_header img cursor end = Ok (page, bs))")
    case True
    then obtain page bs where h: "read_block_header img cursor end = Ok (page, bs)" and lt: "cursor < end"
      by blast
    have "no_panic (fst (apply_blocks delta end (saturating_add cursor bs) st1 img1))"
      if "counters_below (unat (saturating_add cursor bs)) st1" "image_bounded img1" for st1 img1
      using less(1) saturating_add_step [OF lt read_block_progress [OF h]] that by blast
    from block_turn_no_panic [OF h less(2,3) this] show ?thesis
      using lt h by (simp add: apply_blocks.simps [of delta "end" cursor st img])
  next
    case False
    with hp show ?thesis
      by (subst apply_blocks.simps) (cases "read_block_header img cursor end", auto)
  qed
qed

section \<open>Properties\<close>

text \<open>The fixups of an image's relocation directory, and when they can be applied independently.\<close>

definition table_of :: "loaded_image \<Rightarrow> data_directory \<Rightarrow> (u32 \<times> u16) list" where
  "table_of img d =
     reloc_entries img (saturating_add (virtual_address d) (dir_size d)) (virtual_address d)"

definition fixups_independent :: "loaded_image \<Rightarrow> data_directory \<Rightarrow> bool" where
  "fixups_independent img d \<longleftrightarrow>
     patches_disjoint (entry_patches 0 (table_of img d)) \<and>
     (\<forall>p \<in> set (entry_patches 0 (table_of img d)).
        outside (unat (virtual_address d)) (unat (saturating_add (virtual_address d) (dir_size d))) p)"

text \<open>Positions and widths of the fixups do not depend on the delta.\<close>

lemma entry_patches_slots:
  "map (\<lambda>p. (fst p, fst (snd p))) (entry_patches delta es) = map (\<lambda>p. (fst p, fst (snd p))) (entry_patches 0 es)"
  by (induction es) (auto simp: entry_patch_def)

lemma patches_disjoint_slots:
  "patches_disjoint ps \<longleftrightarrow>
   sorted_wrt (\<lambda>p q. slot_disjoint (fst p) (snd p) (fst q) (snd q)) (map (\<lambda>p. (fst p, fst (snd p))) ps)"
  by (simp add: patches_disjoint_def sorted_wrt_map)

lemma outside_slots:
  "(\<forall>p \<in> set ps. outside lo hi p) \<longleftrightarrow>
   (\<forall>s \<in> set (map (\<lambda>p. (fst p, fst (snd p))) ps). unat (fst s) + snd s \<le> lo \<or> hi \<le> unat (fst s))"
  by (simp add: outside_def)

lemma fixups_independent_delta:
  assumes "fixups_independent img d"
  shows "patches_disjoint (entry_patches delta (table_of img d))"
    and "\<forall>p \<in> set (entry_patches delta (table_of img d)).
        outside (unat (virtual_address d)) (unat (saturating_add (virtual_address d) (dir_size d))) p"
  using assms unfolding fixups_independent_def patches_disjoint_slots outside_slots
    entry_patches_slots [of delta] by blast+

lemma apply_reloc_patches:
  assumes "apply_reloc img = (Ok st, img')" "reloc_delta img \<noteq> 0" "data_dir img DIR_BASERELOC = Some d"
    and "image_bounded img" "fixups_independent img d"
  shows "patch_all rva_to_slice_mut (entry_patches (reloc_delta img) (table_of img d)) img = Some img'"
    and "stats_plus default_stats (table_of img d) st"
  using apply_blocks_refines [of "reloc_delta img" _ _ default_stats img st img' "unat (virtual_address d)"]
    assms fixups_independent_delta(2) [OF assms(5), of "reloc_delta img"]
  by (auto simp: apply_reloc_def table_of_def)

text \<open>
  An image of 28 bytes with a 64-bit pointer at RVA 8 and a relocation table of one block at RVA 16:
  a DIR64 entry for the pointer and an ABSOLUTE pad. It sits one MiB above its preferred base.
\<close>

definition reloc_image :: loaded_image where
  "reloc_image =
     \<lparr>img_region = \<lparr>r_base = 0x140100000, r_mem =
        [0, 0, 0, 0, 0, 0, 0, 0, 0x34, 0x12, 0, 0x40, 1, 0, 0, 0,
         0, 0, 0, 0, 12, 0, 0, 0, 0x08, 0xA0, 0, 0], r_is_jit = False\<rparr>,
      preferred_base = 0x140000000, actual_base = 0x140100000, size_of_image = 28,
      size_of_headers = 8, entry_rva = 0, subsystem = 3, img_bitness = X86_64, img_sections = [],
      data_directories = replicate 5 default_directory @ [\<lparr>virtual_address = 16, dir_size = 12\<rparr>]\<rparr>"

definition reloc_dir :: data_directory where
  "reloc_dir = \<lparr>virtual_address = 16, dir_size = 12\<rparr>"

lemma reloc_image_dir: "data_dir reloc_image DIR_BASERELOC = Some reloc_dir"
  by (simp add: data_dir_def reloc_image_def reloc_dir_def DIR_BASERELOC_def eval_simps)

lemma reloc_image_table: "table_of reloc_image reloc_dir = [(0, 0xA008), (0, 0)]"
proof -
  have h: "block_header reloc_image 16 = (0, 12)"
    by (simp add: block_header_def rva_to_slice_def usize_checked_add_def reloc_image_def sub_def
        u32_from_le_def)
  have e: "block_entries reloc_image 16 2 = [0xA008, 0]"
    by (simp add: block_entries_def rva_to_slice_def usize_checked_add_def reloc_image_def
        snapshot_entries_def u16_from_le_def upt_rec)
  show ?thesis
    by (simp add: table_of_def reloc_dir_def saturating_add_def reloc_entries.simps [of _ _ 16]
        reloc_entries.simps [of _ _ 28] h e)
qed

lemma reloc_image_ok:
  "reloc_delta reloc_image \<noteq> 0" "image_bounded reloc_image" "fixups_independent reloc_image reloc_dir"
proof -
  show "reloc_delta reloc_image \<noteq> 0" "image_bounded reloc_image"
    by (simp_all add: reloc_delta_def reloc_image_def image_bounded_def)
  have d: "unat (virtual_address reloc_dir) = 16"
    "saturating_add (virtual_address reloc_dir) (dir_size reloc_dir) = 28"
    by (simp_all add: reloc_dir_def saturating_add_def)
  show "fixups_independent reloc_image reloc_dir"
    by (simp add: fixups_independent_def reloc_image_table d)
       (simp add: entry_patch_def entry_type_def rel_type_defs entry_target_def saturating_add_def
          outside_def patches_disjoint_def)
qed

lemma reloc_image_applied: "\<exists>st img'. apply_reloc reloc_image = (Ok st, img')"
proof -
  have sat: "saturating_add (16 :: u32) 12 = 28" by (simp add: saturating_add_def)
  have h: "read_block_header reloc_image 16 28 = Ok (0, 12)"
    by (simp add: read_block_header_def rva_to_slice_def usize_checked_add_def reloc_image_def sub_def
        u32_from_le_def sat)
  have e: "read_block_entries reloc_image 16 12 = Ok [0xA008, 0]"
    by (simp add: read_block_entries_def rva_to_slice_def usize_checked_add_def reloc_image_def
        snapshot_entries_def u16_from_le_def upt_rec add_or_panic_def)
  have "\<exists>p. rva_to_slice_mut reloc_image 8 8 = Some p"
    by (simp add: rva_to_slice_mut_def usize_checked_add_def reloc_image_def)
  then obtain s w where m: "rva_to_slice_mut reloc_image 8 8 = Some (s, w)" by auto
  show ?thesis
    by (simp add: apply_reloc_def reloc_image_ok(1) reloc_image_dir)
       (simp add: reloc_dir_def sat apply_blocks.simps [of _ _ 16] apply_blocks.simps [of _ _ 28] h e
         add_or_panic_def default_stats_def apply_entry_def entry_type_def rel_type_defs
         entry_target_def saturating_add_def m)
qed

text \<open>
  C9: relocation adds the load delta to exactly the slots the table names. When \<open>apply\<close> succeeds on
  an image that moved, and the fixups overlap neither each other nor the table, every DIR64 slot
  holds its old 64-bit value plus the delta and every HIGHLOW slot its old 32-bit value plus the
  delta's low half, both modulo their width.
\<close>

theorem apply_relocates:
  assumes "apply_reloc img = (Ok st, img')" "reloc_delta img \<noteq> 0"
    and "data_dir img DIR_BASERELOC = Some d" "image_bounded img" "fixups_independent img d"
    and "(page, raw) \<in> set (table_of img d)"
  shows "(entry_type raw = REL_DIR64 \<longrightarrow>
           (\<exists>old. rva_to_slice img (entry_target page raw) 8 = Some old \<and>
              rva_to_slice img' (entry_target page raw) 8 =
                Some (u64_to_le (u64_from_le old + reloc_delta img)))) \<and>
         (entry_type raw = REL_HIGHLOW \<longrightarrow>
           (\<exists>old. rva_to_slice img (entry_target page raw) 4 = Some old \<and>
              rva_to_slice img' (entry_target page raw) 4 =
                Some (u32_to_le (u32_from_le old + ucast (reloc_delta img)))))"
proof -
  let ?ps = "entry_patches (reloc_delta img) (table_of img d)"
  note slot = img.patch_all_slot [OF apply_reloc_patches(1) [OF assms(1-5)] _
      fixups_independent_delta(1) [OF assms(5)]]
  have wf: "\<forall>p \<in> set ?ps. patch_wf p" using entry_patches_wf by blast
  have "set (entry_patch (reloc_delta img) (page, raw)) \<subseteq> set ?ps"
    using assms(6) by (auto simp: entry_patches_def)
  then show ?thesis
    using slot [OF wf] by (auto simp: entry_patch_def rel_type_defs)
qed

theorem apply_relocates_witness:
  "\<exists>st img'. apply_reloc reloc_image = (Ok st, img') \<and>
     rva_to_slice img' 8 8 = Some (u64_to_le 0x140101234)"
proof -
  obtain st img' where a: "apply_reloc reloc_image = (Ok st, img')" using reloc_image_applied by blast
  have i: "(0, 0xA008) \<in> set (table_of reloc_image reloc_dir)" by (simp add: reloc_image_table)
  have t: "entry_target 0 0xA008 = 8" "entry_type 0xA008 = REL_DIR64"
    by (simp_all add: entry_target_def entry_type_def saturating_add_def rel_type_defs)
  have "rva_to_slice reloc_image 8 8 = Some [0x34, 0x12, 0, 0x40, 1, 0, 0, 0]"
    by (simp add: rva_to_slice_def usize_checked_add_def reloc_image_def)
  moreover have "u64_from_le [0x34, 0x12, 0, 0x40, 1, 0, 0, 0] + reloc_delta reloc_image = 0x140101234"
    by (simp add: u64_from_le_def reloc_delta_def reloc_image_def)
  ultimately show ?thesis
    using apply_relocates [OF a reloc_image_ok(1) reloc_image_dir reloc_image_ok(2,3) i] a
    by (auto simp: t)
qed

text \<open>
  C10: relocation changes nothing else, and its statistics are the table's. Under the same conditions
  every byte range that meets no fixup reads as before, the image keeps its size, and the counters
  count the entries of each type.
\<close>

theorem apply_frame:
  assumes "apply_reloc img = (Ok st, img')" "reloc_delta img \<noteq> 0"
    and "data_dir img DIR_BASERELOC = Some d" "image_bounded img" "fixups_independent img d"
    and "\<forall>p \<in> set (entry_patches 0 (table_of img d)). slot_disjoint (fst p) (fst (snd p)) a n"
  shows "rva_to_slice img' a n = rva_to_slice img a n \<and>
         length (img_mem img') = length (img_mem img) \<and>
         absolute st = of_nat (count_type REL_ABSOLUTE (table_of img d)) \<and>
         dir64 st = of_nat (count_type REL_DIR64 (table_of img d)) \<and>
         highlow st = of_nat (count_type REL_HIGHLOW (table_of img d))"
proof -
  let ?ps = "entry_patches (reloc_delta img) (table_of img d)"
  note pa = apply_reloc_patches [OF assms(1-5)]
  have wf: "\<forall>p \<in> set ?ps. patch_wf p" using entry_patches_wf by blast
  have "\<forall>s \<in> set (map (\<lambda>p. (fst p, fst (snd p))) (entry_patches 0 (table_of img d))).
          slot_disjoint (fst s) (snd s) a n"
    using assms(6) by simp
  then have "\<forall>p \<in> set ?ps. slot_disjoint (fst p) (fst (snd p)) a n"
    unfolding entry_patches_slots [of "reloc_delta img", symmetric] by simp
  with img.patch_all_frame [OF pa(1) wf] img.patch_all_extent [OF pa(1) wf] pa(2) show ?thesis
    by (auto simp: stats_plus_def default_stats_def)
qed

theorem apply_frame_witness:
  "\<exists>st img'. apply_reloc reloc_image = (Ok st, img') \<and> dir64 st = 1 \<and> absolute st = 1 \<and>
     rva_to_slice img' 16 12 = rva_to_slice reloc_image 16 12"
proof -
  obtain st img' where a: "apply_reloc reloc_image = (Ok st, img')" using reloc_image_applied by blast
  have d: "\<forall>p \<in> set (entry_patches 0 (table_of reloc_image reloc_dir)). slot_disjoint (fst p) (fst (snd p)) 16 12"
    by (simp add: reloc_image_table entry_patch_def entry_type_def rel_type_defs entry_target_def
        saturating_add_def slot_disjoint_def)
  show ?thesis
    using apply_frame [OF a reloc_image_ok(1) reloc_image_dir reloc_image_ok(2,3) d] a
    by (simp add: reloc_image_table count_type_def entry_type_def rel_type_defs)
qed

text \<open>
  C13: relocation never panics on an image of at most 2 GiB, the most \<open>load\<close> produces, whatever
  the directory holds: no cursor sum and no counter overflows.
\<close>

theorem apply_never_panics:
  assumes "image_bounded img"
  shows "no_panic (fst (apply_reloc img))"
  using assms apply_blocks_no_panic
  by (auto simp: apply_reloc_def Let_def counters_below_def default_stats_def split: option.splits)

theorem apply_never_panics_witness:
  "image_bounded reloc_image \<and> no_panic (fst (apply_reloc reloc_image))"
  using apply_never_panics [OF reloc_image_ok(2)] reloc_image_ok(2) by blast

end
