(* ===== verification/Side_Modules.thy ===== *)
theory Side_Modules
  imports Directories Imports Reloc
begin

text \<open>
  The DLLs a guest program brings along (\<open>quantum-cli/src/process.rs\<close>, \<open>SideModule\<close>, \<open>load_side_dlls\<close>,
  \<open>wire_side_module_iats\<close>, \<open>has_builtin\<close>): which are loaded, and how an import of one module is resolved in
  the export table of another. Reading a file and the built-in resolver of \<open>quantum-kernel32\<close> are
  parameters; trace output is left out. The work list of \<open>load_side_dlls\<close> runs with fuel, since nothing in
  the code bounds it but the number of files; \<open>imports::parse\<close> returning \<open>None\<close> (not returning) makes the
  whole call \<open>None\<close>.
\<close>

record side_module =
  sm_name :: bytes
  sm_image :: loaded_image
  sm_exports :: export_table

section \<open>Resolving an export\<close>

text \<open>\<open>str::parse::<u32>\<close>: an optional plus sign and decimal digits, no overflow.\<close>

fun parse_digits :: "nat \<Rightarrow> bytes \<Rightarrow> nat option" where
  "parse_digits acc [] = Some acc"
| "parse_digits acc (b # bs) =
     (if 48 \<le> unat b \<and> unat b \<le> 57 then
        let acc1 = acc * 10 + (unat b - 48) in if acc1 < 2 ^ 32 then parse_digits acc1 bs else None
      else None)"

definition parse_u32 :: "bytes \<Rightarrow> u32 option" where
  "parse_u32 s =
     (let digits = (case s of b # bs \<Rightarrow> if b = 0x2B then bs else s | [] \<Rightarrow> []) in
      if digits = [] then None else map_option of_nat (parse_digits 0 digits))"

definition checked_sub_u32 :: "u32 \<Rightarrow> u32 \<Rightarrow> u32 option" where
  "checked_sub_u32 a b = (if b \<le> a then Some (a - b) else None)"

definition export_index :: "export_table \<Rightarrow> bytes \<Rightarrow> u32 option" where
  "export_index exports func =
     (case func of
        b # ord_str \<Rightarrow>
          if b = 0x23 then Option.bind (parse_u32 ord_str) (\<lambda>ord. checked_sub_u32 ord (et_ordinal_base exports))
          else Option.bind (find (\<lambda>n. ne_name n = func) (et_names exports))
                 (\<lambda>named. checked_sub_u32 (ne_ordinal named) (et_ordinal_base exports))
      | [] \<Rightarrow> Option.bind (find (\<lambda>n. ne_name n = func) (et_names exports))
                 (\<lambda>named. checked_sub_u32 (ne_ordinal named) (et_ordinal_base exports)))"

definition resolve_in :: "export_table \<Rightarrow> u64 \<Rightarrow> bytes \<Rightarrow> u64 option result" where
  "resolve_in exports base func =
     (case export_index exports func of
        None \<Rightarrow> Ok None
      | Some idx \<Rightarrow>
          if unat idx < length (et_entries exports) then
            (case ex_target (et_entries exports ! unat idx) of
               ExRva rva \<Rightarrow> obind (add_or_panic base (ucast rva)) (\<lambda>a. Ok (Some a))
             | Forwarded _ \<Rightarrow> Ok None)
          else Ok None)"

definition side_resolve :: "side_module \<Rightarrow> bytes \<Rightarrow> u64 option result" where
  "side_resolve sm func = resolve_in (sm_exports sm) (actual_base (sm_image sm)) func"

section \<open>Loading\<close>

definition to_ascii_lowercase :: "bytes \<Rightarrow> bytes" where
  "to_ascii_lowercase s = map (\<lambda>b. if 0x41 \<le> b \<and> b \<le> 0x5A then b + 0x20 else b) s"

definition ascii :: "string \<Rightarrow> bytes" where
  "ascii s = map (\<lambda>c. of_nat (of_char c)) s"

definition has_builtin :: "bytes \<Rightarrow> bool" where
  "has_builtin dll \<longleftrightarrow> dll \<in> set (map ascii
     [''kernel32.dll'', ''kernelbase.dll'', ''user32.dll'', ''gdi32.dll'', ''advapi32.dll'', ''winmm.dll'', ''shell32.dll'',
      ''ole32.dll'', ''oleaut32.dll'', ''imm32.dll'', ''crypt32.dll'', ''dinput8.dll'', ''xinput1_3.dll'', ''wldap32.dll'',
      ''ws2_32.dll'', ''dxgi.dll'', ''d3d11.dll'', ''d3d9.dll'', ''d3dx11_43.dll'', ''d3dcompiler_43.dll'', ''steam_api64.dll'',
      ''ntdll.dll'', ''wsock32.dll'', ''msacm32.dll''])"

text \<open>
  What one turn does with a name it has not seen: read, parse, map, relocate, parse the exports. \<open>Ok None\<close> is
  every \<open>continue\<close>; only a panic leaves the loop.
\<close>

definition swallow :: "('e, 'a) outcome \<Rightarrow> ('f, 'a option) outcome" where
  "swallow r = (case r of Ok x \<Rightarrow> Ok (Some x) | Err _ \<Rightarrow> Ok None | Panic p \<Rightarrow> Panic p)"

definition then_try :: "('e, 'a option) outcome \<times> 'k \<Rightarrow> ('a \<Rightarrow> 'k \<Rightarrow> ('e, 'b option) outcome \<times> 'k) \<Rightarrow> ('e, 'b option) outcome \<times> 'k" where
  "then_try m f = (case fst m of Ok (Some x) \<Rightarrow> f x (snd m) | Ok None \<Rightarrow> (Ok None, snd m) | Err e \<Rightarrow> (Err e, snd m) | Panic p \<Rightarrow> (Panic p, snd m))"

definition load_side ::
  "'k memory_manager \<Rightarrow> (bytes \<Rightarrow> bytes option) \<Rightarrow> bytes \<Rightarrow> 'k \<Rightarrow> side_module option result \<times> 'k" where
  "load_side M read_file dll_name k =
     then_try (Ok (read_file dll_name), k) (\<lambda>bytes k.
     then_try (swallow (PeFile_parse bytes), k) (\<lambda>pe k.
     then_try (let (r, k) = load M k pe in (swallow r, k)) (\<lambda>img k.
     let (r, img) = apply_reloc img in
     then_try (swallow r, k) (\<lambda>_ k.
     then_try (case parse_exports img of Ok t \<Rightarrow> Ok t | Err _ \<Rightarrow> Ok None | Panic p \<Rightarrow> Panic p, k) (\<lambda>exports k.
       (Ok (Some \<lparr>sm_name = dll_name, sm_image = img, sm_exports = exports\<rparr>), k))))))"

text \<open>The imports of a loaded module go on the work list, unless seen; the list is a stack.\<close>

definition queue_imports :: "bytes list \<Rightarrow> bytes list \<Rightarrow> side_module \<Rightarrow> bytes list result option" where
  "queue_imports seen work sm =
     (case parse_imports (sm_image sm) of
        None \<Rightarrow> None
      | Some (Ok t) \<Rightarrow>
          Some (Ok (work @ filter (\<lambda>n. n \<notin> set seen) (map (\<lambda>d. to_ascii_lowercase (di_name d)) (it_dlls t))))
      | Some (Err _) \<Rightarrow> Some (Ok work)
      | Some (Panic p) \<Rightarrow> Some (Panic p))"

fun load_side_loop ::
  "nat \<Rightarrow> 'k memory_manager \<Rightarrow> (bytes \<Rightarrow> bytes option) \<Rightarrow> bytes list \<Rightarrow> bytes list \<Rightarrow> side_module list \<Rightarrow> 'k \<Rightarrow>
   (side_module list result \<times> 'k) option" where
  "load_side_loop fuel M read_file seen work out k =
     (if work = [] then Some (Ok out, k)
      else
        case fuel of
          0 \<Rightarrow> None
        | Suc fuel \<Rightarrow>
            let dll_name = last work; work = butlast work in
            if dll_name \<in> set seen then load_side_loop fuel M read_file seen work out k
            else
              let seen = dll_name # seen in
              if has_builtin dll_name then load_side_loop fuel M read_file seen work out k
              else
                case load_side M read_file dll_name k of
                  (Panic p, k) \<Rightarrow> Some (Panic p, k)
                | (Err e, k) \<Rightarrow> Some (Err e, k)
                | (Ok None, k) \<Rightarrow> load_side_loop fuel M read_file seen work out k
                | (Ok (Some sm), k) \<Rightarrow>
                    (case queue_imports seen work sm of
                       None \<Rightarrow> None
                     | Some (Ok work) \<Rightarrow> load_side_loop fuel M read_file seen work (out @ [sm]) k
                     | Some (Err e) \<Rightarrow> Some (Err e, k)
                     | Some (Panic p) \<Rightarrow> Some (Panic p, k)))"

declare load_side_loop.simps [simp del]

definition load_side_dlls ::
  "nat \<Rightarrow> 'k memory_manager \<Rightarrow> (bytes \<Rightarrow> bytes option) \<Rightarrow> import_table \<Rightarrow> 'k \<Rightarrow> (side_module list result \<times> 'k) option" where
  "load_side_dlls fuel M read_file main k =
     load_side_loop fuel M read_file [] (map (\<lambda>d. to_ascii_lowercase (di_name d)) (it_dlls main)) [] k"

section \<open>Wiring the modules to each other\<close>

text \<open>
  The resolver closure: the built-in table first, then the first module of the snapshot with that name. It
  does not change state.
\<close>

definition side_resolver ::
  "(bytes \<Rightarrow> bytes \<Rightarrow> u64 option) \<Rightarrow> (bytes \<times> export_table \<times> u64) list \<Rightarrow> bytes \<Rightarrow> bytes \<Rightarrow> u64 option result" where
  "side_resolver builtin snapshot dll func =
     (case builtin dll func of
        Some addr \<Rightarrow> Ok (Some addr)
      | None \<Rightarrow>
          (case find (\<lambda>(name, _, _). name = to_ascii_lowercase dll) snapshot of
             None \<Rightarrow> Ok None
           | Some (_, exports, base) \<Rightarrow> resolve_in exports base func))"

text \<open>
  \<open>wire_side_module_iats\<close> for one module. The state of the resolver records a panic in it, which ends the call.
\<close>

definition panicking_resolver :: "(bytes \<Rightarrow> bytes \<Rightarrow> u64 option result) \<Rightarrow> string option resolver" where
  "panicking_resolver f s dll func = (case f dll func of Ok r \<Rightarrow> (r, s) | Err e \<Rightarrow> (None, s) | Panic p \<Rightarrow> (None, Some p))"

definition wire_side_module ::
  "(bytes \<Rightarrow> bytes \<Rightarrow> u64 option) \<Rightarrow> (bytes \<times> export_table \<times> u64) list \<Rightarrow> side_module \<Rightarrow> side_module result option" where
  "wire_side_module builtin snapshot sm =
     (case parse_imports (sm_image sm) of
        None \<Rightarrow> None
      | Some (Err _) \<Rightarrow> Some (Ok sm)
      | Some (Panic p) \<Rightarrow> Some (Panic p)
      | Some (Ok imp) \<Rightarrow>
          (case wire_iat (sm_image sm) imp (panicking_resolver (side_resolver builtin snapshot)) None of
             (Panic p, _, _) \<Rightarrow> Some (Panic p)
           | (_, _, Some p) \<Rightarrow> Some (Panic p)
           | (_, img, None) \<Rightarrow> Some (Ok (sm\<lparr>sm_image := img\<rparr>))))"

primrec wire_modules ::
  "(bytes \<Rightarrow> bytes \<Rightarrow> u64 option) \<Rightarrow> (bytes \<times> export_table \<times> u64) list \<Rightarrow> side_module list \<Rightarrow> side_module list result option" where
  "wire_modules builtin snapshot [] = Some (Ok [])"
| "wire_modules builtin snapshot (sm # sms) =
     (case wire_side_module builtin snapshot sm of
        None \<Rightarrow> None
      | Some (Ok sm) \<Rightarrow>
          (case wire_modules builtin snapshot sms of
             None \<Rightarrow> None
           | Some (Ok sms) \<Rightarrow> Some (Ok (sm # sms))
           | Some (Err e) \<Rightarrow> Some (Err e)
           | Some (Panic p) \<Rightarrow> Some (Panic p))
      | Some (Err e) \<Rightarrow> Some (Err e)
      | Some (Panic p) \<Rightarrow> Some (Panic p))"

definition wire_side_module_iats ::
  "(bytes \<Rightarrow> bytes \<Rightarrow> u64 option) \<Rightarrow> side_module list \<Rightarrow> side_module list result option" where
  "wire_side_module_iats builtin sms =
     wire_modules builtin (map (\<lambda>s. (sm_name s, sm_exports s, actual_base (sm_image s))) sms) sms"

end
