(* ===== verification/Driver.thy ===== *)
theory Driver
  imports Block Runtime Side_Modules
begin

text \<open>
  The loop that runs guest code (\<open>quantum-cli/src/process.rs\<close>, \<open>run_dispatcher_loop\<close> and
  \<open>invoke_guest_function\<close>): look the current guest address up, translate and install on a miss, patch the
  exits that were waiting for this address, call the block. The call itself is the processor's work: a
  parameter \<open>invoke\<close> takes the dispatcher, the address of the code and the machine state \<open>'m\<close> (context
  and memory) to the next guest address and the new state; \<open>pump\<close> is the window-system poll. The loop
  gives up after ten million turns, so the recursion counts the turns left. The formatted text of an error
  is replaced by the data it shows.
\<close>

datatype translate_msg =
    LoopLimit
  | OutsideImage u64
  | RvaOob u32
  | TranslateFailed u64 block_error

datatype run_error =
    RunParse error | RunLoad error | RunReloc error | RunImports error | RunWireIat error
  | RunStack error | RunDispatcher error | RunTranslate translate_msg

record run_state =
  rs_disp :: dispatcher
  rs_unpatched :: "(u64, u64 list) mapping"

definition LOOP_LIMIT :: nat where "LOOP_LIMIT = 10000000"
definition PUMP_EVERY :: nat where "PUMP_EVERY = 4096"

definition mode_of :: "bitness \<Rightarrow> isa_mode" where
  "mode_of b = (case b of X86 \<Rightarrow> Legacy32 | X86_64 \<Rightarrow> Long)"

text \<open>The bytes the translator sees: up to 256 from the guest address on.\<close>

definition decode_window :: "loaded_image \<Rightarrow> u64 \<Rightarrow> (run_error, bytes) outcome" where
  "decode_window img current_rip =
     (if \<not> (actual_base img \<le> current_rip \<and> unat (current_rip - actual_base img) < r_len (img_region img))
      then Err (RunTranslate (OutsideImage current_rip))
      else
        let rva = ucast (current_rip - actual_base img) :: u32 in
        if unat rva > r_len (img_region img) then Panic ''attempt to subtract with overflow''
        else ok_or (rva_to_slice img rva (min 256 (r_len (img_region img) - unat rva)))
                   (RunTranslate (RvaOob rva)))"

definition register_site :: "u64 \<Rightarrow> u32 \<times> u64 \<Rightarrow> (u64, u64 list) mapping \<Rightarrow> (u64, u64 list) mapping" where
  "register_site host_ptr p unpatched =
     (case p of (off, target) \<Rightarrow>
        let sites = (case Mapping.lookup unpatched target of None \<Rightarrow> [] | Some s \<Rightarrow> s) in
        Mapping.update target (sites @ [host_ptr + ucast off]) unpatched)"

definition find_block :: "'k host \<Rightarrow> loaded_image \<Rightarrow> u64 \<Rightarrow> run_state \<Rightarrow> 'k \<Rightarrow> (run_error, u64) outcome \<times> run_state \<times> 'k" where
  "find_block H img current_rip st k =
     (case di_lookup (rs_disp st) current_rip of
        Some p \<Rightarrow> (Ok p, st, k)
      | None \<Rightarrow>
          (case decode_window img current_rip of
             Err e \<Rightarrow> (Err e, st, k)
           | Panic p \<Rightarrow> (Panic p, st, k)
           | Ok bytes \<Rightarrow>
               (case translate_for_dispatcher bytes current_rip (mode_of (img_bitness img)) of
                  Err e \<Rightarrow> (Err (RunTranslate (TranslateFailed current_rip e)), st, k)
                | Panic p \<Rightarrow> (Panic p, st, k)
                | Ok block \<Rightarrow>
                    (case di_install H current_rip (host_bytes block) (rs_disp st) k of
                       (Err e, d, k) \<Rightarrow> (Err (RunDispatcher e), st\<lparr>rs_disp := d\<rparr>, k)
                     | (Panic p, d, k) \<Rightarrow> (Panic p, st\<lparr>rs_disp := d\<rparr>, k)
                     | (Ok host_ptr, d, k) \<Rightarrow>
                         (Ok host_ptr,
                          \<lparr>rs_disp = d, rs_unpatched = fold (register_site host_ptr) (chain_patches block) (rs_unpatched st)\<rparr>, k)))))"

primrec patch_sites :: "'k host \<Rightarrow> u64 list \<Rightarrow> u64 \<Rightarrow> dispatcher \<Rightarrow> 'k \<Rightarrow> (error, unit) outcome \<times> dispatcher \<times> 'k" where
  "patch_sites H [] hot d k = (Ok (), d, k)"
| "patch_sites H (site # sites) hot d k =
     (case patch_chain H site hot d k of
        (Ok _, d, k) \<Rightarrow> patch_sites H sites hot d k
      | (Err e, d, k) \<Rightarrow> (Err e, d, k)
      | (Panic p, d, k) \<Rightarrow> (Panic p, d, k))"

definition patch_pending :: "'k host \<Rightarrow> u64 \<Rightarrow> u64 \<Rightarrow> run_state \<Rightarrow> 'k \<Rightarrow> (run_error, unit) outcome \<times> run_state \<times> 'k" where
  "patch_pending H current_rip ptr st k =
     (case Mapping.lookup (rs_unpatched st) current_rip of
        None \<Rightarrow> (Ok (), st, k)
      | Some sites \<Rightarrow>
          (case patch_sites H sites (ptr + ucast DISPATCHER_HOT_ENTRY_OFFSET) (rs_disp st) k of
             (Ok _, d, k) \<Rightarrow> (Ok (), \<lparr>rs_disp = d, rs_unpatched = Mapping.delete current_rip (rs_unpatched st)\<rparr>, k)
           | (Err e, d, k) \<Rightarrow> (Err (RunDispatcher e), st\<lparr>rs_disp := d\<rparr>, k)
           | (Panic p, d, k) \<Rightarrow> (Panic p, st\<lparr>rs_disp := d\<rparr>, k)))"

text \<open>One turn up to the call: the code to enter.\<close>

definition prepare_block :: "'k host \<Rightarrow> loaded_image \<Rightarrow> u64 \<Rightarrow> run_state \<Rightarrow> 'k \<Rightarrow> (run_error, u64) outcome \<times> run_state \<times> 'k" where
  "prepare_block H img current_rip st k =
     (case find_block H img current_rip st k of
        (Ok ptr, st, k) \<Rightarrow>
          (case patch_pending H current_rip ptr st k of
             (Ok _, st, k) \<Rightarrow> (Ok ptr, st, k)
           | (Err e, st, k) \<Rightarrow> (Err e, st, k)
           | (Panic p, st, k) \<Rightarrow> (Panic p, st, k))
      | (Err e, st, k) \<Rightarrow> (Err e, st, k)
      | (Panic p, st, k) \<Rightarrow> (Panic p, st, k))"

primrec dispatcher_loop ::
  "nat \<Rightarrow> 'k host \<Rightarrow> (dispatcher \<Rightarrow> u64 \<Rightarrow> 'm \<Rightarrow> u64 \<times> 'm) \<Rightarrow> ('m \<Rightarrow> 'm) \<Rightarrow> loaded_image \<Rightarrow> nat \<Rightarrow> u64 \<Rightarrow>
   run_state \<Rightarrow> 'm \<Rightarrow> 'k \<Rightarrow> (run_error, unit) outcome \<times> run_state \<times> 'm \<times> 'k" where
  "dispatcher_loop 0 H invoke pump img pump_counter current_rip st m k =
     (Err (RunTranslate LoopLimit), st, m, k)"
| "dispatcher_loop (Suc left) H invoke pump img pump_counter current_rip st m k =
     (case prepare_block H img current_rip st k of
        (Ok ptr, st, k) \<Rightarrow>
          (case invoke (rs_disp st) ptr m of (nxt, m) \<Rightarrow>
             if nxt = RT_STOP_SENTINEL then (Ok (), st, m, k)
             else
               let pump_counter = (pump_counter + 1) mod 2 ^ 64;
                   m = (if pump_counter mod PUMP_EVERY = 0 then pump m else m)
               in dispatcher_loop left H invoke pump img pump_counter nxt st m k)
      | (Err e, st, k) \<Rightarrow> (Err e, st, m, k)
      | (Panic p, st, k) \<Rightarrow> (Panic p, st, m, k))"

definition run_dispatcher_loop ::
  "'k host \<Rightarrow> (dispatcher \<Rightarrow> u64 \<Rightarrow> 'm \<Rightarrow> u64 \<times> 'm) \<Rightarrow> ('m \<Rightarrow> 'm) \<Rightarrow> loaded_image \<Rightarrow> dispatcher \<Rightarrow> u64 \<Rightarrow> 'm \<Rightarrow> 'k \<Rightarrow>
   (run_error, unit) outcome \<times> run_state \<times> 'm \<times> 'k" where
  "run_dispatcher_loop H invoke pump img disp start_rip m k =
     dispatcher_loop LOOP_LIMIT H invoke pump img 0 start_rip \<lparr>rs_disp = disp, rs_unpatched = Mapping.empty\<rparr> m k"

text \<open>
  \<open>invoke_guest_function\<close>: reserve the shadow space and the return slot, write the sentinel there, run, and
  return RAX. Registers of the context are read and written through \<open>get_gpr\<close> and \<open>set_gpr_at\<close>, the store
  through \<open>store64\<close>, of the machine state.
\<close>

definition invoke_guest_function ::
  "'k host \<Rightarrow> (dispatcher \<Rightarrow> u64 \<Rightarrow> 'm \<Rightarrow> u64 \<times> 'm) \<Rightarrow> ('m \<Rightarrow> 'm) \<Rightarrow> (nat \<Rightarrow> 'm \<Rightarrow> u64) \<Rightarrow> (nat \<Rightarrow> u64 \<Rightarrow> 'm \<Rightarrow> 'm) \<Rightarrow>
   (u64 \<Rightarrow> u64 \<Rightarrow> 'm \<Rightarrow> 'm) \<Rightarrow> loaded_image \<Rightarrow> dispatcher \<Rightarrow> u64 \<Rightarrow> 'm \<Rightarrow> 'k \<Rightarrow>
   (run_error, u64) outcome \<times> run_state \<times> 'm \<times> 'k" where
  "invoke_guest_function H invoke pump get_gpr set_gpr_at store64 img disp fn_rip m k =
     (let m = set_gpr_at 4 (get_gpr 4 m - 0x28) m;
          m = store64 (get_gpr 4 m) RT_STOP_SENTINEL m
      in case run_dispatcher_loop H invoke pump img disp fn_rip m k of
           (Ok _, st, m, k) \<Rightarrow> (Ok (get_gpr 0 m), st, m, k)
         | (Err e, st, m, k) \<Rightarrow> (Err e, st, m, k)
         | (Panic p, st, m, k) \<Rightarrow> (Panic p, st, m, k))"

end
