(* ===== verification/Chain.thy ===== *)
theory Chain
  imports Block_Correct Driver
begin

text \<open>
  Block chaining across \<open>block.rs\<close>, \<open>dispatcher.rs\<close> and \<open>process.rs\<close>. The translator leaves a placeholder branch
  at the start of every direct exit and reports where it is; the loop of the driver remembers the
  exits by the guest address they lead to and, once that address has a block, rewrites the placeholder
  into a branch to the block's hot entry, behind its host prologue.
\<close>

section \<open>The exits of a translated block\<close>

text \<open>
  \<open>sites ws ps\<close>: the patch offsets \<open>ps\<close> are, in increasing order, the byte offsets of words of \<open>ws\<close> that hold the
  placeholder.
\<close>

definition sites :: "u32 list \<Rightarrow> (u32 \<times> u64) list \<Rightarrow> bool" where
  "sites ws ps \<longleftrightarrow> (\<exists>is. map fst ps = map (\<lambda>i. of_nat (4 * i)) is \<and> sorted_wrt (<) is \<and>
     (\<forall>i \<in> set is. i < length ws \<and> ws ! i = PLACEHOLDER))"

lemma resolve_keeps:
  "resolve_fixups fs e = (Ok x, e') \<Longrightarrow>
   length (em_code e') = length (em_code e) \<and> (\<forall>i. i \<notin> fx_word_index ` set fs \<longrightarrow> em_code e' ! i = em_code e ! i)"
proof (induction fs arbitrary: e)
  case (Cons f fs)
  then obtain w where "resolve_fixups fs (e\<lparr>em_code := (em_code e)[fx_word_index f := w]\<rparr>) = (Ok x, e')"
    by (auto simp: Let_def sbind_eq_Ok split: if_splits option.splits)
  from Cons.IH [OF this] show ?case by (simp add: nth_list_update)
qed simp

definition open_sites :: "emitter \<Rightarrow> (u32 \<times> u64) list \<Rightarrow> bool" where
  "open_sites e ps \<longleftrightarrow> (\<exists>is. map fst ps = map (\<lambda>i. of_nat (4 * i)) is \<and> sorted_wrt (<) is \<and>
     (\<forall>i \<in> set is. i < length (em_code e) \<and> em_code e ! i = PLACEHOLDER \<and> i \<notin> fx_word_index ` set (em_fixups e)))"

lemma open_sites_finish: "open_sites e ps \<Longrightarrow> finish e = (Ok x, e') \<Longrightarrow> sites (em_code e') ps"
  unfolding finish_def using resolve_keeps [of "em_fixups e" "e\<lparr>em_fixups := []\<rparr>" x e']
  by (auto simp: open_sites_def sites_def)

lemma open_sites_Nil [simp]: "open_sites e []"
  by (simp add: open_sites_def)

lemma em_wf_index: "em_wf e \<Longrightarrow> length (em_code e) \<le> i \<Longrightarrow> i \<notin> fx_word_index ` set (em_fixups e)"
  by (auto simp: em_wf_def)

lemma open_sites_chain: "em_wf e \<Longrightarrow> (chain_exit t e :: ('e, _) outcome \<times> _) = (Ok ps, e') \<Longrightarrow> open_sites e' ps"
proof -
  assume wf: "em_wf e" and c: "(chain_exit t e :: ('e, _) outcome \<times> _) = (Ok ps, e')"
  obtain pre post where "(chain_exit t e :: ('e, _) outcome \<times> _) = (Ok [(of_nat (4 * (length (em_code e) + length pre)), t)],
      e\<lparr>em_code := em_code e @ pre @ PLACEHOLDER # post\<rparr>)"
    using chain_exit_parts [of t, where 'e = 'e] by blast
  with c em_wf_index [OF wf, of "length (em_code e) + length pre"] show "open_sites e' ps"
    unfolding open_sites_def
    by (intro exI [of _ "[length (em_code e) + length pre]"]) (auto simp: nth_append simp del: of_nat_mult)
qed

lemma b_cond_step: "em_step (b_cond a l)"
  by (simp add: encoders_step)

lemma open_sites_jcc: "em_wf e \<Longrightarrow> jcc_exit c inst rel e = (Ok ps, e') \<Longrightarrow> open_sites e' ps"
proof -
  assume wf: "em_wf e" and j: "jcc_exit c inst rel e = (Ok ps, e')"
  obtain pre post where fall: "\<And>e. (chain_exit (next_rip inst) e :: (block_error, _) outcome \<times> _) =
      (Ok [(of_nat (4 * (length (em_code e) + length pre)), next_rip inst)], e\<lparr>em_code := em_code e @ pre @ PLACEHOLDER # post\<rparr>)"
    using chain_exit_parts [of "next_rip inst", where 'e = block_error] by blast
  obtain pre' post' where taken: "\<And>e. (chain_exit (next_rip inst + rel) e :: (block_error, _) outcome \<times> _) =
      (Ok [(of_nat (4 * (length (em_code e) + length pre')), next_rip inst + rel)], e\<lparr>em_code := em_code e @ pre' @ PLACEHOLDER # post'\<rparr>)"
    using chain_exit_parts [of "next_rip inst + rel", where 'e = block_error] by blast
  obtain a l e1 e2 e3 where a: "cond_x86_to_a64 c = Some a" "make_label e = (Ok l :: (block_error, _) outcome, e1)"
    "(b_cond a l :: block_error em) e1 = (Ok (), e2)"
    and b: "bind_label l (e2\<lparr>em_code := em_code e2 @ pre @ PLACEHOLDER # post\<rparr>) = (Ok () :: (block_error, _) outcome, e3)"
    and r: "e' = e3\<lparr>em_code := em_code e3 @ pre' @ PLACEHOLDER # post'\<rparr>"
      "map fst ps = map (\<lambda>i. of_nat (4 * i)) [length (em_code e2) + length pre, length (em_code e3) + length pre']"
    using j unfolding jcc_exit_def
    by (auto simp: sbind_eq_Ok fall taken simp del: of_nat_mult of_nat_add split: option.splits)
  have wf1: "em_wf e1" using em_stepD [OF em_step_make_label wf a(2)] by simp
  have wf2: "em_wf e2" using em_stepD [OF b_cond_step wf1 a(3)] by simp
  let ?i = "length (em_code e2) + length pre" and ?c = "em_code e2 @ pre @ PLACEHOLDER # post"
  let ?j = "length ?c + length pre'"
  have "em_code e3 = ?c" "em_fixups e3 = em_fixups e2"
    using b by (auto simp: bind_label_def split: if_splits option.splits)
  with r have e': "em_code e' = ?c @ pre' @ PLACEHOLDER # post'" "em_fixups e' = em_fixups e2"
    "map fst ps = map (\<lambda>i. of_nat (4 * i)) [?i, ?j]"
    by simp_all
  show "open_sites e' ps"
    unfolding open_sites_def e' using em_wf_index [OF wf2]
    by (intro exI [of _ "[?i, ?j]"]) (auto simp: nth_append simp del: of_nat_mult)
qed

lemma no_patches_Nil: "no_patches f e = (Ok ps, e') \<Longrightarrow> ps = []"
  by (auto simp: no_patches_def sbind_eq_Ok)

lemma open_sites_terminator: "em_wf e \<Longrightarrow> emit_terminator inst e = (Ok ps, e') \<Longrightarrow> open_sites e' ps"
  unfolding emit_terminator_def with_rel_def em_fail_def
  by (auto split: op.splits flow_op.splits option.splits operand.splits simp: sbind_eq_Ok dest!: no_patches_Nil
      intro: open_sites_chain open_sites_jcc)

lemma em_step_lift_body: "em_step (lift_body legacy32 bytes rip insts)"
proof (induction insts)
  case (Cons inst insts)
  show ?case unfolding em_step_def
  proof (intro allI impI)
    fix e x e' assume "em_wf e" "lift_body legacy32 bytes rip (inst # insts) e = (Ok x, e')"
    then obtain y e1 where "lift legacy32 inst e = (Ok y, e1)" "lift_body legacy32 bytes rip insts e1 = (Ok x, e')"
      by (auto simp: inst_bytes_def Let_def split: prod.splits outcome.splits if_splits)
    with em_stepD [OF em_step_lift] em_stepD [OF Cons.IH] em_extends_trans \<open>em_wf e\<close>
    show "em_wf e' \<and> em_extends e e'" by blast
  qed
qed (simp add: em_step_def)

lemma fst_sbind_eq_Ok: "fst (sbind m f) = Ok y \<longleftrightarrow> (\<exists>x s. m = (Ok x, s) \<and> fst (f x s) = Ok y)"
  by (cases m; cases "fst m") (auto simp: sbind_def)

lemma map_err_eq_Ok: "map_err f m = (Ok x, s) \<longleftrightarrow> m = (Ok x, s)"
  by (cases m; cases "fst m") (auto simp: map_err_def)

lemma translate_sites:
  assumes "translate_for_dispatcher bytes rip mode = Ok blk"
  shows "\<exists>ws. host_bytes blk = concat (map u32_to_le ws) \<and> sites ws (chain_patches blk)"
proof -
  from assms obtain insts e0 e1 e2 e3 x y ps where
    p: "(dispatcher_prologue :: block_error em) new_emitter = (Ok x, e0)" and
    b: "lift_body (mode = Legacy32) bytes rip (butlast insts) e0 = (Ok y, e1)" and
    t: "emit_terminator (last insts) e1 = (Ok ps, e2)" and
    f: "finish e2 = (Ok (), e3)" and blk: "host_bytes blk = em_bytes e3" "chain_patches blk = ps"
    unfolding translate_for_dispatcher_def Let_def
    by (auto simp: obind_eq_Ok sbind_eq_Ok fst_sbind_eq_Ok map_err_eq_Ok simp del: decode_insts.simps)
  have "em_step (dispatcher_prologue :: block_error em)"
    unfolding dispatcher_prologue_def ctx_code_eq by (intro em_intros)
  from em_stepD [OF this em_wf_new p] have "em_wf e0" by simp
  from em_stepD [OF em_step_lift_body this b] have "em_wf e1" by simp
  from open_sites_finish [OF open_sites_terminator [OF this t] f] blk show ?thesis
    by (auto simp: em_bytes_def)
qed

section \<open>The invariant of chaining\<close>

definition guest_block :: "loaded_image \<Rightarrow> u64 \<Rightarrow> (run_error, block) outcome" where
  "guest_block img rip = obind (decode_window img rip) (\<lambda>bytes.
     case translate_for_dispatcher bytes rip (mode_of (img_bitness img)) of
       Ok blk \<Rightarrow> Ok blk | Err e \<Rightarrow> Err (RunTranslate (TranslateFailed rip e)) | Panic p \<Rightarrow> Panic p)"

text \<open>
  The word at a patch site is the placeholder, or an unconditional branch from the site to the hot entry of
  the block the dispatcher has for the target. The code of an entry is the translated block up to its patch sites.
\<close>

definition leads_to :: "dispatcher \<Rightarrow> u64 \<Rightarrow> u64 \<Rightarrow> u32 \<Rightarrow> bool" where
  "leads_to d site t w \<longleftrightarrow> w AND 0xFC000000 = 0x14000000 \<and>
     (\<exists>p. di_lookup d t = Some p \<and> 4 * branch_offset Branch26 w = uint (p + ucast DISPATCHER_HOT_ENTRY_OFFSET) - uint site)"

definition chained_code :: "dispatcher \<Rightarrow> u64 \<Rightarrow> block \<Rightarrow> bytes \<Rightarrow> bool" where
  "chained_code d addr blk bs \<longleftrightarrow> length bs = length (host_bytes blk) \<and>
     (\<forall>j < length bs. (\<forall>(off, t) \<in> set (chain_patches blk). j < unat off \<or> unat off + 4 \<le> j) \<longrightarrow> bs ! j = host_bytes blk ! j) \<and>
     (\<forall>(off, t) \<in> set (chain_patches blk). \<exists>w. get_range bs (unat off) 4 = Some (u32_to_le w) \<and>
        (w = PLACEHOLDER \<or> leads_to d (addr + ucast off) t w))"

definition code_inv :: "loaded_image \<Rightarrow> dispatcher \<Rightarrow> log_entry list \<Rightarrow> bool" where
  "code_inv img d L \<longleftrightarrow> represents d L \<and> (\<forall>(rip, off, bs) \<in> set L.
     \<exists>blk. guest_block img rip = Ok blk \<and> chained_code d (cc_base (di_cache d) + of_nat off) blk bs)"

text \<open>A pending patch site for \<open>t\<close> is an exit to \<open>t\<close> of a block in the log.\<close>

definition placed :: "log_entry list \<Rightarrow> (u64 \<times> nat) set" where
  "placed L = (\<lambda>(rip, off, bs). (rip, off)) ` set L"

definition exit_site :: "loaded_image \<Rightarrow> u64 \<Rightarrow> (u64 \<times> nat) set \<Rightarrow> u64 \<Rightarrow> u64 \<Rightarrow> bool" where
  "exit_site img base P t s \<longleftrightarrow> (\<exists>(rip, off) \<in> P. \<exists>blk o'. guest_block img rip = Ok blk \<and>
     (o', t) \<in> set (chain_patches blk) \<and> s = base + of_nat off + ucast o')"

definition pending_inv :: "loaded_image \<Rightarrow> run_state \<Rightarrow> log_entry list \<Rightarrow> bool" where
  "pending_inv img st L \<longleftrightarrow> (\<forall>t ss. Mapping.lookup (rs_unpatched st) t = Some ss \<longrightarrow>
     (\<forall>s \<in> set ss. exit_site img (cc_base (di_cache (rs_disp st))) (placed L) t s))"

definition chain_inv :: "loaded_image \<Rightarrow> run_state \<Rightarrow> log_entry list \<Rightarrow> bool" where
  "chain_inv img st L \<longleftrightarrow> code_inv img (rs_disp st) L \<and> pending_inv img st L"

text \<open>The code cache lies in the lower half of the address space and its offsets fit 32 bits.\<close>

definition cache_ok :: "code_cache \<Rightarrow> bool" where
  "cache_ok c \<longleftrightarrow> unat (cc_base c) + cc_capacity c + 16 < 2 ^ 63 \<and> cc_capacity c < 2 ^ 32"

definition same_cache :: "dispatcher \<Rightarrow> dispatcher \<Rightarrow> bool" where
  "same_cache d d' \<longleftrightarrow> cc_base (di_cache d') = cc_base (di_cache d) \<and> cc_capacity (di_cache d') = cc_capacity (di_cache d)"

lemma get_range_words:
  "i < length ws \<Longrightarrow> get_range (concat (map u32_to_le ws)) (4 * i) 4 = Some (u32_to_le (ws ! i))"
proof (induction ws arbitrary: i)
  case (Cons w ws)
  show ?case
  proof (cases i)
    case (Suc j)
    with Cons.IH [of j] Cons.prems show ?thesis by (simp add: get_range_Some add.commute)
  qed (simp add: get_range_Some)
qed simp

lemma translate_sites_apart:
  assumes "guest_block img rip = Ok blk" "length (host_bytes blk) < 2 ^ 32" "(off, t) \<in> set (chain_patches blk)"
  shows "get_range (host_bytes blk) (unat off) 4 = Some (u32_to_le PLACEHOLDER)"
    "(off', t') \<in> set (chain_patches blk) \<Longrightarrow> (off', t') = (off, t) \<or> unat off + 4 \<le> unat off' \<or> unat off' + 4 \<le> unat off"
    "unat off mod 4 = 0"
proof -
  obtain bytes where "translate_for_dispatcher bytes rip (mode_of (img_bitness img)) = Ok blk"
    using assms(1) by (auto simp: guest_block_def obind_eq_Ok split: outcome.splits) (metis outcome.exhaust)
  from translate_sites [OF this] obtain ws "is" where ws: "host_bytes blk = concat (map u32_to_le ws)" and
    i: "map fst (chain_patches blk) = map (\<lambda>i. of_nat (4 * i)) is" "sorted_wrt (<) is"
      "\<And>i. i \<in> set is \<Longrightarrow> i < length ws \<and> ws ! i = PLACEHOLDER"
    unfolding sites_def by blast
  have len: "length (host_bytes blk) = 4 * length ws" unfolding ws by (induction ws) simp_all
  have n: "length (chain_patches blk) = length is" using arg_cong [OF i(1), of length] by simp
  have u: "unat (fst (chain_patches blk ! k)) = 4 * (is ! k)" if "k < length is" for k
  proof -
    have "fst (chain_patches blk ! k) = of_nat (4 * (is ! k))"
      using arg_cong [OF i(1), of "\<lambda>xs. xs ! k"] that n by (simp del: of_nat_mult)
    moreover have "4 * (is ! k) < 2 ^ 32" using i(3) [of "is ! k"] that len assms(2) by simp
    ultimately show ?thesis by (simp add: unsigned_of_nat take_bit_nat_eq_self del: of_nat_mult)
  qed
  obtain k where k: "k < length is" "chain_patches blk ! k = (off, t)"
    using assms(3) n by (auto simp: in_set_conv_nth)
  have o': "unat off = 4 * (is ! k)" using u [OF k(1)] k(2) by simp
  then show "unat off mod 4 = 0" by simp
  show "get_range (host_bytes blk) (unat off) 4 = Some (u32_to_le PLACEHOLDER)"
    using get_range_words [of "is ! k" ws] i(3) [of "is ! k"] k(1) o' by (simp add: ws)
  assume "(off', t') \<in> set (chain_patches blk)"
  then obtain j where j: "j < length is" "chain_patches blk ! j = (off', t')"
    using n by (auto simp: in_set_conv_nth)
  have o'': "unat off' = 4 * (is ! j)" using u [OF j(1)] j(2) by simp
  consider "j = k" | "j < k" | "k < j" by linarith
  then show "(off', t') = (off, t) \<or> unat off + 4 \<le> unat off' \<or> unat off' + 4 \<le> unat off"
  proof cases
    case 1 with j k show ?thesis by simp
  next
    case 2 with sorted_wrt_nth_less [OF i(2) 2 k(1)] o' o'' show ?thesis by simp
  next
    case 3 with sorted_wrt_nth_less [OF i(2) 3 j(1)] o' o'' show ?thesis by simp
  qed
qed

section \<open>Installing keeps the invariant\<close>

lemma leads_to_mono: "di_lookup d \<subseteq>\<^sub>m di_lookup d' \<Longrightarrow> leads_to d s t w \<Longrightarrow> leads_to d' s t w"
  unfolding leads_to_def map_le_def by (metis domI)

lemma chained_code_mono:
  "di_lookup d \<subseteq>\<^sub>m di_lookup d' \<Longrightarrow> chained_code d addr blk bs \<Longrightarrow> chained_code d' addr blk bs"
  unfolding chained_code_def using leads_to_mono [of d d'] by fastforce

lemma chained_code_fresh:
  assumes "guest_block img rip = Ok blk" "length (host_bytes blk) < 2 ^ 32"
  shows "chained_code d addr blk (host_bytes blk)"
  using translate_sites_apart(1) [OF assms] by (auto simp: chained_code_def)

lemma install_lookup: "di_install H rip bs d k = (Ok p, d', k') \<Longrightarrow> di_lookup d' = (di_lookup d)(rip \<mapsto> p)"
  by (auto simp: di_install_def di_lookup_def lookup_update' fun_eq_iff split: prod.splits outcome.splits)

lemma install_base:
  "di_install H rip bs d k = (Ok p, d', k') \<Longrightarrow>
   cc_base (di_cache d') = cc_base (di_cache d) \<and> length bs \<le> cc_capacity (di_cache d)"
  using cc_install_cases(1) [of H bs "di_cache d" k]
  by (fastforce simp: di_install_def cc_base_def region_write_def split: prod.splits outcome.splits)

lemma install_code_inv:
  assumes i: "code_inv img d L" "cache_ok (di_cache d)" and new: "di_lookup d rip = None" "guest_block img rip = Ok blk"
    and inst: "di_install H rip (host_bytes blk) d k = (Ok p, d', k')"
  shows "code_inv img d' (L @ [(rip, cc_used (di_cache d), host_bytes blk)])" "same_cache d d'"
    "p = cc_base (di_cache d) + of_nat (cc_used (di_cache d))"
proof -
  have rep: "represents d L" using i(1) by (simp add: code_inv_def)
  note r = install_represents(1) [OF rep inst refl]
  note b = install_base [OF inst]
  have le: "di_lookup d \<subseteq>\<^sub>m di_lookup d'" using install_lookup [OF inst] new(1) by (simp add: map_le_def dom_def)
  have "length (host_bytes blk) < 2 ^ 32" using b i(2) by (simp add: cache_ok_def)
  note f = chained_code_fresh [OF new(2) this]
  show "same_cache d d'" "p = cc_base (di_cache d) + of_nat (cc_used (di_cache d))"
    using r b by (simp_all add: same_cache_def)
  show "code_inv img d' (L @ [(rip, cc_used (di_cache d), host_bytes blk)])"
    using i(1) r b new(2) f chained_code_mono [OF le] unfolding code_inv_def by fastforce
qed

lemma lookup_register_site:
  "Mapping.lookup (register_site p (off, t') U) t = Some ss \<Longrightarrow> s \<in> set ss \<Longrightarrow>
   (t = t' \<and> s = p + ucast off) \<or> (\<exists>ss'. Mapping.lookup U t = Some ss' \<and> s \<in> set ss')"
  by (auto simp: register_site_def Let_def lookup_update' split: if_splits option.splits)

lemma lookup_register_sites:
  "Mapping.lookup (fold (register_site p) ps U) t = Some ss \<Longrightarrow> s \<in> set ss \<Longrightarrow>
   (\<exists>off. (off, t) \<in> set ps \<and> s = p + ucast off) \<or> (\<exists>ss'. Mapping.lookup U t = Some ss' \<and> s \<in> set ss')"
proof (induction ps arbitrary: U)
  case (Cons q ps)
  obtain off t' where q: "q = (off, t')" by (cases q)
  from Cons.IH [of "register_site p q U"] Cons.prems lookup_register_site [of p off t' U t _ s] show ?case
    unfolding q by auto
qed auto

lemma placed_append: "placed (L @ [(rip, off, bs)]) = insert (rip, off) (placed L)"
  by (auto simp: placed_def)

lemma exit_site_mono: "exit_site img base P t s \<Longrightarrow> P \<subseteq> Q \<Longrightarrow> exit_site img base Q t s"
  unfolding exit_site_def by blast

lemma find_block_Ok:
  assumes i: "chain_inv img st L" "cache_ok (di_cache (rs_disp st))" and f: "find_block H img rip st k = (Ok p, st', k')"
  shows "\<exists>L'. chain_inv img st' L' \<and> same_cache (rs_disp st) (rs_disp st') \<and> di_lookup (rs_disp st') rip = Some p"
proof (cases "di_lookup (rs_disp st) rip")
  case (Some q)
  with f i show ?thesis by (auto simp: find_block_def same_cache_def)
next
  case None
  then obtain blk d' where blk: "guest_block img rip = Ok blk"
    and inst: "di_install H rip (host_bytes blk) (rs_disp st) k = (Ok p, d', k')"
    and st': "st' = \<lparr>rs_disp = d', rs_unpatched = fold (register_site p) (chain_patches blk) (rs_unpatched st)\<rparr>"
    using f by (auto simp: find_block_def guest_block_def split: outcome.splits prod.splits)
  have c: "code_inv img (rs_disp st) L" using i(1) by (simp add: chain_inv_def)
  note n = install_code_inv [OF c i(2) None blk inst]
  let ?L = "L @ [(rip, cc_used (di_cache (rs_disp st)), host_bytes blk)]"
  have "exit_site img (cc_base (di_cache d')) (placed ?L) t s"
    if u: "Mapping.lookup (rs_unpatched st') t = Some ss" "s \<in> set ss" for t ss s
    using lookup_register_sites [OF u(1) [unfolded st', simplified] u(2)]
  proof
    assume "\<exists>off. (off, t) \<in> set (chain_patches blk) \<and> s = p + ucast off"
    then show ?thesis using n(2,3) blk unfolding exit_site_def placed_append same_cache_def by auto
  next
    assume "\<exists>ss'. Mapping.lookup (rs_unpatched st) t = Some ss' \<and> s \<in> set ss'"
    then show ?thesis using i(1) n(2) unfolding chain_inv_def pending_inv_def placed_append same_cache_def
      by (metis exit_site_mono subset_insertI)
  qed
  then have "pending_inv img st' ?L" by (simp add: pending_inv_def st')
  then show ?thesis using n(1,2) install_lookup [OF inst] unfolding chain_inv_def st' by (intro exI [of _ ?L]) simp
qed

section \<open>Patching keeps the invariant\<close>

lemma uint_offset:
  assumes "unat (b :: u64) + n < 2 ^ 63"
  shows "uint (b + of_nat n) = uint b + int n" "sint (b + of_nat n) = uint b + int n"
proof -
  have "unat (b + of_nat n) = unat b + n"
    using assms by (simp add: unat_word_ariths(1) unsigned_of_nat take_bit_nat_eq_self)
  then show u: "uint (b + of_nat n) = uint b + int n" unfolding uint_nat by simp
  have "signed_take_bit 63 (uint (b + of_nat n)) = uint (b + of_nat n)"
    by (rule signed_take_bit_int_eq_self) (use assms u in \<open>simp_all add: uint_nat del: of_nat_unat\<close>)
  with u show "sint (b + of_nat n) = uint b + int n" by (simp add: sint_uint)
qed

lemma lookup_placed:
  "represents d L \<Longrightarrow> di_lookup d t = Some p \<Longrightarrow>
   \<exists>off bs. (t, off, bs) \<in> set L \<and> p = cc_base (di_cache d) + of_nat off"
  unfolding represents_def log_lookup_def by (drule conjunct2)+ (fastforce dest: map_of_SomeD)

lemma placed_update:
  assumes "n < length L" "L ! n = (rip, off, bs)"
  shows "placed (L[n := (rip, off, bs')]) = placed L"
proof -
  have "map (\<lambda>(rip, off, bs). (rip, off)) (L[n := (rip, off, bs')]) = map (\<lambda>(rip, off, bs). (rip, off)) L"
    using assms by (intro nth_equalityI) (auto simp: nth_list_update)
  from arg_cong [OF this, of set] show ?thesis by (simp only: placed_def set_map)
qed

lemma entry_room: "represents d L \<Longrightarrow> (rip, off, bs) \<in> set L \<Longrightarrow> off + length bs \<le> cc_capacity (di_cache d)"
  by (auto simp: represents_def list_all_iff entry_ok_def get_range_Some cc_capacity_def)

lemma chained_code_patch:
  assumes c: "chained_code d addr blk bs" and blk: "guest_block img rip = Ok blk" "length (host_bytes blk) < 2 ^ 32"
    and s: "(off, t) \<in> set (chain_patches blk)" "leads_to d (addr + ucast off) t w"
  shows "chained_code d addr blk (put_range bs (unat off) (u32_to_le w))"
proof -
  note apart = translate_sites_apart [OF blk s(1)]
  have room: "unat off + length (u32_to_le w) \<le> length bs"
    using apart(1) c by (simp add: chained_code_def get_range_Some)
  have len: "length (put_range bs (unat off) (u32_to_le w)) = length bs" using room by (simp add: length_put_range)
  have "put_range bs (unat off) (u32_to_le w) ! j = host_bytes blk ! j"
    if j: "j < length bs" "\<forall>(off, t) \<in> set (chain_patches blk). j < unat off \<or> unat off + 4 \<le> j" for j
  proof -
    have "j < unat off \<or> unat off + length (u32_to_le w) \<le> j" using j(2) s(1) by (fastforce simp del: split_paired_All)
    then have "put_range bs (unat off) (u32_to_le w) ! j = bs ! j" using nth_put_range [OF room j(1)] by auto
    also have "\<dots> = host_bytes blk ! j" using c j unfolding chained_code_def by blast
    finally show ?thesis .
  qed
  moreover have "\<exists>w'. get_range (put_range bs (unat off) (u32_to_le w)) (unat off') 4 = Some (u32_to_le w') \<and>
      (w' = PLACEHOLDER \<or> leads_to d (addr + ucast off') t' w')" if q: "(off', t') \<in> set (chain_patches blk)" for off' t'
    using apart(2) [OF q]
  proof
    assume "(off', t') = (off, t)"
    then show ?thesis using get_put_same [OF room] s(2) by auto
  next
    assume "unat off + 4 \<le> unat off' \<or> unat off' + 4 \<le> unat off"
    then have "get_range (put_range bs (unat off) (u32_to_le w)) (unat off') 4 = get_range bs (unat off') 4"
      using get_put_disjoint [OF room, of "unat off'" 4] by auto
    then show ?thesis using c q by (auto simp: chained_code_def)
  qed
  ultimately show ?thesis using c len by (auto simp: chained_code_def)
qed

lemma patch_lookup: "patch_chain H site target d k = (r, d', k') \<Longrightarrow> di_lookup d' = di_lookup d"
  by (auto simp: patch_chain_def Let_def di_lookup_def fun_eq_iff split: if_splits)

lemma code_inv_update:
  assumes "code_inv img d L" "represents d' (L[n := (rip, off, bs)])" "cc_base (di_cache d') = cc_base (di_cache d)"
    "di_lookup d' = di_lookup d" "guest_block img rip = Ok blk" "chained_code d (cc_base (di_cache d) + of_nat off) blk bs"
  shows "code_inv img d' (L[n := (rip, off, bs)])"
proof -
  have le: "di_lookup d \<subseteq>\<^sub>m di_lookup d'" using assms(4) by simp
  have "\<exists>blk. guest_block img rip' = Ok blk \<and> chained_code d' (cc_base (di_cache d') + of_nat off') blk bs'"
    if "(rip', off', bs') \<in> insert (rip, off, bs) (set L)" for rip' off' bs'
    using that assms(1,3,5,6) chained_code_mono [OF le] unfolding code_inv_def by auto
  with assms(2) set_update_subset_insert [of L n] show ?thesis unfolding code_inv_def by blast
qed

lemma patch_code_inv:
  assumes i: "code_inv img d L" "cache_ok (di_cache d)"
    and s: "exit_site img (cc_base (di_cache d)) (placed L) t site" and p: "di_lookup d t = Some p"
    and patch: "patch_chain H site (p + ucast DISPATCHER_HOT_ENTRY_OFFSET) d k = (r, d', k')"
  shows "(\<exists>b. r = Ok b) \<and> same_cache d d' \<and> (\<exists>L'. code_inv img d' L' \<and> placed L' = placed L)"
proof -
  let ?b = "cc_base (di_cache d)"
  have rep: "represents d L" using i(1) by (simp add: code_inv_def)
  from s obtain rip off bs blk o' where e: "(rip, off, bs) \<in> set L" and blk: "guest_block img rip = Ok blk"
    and o': "(o', t) \<in> set (chain_patches blk)" "site = ?b + of_nat off + ucast o'"
    by (auto simp: exit_site_def placed_def)
  have c: "chained_code d (?b + of_nat off) blk bs" using i(1) e blk by (auto simp: code_inv_def)
  have o4: "unat o' + 4 \<le> length bs" using c o'(1) by (auto simp: chained_code_def get_range_Some)
  have site: "site = ?b + of_nat (off + unat o')" by (simp add: o'(2) add.assoc)
  obtain offp bsp where t: "(t, offp, bsp) \<in> set L" "p = ?b + of_nat offp" using lookup_placed [OF rep p] by blast
  have hot: "p + ucast DISPATCHER_HOT_ENTRY_OFFSET = ?b + of_nat (offp + 16)"
    by (simp add: t(2) DISPATCHER_HOT_ENTRY_OFFSET_def)
  note room = entry_room [OF rep e] entry_room [OF rep t(1)]
  have lt: "unat ?b + (off + unat o') < 2 ^ 63" "unat ?b + (offp + 16) < 2 ^ 63"
    using i(2) room o4 by (auto simp: cache_ok_def)
  note us = uint_offset [OF lt(1), folded site] uint_offset [OF lt(2), folded hot]
  obtain n where n: "n < length L" "L ! n = (rip, off, bs)" using e by (auto simp: in_set_conv_nth)
  define delta where "delta = sint (p + ucast DISPATCHER_HOT_ENTRY_OFFSET) - sint site"
  have "delta = int (offp + 16) - int (off + unat o')" unfolding delta_def us by simp
  moreover have "offp + 16 < 9223372036854775808" "off + unat o' < 9223372036854775808" using lt by simp_all
  ultimately have "- (2 ^ 63) \<le> delta" "delta < 2 ^ 63" by (simp_all del: of_nat_unat)
  moreover have "cc_capacity (di_cache d) < 2 ^ 64" using i(2) by (simp add: cache_ok_def)
  ultimately have P: "if delta mod 4 = 0 \<and> in_reach Branch26 (delta div 4)
     then r = Ok True \<and> cc_capacity (di_cache d') = cc_capacity (di_cache d) \<and>
          represents d' (L[n := (rip, off, put_range bs (unat o') (u32_to_le (chain_word (delta div 4))))])
     else r = Ok False \<and> d' = d"
    by (intro patch_represents [OF rep n o4 _ site delta_def _ _ patch])
  have base: "cc_base (di_cache d') = ?b"
    using patch by (auto simp: patch_chain_def Let_def cc_base_def region_write_def split: if_splits)
  show ?thesis
  proof (cases "delta mod 4 = 0 \<and> in_reach Branch26 (delta div 4)")
    case True
    let ?w = "chain_word (delta div 4)"
    let ?L = "L[n := (rip, off, put_range bs (unat o') (u32_to_le ?w))]"
    have P: "r = Ok True" "cc_capacity (di_cache d') = cc_capacity (di_cache d)" "represents d' ?L" using P True by auto
    have "4 * (delta div 4) = delta" using True mult_div_mod_eq [of 4 delta] by simp
    then have "leads_to d (?b + of_nat off + ucast o') t ?w"
      unfolding leads_to_def using chain_word_exact [of "delta div 4"] True p us o'(2) by (simp add: delta_def)
    moreover have "length (host_bytes blk) < 2 ^ 32"
      using c room(1) i(2) by (simp add: chained_code_def cache_ok_def)
    ultimately have "chained_code d (?b + of_nat off) blk (put_range bs (unat o') (u32_to_le ?w))"
      using chained_code_patch [OF c blk _ o'(1)] by blast
    then have "code_inv img d' ?L" by (rule code_inv_update [OF i(1) P(3) base patch_lookup [OF patch] blk])
    moreover have "placed ?L = placed L" by (rule placed_update [OF n])
    ultimately show ?thesis using P base by (auto simp: same_cache_def)
  next
    case False
    then show ?thesis using P i(1) by (auto simp: same_cache_def)
  qed
qed

lemma patch_sites_inv:
  assumes "code_inv img d L" "cache_ok (di_cache d)" "di_lookup d t = Some p"
    and "\<forall>s \<in> set ss. exit_site img (cc_base (di_cache d)) (placed L) t s"
    and "patch_sites H ss (p + ucast DISPATCHER_HOT_ENTRY_OFFSET) d k = (r, d', k')"
  shows "r = Ok () \<and> same_cache d d' \<and> di_lookup d' = di_lookup d \<and> (\<exists>L'. code_inv img d' L' \<and> placed L' = placed L)"
  using assms
proof (induction ss arbitrary: d k L)
  case Nil
  then show ?case by (auto simp: same_cache_def)
next
  case (Cons s ss)
  obtain r1 d1 k1 where c: "patch_chain H s (p + ucast DISPATCHER_HOT_ENTRY_OFFSET) d k = (r1, d1, k1)"
    by (metis prod_cases3)
  have "exit_site img (cc_base (di_cache d)) (placed L) t s" using Cons.prems(4) by simp
  from patch_code_inv [OF Cons.prems(1,2) this Cons.prems(3) c] obtain b L1 where
    b: "r1 = Ok b" and sc: "same_cache d d1" and L1: "code_inv img d1 L1" "placed L1 = placed L" by blast
  note l = patch_lookup [OF c]
  have ok: "cache_ok (di_cache d1)" using Cons.prems(2) sc by (simp add: cache_ok_def same_cache_def)
  have "\<forall>s \<in> set ss. exit_site img (cc_base (di_cache d1)) (placed L1) t s"
    using Cons.prems(4) sc L1(2) by (simp add: same_cache_def)
  moreover have "patch_sites H ss (p + ucast DISPATCHER_HOT_ENTRY_OFFSET) d1 k1 = (r, d', k')"
    using Cons.prems(5) c b by simp
  ultimately show ?case
    using Cons.IH [OF L1(1) ok _ _, of k1] Cons.prems(3) l L1(2) sc by (simp add: same_cache_def)
qed

lemma lookup_delete_if: "Mapping.lookup (Mapping.delete k m) x = (if x = k then None else Mapping.lookup m x)"
  by transfer simp

lemma pending_after_delete:
  "pending_inv img st L \<Longrightarrow> same_cache (rs_disp st) d' \<Longrightarrow> placed L' = placed L \<Longrightarrow>
   pending_inv img \<lparr>rs_disp = d', rs_unpatched = Mapping.delete rip (rs_unpatched st)\<rparr> L'"
  by (auto simp: pending_inv_def same_cache_def lookup_delete_if split: if_splits)

lemma patch_pending_inv:
  assumes i: "chain_inv img st L" "cache_ok (di_cache (rs_disp st))" and p: "di_lookup (rs_disp st) rip = Some p"
    and patch: "patch_pending H rip p st k = (r, st', k')"
  shows "r = Ok () \<and> same_cache (rs_disp st) (rs_disp st') \<and> di_lookup (rs_disp st') = di_lookup (rs_disp st) \<and>
     Mapping.lookup (rs_unpatched st') rip = None \<and> (\<exists>L'. chain_inv img st' L')"
proof (cases "Mapping.lookup (rs_unpatched st) rip")
  case None
  with i patch show ?thesis by (auto simp: patch_pending_def same_cache_def)
next
  case (Some ss)
  obtain r1 d1 k1 where c: "patch_sites H ss (p + ucast DISPATCHER_HOT_ENTRY_OFFSET) (rs_disp st) k = (r1, d1, k1)"
    by (metis prod_cases3)
  have code: "code_inv img (rs_disp st) L" and pend: "pending_inv img st L" using i(1) by (simp_all add: chain_inv_def)
  have "\<forall>s \<in> set ss. exit_site img (cc_base (di_cache (rs_disp st))) (placed L) rip s"
    using pend Some by (simp add: pending_inv_def)
  from patch_sites_inv [OF code i(2) p this c] obtain L' where
    q: "r1 = Ok ()" "same_cache (rs_disp st) d1" "di_lookup d1 = di_lookup (rs_disp st)" "code_inv img d1 L'" "placed L' = placed L"
    by blast
  with patch Some c pending_after_delete [OF pend q(2,5)] show ?thesis
    by (auto simp: patch_pending_def chain_inv_def lookup_delete_if)
qed

lemma prepare_block_Ok:
  assumes i: "chain_inv img st L" "cache_ok (di_cache (rs_disp st))" and f: "find_block H img rip st k = (Ok p, st1, k1)"
  shows "\<exists>st' k' L'. prepare_block H img rip st k = (Ok p, st', k') \<and> chain_inv img st' L' \<and>
     same_cache (rs_disp st) (rs_disp st') \<and> di_lookup (rs_disp st') rip = Some p"
proof -
  from find_block_Ok [OF i f] obtain L1 where f1: "chain_inv img st1 L1" "same_cache (rs_disp st) (rs_disp st1)"
    "di_lookup (rs_disp st1) rip = Some p" by blast
  obtain r2 st2 k2 where g: "patch_pending H rip p st1 k1 = (r2, st2, k2)" by (metis prod_cases3)
  have "cache_ok (di_cache (rs_disp st1))" using i(2) f1(2) by (simp add: cache_ok_def same_cache_def)
  from patch_pending_inv [OF f1(1) this f1(3) g] f g f1(2,3) show ?thesis
    by (auto simp: prepare_block_def same_cache_def)
qed

lemma prepare_block_inv:
  assumes "chain_inv img st L" "cache_ok (di_cache (rs_disp st))" "prepare_block H img rip st k = (Ok p, st', k')"
  shows "(\<exists>L'. chain_inv img st' L') \<and> same_cache (rs_disp st) (rs_disp st')"
proof -
  obtain r1 st1 k1 where f: "find_block H img rip st k = (r1, st1, k1)" by (metis prod_cases3)
  with assms(3) obtain q where "r1 = Ok q" by (cases r1) (auto simp: prepare_block_def)
  with prepare_block_Ok [OF assms(1,2)] f assms(3) show ?thesis by fastforce
qed

section \<open>The loop as a step relation\<close>

text \<open>
  A configuration of the loop between two turns: the pump counter, the guest address, the loop's state, the
  machine and the kernel. A turn looks up or translates the block, calls it and goes on to the address it returns.
\<close>

record ('m, 'k) config =
  cf_pump :: nat
  cf_rip :: u64
  cf_state :: run_state
  cf_machine :: 'm
  cf_kernel :: 'k

inductive turn ::
  "'k host \<Rightarrow> (dispatcher \<Rightarrow> u64 \<Rightarrow> 'm \<Rightarrow> u64 \<times> 'm) \<Rightarrow> ('m \<Rightarrow> 'm) \<Rightarrow> loaded_image \<Rightarrow>
   ('m, 'k) config \<Rightarrow> ('m, 'k) config \<Rightarrow> bool" for H invoke pump img where
  turn: "prepare_block H img (cf_rip c) (cf_state c) (cf_kernel c) = (Ok ptr, st, k) \<Longrightarrow>
    invoke (rs_disp st) ptr (cf_machine c) = (nxt, m) \<Longrightarrow> nxt \<noteq> RT_STOP_SENTINEL \<Longrightarrow>
    n = (cf_pump c + 1) mod 2 ^ 64 \<Longrightarrow>
    turn H invoke pump img c
      \<lparr>cf_pump = n, cf_rip = nxt, cf_state = st, cf_machine = (if n mod PUMP_EVERY = 0 then pump m else m), cf_kernel = k\<rparr>"

inductive_cases turnE: "turn H invoke pump img c c'"

definition loop_from ::
  "nat \<Rightarrow> 'k host \<Rightarrow> (dispatcher \<Rightarrow> u64 \<Rightarrow> 'm \<Rightarrow> u64 \<times> 'm) \<Rightarrow> ('m \<Rightarrow> 'm) \<Rightarrow> loaded_image \<Rightarrow> ('m, 'k) config \<Rightarrow>
   (run_error, unit) outcome \<times> run_state \<times> 'm \<times> 'k" where
  "loop_from n H invoke pump img c =
     dispatcher_loop n H invoke pump img (cf_pump c) (cf_rip c) (cf_state c) (cf_machine c) (cf_kernel c)"

text \<open>The loop is the iteration of turns: it ends at the limit, or in the turn that fails or meets the sentinel.\<close>

lemma loop_turns:
  "\<exists>i c'. i \<le> n \<and> (turn H invoke pump img ^^ i) c c' \<and> loop_from n H invoke pump img c =
     (if i = n then (Err (RunTranslate LoopLimit), cf_state c', cf_machine c', cf_kernel c')
      else case prepare_block H img (cf_rip c') (cf_state c') (cf_kernel c') of
        (Ok ptr, st, k) \<Rightarrow> (Ok (), st, snd (invoke (rs_disp st) ptr (cf_machine c')), k)
      | (Err e, st, k) \<Rightarrow> (Err e, st, cf_machine c', k)
      | (Panic p, st, k) \<Rightarrow> (Panic p, st, cf_machine c', k))"
    (is "\<exists>i c'. i \<le> n \<and> _ \<and> _ = ?end n i c'")
proof (induction n arbitrary: c)
  case 0
  then show ?case by (intro exI [of _ 0] exI [of _ c]) (simp add: loop_from_def)
next
  case (Suc n)
  obtain r st k where p: "prepare_block H img (cf_rip c) (cf_state c) (cf_kernel c) = (r, st, k)" by (metis prod_cases3)
  show ?case
  proof (cases "\<exists>ptr. r = Ok ptr \<and> fst (invoke (rs_disp st) ptr (cf_machine c)) \<noteq> RT_STOP_SENTINEL")
    case False
    then have "loop_from (Suc n) H invoke pump img c = ?end (Suc n) 0 c"
      using p by (cases r) (auto simp: loop_from_def split: prod.splits)
    then show ?thesis by (intro exI [of _ 0] exI [of _ c]) simp
  next
    case True
    then obtain ptr nxt m where i: "r = Ok ptr" "invoke (rs_disp st) ptr (cf_machine c) = (nxt, m)" "nxt \<noteq> RT_STOP_SENTINEL"
      by (metis prod.collapse)
    let ?n = "(cf_pump c + 1) mod 2 ^ 64"
    let ?c = "\<lparr>cf_pump = ?n, cf_rip = nxt, cf_state = st, cf_machine = (if ?n mod PUMP_EVERY = 0 then pump m else m), cf_kernel = k\<rparr>"
    have t: "turn H invoke pump img c ?c" using p i by (intro turn.turn) simp_all
    have l: "loop_from (Suc n) H invoke pump img c = loop_from n H invoke pump img ?c"
      using p i by (simp add: loop_from_def Let_def)
    obtain i c' where "i \<le> n" "(turn H invoke pump img ^^ i) ?c c'" "loop_from n H invoke pump img ?c = ?end n i c'"
      using Suc.IH [of ?c] by blast
    with relpowp_Suc_I2 [where P = "turn H invoke pump img", OF t, of i c'] l show ?thesis by (intro exI [of _ "Suc i"] exI [of _ c']) simp
  qed
qed

definition config_inv :: "loaded_image \<Rightarrow> ('m, 'k) config \<Rightarrow> bool" where
  "config_inv img c \<longleftrightarrow> cache_ok (di_cache (rs_disp (cf_state c))) \<and> (\<exists>L. chain_inv img (cf_state c) L)"

lemma turn_inv: "turn H invoke pump img c c' \<Longrightarrow> config_inv img c \<Longrightarrow> config_inv img c'"
proof (erule turnE)
  fix ptr st k nxt m n
  assume i: "config_inv img c" and p: "prepare_block H img (cf_rip c) (cf_state c) (cf_kernel c) = (Ok ptr, st, k)"
    and c': "c' = \<lparr>cf_pump = n, cf_rip = nxt, cf_state = st, cf_machine = (if n mod PUMP_EVERY = 0 then pump m else m), cf_kernel = k\<rparr>"
  then show "config_inv img c'"
    using prepare_block_inv [OF _ _ p] unfolding config_inv_def cache_ok_def same_cache_def by auto
qed

lemma turns_inv: "(turn H invoke pump img)\<^sup>*\<^sup>* c c' \<Longrightarrow> config_inv img c \<Longrightarrow> config_inv img c'"
  by (induction rule: rtranclp_induct) (auto intro: turn_inv)

definition start_config :: "dispatcher \<Rightarrow> u64 \<Rightarrow> 'm \<Rightarrow> 'k \<Rightarrow> ('m, 'k) config" where
  "start_config d rip m k = \<lparr>cf_pump = 0, cf_rip = rip, cf_state = \<lparr>rs_disp = d, rs_unpatched = Mapping.empty\<rparr>,
     cf_machine = m, cf_kernel = k\<rparr>"

lemma run_dispatcher_loop_from:
  "run_dispatcher_loop H invoke pump img d rip m k = loop_from LOOP_LIMIT H invoke pump img (start_config d rip m k)"
  by (simp add: run_dispatcher_loop_def loop_from_def start_config_def)

lemma start_inv:
  assumes "dispatcher_new H k0 cache_size = (Ok d, k)" "cache_ok (di_cache d)"
  shows "config_inv img (start_config d rip m k)"
proof -
  have "chain_inv img \<lparr>rs_disp = d, rs_unpatched = Mapping.empty\<rparr> []"
    using new_represents [OF assms(1)] by (simp add: chain_inv_def code_inv_def pending_inv_def lookup_empty)
  with assms(2) show ?thesis unfolding config_inv_def start_config_def by auto
qed

text \<open>
  C3: chaining keeps the code cache sound. In every configuration the dispatcher loop reaches from a new dispatcher, once
  the block for the current guest address has been found or translated, patching the exits that waited for it never
  fails and never leaves the code cache: the turn goes on with that block. Afterwards the code cache is exactly the log of
  translated blocks, in which every exit to a guest address \<open>t\<close> is the translator's placeholder or a branch whose
  offset leads from the exit to the hot entry of the block the dispatcher has for \<open>t\<close>, every other byte is the
  translator's, and every exit still pending is an exit of an installed block to the address it is pending for.
\<close>

theorem chaining_safe:
  assumes "dispatcher_new H k0 cache_size = (Ok d, k)" "cache_ok (di_cache d)"
    and "(turn H invoke pump img)\<^sup>*\<^sup>* (start_config d start_rip m k) c"
    and "find_block H img (cf_rip c) (cf_state c) (cf_kernel c) = (Ok p, st, k1)"
  shows "\<exists>st' k2 L. prepare_block H img (cf_rip c) (cf_state c) (cf_kernel c) = (Ok p, st', k2) \<and>
     di_lookup (rs_disp st') (cf_rip c) = Some p \<and> chain_inv img st' L"
proof -
  have "config_inv img c" by (rule turns_inv [OF assms(3) start_inv [OF assms(1,2)]])
  with prepare_block_Ok [OF _ _ assms(4)] show ?thesis unfolding config_inv_def by blast
qed

section \<open>A block that jumps to itself\<close>

definition self_bytes :: bytes where "self_bytes = [0xEB, 0xFE]"

definition self_inst :: inst where
  "self_inst = \<lparr>i_op = OpFlow F_Jmp, i_operands = [Some (Imm (- 2) B1), None, None], i_len = 2, i_guest_rip = 0x1000\<rparr>"

definition self_img :: loaded_image where
  "self_img = \<lparr>img_region = \<lparr>r_base = 0x1000, r_mem = self_bytes, r_is_jit = False\<rparr>, preferred_base = 0x1000, actual_base = 0x1000,
     size_of_image = 2, size_of_headers = 0, entry_rva = 0, subsystem = 3, img_bitness = X86_64, img_sections = [], data_directories = []\<rparr>"

lemma self_decodes:
  "decode_insts ends_block (Decoder_new self_bytes 0x1000) [] =
     (Ok [self_inst], \<lparr>d_bytes = self_bytes, d_pos = 2, d_guest_rip = 0x1000, d_long_mode = True\<rparr>)"
  by code_simp

lemma self_window: "decode_window self_img 0x1000 = Ok self_bytes"
  by (simp add: decode_window_def self_img_def self_bytes_def rva_to_slice_def usize_checked_add_def ok_or_def)

lemma code_le_prologue: "code_le 22 (dispatcher_prologue :: 'e em)"
proof -
  have "code_le (0 + 1) (seq [debug_assert c, debug_assert c', push w] :: 'e em)" for c c' w
    by (rule code_le_rules(2) [OF code_le_rules(5)], rule code_le_assert, rule code_le_rules(3))
  then have stp: "code_le 1 (stp64_pre rt rt2 rn i :: 'e em)" for rt rt2 rn i
    unfolding stp64_pre_def ldstp_def Let_def by simp
  have ldr: "code_le 1 (ldr64 rt rn i :: 'e em)" for rt rn i
    unfolding ldr64_def ldst_uoff_def by (intro code_le_assert code_le_rules(3))
  have mov: "code_le 1 (mov64 rd rm :: 'e em)" for rd rm
    unfolding mov64_def orr64_def logical_shifted_def by (rule code_le_rules(3))
  have "code_le (length gp_regs) (emit_ctx_to_regs :: 'e em)" unfolding ctx_code_eq by (rule code_le_map, rule ldr)
  moreover have "length gp_regs = 16" by (simp add: gp_regs_def)
  ultimately have "code_le 16 (emit_ctx_to_regs :: 'e em)" by simp
  then have "code_le (1 + (1 + (1 + (1 + (16 + (1 + (1 + 0))))))) (dispatcher_prologue :: 'e em)"
    unfolding dispatcher_prologue_def by (intro code_le_rules(1,2) stp ldr mov)
  then show ?thesis by simp
qed

lemma map_err_Ok: "map_err f (Ok x, s) = (Ok x, s)"
  by (simp add: map_err_eq_Ok)

lemma self_block: "\<exists>blk. guest_block self_img 0x1000 = Ok blk \<and> length (host_bytes blk) \<le> 192"
proof -
  have ok: "branch_ok self_inst" by (simp add: self_inst_def branch_ok_def has_imm_def operand_at_def)
  obtain blk where blk: "translate_for_dispatcher self_bytes 0x1000 Long = Ok blk"
    using translate_block [OF self_decodes] ok by auto
  then obtain e0 e1 e2 ps where p: "(dispatcher_prologue :: block_error em) new_emitter = (Ok (), e0)"
    and t: "emit_terminator self_inst e0 = (Ok ps, e1)" and f: "finish e1 = (Ok (), e2)" and b: "host_bytes blk = em_bytes e2"
    unfolding translate_for_dispatcher_def Let_def isa_mode.case self_decodes
    by (auto simp: obind_eq_Ok fst_sbind_eq_Ok map_err_eq_Ok map_err_Ok)
  have "emit_terminator self_inst = chain_exit 0x1000"
    using ok by (simp add: emit_terminator_def self_inst_def with_rel_def operand_at_def next_rip_def)
  then have "length (em_code e1) \<le> length (em_code e0) + 26"
    using code_le_chain [of "0x1000", where 'e = block_error] t by (auto simp: code_le_def dest!: spec [of _ e0])
  moreover have "length (em_code e0) \<le> 22"
    using code_le_prologue [where 'e = block_error] p by (auto simp: code_le_def new_emitter_def dest!: spec [of _ new_emitter])
  moreover have "length (em_code e2) = length (em_code e1)"
    using resolve_keeps [of "em_fixups e1" "e1\<lparr>em_fixups := []\<rparr>"] f by (simp add: finish_def)
  ultimately have "length (host_bytes blk) \<le> 192" by (simp add: b)
  moreover have "guest_block self_img 0x1000 = Ok blk"
    using blk by (simp add: guest_block_def self_window) (simp add: self_img_def mode_of_def)
  ultimately show ?thesis by blast
qed

lemma self_dispatcher:
  "\<exists>d. dispatcher_new unit_host () 0x1000 = (Ok d, ()) \<and> cache_ok (di_cache d) \<and> di_lookup d 0x1000 = None \<and>
     cc_used (di_cache d) = 0 \<and> cc_base (di_cache d) = 0x10000 \<and> cc_capacity (di_cache d) = 0x1000"
  by (simp add: dispatcher_new_def code_cache_new_def mach_vm_manager_def mach_allocate_jit_def unit_host_def MAP_FAILED_def
      from_raw_def cache_ok_def di_lookup_def lookup_empty cc_base_def cc_capacity_def)

lemma self_found:
  assumes "di_lookup d 0x1000 = None" "cc_used (di_cache d) = 0" "cc_base (di_cache d) = 0x10000" "cc_capacity (di_cache d) = 0x1000"
  shows "\<exists>st. find_block unit_host self_img 0x1000 \<lparr>rs_disp = d, rs_unpatched = Mapping.empty\<rparr> () = (Ok 0x10000, st, ()) \<and>
     di_lookup (rs_disp st) = (di_lookup d)(0x1000 \<mapsto> 0x10000)"
proof -
  obtain blk where blk: "guest_block self_img 0x1000 = Ok blk" "length (host_bytes blk) \<le> 192" using self_block by blast
  obtain r d' where i: "di_install unit_host 0x1000 (host_bytes blk) d () = (r, d', ())" by (metis (full_types) old.unit.exhaust prod_cases3)
  have r: "r = Ok 0x10000" using install_result [OF i] assms blk(2) by simp
  from install_lookup [OF i [unfolded r]] r i blk(1) assms(1) show ?thesis
    by (auto simp: find_block_def guest_block_def self_window split: outcome.splits)
qed

theorem chaining_safe_witness:
  "\<exists>d c p st' L. (turn unit_host (\<lambda>d p m. (0x1000, m)) (\<lambda>m. m) self_img)\<^sup>*\<^sup>* (start_config d 0x1000 () ()) c \<and>
     c \<noteq> start_config d 0x1000 () () \<and> di_lookup (rs_disp st') 0x1000 = Some p \<and> chain_inv self_img st' L"
proof -
  let ?turn = "turn unit_host (\<lambda>d p m. (0x1000, m)) (\<lambda>m. m) self_img"
  obtain d where d: "dispatcher_new unit_host () 0x1000 = (Ok d, ())" "cache_ok (di_cache d)"
    and e: "di_lookup d 0x1000 = None" "cc_used (di_cache d) = 0" "cc_base (di_cache d) = 0x10000" "cc_capacity (di_cache d) = 0x1000"
    using self_dispatcher by blast
  let ?c0 = "start_config d 0x1000 () () :: (unit, unit) config"
  have r0: "?turn\<^sup>*\<^sup>* ?c0 ?c0" by simp
  obtain st where "find_block unit_host self_img (cf_rip ?c0) (cf_state ?c0) (cf_kernel ?c0) = (Ok 0x10000, st, ())"
    using self_found [OF e] by (auto simp: start_config_def)
  from chaining_safe [OF d r0 this]
  obtain st1 where p1: "prepare_block unit_host self_img 0x1000 (cf_state ?c0) () = (Ok 0x10000, st1, ())"
    and l1: "di_lookup (rs_disp st1) 0x1000 = Some 0x10000"
    by (auto simp: start_config_def)
  let ?c1 = "\<lparr>cf_pump = 1, cf_rip = 0x1000, cf_state = st1, cf_machine = (), cf_kernel = ()\<rparr> :: (unit, unit) config"
  have t: "?turn ?c0 ?c1"
    using turn.turn [of unit_host self_img ?c0 "0x10000" st1 "()" "\<lambda>d p m. (0x1000, m)" "0x1000" "()" 1 "\<lambda>m. m"] p1
    by (simp add: start_config_def RT_STOP_SENTINEL_def PUMP_EVERY_def)
  have "find_block unit_host self_img (cf_rip ?c1) (cf_state ?c1) (cf_kernel ?c1) = (Ok 0x10000, st1, ())"
    using l1 by (simp add: find_block_def)
  moreover have r1: "?turn\<^sup>*\<^sup>* ?c0 ?c1" using t by (rule r_into_rtranclp)
  ultimately show ?thesis
    using chaining_safe [OF d r1] by (intro exI [of _ d] exI [of _ ?c1]) (auto simp: start_config_def)
qed

end
