(* ===== verification/Chain_Correct.thy ===== *)
theory Chain_Correct
  imports Chain
begin

text \<open>
  Chaining does not change what the guest does. The host processor is run on the code cache itself, by address
  (\<open>mstep\<close>): a block entered at its cold or its hot entry reaches its \<open>RET\<close> with the guest state of the
  block in the context, or, when an exit has been patched, the hot entry of the next block with the guest
  state handed over in the context. Code and data are separate memories: a guest that rewrites the code
  cache is outside the model.
\<close>

section \<open>The processor on the code cache\<close>

definition fetch :: "dispatcher \<Rightarrow> u64 \<Rightarrow> u32 option" where
  "fetch d a = map_option u32_from_le
     (get_range (r_mem (cc_region (di_cache d))) (unat (a - cc_base (di_cache d))) 4)"

inductive mstep :: "(u64 \<Rightarrow> u32 option) \<Rightarrow> u64 \<times> a64 \<Rightarrow> u64 \<times> a64 \<Rightarrow> bool" for cm where
  exec: "cm pc = Some w \<Longrightarrow> a64_decode w = Some i \<Longrightarrow> a64_exec i s = Some s' \<Longrightarrow> mstep cm (pc, s) (pc + 4, s')"
| branch: "cm pc = Some w \<Longrightarrow> a64_decode w = None \<Longrightarrow> w \<noteq> RET_WORD \<Longrightarrow> branch_distance w s = Some k \<Longrightarrow>
    mstep cm (pc, s) (pc + of_int (4 * k), s)"

abbreviation msteps :: "(u64 \<Rightarrow> u32 option) \<Rightarrow> u64 \<times> a64 \<Rightarrow> u64 \<times> a64 \<Rightarrow> bool" where
  "msteps cm \<equiv> (mstep cm)\<^sup>*\<^sup>*"

definition holds :: "(u64 \<Rightarrow> u32 option) \<Rightarrow> u64 \<Rightarrow> u32 list \<Rightarrow> bool" where
  "holds cm a ws \<longleftrightarrow> (\<forall>i < length ws. cm (a + of_nat (4 * i)) = Some (ws ! i))"

lemma holds_simps [simp]:
  "holds cm a []" "holds cm a (w # ws) \<longleftrightarrow> cm a = Some w \<and> holds cm (a + 4) ws"
proof -
  have "holds cm a (w # ws) \<longleftrightarrow> cm a = Some w \<and> (\<forall>i < length ws. cm (a + of_nat (4 * Suc i)) = Some (ws ! i))"
    unfolding holds_def by (auto simp: less_Suc_eq_0_disj simp del: of_nat_mult)
  also have "\<dots> \<longleftrightarrow> cm a = Some w \<and> holds cm (a + 4) ws" by (simp add: holds_def algebra_simps)
  finally show "holds cm a (w # ws) \<longleftrightarrow> cm a = Some w \<and> holds cm (a + 4) ws" .
qed (simp add: holds_def)

lemma holds_append: "holds cm a (ws @ ws') \<longleftrightarrow> holds cm a ws \<and> holds cm (a + of_nat (4 * length ws)) ws'"
  by (induction ws arbitrary: a) (auto simp: algebra_simps)

lemma holds_drop: "holds cm a ws \<Longrightarrow> n \<le> length ws \<Longrightarrow> holds cm (a + of_nat (4 * n)) (drop n ws)"
  using holds_append [of cm a "take n ws" "drop n ws"] by (simp add: min_absorb2)

lemma run_msteps:
  "holds cm a ws \<Longrightarrow> a64_run ws s = Some s' \<Longrightarrow> msteps cm (a, s) (a + of_nat (4 * length ws), s')"
proof (induction ws arbitrary: a s)
  case (Cons w ws)
  then obtain i s1 where i: "a64_decode w = Some i" "a64_exec i s = Some s1" "a64_run ws s1 = Some s'"
    by (auto simp: a64_step_def bind_eq_Some_conv)
  have "mstep cm (a, s) (a + 4, s1)" using Cons.prems(1) i by (intro mstep.exec) auto
  moreover have "msteps cm (a + 4, s1) (a + 4 + of_nat (4 * length ws), s')"
    using Cons.IH [OF _ i(3)] Cons.prems(1) by simp
  ultimately show ?case by (simp add: algebra_simps converse_rtranclp_into_rtranclp)
qed simp

text \<open>A run of \<open>exec_block\<close> is a run by address up to a \<open>RET\<close>.\<close>

lemma exec_block_msteps:
  "holds cm a ws \<Longrightarrow> exec_block ws s = Some s' \<Longrightarrow> \<exists>q. cm q = Some RET_WORD \<and> msteps cm (a, s) (q, s')"
proof (induction ws s arbitrary: a rule: exec_block.induct)
  case (2 w ws s)
  show ?case
  proof (cases "a64_decode w")
    case (Some i)
    then obtain s1 where s1: "a64_exec i s = Some s1" "exec_block ws s1 = Some s'"
      using "2.prems"(2) by (auto simp: exec_block.simps(2) bind_eq_Some_conv)
    then obtain q where "cm q = Some RET_WORD" "msteps cm (a + 4, s1) (q, s')"
      using "2.IH"(2) [OF Some, of s1 "a + 4"] "2.prems"(1) by auto
    moreover have "mstep cm (a, s) (a + 4, s1)" using "2.prems"(1) Some s1 by (intro mstep.exec) auto
    ultimately show ?thesis by (meson converse_rtranclp_into_rtranclp)
  next
    case None
    show ?thesis
    proof (cases "w = RET_WORD")
      case True
      with "2.prems" None show ?thesis by (auto simp: exec_block.simps(2))
    next
      case False
      then obtain k where k: "branch_distance w s = Some k" "1 \<le> k" "exec_block (drop (nat (k - 1)) ws) s = Some s'"
        using "2.prems"(2) None by (auto simp: exec_block.simps(2) split: option.splits if_splits)
      have "nat (k - 1) \<le> length ws"
      proof (rule ccontr)
        assume "\<not> nat (k - 1) \<le> length ws"
        with k(3) show False by simp
      qed
      then have h: "holds cm (a + 4 + of_nat (4 * nat (k - 1))) (drop (nat (k - 1)) ws)"
        using "2.prems"(1) by (intro holds_drop) auto
      have "(of_int (4 * k) :: u64) = of_int (4 + int (4 * nat (k - 1)))" using k(2) by simp
      also have "\<dots> = 4 + of_nat (4 * nat (k - 1))" by (simp only: of_int_add of_int_of_nat_eq of_int_numeral)
      finally have "a + of_int (4 * k) = a + 4 + of_nat (4 * nat (k - 1))" by (simp only: add.assoc)
      moreover have "mstep cm (a, s) (a + of_int (4 * k), s)"
        using "2.prems"(1) None False k(1) by (intro mstep.branch) auto
      ultimately have "mstep cm (a, s) (a + 4 + of_nat (4 * nat (k - 1)), s)" by (simp only:)
      with "2.IH"(1) [OF None False k(1,2) h k(3)] show ?thesis by (meson converse_rtranclp_into_rtranclp)
    qed
  qed
qed simp

section \<open>Linked exits\<close>

lemma field_sub: "j + m \<le> n \<Longrightarrow> field (k + j) m w = field j m (field k n w)"
  by (auto simp: bit_eq_iff bit_simps field_def add.assoc)

lemma b_word:
  assumes "w AND 0xFC000000 = (0x14000000 :: u32)"
  shows "a64_decode w = None" "w \<noteq> RET_WORD" "branch_distance w s = Some (branch_offset Branch26 w)"
proof -
  have "field 26 6 w = field 26 6 (w AND 0xFC000000)"
  proof -
    have "field 26 6 (w AND x) = field 26 6 w AND field 26 6 x" for x
      by (simp add: field_def drop_bit_and take_bit_and)
    moreover have "field 26 6 (0xFC000000 :: u32) = mask 6" by (simp add: field_def mask_numeral)
    moreover have "field 26 6 w AND mask 6 = field 26 6 w" by (simp add: field_def flip: take_bit_eq_mask)
    ultimately show ?thesis by simp
  qed
  then have f: "field 26 6 w = 5" unfolding assms by (simp add: field_def)
  have "field 26 3 w = field 0 3 5" using field_sub [of 0 3 6 26 w] f by simp
  then have f3: "field 26 3 w = 5" by (simp add: field_def)
  have "field 27 3 w = 2" "field 31 1 w = 0"
    using field_sub [of 1 3 6 26 w] field_sub [of 5 1 6 26 w] f by (simp_all add: field_def)
  moreover have "field 24 8 w \<noteq> c" if "field 2 6 c \<noteq> 5" for c
    using field_sub [of 2 6 8 24 w] f that by auto
  moreover have "field 23 6 w \<noteq> c" if "field 3 3 c \<noteq> 5" for c
    using field_sub [of 3 3 6 23 w] f3 that by auto
  moreover have w: "w \<noteq> c" if "field 26 6 c \<noteq> 5" for c using f that by auto
  ultimately show "a64_decode w = None" "w \<noteq> RET_WORD"
    by (simp_all add: a64_dec field_def RET_WORD_def)
  have "signed_take_bit 25 (uint (field 0 26 w)) = signed_take_bit 25 (uint w)"
    by (simp add: field_def unsigned_take_bit_eq signed_take_bit_take_bit)
  then show "branch_distance w s = Some (branch_offset Branch26 w)"
    by (simp add: branch_distance_def f branch_offset_def)
qed

lemma link_runs:
  assumes "leads_to d site t w" "cm site = Some w"
  shows "\<exists>p. di_lookup d t = Some p \<and> mstep cm (site, s) (p + ucast DISPATCHER_HOT_ENTRY_OFFSET, s)"
proof -
  obtain p where p: "di_lookup d t = Some p" and w: "w AND 0xFC000000 = 0x14000000"
    and o4: "4 * branch_offset Branch26 w = uint (p + ucast DISPATCHER_HOT_ENTRY_OFFSET) - uint site"
    using assms(1) by (auto simp: leads_to_def)
  have "site + of_int (4 * branch_offset Branch26 w) = p + ucast DISPATCHER_HOT_ENTRY_OFFSET"
    unfolding o4 by (simp only: of_int_diff of_int_uint) simp
  moreover have "mstep cm (site, s) (site + of_int (4 * branch_offset Branch26 w), s)"
    using assms(2) b_word [OF w] by (intro mstep.branch)
  ultimately have "mstep cm (site, s) (p + ucast DISPATCHER_HOT_ENTRY_OFFSET, s)" by (simp only:)
  with p show ?thesis by blast
qed

text \<open>
  The guest state a hot entry starts from, and the passage of a guest state through the context at \<open>ctx\<close>: registers
  and flags survive, memory outside the sixteen register slots too, and the segment bases are re-read.
\<close>

definition ctx_state :: "a64 \<Rightarrow> x86" where
  "ctx_state s = (let read = (\<lambda>d. of_nat (load_le (amem s) (xr s 28 + d) 8)) in
     \<lparr>gpr = (\<lambda>r. read (slot r)), x_zf = zf s, x_sf = nf s, x_of = vf s, x_cf = (\<not> cf s),
      gs_base = read 144, fs_base = read 152, gmem = amem s\<rparr>)"

definition via_context :: "u64 \<Rightarrow> x86 \<Rightarrow> x86 \<Rightarrow> bool" where
  "via_context ctx st st' \<longleftrightarrow> gpr st' = gpr st \<and> x_zf st' = x_zf st \<and> x_sf st' = x_sf st \<and> x_of st' = x_of st \<and>
     x_cf st' = x_cf st \<and> (\<forall>a. \<not> in_ctx ctx a \<longrightarrow> gmem st' a = gmem st a) \<and>
     gs_base st' = of_nat (load_le (gmem st') (ctx + 144) 8) \<and> fs_base st' = of_nat (load_le (gmem st') (ctx + 152) 8)"

definition handed :: "u64 \<Rightarrow> u64 \<Rightarrow> x86 \<Rightarrow> a64 \<Rightarrow> bool" where
  "handed ctx sp st s \<longleftrightarrow> xr s 28 = ctx \<and> spr s + 48 = sp \<and> via_context ctx st (ctx_state s)"

lemma handed_spill: "handed (xr s 28) (spr s + 48) (guest s) (fold store_slot gp_regs s)"
proof -
  have "of_nat (load_le (amem (fold store_slot gp_regs s)) (xr s 28 + slot r) 8) = gpr (guest s) r" for r
    using fold_store_slot_reg [of gp_regs r s] by (simp add: gp_regs_all guest_def)
  moreover have "amem (fold store_slot gp_regs s) a = amem s a" if "\<not> in_ctx (xr s 28) a" for a
    by (rule fold_store_slot_other) (use that slot_in_ctx in blast)
  ultimately show ?thesis
    by (simp add: handed_def via_context_def ctx_state_def Let_def fold_store_slot_regs fold_store_slot_flags guest_def fun_eq_iff)
qed

text \<open>How a block ends: at a \<open>RET\<close> to the dispatcher, or at the hot entry of the block for the next guest address.\<close>

definition block_end :: "dispatcher \<Rightarrow> (u64 \<Rightarrow> u32 option) \<Rightarrow> u64 \<Rightarrow> u64 \<Rightarrow> u64 \<times> x86 \<Rightarrow> u64 \<times> a64 \<Rightarrow> bool" where
  "block_end d cm ctx sp r c \<longleftrightarrow> (\<exists>q s'. msteps cm c (q, s') \<and>
     (cm q = Some RET_WORD \<and> exit_ok ctx sp r s' \<or>
      (\<exists>p. di_lookup d (fst r) = Some p \<and> q = p + ucast DISPATCHER_HOT_ENTRY_OFFSET \<and> handed ctx sp (snd r) s')))"

lemma block_end_msteps: "msteps cm c c' \<Longrightarrow> block_end d cm ctx sp r c' \<Longrightarrow> block_end d cm ctx sp r c"
  unfolding block_end_def using rtranclp_trans [of "mstep cm" c c'] by blast

text \<open>
  \<open>linked d a ps n ws ws'\<close>: \<open>ws'\<close> is the code \<open>ws\<close> that starts at word \<open>n\<close> of the block at \<open>a\<close>, with some of the exits
  \<open>ps\<close> of the block patched.
\<close>

definition relinked :: "dispatcher \<Rightarrow> u64 \<Rightarrow> (u32 \<times> u64) list \<Rightarrow> nat \<Rightarrow> u32 \<Rightarrow> u32 \<Rightarrow> bool" where
  "relinked d a ps i w w' \<longleftrightarrow> w' = w \<or> (\<exists>t. (of_nat (4 * i), t) \<in> set ps \<and> leads_to d (a + of_nat (4 * i)) t w')"

definition linked :: "dispatcher \<Rightarrow> u64 \<Rightarrow> (u32 \<times> u64) list \<Rightarrow> nat \<Rightarrow> u32 list \<Rightarrow> u32 list \<Rightarrow> bool" where
  "linked d a ps n ws ws' \<longleftrightarrow>
     length ws' = length ws \<and> (\<forall>i < length ws. relinked d a ps (n + i) (ws ! i) (ws' ! i))"

lemma linked_Nil [simp]: "linked d a ps n [] ws' \<longleftrightarrow> ws' = []"
  by (auto simp: linked_def)

lemma linked_Cons:
  "linked d a ps n (w # ws) ws' \<longleftrightarrow> (\<exists>w' ws''. ws' = w' # ws'' \<and> relinked d a ps n w w' \<and> linked d a ps (Suc n) ws ws'')"
  by (cases ws') (auto simp: linked_def less_Suc_eq_0_disj)

lemma linked_append:
  "linked d a ps n (ws @ vs) ws' \<longleftrightarrow> (\<exists>ws1 ws2. ws' = ws1 @ ws2 \<and> linked d a ps n ws ws1 \<and> linked d a ps (n + length ws) vs ws2)"
proof (induction ws arbitrary: n ws')
  case (Cons w ws)
  show ?case unfolding append_Cons linked_Cons Cons.IH by (auto; metis append_Cons)
qed simp

text \<open>Where \<open>ps\<close> has no exit the code is unchanged.\<close>

lemma linked_same:
  assumes "linked d a ps n ws ws'" "\<And>i. n \<le> i \<Longrightarrow> i < n + length ws \<Longrightarrow> of_nat (4 * i) \<notin> fst ` set ps"
  shows "ws' = ws"
proof (rule nth_equalityI)
  show "length ws' = length ws" using assms(1) by (simp add: linked_def)
  fix i assume i: "i < length ws'"
  then have "relinked d a ps (n + i) (ws ! i) (ws' ! i)" using assms(1) by (simp add: linked_def)
  moreover have "of_nat (4 * (n + i)) \<notin> fst ` set ps" using assms i by (intro assms(2)) (auto simp: linked_def)
  ultimately show "ws' ! i = ws ! i" unfolding relinked_def by (force simp del: of_nat_mult)
qed

section \<open>Terminators\<close>

text \<open>
  \<open>ends d f F\<close>: after \<open>f\<close> and \<open>finish\<close>, the code \<open>f\<close> has added ends the block with \<open>F\<close>, whichever of its exits are
  linked. Patch offsets are 32-bit, so the block has to be shorter than that.
\<close>

definition ends :: "dispatcher \<Rightarrow> (emitter \<Rightarrow> (block_error, (u32 \<times> u64) list) outcome \<times> emitter) \<Rightarrow> (a64 \<Rightarrow> u64 \<times> x86) \<Rightarrow> bool" where
  "ends d f F \<longleftrightarrow> (\<forall>e. em_labels e = [] \<longrightarrow> em_fixups e = [] \<longrightarrow>
     (\<exists>ps e1 e2 ws. f e = (Ok ps, e1) \<and> finish e1 = (Ok (), e2) \<and> em_code e2 = em_code e @ ws \<and>
       (4 * length (em_code e2) < 2 ^ 32 \<longrightarrow> (\<forall>i < length (em_code e). of_nat (4 * i) \<notin> fst ` set ps) \<and>
         (\<forall>cm a b ws' s. b = a + of_nat (4 * length (em_code e)) \<longrightarrow> linked d a ps (length (em_code e)) ws ws' \<longrightarrow>
            holds cm b ws' \<longrightarrow> block_end d cm (xr s 28) (spr s + 48) (F s) (b, s)))))"

lemma terminates_ends:
  assumes "terminates f F" "\<And>e ps e'. f e = (Ok ps, e') \<Longrightarrow> ps = []"
  shows "ends d f F"
proof -
  obtain ws where ws: "\<And>e. em_labels e = [] \<Longrightarrow> em_fixups e = [] \<Longrightarrow>
      \<exists>v e1 e2. f e = (Ok v, e1) \<and> finish e1 = (Ok (), e2) \<and> em_code e2 = em_code e @ ws"
    "\<And>s. \<exists>s'. exec_block ws s = Some s' \<and> exit_ok (xr s 28) (spr s + 48) (F s) s'"
    using assms(1) unfolding terminates_def by blast
  have "block_end d cm (xr s 28) (spr s + 48) (F s) (b, s)" if "linked d a [] n ws ws'" "holds cm b ws'" for cm a b n ws' s
  proof -
    have "ws' = ws" using linked_same [OF that(1)] by simp
    then show ?thesis using ws(2) [of s] exec_block_msteps [of cm b ws s] that(2) unfolding block_end_def by blast
  qed
  note run = this
  show ?thesis
    unfolding ends_def
  proof (intro allI impI)
    fix e :: emitter assume "em_labels e = []" "em_fixups e = []"
    then obtain v e1 e2 where e: "f e = (Ok v, e1)" "finish e1 = (Ok (), e2)" "em_code e2 = em_code e @ ws" using ws(1) by blast
    with run show "\<exists>ps e1 e2 ws. f e = (Ok ps, e1) \<and> finish e1 = (Ok (), e2) \<and> em_code e2 = em_code e @ ws \<and>
       (4 * length (em_code e2) < 2 ^ 32 \<longrightarrow> (\<forall>i < length (em_code e). of_nat (4 * i) \<notin> fst ` set ps) \<and>
         (\<forall>cm a b ws' s. b = a + of_nat (4 * length (em_code e)) \<longrightarrow> linked d a ps (length (em_code e)) ws ws' \<longrightarrow>
            holds cm b ws' \<longrightarrow> block_end d cm (xr s 28) (spr s + 48) (F s) (b, s)))"
      using assms(2) [OF e(1)] by (intro exI [of _ "[]"] exI [of _ e1] exI [of _ e2] exI [of _ ws]) simp
  qed
qed

text \<open>A direct exit at word \<open>n\<close>, with its one patch site.\<close>

lemma index_eq: "4 * i < 2 ^ 32 \<Longrightarrow> 4 * j < 2 ^ 32 \<Longrightarrow> (of_nat (4 * i) :: u32) = of_nat (4 * j) \<longleftrightarrow> i = j"
  by (auto simp: word_of_nat_eq_iff take_bit_nat_eq_self simp del: of_nat_mult)

lemma exit_ends:
  assumes pre: "\<And>s. a64_run pre s = Some (fold store_slot gp_regs s)"
    and post: "\<And>s rest. \<exists>s'. exec_block (PLACEHOLDER # post @ rest) (fold store_slot gp_regs s) = Some s' \<and>
        exit_ok (xr s 28) (spr s + 48) (t, guest s) s'"
    and l: "linked d a ps n (pre @ PLACEHOLDER # post) ws'" and h: "holds cm b ws'" and b: "b = a + of_nat (4 * n)"
    and room: "4 * (n + length pre + length post) + 4 < 2 ^ 32"
    and ps: "\<And>i t'. n \<le> i \<Longrightarrow> i \<le> n + length pre + length post \<Longrightarrow> (of_nat (4 * i), t') \<in> set ps \<Longrightarrow> i = n + length pre \<and> t' = t"
  shows "block_end d cm (xr s 28) (spr s + 48) (t, guest s) (b, s)"
proof -
  obtain pre' w post' where ws': "ws' = pre' @ w # post'" and l': "linked d a ps n pre pre'"
    "relinked d a ps (n + length pre) PLACEHOLDER w" "linked d a ps (Suc (n + length pre)) post post'"
    using l unfolding linked_append linked_Cons by blast
  have no: "of_nat (4 * i) \<notin> fst ` set ps" if "n \<le> i" "i \<le> n + length pre + length post" "i \<noteq> n + length pre" for i
    using ps [OF that(1,2)] that(3) by (auto simp del: of_nat_mult)
  have "pre' = pre" by (rule linked_same [OF l'(1)], rule no) simp_all
  have "post' = post" by (rule linked_same [OF l'(3)], rule no) simp_all
  let ?site = "b + of_nat (4 * length pre)" and ?s = "fold store_slot gp_regs s"
  have site: "?site = a + of_nat (4 * (n + length pre))" by (simp add: b algebra_simps)
  have hs: "holds cm b pre" "cm ?site = Some w" "holds cm ?site (w # post)"
    using h unfolding ws' \<open>pre' = pre\<close> \<open>post' = post\<close> holds_append by simp_all
  have to: "msteps cm (b, s) (?site, ?s)" by (rule run_msteps [OF hs(1) pre])
  have "block_end d cm (xr s 28) (spr s + 48) (t, guest s) (?site, ?s)"
  proof (cases "w = PLACEHOLDER")
    case True
    with post [of "[]" s] exec_block_msteps [OF hs(3)] show ?thesis unfolding block_end_def by fastforce
  next
    case False
    then have "leads_to d ?site t w"
      using l'(2) ps [of "n + length pre"] unfolding relinked_def site by auto
    from link_runs [OF this, of cm ?s, OF hs(2)] handed_spill [of s] show ?thesis
      unfolding block_end_def fst_conv snd_conv by blast
  qed
  with to show ?thesis by (rule block_end_msteps)
qed

lemma chain_ends: "ends d (chain_exit t) (\<lambda>s. (t, guest s))"
proof -
  obtain pre post where code: "\<And>e. (chain_exit t e :: (block_error, _) outcome \<times> _) =
       (Ok [(of_nat (4 * (length (em_code e) + length pre)), t)], e\<lparr>em_code := em_code e @ pre @ PLACEHOLDER # post\<rparr>)"
    and run: "\<And>s. a64_run pre s = Some (fold store_slot gp_regs s)"
      "\<And>s rest. \<exists>s'. exec_block (PLACEHOLDER # post @ rest) (fold store_slot gp_regs s) = Some s' \<and>
        exit_ok (xr s 28) (spr s + 48) (t, guest s) s'"
    using chain_exit_parts [of t, where 'e = block_error] by blast
  show ?thesis
    unfolding ends_def
  proof (intro allI impI)
    fix e :: emitter assume e: "em_labels e = []" "em_fixups e = []"
    let ?n = "length (em_code e)" and ?ws = "pre @ PLACEHOLDER # post"
    let ?ps = "[(of_nat (4 * (?n + length pre)) :: u32, t)]" and ?e = "e\<lparr>em_code := em_code e @ ?ws\<rparr>"
    have no: "of_nat (4 * i) \<noteq> (of_nat (4 * (?n + length pre)) :: u32)"
      if "4 * length (em_code ?e) < 2 ^ 32" "i < ?n + length ?ws" "i \<noteq> ?n + length pre" for i
      using that by (subst index_eq) auto
    have "block_end d cm (xr s 28) (spr s + 48) (t, guest s) (b, s)"
      if "4 * length (em_code ?e) < 2 ^ 32" "b = a + of_nat (4 * ?n)" "linked d a ?ps ?n ?ws ws'" "holds cm b ws'" for cm a b ws' s
    proof (rule exit_ends [OF run that(3,4,2)])
      show "4 * (?n + length pre + length post) + 4 < 2 ^ 32" using that(1) by simp
      fix i t' assume "i \<le> ?n + length pre + length post" "(of_nat (4 * i), t') \<in> set ?ps"
      then show "i = ?n + length pre \<and> t' = t" using no [OF that(1), of i] by (auto simp del: of_nat_mult)
    qed
    with no e code [of e] show "\<exists>ps e1 e2 ws. (chain_exit t e :: (block_error, _) outcome \<times> _) = (Ok ps, e1) \<and> finish e1 = (Ok (), e2) \<and> em_code e2 = em_code e @ ws \<and>
       (4 * length (em_code e2) < 2 ^ 32 \<longrightarrow> (\<forall>i < length (em_code e). of_nat (4 * i) \<notin> fst ` set ps) \<and>
         (\<forall>cm a b ws' s. b = a + of_nat (4 * length (em_code e)) \<longrightarrow> linked d a ps (length (em_code e)) ws ws' \<longrightarrow>
            holds cm b ws' \<longrightarrow> block_end d cm (xr s 28) (spr s + 48) (t, guest s) (b, s)))"
      by (intro exI [of _ ?ps] exI [of _ ?e] exI [of _ ?ws]) (simp add: finish_def del: of_nat_mult)
  qed
qed

lemma bcond_msteps:
  assumes "unat k < 2 ^ 18" "cm a = Some (bcond_word c k)"
  shows "mstep cm (a, s) (if cond_holds (unat (cond_bits c)) s then a + of_nat (4 * unat k) else a + 4, s)"
proof -
  have "mstep cm (a, s) (a + of_int (4 * (if cond_holds (unat (cond_bits c)) s then uint k else 1)), s)"
    using assms bcond_word_decode by (intro mstep.branch)
  moreover have "(of_int (4 * uint k) :: u64) = of_nat (4 * unat k)"
  proof -
    have "4 * uint k = int (4 * unat k)" by simp
    then show ?thesis by (simp only: of_int_of_nat_eq)
  qed
  ultimately show ?thesis by (cases "cond_holds (unat (cond_bits c)) s") (simp_all only: if_True if_False mult_1_right of_int_numeral)
qed

lemma jcc_ends:
  assumes "c \<notin> {Cond_P, Cond_NP}"
  shows "ends d (jcc_exit c inst rel)
     (\<lambda>s. (if x_cond c (guest s) then next_rip inst + rel else next_rip inst, guest s))"
proof -
  obtain k where k: "cond_x86_to_a64 c = Some k" "\<And>s. cond_holds (unat (cond_bits k)) s = x_cond c (guest s)"
    using cond_x86_holds [OF assms] by blast
  let ?t1 = "next_rip inst" and ?t2 = "next_rip inst + rel"
  obtain pre1 post1 where code1: "\<And>e. (chain_exit ?t1 e :: (block_error, _) outcome \<times> _) =
       (Ok [(of_nat (4 * (length (em_code e) + length pre1)), ?t1)], e\<lparr>em_code := em_code e @ pre1 @ PLACEHOLDER # post1\<rparr>)"
    and run1: "\<And>s. a64_run pre1 s = Some (fold store_slot gp_regs s)"
      "\<And>s rest. \<exists>s'. exec_block (PLACEHOLDER # post1 @ rest) (fold store_slot gp_regs s) = Some s' \<and>
        exit_ok (xr s 28) (spr s + 48) (?t1, guest s) s'"
    using chain_exit_parts [of ?t1, where 'e = block_error] by blast
  obtain pre2 post2 where code2: "\<And>e. (chain_exit ?t2 e :: (block_error, _) outcome \<times> _) =
       (Ok [(of_nat (4 * (length (em_code e) + length pre2)), ?t2)], e\<lparr>em_code := em_code e @ pre2 @ PLACEHOLDER # post2\<rparr>)"
    and run2: "\<And>s. a64_run pre2 s = Some (fold store_slot gp_regs s)"
      "\<And>s rest. \<exists>s'. exec_block (PLACEHOLDER # post2 @ rest) (fold store_slot gp_regs s) = Some s' \<and>
        exit_ok (xr s 28) (spr s + 48) (?t2, guest s) s'"
    using chain_exit_parts [of ?t2, where 'e = block_error] by blast
  let ?fall = "pre1 @ PLACEHOLDER # post1" and ?taken = "pre2 @ PLACEHOLDER # post2"
  let ?v1 = "\<lambda>n. [(of_nat (4 * (n + length pre1)) :: u32, ?t1)]" and ?v2 = "\<lambda>n. [(of_nat (4 * (n + length pre2)) :: u32, ?t2)]"
  let ?k = "of_nat (Suc (length ?fall)) :: u32"
  note jcc = jcc_code [where ?v1.0 = ?v1 and ?v2.0 = ?v2, OF k(1) _ _ code1 code2 refl refl]
  show ?thesis
    unfolding ends_def
  proof (intro allI impI)
    fix e :: emitter assume e: "em_labels e = []" "em_fixups e = []"
    let ?n = "length (em_code e)" and ?ws = "bcond_word k ?k # ?fall @ ?taken"
    let ?i1 = "Suc ?n + length pre1" and ?i2 = "Suc ?n + length ?fall + length pre2"
    let ?ps = "?v1 (Suc ?n) @ ?v2 (Suc ?n + length ?fall)"
    note jcc = jcc [OF e]
    obtain e1 e2 where e2: "jcc_exit c inst rel e = (Ok ?ps, e1)" "finish e1 = (Ok (), e2)" "em_code e2 = em_code e @ ?ws"
      using jcc(3) by blast
    have mem: "i = ?i1 \<and> t = ?t1 \<or> i = ?i2 \<and> t = ?t2"
      if "4 * length (em_code e2) < 2 ^ 32" "i < ?n + length ?ws" "(of_nat (4 * i), t) \<in> set ?ps" for i t
    proof -
      have "4 * i < 2 ^ 32" "4 * ?i1 < 2 ^ 32" "4 * ?i2 < 2 ^ 32" using that(1,2) e2(3) by simp_all
      then show ?thesis using that(3) index_eq [of i ?i1] index_eq [of i ?i2] by (auto simp del: of_nat_mult)
    qed
    have "block_end d cm (xr s 28) (spr s + 48) (if x_cond c (guest s) then ?t2 else ?t1, guest s) (b, s)"
      if room: "4 * length (em_code e2) < 2 ^ 32" and b: "b = a + of_nat (4 * ?n)" and l: "linked d a ?ps ?n ?ws ws'"
        and h: "holds cm b ws'" for cm a b ws' s
    proof -
      obtain w fall taken where ws': "ws' = w # fall @ taken" and w: "relinked d a ?ps ?n (bcond_word k ?k) w"
        and fall: "linked d a ?ps (Suc ?n) ?fall fall" and taken: "linked d a ?ps (Suc ?n + length ?fall) ?taken taken"
        using l unfolding linked_Cons linked_append by blast
      have "w = bcond_word k ?k" using w mem [OF room, of ?n] unfolding relinked_def by auto
      then have hs: "cm b = Some (bcond_word k ?k)" "holds cm (b + 4) fall" "holds cm (b + 4 + of_nat (4 * length ?fall)) taken"
        using h fall unfolding ws' by (simp_all add: holds_append linked_def)
      have "block_end d cm (xr s 28) (spr s + 48) (?t1, guest s) (b + 4, s)"
      proof (rule exit_ends [OF run1 fall hs(2)])
        fix i t assume "i \<le> Suc ?n + length pre1 + length post1" "(of_nat (4 * i), t) \<in> set ?ps"
        then show "i = Suc ?n + length pre1 \<and> t = ?t1" using mem [OF room, of i t] by auto
      qed (use b room e2(3) in simp_all)
      moreover have "block_end d cm (xr s 28) (spr s + 48) (?t2, guest s) (b + 4 + of_nat (4 * length ?fall), s)"
      proof (rule exit_ends [OF run2 taken hs(3)])
        fix i t assume "Suc ?n + length ?fall \<le> i" "i \<le> Suc ?n + length ?fall + length pre2 + length post2" "(of_nat (4 * i), t) \<in> set ?ps"
        then show "i = Suc ?n + length ?fall + length pre2 \<and> t = ?t2" using mem [OF room, of i t] by auto
      qed (use b room e2(3) in \<open>simp_all add: algebra_simps\<close>)
      moreover have "b + of_nat (4 * unat ?k) = b + 4 + of_nat (4 * length ?fall)" unfolding jcc(1) by (simp add: algebra_simps)
      then have "mstep cm (b, s) (if x_cond c (guest s) then b + 4 + of_nat (4 * length ?fall) else b + 4, s)"
        using bcond_msteps [where cm = cm and a = b, OF jcc(2) hs(1), of s] by (simp only: k(2))
      ultimately show ?thesis
        using block_end_msteps [OF r_into_rtranclp, of cm "(b, s)"] by (cases "x_cond c (guest s)") (simp_all only: if_True if_False)
    qed
    moreover have "of_nat (4 * i) \<notin> fst ` set ?ps" if "4 * length (em_code e2) < 2 ^ 32" "i < ?n" for i
      using mem [OF that(1), of i] that(2) by (auto simp del: of_nat_mult)
    ultimately show "\<exists>ps e1 e2 ws. jcc_exit c inst rel e = (Ok ps, e1) \<and> finish e1 = (Ok (), e2) \<and> em_code e2 = em_code e @ ws \<and>
       (4 * length (em_code e2) < 2 ^ 32 \<longrightarrow> (\<forall>i < length (em_code e). of_nat (4 * i) \<notin> fst ` set ps) \<and>
         (\<forall>cm a b ws' s. b = a + of_nat (4 * length (em_code e)) \<longrightarrow> linked d a ps (length (em_code e)) ws ws' \<longrightarrow>
            holds cm b ws' \<longrightarrow> block_end d cm (xr s 28) (spr s + 48) (if x_cond c (guest s) then ?t2 else ?t1, guest s) (b, s)))"
      using e2 by blast
  qed
qed

lemma terminator_no_patches:
  "i_op inst \<noteq> OpFlow F_Jmp \<Longrightarrow> (\<And>c. i_op inst \<noteq> OpFlow (F_Jcc c)) \<Longrightarrow> emit_terminator inst e = (Ok ps, e') \<Longrightarrow> ps = []"
  unfolding emit_terminator_def with_rel_def em_fail_def
  by (auto split: op.splits flow_op.splits option.splits operand.splits simp: sbind_eq_Ok dest!: no_patches_Nil)

lemma terminator_ends:
  assumes "branch_ok inst"
  shows "ends d (emit_terminator inst) (\<lambda>s. x86_branch inst (guest s))"
proof -
  consider c where "i_op inst = OpFlow (F_Jcc c)" | "i_op inst = OpFlow F_Jmp"
    | "i_op inst \<noteq> OpFlow F_Jmp" "\<And>c. i_op inst \<noteq> OpFlow (F_Jcc c)" by blast
  then show ?thesis
  proof cases
    case (1 c)
    with assms have "has_imm inst" "c \<notin> {Cond_P, Cond_NP}" by (simp_all add: branch_ok_def)
    with jcc_ends [of c d inst "imm_of inst"] 1 show ?thesis
      by (simp add: emit_terminator_def x86_branch_def with_rel_imm Let_def)
  next
    case 2
    with assms have "has_imm inst" by (simp add: branch_ok_def)
    with chain_ends [of d "next_rip inst + imm_of inst"] 2 show ?thesis
      by (simp add: emit_terminator_def x86_branch_def with_rel_imm Let_def)
  next
    case 3
    then show ?thesis
      using terminates_ends [OF terminator_terminates [OF assms]] terminator_no_patches [OF 3] by blast
  qed
qed

section \<open>Entries\<close>

lemma emits_unique: "emits f ws \<Longrightarrow> emits f ws' \<Longrightarrow> ws = ws'"
  by (simp add: emits_def) (metis append_same_eq emitter.ext_inject emitter.surjective emitter.update_convs(1) same_append_eq)

lemma cold_words:
  "\<exists>p. length p = 4 \<and> emits (seq [stp64_pre 29 30 31 (- 16), stp64_pre 19 28 31 (- 16), stp64_pre 24 25 31 (- 16), mov64 28 0] :: 'e em) p \<and>
     (\<forall>s. a64_run p s = Some (wx 28 (xr s 0) (s\<lparr>amem := frame_mem s, spr := spr s - 48\<rparr>)))"
proof -
  have "sem (seq ([stp64_pre 29 30 31 (- 16), stp64_pre 19 28 31 (- 16), stp64_pre 24 25 31 (- 16)] @ [mov64 28 0]) :: 'e em)
      (\<lambda>s. wx 28 (rx s 0) (s\<lparr>amem := frame_mem s, spr := spr s - 48\<rparr>))"
    by (rule sem_weaken, rule sem_append [OF sem_push_frame], subst seq_single, rule sem_mov64) (simp_all add: rx_def)
  then obtain p where p: "emits (seq [stp64_pre 29 30 31 (- 16), stp64_pre 19 28 31 (- 16), stp64_pre 24 25 31 (- 16), mov64 28 0] :: 'e em) p"
    "\<And>s. a64_run p s = Some (wx 28 (rx s 0) (s\<lparr>amem := frame_mem s, spr := spr s - 48\<rparr>))"
    by (auto simp: sem_def simp del: seq.simps)
  obtain w1 w2 w3 w4 where "emits (seq [stp64_pre 29 30 31 (- 16), stp64_pre 19 28 31 (- 16), stp64_pre 24 25 31 (- 16), mov64 28 0] :: 'e em) [w1, w2, w3, w4]"
    by (simp add: emits_def stp64_pre_def ldstp_def mov64_def orr64_def logical_shifted_def push_def debug_assert_def Let_def) blast
  with p(1) have "p = [w1, w2, w3, w4]" by (rule emits_unique)
  with p show ?thesis by (intro exI [of _ p]) (simp add: rx_def del: seq.simps)
qed

lemma hot_words:
  "\<exists>g. sem (seq [emit_ctx_to_regs, ldr64 24 28 144, ldr64 25 28 152] :: 'e em) g \<and>
     (\<forall>s. guest (g s) = ctx_state s \<and> spr (g s) = spr s \<and> xr (g s) 28 = xr s 28)"
proof -
  let ?load = "\<lambda>r d s. wx r (of_nat (load_le (amem s) (xr s 28 + d) 8)) s"
  let ?g = "\<lambda>s. ?load 25 152 (?load 24 144 (fold load_slot gp_regs s))"
  have "sem (seq [emit_ctx_to_regs, ldr64 24 28 144, ldr64 25 28 152] :: 'e em) ?g"
    by (rule sem_weaken, (rule sem_Cons [OF sem_ctx_to_regs] sem_Cons [OF sem_ldr64] sem_Nil | (simp; fail))+) (simp add: rxsp_def)
  moreover have "guest (?g s) = ctx_state s \<and> spr (?g s) = spr s \<and> xr (?g s) 28 = xr s 28" for s
    by (simp add: Let_def guest_def ctx_state_def wx_def rx_def fold_load_slot fold_load_slot_reg gp_regs_all image_iff)
  ultimately show ?thesis by blast
qed

text \<open>The machine after the four words before the hot entry.\<close>

definition enter :: "a64 \<Rightarrow> a64" where
  "enter s = wx 28 (xr s 0) (s\<lparr>amem := frame_mem s, spr := spr s - 48\<rparr>)"

lemma enter_simps [simp]: "ctx_state (enter s) = entry_state s" "xr (enter s) 28 = xr s 0" "spr (enter s) = spr s - 48"
  by (simp_all add: enter_def entry_state_def ctx_state_def Let_def wx_def)

lemma emits_append: "emits (seq xs) p \<Longrightarrow> emits (seq ys) h \<Longrightarrow> emits (seq (xs @ ys)) (p @ h)"
  unfolding emits_def seq_append by simp

lemma prologue_words:
  "\<exists>p h g. length p = 4 \<and> emits (dispatcher_prologue :: 'e em) (p @ h) \<and>
     (\<forall>s. a64_run p s = Some (enter s)) \<and>
     (\<forall>s. a64_run h s = Some (g s) \<and> guest (g s) = ctx_state s \<and> spr (g s) = spr s \<and> xr (g s) 28 = xr s 28)"
proof -
  let ?p = "[stp64_pre 29 30 31 (- 16), stp64_pre 19 28 31 (- 16), stp64_pre 24 25 31 (- 16), mov64 28 0] :: 'e em list"
  let ?h = "[emit_ctx_to_regs, ldr64 24 28 144, ldr64 25 28 152] :: 'e em list"
  obtain p where p: "length p = 4" "emits (seq ?p) p" "\<And>s. a64_run p s = Some (enter s)"
    using cold_words [where 'e = 'e] unfolding enter_def by blast
  obtain g h where h: "emits (seq ?h) h" "\<And>s. a64_run h s = Some (g s)"
    "\<And>s. guest (g s) = ctx_state s \<and> spr (g s) = spr s \<and> xr (g s) 28 = xr s 28"
    using hot_words [where 'e = 'e] unfolding sem_def by blast
  have "dispatcher_prologue = seq (?p @ ?h)" by (simp add: dispatcher_prologue_def del: seq.simps)
  then have "emits (dispatcher_prologue :: 'e em) (p @ h)"
    using emits_append [OF p(2) h(1)] by (simp only:)
  with p h show ?thesis by blast
qed

lemma block_links:
  assumes "decode_insts ends_block (Decoder_new bytes rip) [] = (Ok insts, dd)"
    "list_all integer_core (butlast insts)" "branch_ok (last insts)"
  shows "\<exists>blk ws. translate_for_dispatcher bytes rip Long = Ok blk \<and> host_bytes blk = concat (map u32_to_le ws) \<and>
     (4 * length ws < 2 ^ 32 \<longrightarrow> (\<forall>cm a ws' s. linked d a (chain_patches blk) 0 ws ws' \<longrightarrow> holds cm a ws' \<longrightarrow>
        msteps cm (a, s) (a + 16, enter s) \<and>
        block_end d cm (xr s 28) (spr s + 48) (run_block insts (ctx_state s)) (a + 16, s)))"
proof -
  obtain p h g where p: "length p = 4" "emits (dispatcher_prologue :: block_error em) (p @ h)"
    "\<And>s. a64_run p s = Some (enter s)"
    and h: "\<And>s. a64_run h s = Some (g s) \<and> guest (g s) = ctx_state s \<and> spr (g s) = spr s \<and> xr (g s) 28 = xr s 28"
    using prologue_words [where 'e = block_error] by blast
  obtain b f where b: "emits (lift_body False bytes rip (butlast insts)) b" "\<And>s. a64_run b s = Some (f s)"
    and f: "\<And>s. guest (f s) = fold x86_step (butlast insts) (guest s) \<and> keeps_host s (f s)"
    using lift_body_simulates [OF assms(2), of False bytes rip] by (auto simp: simulates_def sem_def)
  let ?pre = "p @ h @ b" and ?e = "new_emitter\<lparr>em_code := p @ h @ b\<rparr>"
  obtain ps e1 e2 t where e: "emit_terminator (last insts) ?e = (Ok ps, e1)" "finish e1 = (Ok (), e2)" "em_code e2 = ?pre @ t"
    and t: "4 * length (em_code e2) < 2 ^ 32 \<Longrightarrow> (\<forall>i < length ?pre. of_nat (4 * i) \<notin> fst ` set ps)"
      "\<And>cm a b ws' s. 4 * length (em_code e2) < 2 ^ 32 \<Longrightarrow> b = a + of_nat (4 * length ?pre) \<Longrightarrow> linked d a ps (length ?pre) t ws' \<Longrightarrow>
          holds cm b ws' \<Longrightarrow> block_end d cm (xr s 28) (spr s + 48) (x86_branch (last insts) (guest s)) (b, s)"
    using terminator_ends [OF assms(3), of d] unfolding ends_def
    by (auto simp: new_emitter_def simp del: of_nat_mult dest!: spec [of _ ?e])
  let ?blk = "\<lparr>host_bytes = em_bytes e2, guest_len = d_pos dd, chain_patches = ps\<rparr>"
  have blk: "translate_for_dispatcher bytes rip Long = Ok ?blk"
    using assms(1) p(2) b(1) e
    by (simp add: translate_for_dispatcher_def map_err_def emits_def new_emitter_def)
  have "msteps cm (a, s) (a + 16, enter s) \<and>
      block_end d cm (xr s 28) (spr s + 48) (run_block insts (ctx_state s)) (a + 16, s)"
    if room: "4 * length (em_code e2) < 2 ^ 32" and l: "linked d a ps 0 (?pre @ t) ws'" and hs: "holds cm a ws'" for cm a ws' s
  proof -
    obtain pre t' where ws': "ws' = pre @ t'" "linked d a ps 0 ?pre pre" "linked d a ps (length ?pre) t t'"
      using l unfolding linked_append [of _ _ _ _ ?pre] by auto
    have "pre = ?pre" by (rule linked_same [OF ws'(2)]) (use t(1) [OF room] in auto)
    then have hs: "holds cm a p" "holds cm (a + 16) (h @ b)" "holds cm (a + of_nat (4 * length ?pre)) t'"
      using hs p(1) unfolding ws'(1) by (simp_all add: holds_append algebra_simps)
    have "a + 16 + of_nat (4 * length (h @ b)) = a + of_nat (4 * length ?pre)" using p(1) by (simp add: algebra_simps)
    moreover have "a64_run (h @ b) s = Some (f (g s))" using h b(2) by (simp add: a64_run_append)
    ultimately have "msteps cm (a + 16, s) (a + of_nat (4 * length ?pre), f (g s))"
      using run_msteps [OF hs(2)] by metis
    moreover have "block_end d cm (xr s 28) (spr s + 48) (run_block insts (ctx_state s)) (a + of_nat (4 * length ?pre), f (g s))"
      using t(2) [OF room refl ws'(3) hs(3), of "f (g s)"] h [of s] f [of "g s"] by (simp add: keeps_host_def run_block_def)
    ultimately have "block_end d cm (xr s 28) (spr s + 48) (run_block insts (ctx_state s)) (a + 16, s)"
      by (rule block_end_msteps)
    moreover have "msteps cm (a, s) (a + 16, enter s)" using run_msteps [OF hs(1) p(3)] p(1) by simp
    ultimately show ?thesis by simp
  qed
  with blk e(3) show ?thesis by (intro exI [of _ ?blk] exI [of _ "?pre @ t"]) (simp add: em_bytes_def)
qed

section \<open>The code cache holds linked blocks\<close>

lemma chained_words:
  assumes c: "chained_code d a blk bs" and blk: "guest_block img rip = Ok blk" "length (host_bytes blk) < 2 ^ 32"
    and ws: "host_bytes blk = concat (map u32_to_le ws)"
  shows "linked d a (chain_patches blk) 0 ws (map (\<lambda>i. u32_from_le (take 4 (drop (4 * i) bs))) [0..<length ws])"
proof -
  have len: "length bs = 4 * length ws"
  proof -
    have "length (host_bytes blk) = 4 * length ws" unfolding ws by (induction ws) simp_all
    with c show ?thesis by (simp add: chained_code_def)
  qed
  have "relinked d a (chain_patches blk) i (ws ! i) (u32_from_le (take 4 (drop (4 * i) bs)))" if i: "i < length ws" for i
  proof -
    have host: "take 4 (drop (4 * i) (host_bytes blk)) = u32_to_le (ws ! i)"
      using get_range_words [OF i] by (simp add: get_range_Some ws)
    have "4 * i < 2 ^ 32" using i len blk(2) c by (simp add: chained_code_def)
    then have u: "unat (of_nat (4 * i) :: u32) = 4 * i" by (simp add: unsigned_of_nat take_bit_nat_eq_self del: of_nat_mult)
    then have uc: "ucast (of_nat (4 * i) :: u32) = (of_nat (4 * i) :: u64)" by (metis of_nat_unat)
    show ?thesis
    proof (cases "\<exists>t. (of_nat (4 * i), t) \<in> set (chain_patches blk)")
      case True
      then obtain t where t: "(of_nat (4 * i), t) \<in> set (chain_patches blk)" by blast
      then have "\<exists>w. get_range bs (unat (of_nat (4 * i) :: u32)) 4 = Some (u32_to_le w) \<and>
          (w = PLACEHOLDER \<or> leads_to d (a + ucast (of_nat (4 * i) :: u32)) t w)"
        using c unfolding chained_code_def by blast
      then obtain w where w: "get_range bs (4 * i) 4 = Some (u32_to_le w)" "w = PLACEHOLDER \<or> leads_to d (a + of_nat (4 * i)) t w"
        unfolding u uc by blast
      have "u32_from_le (take 4 (drop (4 * i) bs)) = w"
        using w(1) by (metis get_range_Some u32_le_roundtrip)
      moreover have "u32_to_le (ws ! i) = u32_to_le PLACEHOLDER"
        using translate_sites_apart(1) [OF blk t] host unfolding u by (simp add: get_range_Some)
      then have "ws ! i = PLACEHOLDER" by (metis u32_le_roundtrip)
      ultimately show ?thesis using w(2) t unfolding relinked_def by (auto simp del: of_nat_mult)
    next
      case False
      have "bs ! (4 * i + k) = host_bytes blk ! (4 * i + k)" if k: "k < 4" for k
      proof -
        have "4 * i + k < unat off \<or> unat off + 4 \<le> 4 * i + k" if off: "(off, t) \<in> set (chain_patches blk)" for off t
        proof (rule ccontr)
          assume n: "\<not> (4 * i + k < unat off \<or> unat off + 4 \<le> 4 * i + k)"
          obtain m where m: "unat off = 4 * m" using translate_sites_apart(3) [OF blk off] by (auto simp: mod_eq_0_iff_dvd)
          have "m = i" using n k unfolding m by presburger
          then have "off = of_nat (4 * i)" using m by (metis of_nat_unat ucast_id)
          with False off show False by blast
        qed
        then have "\<forall>(off, t) \<in> set (chain_patches blk). 4 * i + k < unat off \<or> unat off + 4 \<le> 4 * i + k" by blast
        moreover have "4 * i + k < length bs" using i k len by simp
        ultimately show ?thesis using c unfolding chained_code_def by blast
      qed
      then have "take 4 (drop (4 * i) bs) = take 4 (drop (4 * i) (host_bytes blk))"
        using c i len by (intro nth_equalityI) (auto simp: chained_code_def)
      then show ?thesis unfolding host relinked_def by simp
    qed
  qed
  then show ?thesis by (simp add: linked_def)
qed

lemma fetch_holds:
  assumes "represents d L" "cache_ok (di_cache d)" "(rip, off, bs) \<in> set L" "length bs = 4 * n"
  shows "holds (fetch d) (cc_base (di_cache d) + of_nat off) (map (\<lambda>i. u32_from_le (take 4 (drop (4 * i) bs))) [0..<n])"
  unfolding holds_def
proof (intro allI impI)
  let ?b = "cc_base (di_cache d)" and ?m = "r_mem (cc_region (di_cache d))"
  fix i assume "i < length (map (\<lambda>i. u32_from_le (take 4 (drop (4 * i) bs))) [0..<n])"
  then have i: "i < n" by simp
  have e: "get_range ?m off (length bs) = Some bs"
    using assms(1,3) by (auto simp: represents_def list_all_iff entry_ok_def)
  have "off + 4 * i < 2 ^ 64" using entry_room [OF assms(1,3)] assms(2,4) i by (simp add: cache_ok_def)
  then have "unat (of_nat (off + 4 * i) :: u64) = off + 4 * i" by (simp add: unsigned_of_nat take_bit_nat_eq_self del: of_nat_add of_nat_mult)
  moreover have "?b + of_nat off + of_nat (4 * i) - ?b = of_nat (off + 4 * i)" by simp
  ultimately have u: "unat (?b + of_nat off + of_nat (4 * i) - ?b) = off + 4 * i" by (simp only:)
  have "get_range ?m (off + 4 * i) 4 = Some (take 4 (drop (4 * i) bs))"
    using e assms(4) i by (auto simp: get_range_Some drop_take add.commute min_def)
  then show "fetch d (?b + of_nat off + of_nat (4 * i)) = Some (map (\<lambda>i. u32_from_le (take 4 (drop (4 * i) bs))) [0..<n] ! i)"
    using i unfolding fetch_def u by simp
qed

text \<open>A 64-bit block in the subset for which translation is exact.\<close>

definition supported_block :: "loaded_image \<Rightarrow> u64 \<Rightarrow> inst list \<Rightarrow> bool" where
  "supported_block img rip insts \<longleftrightarrow> img_bitness img = X86_64 \<and>
     (\<exists>bytes dd. decode_window img rip = Ok bytes \<and> decode_insts ends_block (Decoder_new bytes rip) [] = (Ok insts, dd)) \<and>
     list_all integer_core (butlast insts) \<and> branch_ok (last insts)"

lemma cached_block:
  assumes i: "code_inv img d L" "cache_ok (di_cache d)" and p: "di_lookup d rip = Some p" and sup: "supported_block img rip insts"
  shows "msteps (fetch d) (p, s) (p + 16, enter s)"
    "block_end d (fetch d) (xr s 28) (spr s + 48) (run_block insts (ctx_state s)) (p + 16, s)"
proof -
  have rep: "represents d L" using i(1) by (simp add: code_inv_def)
  obtain off bs where e: "(rip, off, bs) \<in> set L" "p = cc_base (di_cache d) + of_nat off" using lookup_placed [OF rep p] by blast
  obtain blk where blk: "guest_block img rip = Ok blk" "chained_code d p blk bs" using i(1) e unfolding code_inv_def by auto
  obtain bytes dd where b: "decode_window img rip = Ok bytes" "decode_insts ends_block (Decoder_new bytes rip) [] = (Ok insts, dd)"
    "list_all integer_core (butlast insts)" "branch_ok (last insts)" "img_bitness img = X86_64"
    using sup by (auto simp: supported_block_def)
  from block_links [OF b(2,3,4), of d] obtain blk' ws where t: "translate_for_dispatcher bytes rip Long = Ok blk'" and
    ws: "host_bytes blk' = concat (map u32_to_le ws)" and
    run: "4 * length ws < 2 ^ 32 \<Longrightarrow> (\<forall>cm a ws' s. linked d a (chain_patches blk') 0 ws ws' \<longrightarrow> holds cm a ws' \<longrightarrow>
      msteps cm (a, s) (a + 16, enter s) \<and>
      block_end d cm (xr s 28) (spr s + 48) (run_block insts (ctx_state s)) (a + 16, s))"
    by blast
  have "blk' = blk" using blk(1) t b(1,5) by (simp add: guest_block_def mode_of_def)
  note ws = ws [unfolded this] and run = run [unfolded this]
  have "length (concat (map u32_to_le ws)) = 4 * length ws" by (induction ws) simp_all
  then have len: "length (host_bytes blk) = 4 * length ws" "length bs = 4 * length ws"
    using ws blk(2) by (simp_all add: chained_code_def)
  then have small: "length (host_bytes blk) < 2 ^ 32" "4 * length ws < 2 ^ 32"
    using entry_room [OF rep e(1)] i(2) by (simp_all add: cache_ok_def)
  note l = chained_words [OF blk(2,1) small(1) ws]
  note h = fetch_holds [OF rep i(2) e(1) len(2), folded e(2)]
  from run [OF small(2)] l h show "msteps (fetch d) (p, s) (p + 16, enter s)"
    "block_end d (fetch d) (xr s 28) (spr s + 48) (run_block insts (ctx_state s)) (p + 16, s)"
    by blast+
qed

section \<open>Runs through the cache\<close>

text \<open>One hop of the guest: a block from the state \<open>st\<close>, then the passage through the context to the next block.\<close>

inductive hop :: "loaded_image \<Rightarrow> u64 \<Rightarrow> u64 \<times> x86 \<Rightarrow> u64 \<times> x86 \<Rightarrow> bool" for img ctx where
  hop: "supported_block img rip insts \<Longrightarrow> run_block insts st = (t, st1) \<Longrightarrow> via_context ctx st1 st2 \<Longrightarrow>
    hop img ctx (rip, st) (t, st2)"

text \<open>
  \<open>at_hot\<close>: the processor is at the hot entry of the block for the guest address of \<open>g\<close>, with the guest state of \<open>g\<close>
  in the context. \<open>at_ret\<close>: it has reached the \<open>RET\<close> of that block and returns its result.
\<close>

definition at_hot :: "dispatcher \<Rightarrow> u64 \<Rightarrow> u64 \<Rightarrow> u64 \<times> x86 \<Rightarrow> u64 \<times> a64 \<Rightarrow> bool" where
  "at_hot d ctx sp g c \<longleftrightarrow> (\<exists>p. di_lookup d (fst g) = Some p \<and> fst c = p + ucast DISPATCHER_HOT_ENTRY_OFFSET \<and>
     xr (snd c) 28 = ctx \<and> spr (snd c) + 48 = sp \<and> snd g = ctx_state (snd c))"

definition at_ret :: "dispatcher \<Rightarrow> loaded_image \<Rightarrow> u64 \<Rightarrow> u64 \<Rightarrow> u64 \<times> x86 \<Rightarrow> u64 \<times> a64 \<Rightarrow> bool" where
  "at_ret d img ctx sp g c \<longleftrightarrow> fetch d (fst c) = Some RET_WORD \<and>
     (\<exists>insts. supported_block img (fst g) insts \<and> exit_ok ctx sp (run_block insts (snd g)) (snd c))"

lemma hot_runs:
  assumes inv: "code_inv img d L" "cache_ok (di_cache d)"
    and sup: "\<And>rip p. di_lookup d rip = Some p \<Longrightarrow> \<exists>insts. supported_block img rip insts"
  shows "at_hot d ctx sp g c \<Longrightarrow> \<exists>i \<le> k. \<exists>g' c'. msteps (fetch d) c c' \<and> (hop img ctx ^^ i) g g' \<and>
     (at_ret d img ctx sp g' c' \<or> i = k \<and> at_hot d ctx sp g' c')"
proof (induction k arbitrary: g c)
  case 0
  then show ?case by (simp del: split_paired_Ex) blast
next
  case (Suc k)
  obtain rip st q s where gc: "g = (rip, st)" "c = (q, s)" by (cases g, cases c) auto
  obtain p where p: "di_lookup d rip = Some p" and c: "q = p + 16" "xr s 28 = ctx" "spr s + 48 = sp" "st = ctx_state s"
    using Suc.prems by (auto simp: at_hot_def gc DISPATCHER_HOT_ENTRY_OFFSET_def)
  obtain insts where insts: "supported_block img rip insts" using sup [OF p] by blast
  obtain t st1 where r: "run_block insts st = (t, st1)" by (cases "run_block insts st")
  from cached_block(2) [OF inv p insts, of s] obtain q1 s1 where m: "msteps (fetch d) c (q1, s1)" and
    e: "fetch d q1 = Some RET_WORD \<and> exit_ok ctx sp (run_block insts st) s1 \<or>
      (\<exists>p. di_lookup d t = Some p \<and> q1 = p + ucast DISPATCHER_HOT_ENTRY_OFFSET \<and> handed ctx sp st1 s1)"
    unfolding block_end_def gc c(1) c(2-4) [symmetric] r by auto
  from e show ?case
  proof
    assume "fetch d q1 = Some RET_WORD \<and> exit_ok ctx sp (run_block insts st) s1"
    then have "at_ret d img ctx sp g (q1, s1)" using insts by (auto simp: at_ret_def gc)
    with m show ?thesis by (intro exI [of _ 0]) (simp del: split_paired_Ex, blast)
  next
    assume "\<exists>p. di_lookup d t = Some p \<and> q1 = p + ucast DISPATCHER_HOT_ENTRY_OFFSET \<and> handed ctx sp st1 s1"
    then have h: "at_hot d ctx sp (t, ctx_state s1) (q1, s1)" and v: "via_context ctx st1 (ctx_state s1)"
      by (auto simp: at_hot_def handed_def)
    have "hop img ctx g (t, ctx_state s1)" unfolding gc by (rule hop.hop [OF insts r v])
    moreover obtain i g' c' where "i \<le> k" "msteps (fetch d) (q1, s1) c'" "(hop img ctx ^^ i) (t, ctx_state s1) g'"
      "at_ret d img ctx sp g' c' \<or> i = k \<and> at_hot d ctx sp g' c'" using Suc.IH [OF h] by blast
    ultimately have "Suc i \<le> Suc k \<and> msteps (fetch d) c c' \<and> (hop img ctx ^^ Suc i) g g' \<and>
        (at_ret d img ctx sp g' c' \<or> Suc i = Suc k \<and> at_hot d ctx sp g' c')"
      using m by (auto intro: rtranclp_trans relpowp_Suc_I2 simp del: relpowp.simps)
    then show ?thesis by blast
  qed
qed

text \<open>
  C2: chaining is transparent. Let the code cache hold translated blocks whose patch sites are placeholders or lead
  to the block of their target, and let every block in it be in the supported subset. The processor, entering the
  block for a guest address with a context in X0, follows the guest: for every bound \<open>k\<close> it either reaches,
  after at most \<open>k\<close> guest blocks run one after the other through the context, the \<open>RET\<close> of the last of
  them with its result (next guest address in X0, registers in the context, memory, flags, stack pointer), or
  is still running after \<open>k\<close> blocks and stands at the hot entry of the next one with the guest state in the context.
\<close>

theorem chained_execution:
  assumes "code_inv img d L" "cache_ok (di_cache d)"
    and "\<forall>rip p. di_lookup d rip = Some p \<longrightarrow> (\<exists>insts. supported_block img rip insts)"
    and "di_lookup d rip = Some p"
  shows "\<exists>i \<le> k. \<exists>g' c'. msteps (fetch d) (p, s) c' \<and> (hop img (xr s 0) ^^ i) (rip, entry_state s) g' \<and>
     (at_ret d img (xr s 0) (spr s) g' c' \<or> i = k \<and> at_hot d (xr s 0) (spr s) g' c')"
proof -
  obtain insts where sup: "supported_block img rip insts" using assms(3,4) by blast
  have m: "msteps (fetch d) (p, s) (p + 16, enter s)" by (rule cached_block(1) [OF assms(1,2,4) sup])
  have "at_hot d (xr s 0) (spr s) (rip, entry_state s) (p + 16, enter s)"
    using assms(4) by (simp add: at_hot_def DISPATCHER_HOT_ENTRY_OFFSET_def)
  then obtain i g' c' where "i \<le> k" "msteps (fetch d) (p + 16, enter s) c'" "(hop img (xr s 0) ^^ i) (rip, entry_state s) g'"
    "at_ret d img (xr s 0) (spr s) g' c' \<or> i = k \<and> at_hot d (xr s 0) (spr s) g' c'"
    using hot_runs [OF assms(1,2), where k = k] assms(3) by blast
  with rtranclp_trans [OF m] show ?thesis by blast
qed

lemma self_linked:
  "\<exists>d L. code_inv self_img d L \<and> cache_ok (di_cache d) \<and> di_lookup d = [0x1000 \<mapsto> 0x10000]"
proof -
  obtain d where d: "dispatcher_new unit_host () 0x1000 = (Ok d, ())" "cache_ok (di_cache d)"
    and e: "di_lookup d 0x1000 = None" "cc_used (di_cache d) = 0" "cc_base (di_cache d) = 0x10000" "cc_capacity (di_cache d) = 0x1000"
    using self_dispatcher by blast
  let ?st = "\<lparr>rs_disp = d, rs_unpatched = Mapping.empty\<rparr>"
  have i: "chain_inv self_img ?st []"
    using new_represents [OF d(1)] by (simp add: chain_inv_def code_inv_def pending_inv_def lookup_empty)
  have l0: "di_lookup d = Map.empty"
    using new_represents [OF d(1)] by (simp add: represents_def log_lookup_def)
  obtain st where f: "find_block unit_host self_img 0x1000 ?st () = (Ok 0x10000, st, ())"
    and l: "di_lookup (rs_disp st) = [0x1000 \<mapsto> 0x10000]"
    using self_found [OF e] l0 by auto
  obtain L where L: "chain_inv self_img st L" "same_cache d (rs_disp st)" using find_block_Ok [OF i _ f] d(2) by auto
  have ok: "cache_ok (di_cache (rs_disp st))" using d(2) L(2) by (simp add: cache_ok_def same_cache_def)
  obtain r st' k' where p: "patch_pending unit_host 0x1000 0x10000 st () = (r, st', k')" by (metis prod_cases3)
  from patch_pending_inv [OF L(1) ok _ p] l ok show ?thesis
    unfolding chain_inv_def same_cache_def cache_ok_def by fastforce
qed

theorem chained_execution_witness:
  "\<exists>d. di_lookup d 0x1000 = Some 0x10000 \<and> (\<forall>s k. \<exists>i \<le> k. \<exists>g' c'. msteps (fetch d) (0x10000, s) c' \<and>
     (hop self_img (xr s 0) ^^ i) (0x1000, entry_state s) g' \<and>
     (at_ret d self_img (xr s 0) (spr s) g' c' \<or> i = k \<and> at_hot d (xr s 0) (spr s) g' c'))"
proof -
  obtain d L where d: "code_inv self_img d L" "cache_ok (di_cache d)" and l: "di_lookup d = [0x1000 \<mapsto> 0x10000]"
    using self_linked by blast
  have "supported_block self_img 0x1000 [self_inst]"
    using self_window self_decodes
    by (simp add: supported_block_def self_inst_def branch_ok_def has_imm_def operand_at_def del: decode_insts.simps)
      (simp add: self_img_def)
  then have sup: "\<forall>rip p. di_lookup d rip = Some p \<longrightarrow> (\<exists>insts. supported_block self_img rip insts)"
    by (auto simp: l split: if_splits)
  have l: "di_lookup d 0x1000 = Some 0x10000" by (simp add: l)
  show ?thesis using l chained_execution [OF d sup l] by blast
qed

end
