(* ===== verification/Critical_Section.thy ===== *)
theory Critical_Section
  imports Prelude
begin

text \<open>
  Critical sections (\<open>quantum-kernel32/src/sync.rs\<close>) under every interleaving of any number of threads. Each
  atomic operation of \<open>EnterCriticalSection\<close>, \<open>TryEnterCriticalSection\<close> and \<open>LeaveCriticalSection\<close> is one step
  of the thread that executes it; the program point between two atomic operations is a \<open>cs_pc\<close>. Steps of
  threads interleave freely and are seen by all in the same order. A call on a null pointer returns at once, without
  a step. The thread-local last-error cell is a function of the thread.
\<close>

section \<open>The data structure and its operations\<close>

record critical_section =
  lock_count :: u32
  owner_thread_id :: u32

definition InitializeCriticalSection :: "critical_section \<Rightarrow> critical_section" where
  "InitializeCriticalSection s = s\<lparr>lock_count := 0, owner_thread_id := 0\<rparr>"

definition InitializeCriticalSectionAndSpinCount :: "critical_section \<Rightarrow> u32 \<Rightarrow> int \<times> critical_section" where
  "InitializeCriticalSectionAndSpinCount s spin = (1, InitializeCriticalSection s)"

definition DeleteCriticalSection :: "critical_section \<Rightarrow> critical_section" where
  "DeleteCriticalSection s = s"

text \<open>Program points: the atomic operation a thread executes next; \<open>CS_Idle\<close> is outside the three functions.\<close>

datatype cs_pc =
    CS_Idle
  | Enter_Load | Enter_Add | Enter_Cas | Enter_Store
  | Try_Load | Try_Add | Try_Cas | Try_Store
  | Leave_Sub | Leave_Store

definition enter_step :: "u32 \<Rightarrow> cs_pc \<Rightarrow> critical_section \<Rightarrow> cs_pc \<times> critical_section" where
  "enter_step tid pc s =
     (case pc of
        Enter_Load \<Rightarrow> (if owner_thread_id s = tid then Enter_Add else Enter_Cas, s)
      | Enter_Add \<Rightarrow> (CS_Idle, s\<lparr>lock_count := lock_count s + 1\<rparr>)
      | Enter_Cas \<Rightarrow> if lock_count s = 0 then (Enter_Store, s\<lparr>lock_count := 1\<rparr>) else (Enter_Load, s)
      | Enter_Store \<Rightarrow> (CS_Idle, s\<lparr>owner_thread_id := tid\<rparr>)
      | _ \<Rightarrow> (pc, s))"

definition try_step :: "u32 \<Rightarrow> cs_pc \<Rightarrow> critical_section \<Rightarrow> cs_pc \<times> critical_section" where
  "try_step tid pc s =
     (case pc of
        Try_Load \<Rightarrow> (if owner_thread_id s = tid then Try_Add else Try_Cas, s)
      | Try_Add \<Rightarrow> (CS_Idle, s\<lparr>lock_count := lock_count s + 1\<rparr>)
      | Try_Cas \<Rightarrow> if lock_count s = 0 then (Try_Store, s\<lparr>lock_count := 1\<rparr>) else (CS_Idle, s)
      | Try_Store \<Rightarrow> (CS_Idle, s\<lparr>owner_thread_id := tid\<rparr>)
      | _ \<Rightarrow> (pc, s))"

definition leave_step :: "u32 \<Rightarrow> cs_pc \<Rightarrow> critical_section \<Rightarrow> cs_pc \<times> critical_section" where
  "leave_step tid pc s =
     (case pc of
        Leave_Sub \<Rightarrow> (if lock_count s \<le> 1 then Leave_Store else CS_Idle, s\<lparr>lock_count := lock_count s - 1\<rparr>)
      | Leave_Store \<Rightarrow> (CS_Idle, s\<lparr>owner_thread_id := 0\<rparr>)
      | _ \<Rightarrow> (pc, s))"

text \<open>Where a call starts, and what \<open>TryEnterCriticalSection\<close> returns at the operation that ends it.\<close>

definition EnterCriticalSection :: "bool \<Rightarrow> cs_pc" where
  "EnterCriticalSection cs_is_null = (if cs_is_null then CS_Idle else Enter_Load)"

definition LeaveCriticalSection :: "bool \<Rightarrow> cs_pc" where
  "LeaveCriticalSection cs_is_null = (if cs_is_null then CS_Idle else Leave_Sub)"

definition TryEnterCriticalSection :: "bool \<Rightarrow> int option \<times> cs_pc" where
  "TryEnterCriticalSection cs_is_null = (if cs_is_null then (Some 0, CS_Idle) else (None, Try_Load))"

definition try_result :: "cs_pc \<Rightarrow> critical_section \<Rightarrow> int option" where
  "try_result pc s =
     (case pc of
        Try_Add \<Rightarrow> Some 1
      | Try_Cas \<Rightarrow> if lock_count s = 0 then None else Some 0
      | Try_Store \<Rightarrow> Some 1
      | _ \<Rightarrow> None)"

definition cs_advance :: "u32 \<Rightarrow> cs_pc \<Rightarrow> critical_section \<Rightarrow> cs_pc \<times> critical_section" where
  "cs_advance tid pc s =
     (if pc \<in> {Enter_Load, Enter_Add, Enter_Cas, Enter_Store} then enter_step tid pc s
      else if pc \<in> {Try_Load, Try_Add, Try_Cas, Try_Store} then try_step tid pc s
      else leave_step tid pc s)"

definition SetLastError :: "u32 \<Rightarrow> (u32 \<Rightarrow> u32) \<Rightarrow> u32 \<Rightarrow> (u32 \<Rightarrow> u32)" where
  "SetLastError tid last_error c = last_error(tid := c)"

definition GetLastError :: "u32 \<Rightarrow> (u32 \<Rightarrow> u32) \<Rightarrow> u32" where
  "GetLastError tid last_error = last_error tid"

section \<open>Threads\<close>

text \<open>
  The system: the section, where each thread is, and how often each thread has entered without leaving. Threads
  have a non-zero identity, call \<open>Leave\<close> only inside the section, and do not nest \<open>2 ^ 32 - 1\<close> deep.
\<close>

record cs_system =
  cs_mem :: critical_section
  cs_pcs :: "u32 \<Rightarrow> cs_pc"
  cs_held :: "u32 \<Rightarrow> nat"

definition cs_init :: "critical_section \<Rightarrow> cs_system" where
  "cs_init s = \<lparr>cs_mem = InitializeCriticalSection s, cs_pcs = (\<lambda>_. CS_Idle), cs_held = (\<lambda>_. 0)\<rparr>"

definition at_pc :: "u32 \<Rightarrow> cs_pc \<Rightarrow> cs_system \<Rightarrow> cs_system" where
  "at_pc t pc \<sigma> = \<sigma>\<lparr>cs_pcs := (cs_pcs \<sigma>)(t := pc)\<rparr>"

text \<open>How the operation at a program point changes the number of entries of its thread.\<close>

definition held_after :: "cs_pc \<Rightarrow> critical_section \<Rightarrow> nat \<Rightarrow> nat" where
  "held_after pc s n =
     (if pc \<in> {Enter_Add, Try_Add} \<or> pc \<in> {Enter_Cas, Try_Cas} \<and> lock_count s = 0 then n + 1
      else if pc = Leave_Sub then n - 1 else n)"

inductive cs_step :: "cs_system \<Rightarrow> cs_system \<Rightarrow> bool" where
  call_enter: "t \<noteq> 0 \<Longrightarrow> cs_pcs \<sigma> t = CS_Idle \<Longrightarrow> cs_step \<sigma> (at_pc t Enter_Load \<sigma>)"
| call_try: "t \<noteq> 0 \<Longrightarrow> cs_pcs \<sigma> t = CS_Idle \<Longrightarrow> cs_step \<sigma> (at_pc t Try_Load \<sigma>)"
| call_leave: "t \<noteq> 0 \<Longrightarrow> cs_pcs \<sigma> t = CS_Idle \<Longrightarrow> 0 < cs_held \<sigma> t \<Longrightarrow> cs_step \<sigma> (at_pc t Leave_Sub \<sigma>)"
| advance: "cs_pcs \<sigma> t = pc \<Longrightarrow> pc \<noteq> CS_Idle \<Longrightarrow> cs_advance t pc (cs_mem \<sigma>) = (pc', s') \<Longrightarrow>
    pc \<in> {Enter_Add, Try_Add} \<longrightarrow> cs_held \<sigma> t < 2 ^ 32 - 1 \<Longrightarrow>
    cs_step \<sigma> (at_pc t pc' (\<sigma>\<lparr>cs_mem := s', cs_held := (cs_held \<sigma>)(t := held_after pc (cs_mem \<sigma>) (cs_held \<sigma> t))\<rparr>))"

inductive_cases cs_stepE: "cs_step \<sigma> \<sigma>'"

definition cs_reachable :: "critical_section \<Rightarrow> cs_system \<Rightarrow> bool" where
  "cs_reachable s \<sigma> \<longleftrightarrow> cs_step\<^sup>*\<^sup>* (cs_init s) \<sigma>"

section \<open>The invariant\<close>

text \<open>
  The count is the number of entries of the one thread that is inside. The owner field may name a thread only while
  that thread is inside or about to clear the field; a thread that has seen itself as owner is inside.
\<close>

definition cs_inv :: "cs_system \<Rightarrow> bool" where
  "cs_inv \<sigma> \<longleftrightarrow>
     (\<exists>h. (\<forall>t. t \<noteq> h \<longrightarrow> cs_held \<sigma> t = 0) \<and> unat (lock_count (cs_mem \<sigma>)) = cs_held \<sigma> h) \<and>
     (\<forall>t. cs_held \<sigma> t < 2 ^ 32) \<and>
     (\<forall>t. t \<noteq> 0 \<longrightarrow> owner_thread_id (cs_mem \<sigma>) = t \<longrightarrow> 0 < cs_held \<sigma> t \<or> cs_pcs \<sigma> t = Leave_Store) \<and>
     (\<forall>t. cs_pcs \<sigma> t \<in> {Enter_Add, Try_Add, Enter_Store, Try_Store, Leave_Sub} \<longrightarrow> 0 < cs_held \<sigma> t) \<and>
     (\<forall>t. cs_pcs \<sigma> t \<noteq> CS_Idle \<longrightarrow> t \<noteq> 0)"

lemma cs_inv_init: "cs_inv (cs_init s)"
  by (simp add: cs_inv_def cs_init_def InitializeCriticalSection_def)

lemma cs_inv_call:
  assumes "cs_inv \<sigma>" "t \<noteq> 0" "cs_pcs \<sigma> t = CS_Idle" "pc \<in> {Enter_Load, Try_Load} \<or> pc = Leave_Sub \<and> 0 < cs_held \<sigma> t"
  shows "cs_inv (at_pc t pc \<sigma>)"
  using assms unfolding cs_inv_def at_pc_def by auto

lemma at_pc_sel [simp]:
  "cs_mem (at_pc t pc \<sigma>) = cs_mem \<sigma>" "cs_held (at_pc t pc \<sigma>) = cs_held \<sigma>" "cs_pcs (at_pc t pc \<sigma>) = (cs_pcs \<sigma>)(t := pc)"
  by (simp_all add: at_pc_def)

lemma cs_invI:
  assumes "\<forall>t. t \<noteq> h \<longrightarrow> cs_held \<sigma> t = 0" "unat (lock_count (cs_mem \<sigma>)) = cs_held \<sigma> h" "cs_held \<sigma> h < 2 ^ 32"
    and "\<And>t. t \<noteq> 0 \<Longrightarrow> owner_thread_id (cs_mem \<sigma>) = t \<Longrightarrow> 0 < cs_held \<sigma> t \<or> cs_pcs \<sigma> t = Leave_Store"
    and "\<And>t. cs_pcs \<sigma> t \<in> {Enter_Add, Try_Add, Enter_Store, Try_Store, Leave_Sub} \<Longrightarrow> 0 < cs_held \<sigma> t"
    and "\<And>t. cs_pcs \<sigma> t \<noteq> CS_Idle \<Longrightarrow> t \<noteq> 0"
  shows "cs_inv \<sigma>"
proof -
  have "cs_held \<sigma> t < 2 ^ 32" for t using assms(1,3) by (cases "t = h") auto
  with assms show ?thesis unfolding cs_inv_def by blast
qed

lemma cs_inv_advance:
  assumes inv: "cs_inv \<sigma>" and pc: "cs_pcs \<sigma> t = pc" "pc \<noteq> CS_Idle" and adv: "cs_advance t pc (cs_mem \<sigma>) = (pc', s')"
    and lim: "pc \<in> {Enter_Add, Try_Add} \<longrightarrow> cs_held \<sigma> t < 2 ^ 32 - 1"
  shows "cs_inv (at_pc t pc' (\<sigma>\<lparr>cs_mem := s', cs_held := (cs_held \<sigma>)(t := held_after pc (cs_mem \<sigma>) (cs_held \<sigma> t))\<rparr>))"
    (is "cs_inv ?\<sigma>")
proof -
  let ?s = "cs_mem \<sigma>" and ?n = "held_after pc (cs_mem \<sigma>) (cs_held \<sigma> t)"
  obtain h where h: "\<forall>t. t \<noteq> h \<longrightarrow> cs_held \<sigma> t = 0" "unat (lock_count ?s) = cs_held \<sigma> h"
    and lt: "cs_held \<sigma> h < 2 ^ 32"
    using inv unfolding cs_inv_def by blast
  have own: "\<And>u. u \<noteq> 0 \<Longrightarrow> owner_thread_id ?s = u \<Longrightarrow> 0 < cs_held \<sigma> u \<or> cs_pcs \<sigma> u = Leave_Store"
    and pos: "\<And>u. cs_pcs \<sigma> u \<in> {Enter_Add, Try_Add, Enter_Store, Try_Store, Leave_Sub} \<Longrightarrow> 0 < cs_held \<sigma> u"
    and nz: "\<And>u. cs_pcs \<sigma> u \<noteq> CS_Idle \<Longrightarrow> u \<noteq> 0"
    using inv unfolding cs_inv_def by blast+
  have t0: "t \<noteq> 0" using nz pc by blast
  have out: "cs_pcs \<sigma> u \<noteq> Enter_Add" "cs_pcs \<sigma> u \<noteq> Try_Add" "cs_pcs \<sigma> u \<noteq> Enter_Store" "cs_pcs \<sigma> u \<noteq> Try_Store"
    "cs_pcs \<sigma> u \<noteq> Leave_Sub" if "cs_held \<sigma> u = 0" for u
    using pos [of u] that by auto
  note O = own [OF _ refl]
  have O': "0 < cs_held \<sigma> t" if "owner_thread_id ?s = t" "pc \<noteq> Leave_Store" using own [OF t0 that(1)] that(2) pc(1) by simp
  consider (load) "pc \<in> {Enter_Load, Try_Load}" | (add) "pc \<in> {Enter_Add, Try_Add}"
    | (cas) "pc \<in> {Enter_Cas, Try_Cas}" "lock_count ?s = 0" | (fail) "pc \<in> {Enter_Cas, Try_Cas}" "lock_count ?s \<noteq> 0"
    | (store) "pc \<in> {Enter_Store, Try_Store}" | (sub) "pc = Leave_Sub" | (clear) "pc = Leave_Store"
    using pc(2) by (cases pc) auto
  then show ?thesis
  proof cases
    case load
    then have s': "s' = ?s" "?n = cs_held \<sigma> t" and p': "pc' \<in> {Enter_Add, Try_Add} \<longrightarrow> owner_thread_id ?s = t" "pc' \<in> {Enter_Add, Try_Add, Enter_Cas, Try_Cas}"
      using adv by (auto simp: cs_advance_def enter_step_def try_step_def held_after_def split: if_splits)
    show ?thesis
      by (rule cs_invI [of h]) (use h lt O O' pos out nz s' p' pc load t0 in \<open>auto split: if_splits\<close>)
  next
    case add
    then have s': "s' = ?s\<lparr>lock_count := lock_count ?s + 1\<rparr>" "?n = Suc (cs_held \<sigma> t)" "pc' = CS_Idle"
      using adv by (auto simp: cs_advance_def enter_step_def try_step_def held_after_def)
    have "t = h" using pos [of t] add h(1) pc by auto
    moreover have "unat (lock_count ?s + 1) = Suc (cs_held \<sigma> h)"
      using lim add h(2) \<open>t = h\<close> by (auto simp: unat_word_ariths(1))
    ultimately show ?thesis
      using lim add by (intro cs_invI [of h]) (use h O O' pos out nz s' pc in \<open>auto split: if_splits\<close>)
  next
    case cas
    then have s': "s' = ?s\<lparr>lock_count := 1\<rparr>" "?n = Suc (cs_held \<sigma> t)" "pc' \<in> {Enter_Store, Try_Store}"
      using adv by (auto simp: cs_advance_def enter_step_def try_step_def held_after_def)
    have z: "cs_held \<sigma> u = 0" for u using h cas(2) by (cases "u = h") auto
    show ?thesis
      by (rule cs_invI [of t]) (use z O O' pos out nz s' pc t0 in \<open>auto split: if_splits\<close>)
  next
    case fail
    then have s': "s' = ?s" "?n = cs_held \<sigma> t" "pc' \<in> {Enter_Load, CS_Idle}"
      using adv by (auto simp: cs_advance_def enter_step_def try_step_def held_after_def)
    show ?thesis
      by (rule cs_invI [of h]) (use h lt O O' pos out nz s' pc fail(1) t0 in \<open>auto split: if_splits\<close>)
  next
    case store
    then have s': "s' = ?s\<lparr>owner_thread_id := t\<rparr>" "?n = cs_held \<sigma> t" "pc' = CS_Idle"
      using adv by (auto simp: cs_advance_def enter_step_def try_step_def held_after_def)
    have "0 < cs_held \<sigma> t" using pos [of t] store pc by auto
    then show ?thesis
      by (intro cs_invI [of h]) (use h lt pos out nz s' pc in \<open>auto split: if_splits\<close>)
  next
    case sub
    then have s': "s' = ?s\<lparr>lock_count := lock_count ?s - 1\<rparr>" "?n = cs_held \<sigma> t - 1"
      "pc' = (if lock_count ?s \<le> 1 then Leave_Store else CS_Idle)"
      using adv by (auto simp: cs_advance_def leave_step_def held_after_def)
    have t: "0 < cs_held \<sigma> t" using pos [of t] sub pc by auto
    then have "t = h" using h(1) by auto
    have u: "unat (lock_count ?s - 1) = cs_held \<sigma> h - 1"
      using h(2) t \<open>t = h\<close> by (subst unat_sub) (auto simp: word_le_nat_alt)
    have le: "lock_count ?s \<le> 1 \<longleftrightarrow> cs_held \<sigma> t \<le> 1" using h(2) \<open>t = h\<close> by (simp add: word_le_nat_alt)
    show ?thesis
      by (rule cs_invI [of h])
        (use h lt O O' pos out nz s' pc u le t \<open>t = h\<close> t0 in \<open>auto split: if_splits\<close>)
  next
    case clear
    then have s': "s' = ?s\<lparr>owner_thread_id := 0\<rparr>" "?n = cs_held \<sigma> t" "pc' = CS_Idle"
      using adv by (auto simp: cs_advance_def leave_step_def held_after_def)
    show ?thesis
      by (rule cs_invI [of h]) (use h lt pos out nz s' pc in \<open>auto split: if_splits\<close>)
  qed
qed

lemma cs_inv_step: "cs_step \<sigma> \<sigma>' \<Longrightarrow> cs_inv \<sigma> \<Longrightarrow> cs_inv \<sigma>'"
  by (induction rule: cs_step.induct) (auto intro: cs_inv_call cs_inv_advance)

lemma cs_inv_reachable: "cs_reachable s \<sigma> \<Longrightarrow> cs_inv \<sigma>"
  unfolding cs_reachable_def
  by (induction rule: rtranclp_induct) (auto intro: cs_inv_init cs_inv_step)

text \<open>
  When \<open>TryEnterCriticalSection\<close> returns 1 its thread is inside. A return of 0 does not say the converse: after the race
  below the thread inside fails to re-enter.
\<close>

lemma try_result_inside:
  assumes "cs_reachable s \<sigma>" "try_result (cs_pcs \<sigma> t) (cs_mem \<sigma>) = Some 1"
  shows "0 < held_after (cs_pcs \<sigma> t) (cs_mem \<sigma>) (cs_held \<sigma> t)"
  using assms cs_inv_reachable [OF assms(1)]
  by (cases "cs_pcs \<sigma> t") (auto simp: try_result_def held_after_def cs_inv_def split: if_splits)

text \<open>
  C33: mutual exclusion. Whatever threads call \<open>EnterCriticalSection\<close>, \<open>TryEnterCriticalSection\<close> and, once inside,
  \<open>LeaveCriticalSection\<close>, and however their atomic operations interleave, after initialisation at most one
  thread is inside the critical section at any time, and the lock count is the number of times that
  thread has entered without leaving.
\<close>

theorem critical_section_exclusive:
  assumes "cs_reachable s \<sigma>" "0 < cs_held \<sigma> t"
  shows "unat (lock_count (cs_mem \<sigma>)) = cs_held \<sigma> t \<and> (\<forall>u. u \<noteq> t \<longrightarrow> cs_held \<sigma> u = 0)"
  using cs_inv_reachable [OF assms(1)] assms(2) unfolding cs_inv_def by (metis less_irrefl)

section \<open>Releasing and entering again\<close>

text \<open>
  \<open>LeaveCriticalSection\<close> frees the count before it clears the owner. Thread 1 frees, thread 2 enters and
  stores itself as owner, thread 1 then clears the owner: thread 2 is inside a section without owner, and
  its next \<open>Enter\<close> waits for itself.
\<close>

definition cs_wedged :: "u32 \<Rightarrow> cs_system \<Rightarrow> bool" where
  "cs_wedged t \<sigma> \<longleftrightarrow> lock_count (cs_mem \<sigma>) = 1 \<and> owner_thread_id (cs_mem \<sigma>) = 0 \<and> cs_held \<sigma> t = 1 \<and>
     cs_pcs \<sigma> t \<in> {Enter_Load, Enter_Cas}"

lemma wedged_step:
  assumes "cs_step \<sigma> \<sigma>'" "cs_inv \<sigma>" "cs_wedged t \<sigma>"
  shows "cs_wedged t \<sigma>'"
proof -
  have others: "cs_held \<sigma> u = 0" if "u \<noteq> t" for u
    using assms(2,3) that unfolding cs_inv_def cs_wedged_def by (metis zero_neq_one)
  have pcs: "cs_pcs \<sigma> u \<notin> {Enter_Add, Try_Add, Enter_Store, Try_Store, Leave_Sub}" if "u \<noteq> t" for u
    using assms(2) others [OF that] unfolding cs_inv_def by (metis less_irrefl)
  have idle: "u \<noteq> 0" if "cs_pcs \<sigma> u \<noteq> CS_Idle" for u using assms(2) that unfolding cs_inv_def by blast
  from assms(1,3) show ?thesis
  proof (cases rule: cs_step.cases)
    case (advance u pc pc' s')
    then show ?thesis
      using assms(3) pcs [of u] idle [of u]
      by (cases "u = t"; cases pc)
        (auto simp: cs_wedged_def cs_advance_def enter_step_def try_step_def leave_step_def held_after_def split: if_splits)
  qed (auto simp: cs_wedged_def)
qed

lemma wedged_forever: "cs_step\<^sup>*\<^sup>* \<sigma> \<sigma>' \<Longrightarrow> cs_inv \<sigma> \<Longrightarrow> cs_wedged t \<sigma> \<Longrightarrow> cs_wedged t \<sigma>' \<and> cs_inv \<sigma>'"
  by (induction rule: rtranclp_induct) (auto intro: wedged_step cs_inv_step)

text \<open>A schedule: who calls what and who moves next.\<close>

datatype cs_action = Call_Enter u32 | Call_Leave u32 | Move u32

fun cs_act :: "cs_action \<Rightarrow> cs_system \<Rightarrow> cs_system option" where
  "cs_act (Call_Enter t) \<sigma> = (if t \<noteq> 0 \<and> cs_pcs \<sigma> t = CS_Idle then Some (at_pc t Enter_Load \<sigma>) else None)"
| "cs_act (Call_Leave t) \<sigma> =
     (if t \<noteq> 0 \<and> cs_pcs \<sigma> t = CS_Idle \<and> 0 < cs_held \<sigma> t then Some (at_pc t Leave_Sub \<sigma>) else None)"
| "cs_act (Move t) \<sigma> =
     (let pc = cs_pcs \<sigma> t; r = cs_advance t pc (cs_mem \<sigma>) in
      if pc \<noteq> CS_Idle \<and> (pc \<in> {Enter_Add, Try_Add} \<longrightarrow> cs_held \<sigma> t < 2 ^ 32 - 1)
      then Some (at_pc t (fst r) (\<sigma>\<lparr>cs_mem := snd r, cs_held := (cs_held \<sigma>)(t := held_after pc (cs_mem \<sigma>) (cs_held \<sigma> t))\<rparr>))
      else None)"

fun cs_acts :: "cs_action list \<Rightarrow> cs_system \<Rightarrow> cs_system option" where
  "cs_acts [] \<sigma> = Some \<sigma>"
| "cs_acts (a # as) \<sigma> = Option.bind (cs_act a \<sigma>) (cs_acts as)"

lemma cs_act_step: "cs_act a \<sigma> = Some \<sigma>' \<Longrightarrow> cs_step \<sigma> \<sigma>'"
  by (cases a) (auto simp: Let_def prod_eq_iff intro: cs_step.intros split: if_splits)

lemma cs_acts_steps: "cs_acts as \<sigma> = Some \<sigma>' \<Longrightarrow> cs_step\<^sup>*\<^sup>* \<sigma> \<sigma>'"
proof (induction as arbitrary: \<sigma>)
  case (Cons a as)
  then obtain \<sigma>1 where "cs_act a \<sigma> = Some \<sigma>1" "cs_acts as \<sigma>1 = Some \<sigma>'" by (auto simp: bind_eq_Some_conv)
  with Cons.IH cs_act_step show ?case by (meson converse_rtranclp_into_rtranclp)
qed simp

definition race_schedule :: "cs_action list" where
  "race_schedule = [Call_Enter 1, Move 1, Move 1, Move 1, Call_Leave 1, Move 1, Call_Enter 2, Move 2, Move 2, Move 2, Move 1, Call_Enter 2]"

lemma race_wedges: "\<exists>\<sigma>. cs_acts race_schedule (cs_init s) = Some \<sigma> \<and> cs_wedged 2 \<sigma>"
  by (simp add: race_schedule_def cs_init_def InitializeCriticalSection_def cs_advance_def enter_step_def leave_step_def
      held_after_def at_pc_def cs_wedged_def Let_def)

text \<open>
  C34: a thread can lock itself out. Because \<open>LeaveCriticalSection\<close> clears the owner after it has freed the count, there
  is a run of two threads after which thread 2 is inside the critical section, has called \<open>EnterCriticalSection\<close> again, as
  Windows allows, and never returns from that call: in every continuation it is still inside its first entry and
  still waiting.
\<close>

theorem critical_section_reentry_wedges:
  "\<exists>\<sigma>. cs_reachable s \<sigma> \<and> cs_held \<sigma> 2 = 1 \<and>
     (\<forall>\<sigma>'. cs_step\<^sup>*\<^sup>* \<sigma> \<sigma>' \<longrightarrow> cs_held \<sigma>' 2 = 1 \<and> cs_pcs \<sigma>' 2 \<in> {Enter_Load, Enter_Cas})"
proof -
  obtain \<sigma> where r: "cs_acts race_schedule (cs_init s) = Some \<sigma>" and w: "cs_wedged 2 \<sigma>" using race_wedges by blast
  have reach: "cs_reachable s \<sigma>" unfolding cs_reachable_def by (rule cs_acts_steps [OF r])
  with wedged_forever [OF _ cs_inv_reachable [OF reach] w] w show ?thesis unfolding cs_wedged_def by blast
qed

theorem critical_section_reentry_wedges_witness:
  "\<exists>\<sigma>. cs_reachable \<lparr>lock_count = 7, owner_thread_id = 9\<rparr> \<sigma> \<and> cs_held \<sigma> 2 = 1 \<and> cs_pcs \<sigma> 2 \<in> {Enter_Load, Enter_Cas}"
  using critical_section_reentry_wedges [of "\<lparr>lock_count = 7, owner_thread_id = 9\<rparr>"] by blast

theorem critical_section_exclusive_witness:
  "\<exists>\<sigma>. cs_acts [Call_Enter 1, Move 1, Move 1, Move 1, Call_Enter 1, Move 1, Move 1] (cs_init \<lparr>lock_count = 7, owner_thread_id = 9\<rparr>) = Some \<sigma> \<and>
     unat (lock_count (cs_mem \<sigma>)) = 2 \<and> (\<forall>u. u \<noteq> 1 \<longrightarrow> cs_held \<sigma> u = 0)"
proof -
  obtain \<sigma> where r: "cs_acts [Call_Enter 1, Move 1, Move 1, Move 1, Call_Enter 1, Move 1, Move 1] (cs_init \<lparr>lock_count = 7, owner_thread_id = 9\<rparr>) = Some \<sigma>"
    and h: "cs_held \<sigma> 1 = 2"
    by (simp add: cs_init_def InitializeCriticalSection_def cs_advance_def enter_step_def held_after_def at_pc_def Let_def)
  have "cs_reachable \<lparr>lock_count = 7, owner_thread_id = 9\<rparr> \<sigma>" unfolding cs_reachable_def by (rule cs_acts_steps [OF r])
  from critical_section_exclusive [OF this, of 1] r h show ?thesis by auto
qed

end
