(* ===== verification/Handles.thy ===== *)
theory Handles
  imports Runtime
begin

text \<open>
  Kernel objects behind handles (\<open>quantum-kernel32/src/handles.rs\<close>) and the thunks that create, signal and
  wait for them (\<open>threads.rs\<close>). A handle names a slot of the table; a slot holds a generation and a shared reference
  (\<open>Arc\<close>) to an object. References are indices into \<open>ht_objects\<close>, which only grows: a waiter may hold an
  object after its handle was closed. A wait that blocks takes the wake-ups of its condition variable
  from a list, each with the clock, whether the wait timed out, and the object as other threads left it.
  Caller pointers for results are optional results.
\<close>

section \<open>Objects and handles\<close>

datatype kernel_object =
    KO_Event bool bool
  | KO_Mutex "u32 option" u32
  | KO_Semaphore int int
  | KO_File u32
  | KO_Thread bool
  | KO_CurrentProcess
  | KO_CurrentThread
  | KO_StdStream u32

record handle_table =
  ht_slots :: "(u32 \<times> nat) option list"
  ht_objects :: "kernel_object list"

definition empty_table :: handle_table where
  "empty_table = \<lparr>ht_slots = [], ht_objects = []\<rparr>"

definition pack :: "nat \<Rightarrow> u32 \<Rightarrow> u64" where
  "pack index generation = push_bit 32 (ucast generation) OR of_nat (index + 0x1000)"

definition unpack :: "u64 \<Rightarrow> (nat \<times> u32) option result" where
  "unpack handle =
     (if handle < 0x1000 then Ok None
      else
        let generation = ucast (drop_bit 32 handle); low = handle AND 0xFFFFFFFF in
        if low < 0x1000 then Panic ''attempt to subtract with overflow''
        else Ok (Some (unat (low - 0x1000), generation)))"

primrec position_none :: "'a option list \<Rightarrow> nat option" where
  "position_none [] = None"
| "position_none (x # xs) = (if x = None then Some 0 else map_option Suc (position_none xs))"

definition h_insert :: "kernel_object \<Rightarrow> handle_table \<Rightarrow> u64 \<times> handle_table" where
  "h_insert obj t =
     (let arc = length (ht_objects t); objs = ht_objects t @ [obj] in
      case position_none (ht_slots t) of
        Some idx \<Rightarrow>
          let new_gen = (case ht_slots t ! idx of None \<Rightarrow> 1 | Some (g, _) \<Rightarrow> g + 1) in
          (pack idx new_gen, \<lparr>ht_slots = (ht_slots t)[idx := Some (new_gen, arc)], ht_objects = objs\<rparr>)
      | None \<Rightarrow>
          (pack (length (ht_slots t)) 1, \<lparr>ht_slots = ht_slots t @ [Some (1, arc)], ht_objects = objs\<rparr>))"

definition slot_get :: "nat \<Rightarrow> u32 \<Rightarrow> handle_table \<Rightarrow> nat option" where
  "slot_get idx generation t =
     (if idx < length (ht_slots t) then
        (case ht_slots t ! idx of Some (g, arc) \<Rightarrow> if g = generation then Some arc else None | None \<Rightarrow> None)
      else None)"

definition h_get :: "u64 \<Rightarrow> handle_table \<Rightarrow> nat option result" where
  "h_get handle t =
     obind (unpack handle) (\<lambda>u. case u of None \<Rightarrow> Ok None | Some (idx, generation) \<Rightarrow> Ok (slot_get idx generation t))"

definition close_file :: "'k posix \<Rightarrow> kernel_object \<Rightarrow> 'k \<Rightarrow> 'k" where
  "close_file P obj k = (case obj of KO_File fd \<Rightarrow> px_close P k fd | _ \<Rightarrow> k)"

definition h_remove :: "'k posix \<Rightarrow> u64 \<Rightarrow> handle_table \<Rightarrow> 'k \<Rightarrow> bool result \<times> handle_table \<times> 'k" where
  "h_remove P handle t k =
     (case unpack handle of
        Ok None \<Rightarrow> (Ok False, t, k)
      | Ok (Some (idx, generation)) \<Rightarrow>
          (case slot_get idx generation t of
             Some arc \<Rightarrow> (Ok True, t\<lparr>ht_slots := (ht_slots t)[idx := None]\<rparr>, close_file P (ht_objects t ! arc) k)
           | None \<Rightarrow> (Ok False, t, k))
      | Err e \<Rightarrow> (Err e, t, k)
      | Panic p \<Rightarrow> (Panic p, t, k))"

section \<open>Waiting\<close>

definition WAIT_OBJECT_0 :: u32 where "WAIT_OBJECT_0 = 0x00000000"
definition WAIT_ABANDONED :: u32 where "WAIT_ABANDONED = 0x00000080"
definition WAIT_TIMEOUT :: u32 where "WAIT_TIMEOUT = 0x00000102"
definition WAIT_FAILED :: u32 where "WAIT_FAILED = 0xFFFFFFFF"
definition INFINITE :: u32 where "INFINITE = 0xFFFFFFFF"

record wakeup =
  wk_now :: nat
  wk_timed_out :: bool
  wk_obj :: kernel_object

text \<open>One look at the object under its lock: the object after the wait succeeded, or \<open>None\<close> to block.\<close>

definition acquire :: "u32 \<Rightarrow> kernel_object \<Rightarrow> kernel_object option result" where
  "acquire tid obj =
     (case obj of
        KO_Event manual_reset signaled \<Rightarrow> Ok (if signaled then Some (KO_Event manual_reset manual_reset) else None)
      | KO_Mutex ow recursion \<Rightarrow>
          (case ow of
             None \<Rightarrow> Ok (Some (KO_Mutex (Some tid) 1))
           | Some t \<Rightarrow>
               if t = tid then obind (add_or_panic recursion 1) (\<lambda>r. Ok (Some (KO_Mutex (Some t) r)))
               else Ok None)
      | KO_Semaphore c mx \<Rightarrow> Ok (if c \<le> 0 then None else Some (KO_Semaphore (c - 1) mx))
      | KO_Thread finished \<Rightarrow> Ok (if finished then Some obj else None)
      | _ \<Rightarrow> Ok None)"

definition is_thread :: "kernel_object \<Rightarrow> bool" where
  "is_thread obj = (case obj of KO_Thread _ \<Rightarrow> True | _ \<Rightarrow> False)"

fun wait_loop :: "u32 \<Rightarrow> nat option \<Rightarrow> kernel_object \<Rightarrow> wakeup list \<Rightarrow> (u32 \<times> kernel_object) option result" where
  "wait_loop tid deadline obj ws =
     obind (acquire tid obj) (\<lambda>a. case a of
        Some obj' \<Rightarrow> Ok (Some (WAIT_OBJECT_0, obj'))
      | None \<Rightarrow>
          (case ws of
             [] \<Rightarrow> Ok None
           | w # ws' \<Rightarrow>
               (case deadline of
                  Some d \<Rightarrow>
                    if d \<le> wk_now w then Ok (Some (WAIT_TIMEOUT, obj))
                    else if wk_timed_out w \<and> \<not> is_thread obj then Ok (Some (WAIT_TIMEOUT, wk_obj w))
                    else wait_loop tid deadline (wk_obj w) ws'
                | None \<Rightarrow> wait_loop tid deadline (wk_obj w) ws')))"

definition waitable :: "kernel_object \<Rightarrow> bool" where
  "waitable obj = (case obj of KO_Event _ _ \<Rightarrow> True | KO_Mutex _ _ \<Rightarrow> True | KO_Semaphore _ _ \<Rightarrow> True | KO_Thread _ \<Rightarrow> True | _ \<Rightarrow> False)"

definition wait_single :: "u32 \<Rightarrow> nat \<Rightarrow> kernel_object \<Rightarrow> u32 \<Rightarrow> wakeup list \<Rightarrow> (u32 \<times> kernel_object) option result" where
  "wait_single tid now obj timeout_ms ws =
     (if waitable obj
      then wait_loop tid (if timeout_ms = INFINITE then None else Some (now + unat timeout_ms)) obj ws
      else Ok (Some (WAIT_TIMEOUT, obj)))"

section \<open>Thunks\<close>

definition CreateEventA :: "int \<Rightarrow> int \<Rightarrow> handle_table \<Rightarrow> u64 \<times> handle_table" where
  "CreateEventA manual_reset initial_state t = h_insert (KO_Event (manual_reset \<noteq> 0) (initial_state \<noteq> 0)) t"

definition CreateEventW :: "int \<Rightarrow> int \<Rightarrow> handle_table \<Rightarrow> u64 \<times> handle_table" where
  "CreateEventW manual_reset initial_state t = CreateEventA manual_reset initial_state t"

text \<open>A thunk that changes the object behind a handle: \<open>f\<close> gives the result and the new object, or \<open>None\<close> for another kind of object.\<close>

definition on_object ::
  "u64 \<Rightarrow> (kernel_object \<Rightarrow> ('a \<times> kernel_object) option result) \<Rightarrow> 'a \<Rightarrow> handle_table \<Rightarrow> 'a result \<times> handle_table" where
  "on_object handle f failed t =
     (case h_get handle t of
        Ok (Some arc) \<Rightarrow>
          (case f (ht_objects t ! arc) of
             Ok (Some (r, obj')) \<Rightarrow> (Ok r, t\<lparr>ht_objects := (ht_objects t)[arc := obj']\<rparr>)
           | Ok None \<Rightarrow> (Ok failed, t)
           | Err e \<Rightarrow> (Err e, t)
           | Panic p \<Rightarrow> (Panic p, t))
      | Ok None \<Rightarrow> (Ok failed, t)
      | Err e \<Rightarrow> (Err e, t)
      | Panic p \<Rightarrow> (Panic p, t))"

definition SetEvent :: "u64 \<Rightarrow> handle_table \<Rightarrow> int result \<times> handle_table" where
  "SetEvent handle t = on_object handle (\<lambda>obj. case obj of KO_Event m s \<Rightarrow> Ok (Some (1, KO_Event m True)) | _ \<Rightarrow> Ok None) 0 t"

definition ResetEvent :: "u64 \<Rightarrow> handle_table \<Rightarrow> int result \<times> handle_table" where
  "ResetEvent handle t = on_object handle (\<lambda>obj. case obj of KO_Event m s \<Rightarrow> Ok (Some (1, KO_Event m False)) | _ \<Rightarrow> Ok None) 0 t"

definition PulseEvent :: "u64 \<Rightarrow> handle_table \<Rightarrow> int result \<times> handle_table" where
  "PulseEvent handle t =
     sbind (SetEvent handle t) (\<lambda>r t.
       if r \<noteq> 0 then sbind (ResetEvent handle t) (\<lambda>_ t. (Ok r, t)) else (Ok r, t))"

definition CreateMutexA :: "u32 \<Rightarrow> int \<Rightarrow> handle_table \<Rightarrow> u64 \<times> handle_table" where
  "CreateMutexA tid initial_owner t =
     (let ow = (if initial_owner \<noteq> 0 then Some tid else None);
          recursion = (if initial_owner \<noteq> 0 then 1 else 0)
      in h_insert (KO_Mutex ow recursion) t)"

definition CreateMutexW :: "u32 \<Rightarrow> int \<Rightarrow> handle_table \<Rightarrow> u64 \<times> handle_table" where
  "CreateMutexW tid initial_owner t = CreateMutexA tid initial_owner t"

definition ReleaseMutex :: "u32 \<Rightarrow> u64 \<Rightarrow> handle_table \<Rightarrow> int result \<times> handle_table" where
  "ReleaseMutex tid handle t =
     on_object handle (\<lambda>obj. case obj of
        KO_Mutex ow recursion \<Rightarrow>
          if ow \<noteq> Some tid then Ok (Some (0, obj))
          else if recursion = 0 then Panic ''attempt to subtract with overflow''
          else
            let r = recursion - 1 in
            Ok (Some (1, KO_Mutex (if r = 0 then None else ow) r))
      | _ \<Rightarrow> Ok None) 0 t"

definition CreateSemaphoreA :: "int \<Rightarrow> int \<Rightarrow> handle_table \<Rightarrow> u64 \<times> handle_table" where
  "CreateSemaphoreA initial_count max_count t = h_insert (KO_Semaphore initial_count max_count) t"

definition CreateSemaphoreW :: "int \<Rightarrow> int \<Rightarrow> handle_table \<Rightarrow> u64 \<times> handle_table" where
  "CreateSemaphoreW initial_count max_count t = CreateSemaphoreA initial_count max_count t"

text \<open>The result and the previous count for the caller's pointer.\<close>

definition ReleaseSemaphore :: "u64 \<Rightarrow> int \<Rightarrow> handle_table \<Rightarrow> (int \<times> int option) result \<times> handle_table" where
  "ReleaseSemaphore handle release_count t =
     on_object handle (\<lambda>obj. case obj of
        KO_Semaphore c mx \<Rightarrow>
          let sum = c + release_count in
          if \<not> (- (2 ^ 31) \<le> sum \<and> sum < 2 ^ 31) then Panic ''attempt to add with overflow''
          else if sum > mx then Ok (Some ((0, None), obj))
          else Ok (Some ((1, Some c), KO_Semaphore sum mx))
      | _ \<Rightarrow> Ok None) (0, None) t"

definition WaitForSingleObject ::
  "u32 \<Rightarrow> nat \<Rightarrow> u64 \<Rightarrow> u32 \<Rightarrow> wakeup list \<Rightarrow> handle_table \<Rightarrow> u32 option result \<times> handle_table" where
  "WaitForSingleObject tid now handle timeout_ms ws t =
     on_object handle (\<lambda>obj. obind (wait_single tid now obj timeout_ms ws) (\<lambda>r. case r of
        None \<Rightarrow> Ok (Some (None, obj))
      | Some (res, obj') \<Rightarrow> Ok (Some (Some res, obj')))) (Some WAIT_FAILED) t"

definition WaitForSingleObjectEx ::
  "u32 \<Rightarrow> nat \<Rightarrow> u64 \<Rightarrow> u32 \<Rightarrow> int \<Rightarrow> wakeup list \<Rightarrow> handle_table \<Rightarrow> u32 option result \<times> handle_table" where
  "WaitForSingleObjectEx tid now handle timeout_ms alertable ws t = WaitForSingleObject tid now handle timeout_ms ws t"

text \<open>
  \<open>WaitForMultipleObjects\<close>, waiting for all: one wait after the other, each with its own clock and wake-ups. Waiting for any
  is a poll of every handle with timeout zero, in order; a poll of a blocked object reads the clock once.
\<close>

primrec wait_all_objects ::
  "u32 \<Rightarrow> (nat \<times> wakeup list) list \<Rightarrow> u64 list \<Rightarrow> u32 \<Rightarrow> handle_table \<Rightarrow> u32 option result \<times> handle_table" where
  "wait_all_objects tid env [] timeout_ms t = (Ok (Some WAIT_OBJECT_0), t)"
| "wait_all_objects tid env (h # hs) timeout_ms t =
     (case env of
        [] \<Rightarrow> (Ok None, t)
      | (now, ws) # env' \<Rightarrow>
          sbind (WaitForSingleObject tid now h timeout_ms ws t) (\<lambda>r t.
            case r of
              None \<Rightarrow> (Ok None, t)
            | Some res \<Rightarrow> if res \<noteq> WAIT_OBJECT_0 then (Ok (Some res), t) else wait_all_objects tid env' hs timeout_ms t))"

definition poll_object :: "u32 \<Rightarrow> nat \<Rightarrow> u64 \<Rightarrow> handle_table \<Rightarrow> u32 option result \<times> handle_table" where
  "poll_object tid now h t =
     on_object h (\<lambda>obj. obind (wait_single tid now obj 0 [\<lparr>wk_now = now, wk_timed_out = True, wk_obj = obj\<rparr>]) (\<lambda>r. case r of
        None \<Rightarrow> Ok (Some (None, obj))
      | Some (res, obj') \<Rightarrow> Ok (Some (Some res, obj')))) (Some WAIT_FAILED) t"

primrec poll_objects :: "u32 \<Rightarrow> nat \<Rightarrow> nat \<Rightarrow> u64 list \<Rightarrow> handle_table \<Rightarrow> u32 option result \<times> handle_table" where
  "poll_objects tid now i [] t = (Ok None, t)"
| "poll_objects tid now i (h # hs) t =
     sbind (poll_object tid now h t) (\<lambda>r t.
       if r = Some WAIT_OBJECT_0 then (Ok (Some (WAIT_OBJECT_0 + of_nat i)), t) else poll_objects tid now (Suc i) hs t)"

text \<open>
  The rounds of the polling loop: the clock of the polls, the clock of the deadline check, and the table as the other
  threads left it after the sleep. \<open>None\<close> is a wait the given rounds do not end.
\<close>

fun wait_any :: "u32 \<Rightarrow> nat option \<Rightarrow> u64 list \<Rightarrow> (nat \<times> nat \<times> handle_table) list \<Rightarrow> handle_table \<Rightarrow> u32 option result \<times> handle_table" where
  "wait_any tid deadline hs [] t = (Ok None, t)"
| "wait_any tid deadline hs ((now, check, t') # rounds) t =
     sbind (poll_objects tid now 0 hs t) (\<lambda>r t.
       case r of
         Some w \<Rightarrow> (Ok (Some w), t)
       | None \<Rightarrow>
           (case deadline of
              Some d \<Rightarrow> if d \<le> check then (Ok (Some WAIT_TIMEOUT), t) else wait_any tid deadline hs rounds t'
            | None \<Rightarrow> wait_any tid deadline hs rounds t'))"

definition WaitForMultipleObjects ::
  "u32 \<Rightarrow> (nat \<times> wakeup list) list \<Rightarrow> nat \<Rightarrow> (nat \<times> nat \<times> handle_table) list \<Rightarrow> bool \<Rightarrow> u64 list \<Rightarrow> int \<Rightarrow> u32
     \<Rightarrow> handle_table \<Rightarrow> u32 option result \<times> handle_table" where
  "WaitForMultipleObjects tid env start rounds arr_is_null hs wait_all timeout_ms t =
     (if arr_is_null \<or> hs = [] then (Ok (Some WAIT_FAILED), t)
      else if wait_all \<noteq> 0 then wait_all_objects tid env hs timeout_ms t
      else wait_any tid (if timeout_ms = INFINITE then None else Some (start + unat timeout_ms)) hs rounds t)"

definition CloseHandle :: "'k posix \<Rightarrow> u64 \<Rightarrow> handle_table \<Rightarrow> 'k \<Rightarrow> int result \<times> handle_table \<times> 'k" where
  "CloseHandle P handle t k =
     (case h_remove P handle t k of
        (Ok b, t, k) \<Rightarrow> (Ok (if b then 1 else 0), t, k)
      | (Err e, t, k) \<Rightarrow> (Err e, t, k)
      | (Panic p, t, k) \<Rightarrow> (Panic p, t, k))"

definition DuplicateHandle :: "u64 \<Rightarrow> bool \<Rightarrow> int \<times> u64 option" where
  "DuplicateHandle src_handle out_is_null = (if out_is_null then (0, None) else (1, Some src_handle))"

text \<open>The static counter of thread identifiers is part of the state; the finished flag starts as the spawner left it.\<close>

definition CreateThread ::
  "'k spawner option \<Rightarrow> u64 \<Rightarrow> u64 \<Rightarrow> u32 \<Rightarrow> handle_table \<Rightarrow> 'k \<Rightarrow> (u64 \<times> u32) \<times> u32 \<times> handle_table \<times> 'k" where
  "CreateThread reg start param next_tid t k =
     (let tid = next_tid; (f, k) = registry_spawn reg start param k;
          finished = (case f of Some b \<Rightarrow> b | None \<Rightarrow> True);
          (h, t) = h_insert (KO_Thread finished) t
      in ((h, tid), next_tid + 1, t, k))"

definition GetCurrentThread :: u64 where "GetCurrentThread = - 2"
definition GetCurrentProcess :: u64 where "GetCurrentProcess = - 1"

section \<open>The handle table is a map from handles to objects\<close>

lemma handle_split:
  fixes h :: u64
  shows "h = push_bit 32 (ucast (ucast (drop_bit 32 h) :: u32)) OR (h AND 0xFFFFFFFF)"
proof -
  have "h AND 0xFFFFFFFF = take_bit 32 h" by (simp add: take_bit_eq_mask mask_numeral)
  then show ?thesis by (auto simp: bit_eq_iff bit_simps)
qed

lemma pack_parts:
  assumes "n + 0x1000 < 2 ^ 32"
  shows "ucast (drop_bit 32 (pack n g)) = g" "pack n g AND 0xFFFFFFFF = of_nat (n + 0x1000)" "0x1000 \<le> pack n g"
proof -
  let ?l = "of_nat (n + 0x1000) :: u64"
  have u: "unat ?l = n + 0x1000" using assms by (simp add: unsigned_of_nat take_bit_nat_eq_self del: of_nat_add)
  have l: "take_bit 32 ?l = ?l"
    by (rule word_unat_eq_iff [THEN iffD2]) (use assms u in \<open>simp add: unsigned_take_bit_eq take_bit_nat_eq_self del: of_nat_add\<close>)
  have d: "drop_bit 32 ?l = 0" by (subst l [symmetric]) (simp add: drop_bit_take_bit)
  show "ucast (drop_bit 32 (pack n g)) = g"
    unfolding pack_def drop_bit_or d by (auto simp: bit_eq_iff bit_simps)
  have "pack n g AND 0xFFFFFFFF = take_bit 32 (pack n g)" by (simp add: take_bit_eq_mask mask_numeral)
  also have "\<dots> = ?l" unfolding pack_def take_bit_or l by (simp add: take_bit_push_bit del: of_nat_add)
  finally show e: "pack n g AND 0xFFFFFFFF = ?l" .
  have "?l \<le> pack n g" unfolding e [symmetric] by (rule word_and_le2)
  moreover have "0x1000 \<le> ?l" using u by (simp add: word_le_nat_alt del: of_nat_add)
  ultimately show "0x1000 \<le> pack n g" by (rule order_trans [rotated])
qed

lemma unpack_pack: "n + 0x1000 < 2 ^ 32 \<Longrightarrow> unpack (pack n g) = Ok (Some (n, g))"
proof -
  assume n: "n + 0x1000 < 2 ^ 32"
  have u: "unat (of_nat (n + 0x1000) :: u64) = n + 0x1000" using n by (simp add: unsigned_of_nat take_bit_nat_eq_self del: of_nat_add)
  have "(0x1000 :: u64) \<le> of_nat (n + 0x1000)" using u by (simp add: word_le_nat_alt del: of_nat_add)
  moreover have "unat (of_nat (n + 0x1000) - 0x1000 :: u64) = n" using u calculation by (subst unat_sub) (simp_all del: of_nat_add)
  ultimately show ?thesis using pack_parts [OF n] by (simp add: unpack_def Let_def not_less del: of_nat_add)
qed

lemma unpack_Some: "unpack h = Ok (Some (n, g)) \<Longrightarrow> h = pack n g"
proof -
  assume "unpack h = Ok (Some (n, g))"
  then have l: "\<not> h AND 0xFFFFFFFF < 0x1000" and n: "n = unat ((h AND 0xFFFFFFFF) - 0x1000)" and g: "g = ucast (drop_bit 32 h)"
    by (auto simp: unpack_def Let_def split: if_splits)
  have "of_nat (n + 0x1000) = h AND 0xFFFFFFFF" using l unfolding n by simp
  with handle_split [of h] show "h = pack n g" unfolding pack_def g by simp
qed

text \<open>Every reference is to an allocated object, no two slots share one, and \<open>k\<close> more slots leave all indices in the low half of a handle.\<close>

definition ht_ok :: "nat \<Rightarrow> handle_table \<Rightarrow> bool" where
  "ht_ok k t \<longleftrightarrow> length (ht_slots t) + k + 0x1000 \<le> 2 ^ 32
     \<and> (\<forall>n g arc. slot_get n g t = Some arc \<longrightarrow> arc < length (ht_objects t)
         \<and> (\<forall>n' g'. slot_get n' g' t = Some arc \<longrightarrow> n' = n \<and> g' = g))"

definition handle_map :: "handle_table \<Rightarrow> u64 \<Rightarrow> kernel_object option" where
  "handle_map t h = (case h_get h t of Ok (Some arc) \<Rightarrow> Some (ht_objects t ! arc) | _ \<Rightarrow> None)"

lemma handle_map_pack:
  assumes "n + 0x1000 < 2 ^ 32"
  shows "handle_map t (pack n g) = map_option ((!) (ht_objects t)) (slot_get n g t)"
  using unpack_pack [OF assms] by (simp add: handle_map_def h_get_def split: option.splits)

text \<open>A handle that is no \<open>pack\<close> of a slot names nothing.\<close>

lemma handle_map_Some:
  assumes "handle_map t h = Some obj"
  obtains n g arc where "h = pack n g" "n < length (ht_slots t)" "ht_slots t ! n = Some (g, arc)" "obj = ht_objects t ! arc"
    "unpack h = Ok (Some (n, g))"
proof -
  from assms obtain arc where a: "h_get h t = Ok (Some arc)" "obj = ht_objects t ! arc"
    by (auto simp: handle_map_def split: outcome.splits option.splits)
  then obtain n g where u: "unpack h = Ok (Some (n, g))" and s: "slot_get n g t = Some arc"
    by (cases "unpack h") (auto simp: h_get_def split: option.splits)
  from s have "n < length (ht_slots t)" "ht_slots t ! n = Some (g, arc)"
    by (auto simp: slot_get_def split: option.splits if_splits)
  then show thesis using that [OF unpack_Some [OF u]] a u by simp
qed

lemma position_none_Some: "position_none xs = Some i \<Longrightarrow> i < length xs \<and> xs ! i = None \<and> (\<forall>j < i. xs ! j \<noteq> None)"
  by (induction xs arbitrary: i) (auto simp: nth_Cons' less_Suc_eq_0_disj split: if_splits)

lemma position_none_None: "position_none xs = None \<longleftrightarrow> None \<notin> set xs"
  by (induction xs) auto

lemma slot_get_Some: "slot_get n g t = Some arc \<longleftrightarrow> n < length (ht_slots t) \<and> ht_slots t ! n = Some (g, arc)"
  by (auto simp: slot_get_def split: option.splits if_splits)

text \<open>Two tables that agree on what every slot and generation names have the same map.\<close>

definition slot_obj :: "nat \<Rightarrow> u32 \<Rightarrow> handle_table \<Rightarrow> kernel_object option" where
  "slot_obj n g t = map_option ((!) (ht_objects t)) (slot_get n g t)"

lemma handle_map_upd:
  assumes "\<And>n' g'. slot_obj n' g' t' = (if n' = n \<and> g' = g then v else slot_obj n' g' t)" "n + 0x1000 < 2 ^ 32"
  shows "handle_map t' = (handle_map t)(pack n g := v)"
proof
  fix h
  show "handle_map t' h = ((handle_map t)(pack n g := v)) h"
  proof (cases "\<exists>n' g'. unpack h = Ok (Some (n', g'))")
    case True
    then obtain n' g' where u: "unpack h = Ok (Some (n', g'))" by blast
    have "handle_map s h = slot_obj n' g' s" for s
      using u by (simp add: handle_map_def h_get_def slot_obj_def split: option.splits)
    moreover have "h = pack n g \<longleftrightarrow> n' = n \<and> g' = g"
    proof
      assume "h = pack n g"
      with unpack_pack [OF assms(2), of g] have "unpack h = Ok (Some (n, g))" by (simp only:)
      with u show "n' = n \<and> g' = g" by simp
    qed (use unpack_Some [OF u] in \<open>simp only:\<close>)
    ultimately show ?thesis using assms(1) by simp
  next
    case False
    then have "h \<noteq> pack n g" using unpack_pack [OF assms(2), of g] by metis
    moreover have "handle_map s h = None" for s
      using False by (cases "unpack h") (auto simp: handle_map_def h_get_def split: option.splits)
    ultimately show ?thesis by simp
  qed
qed

text \<open>Where \<open>insert\<close> puts an object: always generation 1.\<close>

definition free_slot :: "handle_table \<Rightarrow> nat" where
  "free_slot t = (case position_none (ht_slots t) of Some idx \<Rightarrow> idx | None \<Rightarrow> length (ht_slots t))"

lemma free_slot_get: "slot_get (free_slot t) g t = None"
  by (auto simp: free_slot_def slot_get_def dest!: position_none_Some split: option.splits)

lemma h_insert_at:
  "fst (h_insert obj t) = pack (free_slot t) 1"
  "ht_objects (snd (h_insert obj t)) = ht_objects t @ [obj]"
  "slot_get n g (snd (h_insert obj t)) =
     (if n = free_slot t then (if g = 1 then Some (length (ht_objects t)) else None) else slot_get n g t)"
  "set (ht_slots (snd (h_insert obj t))) \<subseteq> insert (Some (1, length (ht_objects t))) (set (ht_slots t))"
  by (auto simp: h_insert_def free_slot_def slot_get_def Let_def nth_append nth_list_update less_Suc_eq
      dest!: position_none_Some set_update_subset_insert [THEN subsetD] split: option.splits if_splits)

lemma length_h_insert: "length (ht_slots (snd (h_insert obj t))) \<le> Suc (length (ht_slots t))"
  by (auto simp: h_insert_def Let_def split: option.splits)

lemma free_slot_le: "free_slot t \<le> length (ht_slots t)"
  using position_none_Some [of "ht_slots t"] by (auto simp: free_slot_def split: option.splits)

lemma ht_okD: "ht_ok k t \<Longrightarrow> slot_get n g t = Some arc \<Longrightarrow> arc < length (ht_objects t)"
  "ht_ok k t \<Longrightarrow> slot_get n g t = Some arc \<Longrightarrow> slot_get n' g' t = Some arc \<Longrightarrow> n' = n \<and> g' = g"
  "ht_ok k t \<Longrightarrow> slot_get n g t = Some arc \<Longrightarrow> n + 0x1000 < 2 ^ 32"
  by (auto simp: ht_ok_def slot_get_Some)

lemma h_insert_ok: "ht_ok (Suc k) t \<Longrightarrow> ht_ok k (snd (h_insert obj t))"
  using length_h_insert [of obj t] unfolding ht_ok_def h_insert_at
  by (auto simp: less_Suc_eq split: if_splits)

lemma h_insert_map:
  assumes "ht_ok (Suc k) t"
  shows "handle_map t (fst (h_insert obj t)) = None"
    "handle_map (snd (h_insert obj t)) = (handle_map t)(fst (h_insert obj t) \<mapsto> obj)"
proof -
  have n: "free_slot t + 0x1000 < 2 ^ 32" using free_slot_le [of t] assms by (simp add: ht_ok_def)
  show "handle_map t (fst (h_insert obj t)) = None"
    by (simp add: h_insert_at handle_map_pack [OF n] free_slot_get)
  have "slot_obj n' g' (snd (h_insert obj t)) = (if n' = free_slot t \<and> g' = 1 then Some obj else slot_obj n' g' t)" for n' g'
    using ht_okD(1) [OF assms, of n' g'] by (cases "slot_get n' g' t") (auto simp: slot_obj_def h_insert_at nth_append free_slot_get)
  from handle_map_upd [OF this n] show "handle_map (snd (h_insert obj t)) = (handle_map t)(fst (h_insert obj t) \<mapsto> obj)"
    by (simp add: h_insert_at)
qed

text \<open>The table after \<open>remove\<close> and after a change of one object.\<close>

definition drop_handle :: "u64 \<Rightarrow> handle_table \<Rightarrow> handle_table" where
  "drop_handle h t =
     (case unpack h of
        Ok (Some (n, g)) \<Rightarrow> if slot_get n g t = None then t else t\<lparr>ht_slots := (ht_slots t)[n := None]\<rparr>
      | _ \<Rightarrow> t)"

definition upd_object :: "u64 \<Rightarrow> (kernel_object \<Rightarrow> kernel_object) \<Rightarrow> handle_table \<Rightarrow> handle_table" where
  "upd_object h F t =
     (case h_get h t of
        Ok (Some arc) \<Rightarrow> t\<lparr>ht_objects := (ht_objects t)[arc := F (ht_objects t ! arc)]\<rparr>
      | _ \<Rightarrow> t)"

lemma h_remove_table: "fst (snd (h_remove P h t k)) = drop_handle h t"
  by (auto simp: h_remove_def drop_handle_def split: outcome.splits option.splits)

lemma handle_map_unpack:
  "handle_map t h = (case unpack h of Ok (Some (n, g)) \<Rightarrow> slot_obj n g t | _ \<Rightarrow> None)"
  by (cases "unpack h") (auto simp: handle_map_def h_get_def slot_obj_def split: option.splits)

lemma h_remove_result:
  "fst (h_remove P h t k) =
     (case unpack h of Ok _ \<Rightarrow> Ok (handle_map t h \<noteq> None) | Err e \<Rightarrow> Err e | Panic p \<Rightarrow> Panic p)"
  by (auto simp: h_remove_def handle_map_unpack slot_obj_def split: outcome.splits option.splits)

lemma slot_get_drop:
  assumes "slot_get n g t = Some arc"
  shows "slot_get n' g' (t\<lparr>ht_slots := (ht_slots t)[n := None]\<rparr>) = (if n' = n \<and> g' = g then None else slot_get n' g' t)"
  using assms by (auto simp: slot_get_def nth_list_update split: option.splits if_splits)

lemma drop_handle_cases:
  obtains "drop_handle h t = t" "handle_map t h = None"
  | n g arc where "h = pack n g" "slot_get n g t = Some arc" "drop_handle h t = t\<lparr>ht_slots := (ht_slots t)[n := None]\<rparr>"
proof (cases "\<exists>n g arc. unpack h = Ok (Some (n, g)) \<and> slot_get n g t = Some arc")
  case True
  then obtain n g arc where u: "unpack h = Ok (Some (n, g))" "slot_get n g t = Some arc" by blast
  with that(2) [OF unpack_Some [OF u(1)] u(2)] show thesis by (simp add: drop_handle_def)
next
  case False
  then have "drop_handle h t = t" "handle_map t h = None"
    by (auto simp: drop_handle_def handle_map_unpack slot_obj_def split: outcome.splits option.splits)
  then show thesis by (rule that(1))
qed

lemma drop_handle_ok: "ht_ok k t \<Longrightarrow> ht_ok k (drop_handle h t)"
  by (rule drop_handle_cases [of h t]) (auto simp: ht_ok_def slot_get_drop split: if_splits)

lemma drop_handle_map:
  assumes "ht_ok k t"
  shows "handle_map (drop_handle h t) = (handle_map t)(h := None)"
proof (cases rule: drop_handle_cases [of h t])
  case 1
  then show ?thesis by auto
next
  case (2 n g arc)
  have "slot_obj n' g' (drop_handle h t) = (if n' = n \<and> g' = g then None else slot_obj n' g' t)" for n' g'
    unfolding 2(3) slot_obj_def slot_get_drop [OF 2(2)] by simp
  from handle_map_upd [OF this ht_okD(3) [OF assms 2(2)]] show ?thesis by (simp only: 2(1))
qed

lemma upd_object_cases:
  obtains "upd_object h F t = t" "handle_map t h = None"
  | n g arc where "h = pack n g" "slot_get n g t = Some arc" "handle_map t h = Some (ht_objects t ! arc)"
      "upd_object h F t = t\<lparr>ht_objects := (ht_objects t)[arc := F (ht_objects t ! arc)]\<rparr>"
proof (cases "\<exists>n g arc. unpack h = Ok (Some (n, g)) \<and> slot_get n g t = Some arc")
  case True
  then obtain n g arc where u: "unpack h = Ok (Some (n, g))" "slot_get n g t = Some arc" by blast
  with that(2) [OF unpack_Some [OF u(1)] u(2)] show thesis by (simp add: upd_object_def h_get_def handle_map_def)
next
  case False
  then have "upd_object h F t = t" "handle_map t h = None"
    by (cases "unpack h"; auto simp: upd_object_def h_get_def handle_map_def split: option.splits)+
  then show thesis by (rule that(1))
qed

lemma slot_get_objects [simp]: "slot_get n g (t\<lparr>ht_objects := os\<rparr>) = slot_get n g t"
  by (simp add: slot_get_def)

lemma upd_object_ok: "ht_ok k t \<Longrightarrow> ht_ok k (upd_object h F t)"
  by (rule upd_object_cases [of h F t]) (auto simp: ht_ok_def)

lemma upd_object_map:
  assumes "ht_ok k t"
  shows "handle_map (upd_object h F t) = (handle_map t)(h := map_option F (handle_map t h))"
proof (cases rule: upd_object_cases [of h F t])
  case 1
  then show ?thesis by auto
next
  case (2 n g arc)
  have "slot_obj n' g' (upd_object h F t) = (if n' = n \<and> g' = g then map_option F (handle_map t h) else slot_obj n' g' t)" for n' g'
    using 2(2) ht_okD(1) [OF assms 2(2)] ht_okD(2) [OF assms 2(2), of n' g'] unfolding 2(3,4)
    by (cases "slot_get n' g' t") (auto simp: slot_obj_def nth_list_update)
  from handle_map_upd [OF this ht_okD(3) [OF assms 2(2)]] show ?thesis by (simp only: 2(1))
qed

section \<open>Clients of the table\<close>

text \<open>
  What the table promises its clients, over the map \<open>nm\<close> from handles to objects: a new handle is fresh, and the
  three operations change the map at one handle only. \<open>inv k\<close> leaves room for \<open>k\<close> insertions.
\<close>

datatype ('h, 'o) store_op = Op_Insert 'o | Op_Remove 'h | Op_Update 'h "'o \<Rightarrow> 'o"

primrec op_handle :: "('h, 'o) store_op \<Rightarrow> 'h option" where
  "op_handle (Op_Insert obj) = None"
| "op_handle (Op_Remove h) = Some h"
| "op_handle (Op_Update h F) = Some h"

locale object_store =
  fixes inv :: "nat \<Rightarrow> 't \<Rightarrow> bool"
    and nm :: "'t \<Rightarrow> 'h \<Rightarrow> 'o option"
    and ins :: "'o \<Rightarrow> 't \<Rightarrow> 'h \<times> 't"
    and del :: "'h \<Rightarrow> 't \<Rightarrow> 't"
    and upd :: "'h \<Rightarrow> ('o \<Rightarrow> 'o) \<Rightarrow> 't \<Rightarrow> 't"
  assumes ins_fresh: "inv (Suc k) t \<Longrightarrow> nm t (fst (ins obj t)) = None"
    and ins_nm: "inv (Suc k) t \<Longrightarrow> nm (snd (ins obj t)) = (nm t)(fst (ins obj t) \<mapsto> obj)"
    and ins_inv: "inv (Suc k) t \<Longrightarrow> inv k (snd (ins obj t))"
    and del_nm: "inv k t \<Longrightarrow> nm (del h t) = (nm t)(h := None)"
    and del_inv: "inv k t \<Longrightarrow> inv k (del h t)"
    and upd_nm: "inv k t \<Longrightarrow> nm (upd h F t) = (nm t)(h := map_option F (nm t h))"
    and upd_inv: "inv k t \<Longrightarrow> inv k (upd h F t)"
    and inv_mono: "inv (Suc k) t \<Longrightarrow> inv k t"
begin

primrec step :: "('h, 'o) store_op \<Rightarrow> 't \<Rightarrow> 't" where
  "step (Op_Insert obj) t = snd (ins obj t)"
| "step (Op_Remove h) t = del h t"
| "step (Op_Update h F) t = upd h F t"

lemma step_inv: "inv (Suc k) t \<Longrightarrow> inv k (step op t)"
  by (cases op) (simp_all add: ins_inv del_inv upd_inv inv_mono)

lemma step_keeps: "inv (Suc k) t \<Longrightarrow> nm t h = Some obj \<Longrightarrow> op_handle op \<noteq> Some h \<Longrightarrow> nm (step op t) h = Some obj"
  using ins_fresh by (cases op) (fastforce simp: ins_nm del_nm upd_nm)+

lemma run_inv: "inv (k + length ops) t \<Longrightarrow> inv k (fold step ops t)"
  by (induction ops arbitrary: t) (simp_all add: step_inv)

text \<open>A handle keeps its object through any operations on other handles.\<close>

lemma run_keeps:
  "inv (k + length ops) t \<Longrightarrow> nm t h = Some obj \<Longrightarrow> \<forall>op \<in> set ops. op_handle op \<noteq> Some h \<Longrightarrow> nm (fold step ops t) h = Some obj"
  by (induction ops arbitrary: t) (auto intro: step_inv step_keeps)

end

interpretation ht: object_store ht_ok handle_map h_insert drop_handle upd_object
  by unfold_locales
    (simp_all add: h_insert_map h_insert_ok drop_handle_map drop_handle_ok upd_object_map upd_object_ok,
     auto simp: ht_ok_def)

text \<open>Each thunk is one operation of the table.\<close>

definition obj_after :: "(kernel_object \<Rightarrow> ('a \<times> kernel_object) option result) \<Rightarrow> kernel_object \<Rightarrow> kernel_object" where
  "obj_after f obj = (case f obj of Ok (Some (r, obj')) \<Rightarrow> obj' | _ \<Rightarrow> obj)"

lemma on_object_table: "snd (on_object h f d t) = upd_object h (obj_after f) t"
  by (auto simp: on_object_def upd_object_def obj_after_def split: outcome.splits option.splits)

lemma on_object_result:
  "handle_map t h = Some obj \<Longrightarrow> fst (on_object h f d t) =
     (case f obj of Ok (Some (r, obj')) \<Rightarrow> Ok r | Ok None \<Rightarrow> Ok d | Err e \<Rightarrow> Err e | Panic p \<Rightarrow> Panic p)"
  by (auto simp: on_object_def handle_map_def split: outcome.splits option.splits)

datatype thunk =
    Th_CreateEvent int int
  | Th_CreateMutex u32 int
  | Th_CreateSemaphore int int
  | Th_SetEvent u64
  | Th_ResetEvent u64
  | Th_ReleaseMutex u32 u64
  | Th_ReleaseSemaphore u64 int
  | Th_WaitForSingleObject u32 nat u64 u32 "wakeup list"
  | Th_CloseHandle u64

primrec thunk_handle :: "thunk \<Rightarrow> u64 option" where
  "thunk_handle (Th_CreateEvent m i) = None"
| "thunk_handle (Th_CreateMutex tid i) = None"
| "thunk_handle (Th_CreateSemaphore i m) = None"
| "thunk_handle (Th_SetEvent h) = Some h"
| "thunk_handle (Th_ResetEvent h) = Some h"
| "thunk_handle (Th_ReleaseMutex tid h) = Some h"
| "thunk_handle (Th_ReleaseSemaphore h n) = Some h"
| "thunk_handle (Th_WaitForSingleObject tid now h ms ws) = Some h"
| "thunk_handle (Th_CloseHandle h) = Some h"

primrec run_thunk :: "'k posix \<Rightarrow> thunk \<Rightarrow> handle_table \<times> 'k \<Rightarrow> handle_table \<times> 'k" where
  "run_thunk P (Th_CreateEvent m i) s = apfst (\<lambda>t. snd (CreateEventA m i t)) s"
| "run_thunk P (Th_CreateMutex tid i) s = apfst (\<lambda>t. snd (CreateMutexA tid i t)) s"
| "run_thunk P (Th_CreateSemaphore i m) s = apfst (\<lambda>t. snd (CreateSemaphoreA i m t)) s"
| "run_thunk P (Th_SetEvent h) s = apfst (\<lambda>t. snd (SetEvent h t)) s"
| "run_thunk P (Th_ResetEvent h) s = apfst (\<lambda>t. snd (ResetEvent h t)) s"
| "run_thunk P (Th_ReleaseMutex tid h) s = apfst (\<lambda>t. snd (ReleaseMutex tid h t)) s"
| "run_thunk P (Th_ReleaseSemaphore h n) s = apfst (\<lambda>t. snd (ReleaseSemaphore h n t)) s"
| "run_thunk P (Th_WaitForSingleObject tid now h ms ws) s = apfst (\<lambda>t. snd (WaitForSingleObject tid now h ms ws t)) s"
| "run_thunk P (Th_CloseHandle h) s = snd (CloseHandle P h (fst s) (snd s))"

lemma op_insert: "\<exists>op. op_handle op = None \<and> (\<forall>a. snd (h_insert obj a) = ht.step op a)"
  by (rule exI [of _ "Op_Insert obj"]) simp

lemma op_update: "\<exists>op. op_handle op = Some h \<and> (\<forall>a. snd (on_object h f d a) = ht.step op a)"
  by (rule exI [of _ "Op_Update h (obj_after f)"]) (simp add: on_object_table)

lemma run_thunk_op: "\<exists>op. op_handle op = thunk_handle th \<and> (\<forall>s. fst (run_thunk P th s) = ht.step op (fst s))"
proof (cases th)
  case (Th_CloseHandle h)
  have "fst (snd (CloseHandle P h t k)) = drop_handle h t" for t k
    unfolding h_remove_table [of P h t k, symmetric] by (simp add: CloseHandle_def split: prod.splits outcome.splits)
  then show ?thesis using Th_CloseHandle by (intro exI [of _ "Op_Remove h"]) simp
qed (simp_all add: CreateEventA_def CreateMutexA_def CreateSemaphoreA_def SetEvent_def ResetEvent_def ReleaseMutex_def
      ReleaseSemaphore_def WaitForSingleObject_def Let_def, (intro conjI impI op_insert op_update)+)

lemma run_thunks_op:
  "\<exists>ops. length ops = length ths \<and> map op_handle ops = map thunk_handle ths
     \<and> (\<forall>s. fst (fold (run_thunk P) ths s) = fold ht.step ops (fst s))"
proof (induction ths)
  case (Cons th ths)
  from Cons obtain ops where ops: "length ops = length ths" "map op_handle ops = map thunk_handle ths"
    "\<And>s. fst (fold (run_thunk P) ths s) = fold ht.step ops (fst s)" by blast
  moreover obtain op where "op_handle op = thunk_handle th" "\<And>s. fst (run_thunk P th s) = ht.step op (fst s)"
    using run_thunk_op by blast
  ultimately show ?case by (intro exI [of _ "op # ops"]) simp
qed simp

lemma run_thunks_keep:
  assumes "ht_ok (k + length ths) t" "handle_map t h = Some obj" "Some h \<notin> set (map thunk_handle ths)"
  shows "handle_map (fst (fold (run_thunk P) ths (t, x))) h = Some obj" "ht_ok k (fst (fold (run_thunk P) ths (t, x)))"
proof -
  obtain ops where ops: "length ops = length ths" "map op_handle ops = map thunk_handle ths"
    "\<And>s. fst (fold (run_thunk P) ths s) = fold ht.step ops (fst s)" using run_thunks_op by blast
  have "\<forall>op \<in> set ops. op_handle op \<noteq> Some h" using assms(3) unfolding ops(2) [symmetric] by (force simp: image_iff)
  then show "handle_map (fst (fold (run_thunk P) ths (t, x))) h = Some obj"
    using ht.run_keeps [of k ops t h obj] assms ops by simp
  show "ht_ok k (fst (fold (run_thunk P) ths (t, x)))" using ht.run_inv [of k ops t] assms(1) ops by simp
qed

section \<open>Properties\<close>

text \<open>
  C35: the handle table refines a partial map from handles to objects, its slots and shared references hidden. An
  insertion returns a handle of at least \<open>0x1000\<close> that named nothing before and binds the object to it. A
  removal answers whether the handle was live and unbinds exactly it; the only handles it panics on are those
  whose low half is below \<open>0x1000\<close>. A thunk on an object changes the object behind its own handle and no other.
\<close>

theorem handle_table_refines:
  assumes "ht_ok (Suc k) t"
  shows "(let (h, t') = h_insert obj t in
            0x1000 \<le> h \<and> handle_map t h = None \<and> handle_map t' = (handle_map t)(h \<mapsto> obj) \<and> ht_ok k t')
      \<and> (let (r, t', x') = h_remove P h t x in
            handle_map t' = (handle_map t)(h := None) \<and> ht_ok (Suc k) t'
            \<and> (r = Ok (handle_map t h \<noteq> None)
               \<or> 0x1000 \<le> h \<and> h AND 0xFFFFFFFF < 0x1000 \<and> r = Panic ''attempt to subtract with overflow'' \<and> t' = t))
      \<and> (let (r, t') = on_object h f d t in
            ht_ok (Suc k) t' \<and> handle_map t' = (handle_map t)(h := map_option (obj_after f) (handle_map t h)))"
proof -
  have n: "free_slot t + 0x1000 < 2 ^ 32" using free_slot_le [of t] assms by (simp add: ht_ok_def)
  have "fst (h_remove P h t x) = Ok (handle_map t h \<noteq> None)
      \<or> 0x1000 \<le> h \<and> h AND 0xFFFFFFFF < 0x1000 \<and> fst (h_remove P h t x) = Panic ''attempt to subtract with overflow''
        \<and> fst (snd (h_remove P h t x)) = t"
    by (simp add: h_remove_result h_remove_table drop_handle_def unpack_def Let_def not_less)
  moreover have "0x1000 \<le> fst (h_insert obj t)" unfolding h_insert_at by (rule pack_parts(3) [OF n])
  ultimately show ?thesis
    using h_insert_map [OF assms, of obj] h_insert_ok [OF assms, of obj]
      h_remove_table [of P h t x] drop_handle_map [OF assms, of h] drop_handle_ok [OF assms, of h]
      on_object_table [of h f d t] upd_object_map [OF assms, of h "obj_after f"] upd_object_ok [OF assms, of h "obj_after f"]
    by (cases "h_insert obj t"; cases "h_remove P h t x"; cases "on_object h f d t") auto
qed

definition closing_posix :: "u32 list posix" where
  "closing_posix = \<lparr>px_open = (\<lambda>k path flags mode. (0, k)), px_write = (\<lambda>k fd bs. (0, k)), px_read = (\<lambda>k fd n. (0, [], k)),
     px_close = (\<lambda>k fd. fd # k), px_errno = (\<lambda>k. 0)\<rparr>"

definition two_events :: handle_table where
  "two_events = snd (CreateEventA 0 0 (snd (CreateEventA 1 0 empty_table)))"

lemma two_events_eq: "two_events = \<lparr>ht_slots = [Some (1, 0), Some (1, 1)], ht_objects = [KO_Event True False, KO_Event False False]\<rparr>"
  by (simp add: two_events_def CreateEventA_def h_insert_def empty_table_def)

lemma two_events_ok: "ht_ok 8 two_events"
proof -
  have "ht_ok (Suc (Suc 8)) empty_table" by (simp add: ht_ok_def empty_table_def slot_get_def)
  from h_insert_ok [OF h_insert_ok [OF this]] show ?thesis by (simp add: two_events_def CreateEventA_def)
qed

lemma two_events_map: "handle_map two_events 0x100001000 = Some (KO_Event True False)"
  by (simp add: two_events_eq handle_map_def h_get_def unpack_def slot_get_def)

theorem handle_table_refines_witness:
  "fst (h_insert (KO_Semaphore 1 2) two_events) = 0x100001002
   \<and> handle_map (snd (h_insert (KO_Semaphore 1 2) two_events)) = (handle_map two_events)(0x100001002 \<mapsto> KO_Semaphore 1 2)
   \<and> fst (h_remove closing_posix 0x100001000 two_events []) = Ok True
   \<and> handle_map (fst (snd (h_remove closing_posix 0x100001000 two_events []))) = (handle_map two_events)(0x100001000 := None)"
proof -
  have "fst (h_insert (KO_Semaphore 1 2) two_events) = 0x100001002" by (simp add: two_events_eq h_insert_def pack_def)
  with handle_table_refines [of 7 two_events "KO_Semaphore 1 2" closing_posix "0x100001000" "[]" "\<lambda>_. Ok None" "()"] two_events_ok two_events_map
  show ?thesis by (auto simp: case_prod_beta)
qed

lemma position_none_update:
  "n < length xs \<Longrightarrow> (case position_none xs of Some i \<Rightarrow> n \<le> i | None \<Rightarrow> True) \<Longrightarrow> position_none (xs[n := None]) = Some n"
  by (induction xs arbitrary: n) (auto split: nat.splits option.splits if_splits)

text \<open>
  C37: a closed handle is not protected from reuse. A freed slot is empty, so the generation an insertion reads from
  it is always the initial 1: closing a handle of the lowest free slot and creating any object returns the very
  same handle, and the stale copy of it now names the new object. The module's documentation says a generation
  counter keeps stale handles off recycled slots (\<open>handles.rs\<close>).
\<close>

theorem stale_handle_recycled:
  assumes "ht_ok (Suc k) t" "handle_map t (pack n 1) \<noteq> None" "n \<le> free_slot t"
  shows "let (r, t', x') = CloseHandle P (pack n 1) t x; (h', t'') = h_insert obj t' in
           r = Ok 1 \<and> h' = pack n 1 \<and> handle_map t'' (pack n 1) = Some obj"
proof -
  let ?t' = "drop_handle (pack n 1) t"
  obtain m g arc where h: "pack n 1 = pack m g" "m < length (ht_slots t)" "ht_slots t ! m = Some (g, arc)"
    "unpack (pack n 1) = Ok (Some (m, g))" using assms(2) by (auto elim: handle_map_Some)
  have n: "n + 0x1000 < 2 ^ 32" using assms(1,3) free_slot_le [of t] by (simp add: ht_ok_def)
  from unpack_pack [OF n, of 1] h(4) have m: "m = n" "g = 1" by auto
  have d: "?t' = t\<lparr>ht_slots := (ht_slots t)[n := None]\<rparr>"
    using h m by (simp add: drop_handle_def slot_get_def)
  have "position_none ((ht_slots t)[n := None]) = Some n"
    by (rule position_none_update) (use h(2) m assms(3) in \<open>auto simp: free_slot_def split: option.splits\<close>)
  then have f: "free_slot ?t' = n" by (simp add: d free_slot_def)
  have "CloseHandle P (pack n 1) t x = (Ok 1, ?t', snd (snd (CloseHandle P (pack n 1) t x)))"
    using h_remove_result [of P "pack n 1" t x] h_remove_table [of P "pack n 1" t x] assms(2) h(4)
    by (auto simp: CloseHandle_def split: prod.splits outcome.splits)
  moreover have "h_insert obj ?t' = (pack n 1, snd (h_insert obj ?t'))" using h_insert_at(1) [of obj ?t'] unfolding f by (metis prod.collapse)
  moreover have "handle_map (snd (h_insert obj ?t')) (pack n 1) = Some obj"
    using h_insert_map(2) [OF drop_handle_ok [OF assms(1), of "pack n 1"], of obj] h_insert_at(1) [of obj ?t'] unfolding f by simp
  ultimately show ?thesis by (metis (mono_tags, lifting) case_prod_conv)
qed

theorem stale_handle_recycled_witness:
  "let (r, t', x') = CloseHandle closing_posix (pack 0 1) two_events []; (h', t'') = h_insert (KO_Semaphore 1 2) t' in
     r = Ok 1 \<and> h' = pack 0 1 \<and> handle_map t'' (pack 0 1) = Some (KO_Semaphore 1 2)"
proof -
  have "pack 0 1 = 0x100001000" by (simp add: pack_def)
  then show ?thesis using stale_handle_recycled [of 7 two_events 0 closing_posix "[]" "KO_Semaphore 1 2"] two_events_ok two_events_map by simp
qed

text \<open>
  C36: a signal is not lost. After \<open>SetEvent\<close> on a live event, any sequence of thunks on other handles (creating,
  setting, releasing, waiting, closing) leaves it signalled: the next wait returns \<open>WAIT_OBJECT_0\<close> without
  blocking, whatever its timeout, and leaves a manual-reset event signalled and an auto-reset event reset.
\<close>

theorem event_signal_kept:
  assumes "ht_ok (k + length ths) t" "handle_map t h = Some (KO_Event m s)" "Some h \<notin> set (map thunk_handle ths)"
  shows "let (r, t1) = SetEvent h t; (t2, x2) = fold (run_thunk P) ths (t1, x);
             (r', t3) = WaitForSingleObject tid now h timeout_ms ws t2 in
           r = Ok 1 \<and> r' = Ok (Some WAIT_OBJECT_0) \<and> handle_map t3 h = Some (KO_Event m m)"
proof -
  let ?t1 = "snd (SetEvent h t)"
  let ?t2 = "fst (fold (run_thunk P) ths (?t1, x))"
  have t1: "handle_map ?t1 h = Some (KO_Event m True)" "ht_ok (k + length ths) ?t1" "fst (SetEvent h t) = Ok 1"
    using assms by (simp_all add: SetEvent_def on_object_table on_object_result upd_object_map upd_object_ok obj_after_def)
  note t2 = run_thunks_keep [OF t1(2,1) assms(3), of P x]
  have "fst (WaitForSingleObject tid now h timeout_ms ws ?t2) = Ok (Some WAIT_OBJECT_0)"
    "handle_map (snd (WaitForSingleObject tid now h timeout_ms ws ?t2)) h = Some (KO_Event m m)"
    using t2 by (simp_all add: WaitForSingleObject_def on_object_table on_object_result upd_object_map obj_after_def
        wait_single_def waitable_def acquire_def)
  then show ?thesis using t1(3) by (auto simp: Let_def case_prod_beta)
qed

theorem event_signal_kept_witness:
  "let (r, t1) = SetEvent 0x100001000 two_events;
       (t2, x2) = fold (run_thunk closing_posix) [Th_CreateMutex 7 1, Th_SetEvent 0x100001001, Th_CloseHandle 0x100001001] (t1, []);
       (r', t3) = WaitForSingleObject 7 0 0x100001000 INFINITE [] t2 in
     r = Ok 1 \<and> r' = Ok (Some WAIT_OBJECT_0) \<and> handle_map t3 0x100001000 = Some (KO_Event True True)"
  by (rule event_signal_kept [where k = 5 and s = False]) (use two_events_ok two_events_map in simp_all)

end
