(* ===== verification/Heap.thy ===== *)
theory Heap
  imports Mem "HOL-Library.Multiset"
begin

text \<open>
  The process heap (\<open>quantum-kernel32/src/heap.rs\<close>) and the virtual memory thunks (\<open>vm.rs\<close>), both on the memory
  manager of \<open>Mem\<close>. The heap is a bump allocator over one region; guest memory is a function from addresses to
  bytes, which the zeroing of a block and the copy of \<open>HeapReAlloc\<close> change. A copy between overlapping ranges
  is undefined for \<open>copy_nonoverlapping\<close>; it is the fault \<open>Overlapping_Copy\<close>. The lock around the heap and the table makes
  every thunk one step.
\<close>

section \<open>The bump allocator\<close>

type_synonym memory = "u64 \<Rightarrow> u8"

datatype heap_fault = Overlapping_Copy

definition DEFAULT_HEAP_BYTES :: nat where "DEFAULT_HEAP_BYTES = 64 * 1024 * 1024"
definition DEFAULT_HEAP_HANDLE :: u64 where "DEFAULT_HEAP_HANDLE = 0xDEADBEEF"
definition HEAP_ZERO_MEMORY :: u32 where "HEAP_ZERO_MEMORY = 0x00000008"

record heap =
  hp_base :: u64
  hp_len :: nat
  hp_next :: nat

definition write_bytes :: "u64 \<Rightarrow> u8 \<Rightarrow> nat \<Rightarrow> memory \<Rightarrow> memory" where
  "write_bytes p v n m = (\<lambda>a. if unat (a - p) < n then v else m a)"

definition load_region :: "region \<Rightarrow> memory \<Rightarrow> memory" where
  "load_region r m = (\<lambda>a. if unat (a - r_base r) < r_len r then r_mem r ! unat (a - r_base r) else m a)"

definition heap_new :: "'k memory_manager \<Rightarrow> nat \<Rightarrow> 'k \<Rightarrow> memory \<Rightarrow> (heap_fault, heap \<times> memory) outcome \<times> 'k" where
  "heap_new M sz k m =
     (case mm_allocate M k None sz PROT_RW of
        (Ok r, k) \<Rightarrow> (Ok (\<lparr>hp_base = r_base r, hp_len = r_len r, hp_next = 0\<rparr>, load_region r m), k)
      | (_, k) \<Rightarrow> (Panic ''default heap mach_vm_allocate'', k))"

definition heap_alloc :: "u64 \<Rightarrow> bool \<Rightarrow> heap \<times> memory \<Rightarrow> (heap_fault, u64) outcome \<times> heap \<times> memory" where
  "heap_alloc sz zero = (\<lambda>(h, m).
     case add_or_panic sz 15 of
       Ok s \<Rightarrow>
         let aligned = unat (s AND NOT 15) in
         if 2 ^ 64 \<le> hp_next h + aligned \<or> hp_len h < hp_next h + aligned then (Ok 0, h, m)
         else
           let ptr = hp_base h + of_nat (hp_next h) in
           (Ok ptr, h\<lparr>hp_next := hp_next h + aligned\<rparr>, if zero then write_bytes ptr 0 aligned m else m)
     | Err e \<Rightarrow> (Err e, h, m)
     | Panic p \<Rightarrow> (Panic p, h, m))"

definition heap_free :: "u64 \<Rightarrow> heap \<times> memory \<Rightarrow> bool \<times> heap \<times> memory" where
  "heap_free ptr s = (True, s)"

section \<open>Heap thunks\<close>

record 'k heap_state =
  hs_heap :: "heap option"
  hs_mem :: memory
  hs_kernel :: 'k

text \<open>The lazily created default heap; \<open>f\<close> runs under its lock.\<close>

definition with_default_heap ::
  "'k memory_manager \<Rightarrow> (heap \<times> memory \<Rightarrow> (heap_fault, 'a) outcome \<times> heap \<times> memory) \<Rightarrow> 'k heap_state
     \<Rightarrow> (heap_fault, 'a) outcome \<times> 'k heap_state" where
  "with_default_heap M f st =
     (let (r, k) = (case hs_heap st of
                      Some h \<Rightarrow> (Ok (h, hs_mem st), hs_kernel st)
                    | None \<Rightarrow> heap_new M DEFAULT_HEAP_BYTES (hs_kernel st) (hs_mem st))
      in case r of
           Ok s \<Rightarrow> let (x, h, m) = f s in (x, \<lparr>hs_heap = Some h, hs_mem = m, hs_kernel = k\<rparr>)
         | Err e \<Rightarrow> (Err e, st\<lparr>hs_kernel := k\<rparr>)
         | Panic p \<Rightarrow> (Panic p, st\<lparr>hs_kernel := k\<rparr>))"

definition GetProcessHeap :: u64 where "GetProcessHeap = DEFAULT_HEAP_HANDLE"

definition HeapAlloc :: "'k memory_manager \<Rightarrow> u64 \<Rightarrow> u32 \<Rightarrow> u64 \<Rightarrow> 'k heap_state \<Rightarrow> (heap_fault, u64) outcome \<times> 'k heap_state" where
  "HeapAlloc M handle flags sz st =
     (if handle \<noteq> DEFAULT_HEAP_HANDLE then (Ok 0, st)
      else with_default_heap M (heap_alloc sz (flags AND HEAP_ZERO_MEMORY \<noteq> 0)) st)"

definition HeapFree :: "'k memory_manager \<Rightarrow> u64 \<Rightarrow> u32 \<Rightarrow> u64 \<Rightarrow> 'k heap_state \<Rightarrow> (heap_fault, int) outcome \<times> 'k heap_state" where
  "HeapFree M handle flags ptr st =
     (if handle \<noteq> DEFAULT_HEAP_HANDLE then (Ok 0, st)
      else with_default_heap M (\<lambda>s. let (b, s) = heap_free ptr s in (Ok (if b then 1 else 0), s)) st)"

definition HeapCreate :: "u32 \<Rightarrow> u64 \<Rightarrow> u64 \<Rightarrow> u64" where
  "HeapCreate options initial_size maximum_size = DEFAULT_HEAP_HANDLE"

definition HeapDestroy :: "u64 \<Rightarrow> int" where "HeapDestroy handle = 1"

definition copy_nonoverlapping :: "u64 \<Rightarrow> u64 \<Rightarrow> nat \<Rightarrow> memory \<Rightarrow> (heap_fault, memory) outcome" where
  "copy_nonoverlapping src dst n m =
     (if unat src < unat dst + n \<and> unat dst < unat src + n then Err Overlapping_Copy
      else Ok (\<lambda>a. if unat (a - dst) < n then m (src + (a - dst)) else m a))"

definition HeapReAlloc ::
  "'k memory_manager \<Rightarrow> u64 \<Rightarrow> u32 \<Rightarrow> u64 \<Rightarrow> u64 \<Rightarrow> 'k heap_state \<Rightarrow> (heap_fault, u64) outcome \<times> 'k heap_state" where
  "HeapReAlloc M handle flags ptr sz st =
     (if handle \<noteq> DEFAULT_HEAP_HANDLE then (Ok 0, st)
      else
        sbind (with_default_heap M (heap_alloc sz (flags AND HEAP_ZERO_MEMORY \<noteq> 0)) st) (\<lambda>new_ptr st.
          if ptr \<noteq> 0 \<and> new_ptr \<noteq> 0 then
            (case copy_nonoverlapping ptr new_ptr (unat sz) (hs_mem st) of
               Ok m \<Rightarrow> (Ok new_ptr, st\<lparr>hs_mem := m\<rparr>)
             | Err e \<Rightarrow> (Err e, st)
             | Panic p \<Rightarrow> (Panic p, st))
          else (Ok new_ptr, st)))"

definition HeapSize :: "u64 \<Rightarrow> u32 \<Rightarrow> u64 \<Rightarrow> u64" where
  "HeapSize handle flags ptr = (if handle \<noteq> DEFAULT_HEAP_HANDLE then - 1 else 0x400)"

definition HeapValidate :: "u64 \<Rightarrow> u32 \<Rightarrow> u64 \<Rightarrow> int" where "HeapValidate handle flags ptr = 1"

definition HeapSetInformation :: "u64 \<Rightarrow> u32 \<Rightarrow> u64 \<Rightarrow> u64 \<Rightarrow> int" where
  "HeapSetInformation handle info_class info info_len = 1"

section \<open>Virtual memory thunks\<close>

definition MEM_COMMIT :: u32 where "MEM_COMMIT = 0x1000"
definition MEM_RESERVE :: u32 where "MEM_RESERVE = 0x2000"
definition MEM_RELEASE :: u32 where "MEM_RELEASE = 0x8000"
definition PAGE_NOACCESS :: u32 where "PAGE_NOACCESS = 0x01"
definition PAGE_READONLY :: u32 where "PAGE_READONLY = 0x02"
definition PAGE_READWRITE :: u32 where "PAGE_READWRITE = 0x04"
definition PAGE_EXECUTE :: u32 where "PAGE_EXECUTE = 0x10"
definition PAGE_EXECUTE_READ :: u32 where "PAGE_EXECUTE_READ = 0x20"
definition PAGE_EXECUTE_READWRITE :: u32 where "PAGE_EXECUTE_READWRITE = 0x40"

definition translate_protect :: "u32 \<Rightarrow> protection" where
  "translate_protect flags =
     (let b = flags AND 0xFF in
      if b = PAGE_NOACCESS then PROT_NONE
      else if b = PAGE_READONLY then PROT_R
      else if b = PAGE_READWRITE then PROT_RW
      else if b = PAGE_EXECUTE then PROT_RX
      else if b = PAGE_EXECUTE_READ then PROT_RX
      else if b = PAGE_EXECUTE_READWRITE then PROT_RWX
      else PROT_RW)"

text \<open>The live allocations, and \<open>munmap\<close> of the host.\<close>

record 'k vm_state =
  vm_regions :: "(u64 \<times> nat) list"
  vm_kernel :: 'k

type_synonym 'k munmap = "'k \<Rightarrow> u64 \<Rightarrow> nat \<Rightarrow> int \<times> 'k"

definition VirtualAlloc :: "'k memory_manager \<Rightarrow> u64 \<Rightarrow> u64 \<Rightarrow> u32 \<Rightarrow> u32 \<Rightarrow> 'k vm_state \<Rightarrow> u64 \<times> 'k vm_state" where
  "VirtualAlloc M address sz alloc_type protect st =
     (if sz = 0 then (0, st)
      else if alloc_type AND (MEM_RESERVE OR MEM_COMMIT) = 0 then (0, st)
      else
        let prot = translate_protect protect;
            hint = (if address = 0 then None else Some address)
        in case mm_allocate M (vm_kernel st) hint (unat sz) prot of
             (Ok r, k) \<Rightarrow> (r_base r, \<lparr>vm_regions = vm_regions st @ [(r_base r, r_len r)], vm_kernel = k\<rparr>)
           | (_, k) \<Rightarrow> (0, st\<lparr>vm_kernel := k\<rparr>))"

primrec position_base :: "u64 \<Rightarrow> (u64 \<times> nat) list \<Rightarrow> nat option" where
  "position_base addr [] = None"
| "position_base addr (r # rs) = (if fst r = addr then Some 0 else map_option Suc (position_base addr rs))"

definition swap_remove :: "nat \<Rightarrow> 'a list \<Rightarrow> 'a list" where
  "swap_remove i xs = butlast (xs[i := last xs])"

definition VirtualFree :: "'k munmap \<Rightarrow> u64 \<Rightarrow> u64 \<Rightarrow> u32 \<Rightarrow> 'k vm_state \<Rightarrow> int \<times> 'k vm_state" where
  "VirtualFree munmap address sz free_type st =
     (if address = 0 then (0, st)
      else if free_type AND MEM_RELEASE = 0 then (1, st)
      else
        (case position_base address (vm_regions st) of
           Some idx \<Rightarrow>
             let len = snd (vm_regions st ! idx);
                 (rc, k) = munmap (vm_kernel st) address len
             in (if rc = 0 then 1 else 0, \<lparr>vm_regions = swap_remove idx (vm_regions st), vm_kernel = k\<rparr>)
         | None \<Rightarrow> (0, st)))"

text \<open>The result and the old protection for the caller's pointer.\<close>

definition VirtualProtect ::
  "'k memory_manager \<Rightarrow> u64 \<Rightarrow> u64 \<Rightarrow> u32 \<Rightarrow> 'k vm_state \<Rightarrow> (int \<times> u32 option) \<times> 'k vm_state" where
  "VirtualProtect M address sz new_protect st =
     (if address = 0 \<or> sz = 0 then ((0, None), st)
      else
        (case mm_protect M (vm_kernel st) address (unat sz) (translate_protect new_protect) of
           (Ok _, k) \<Rightarrow> ((1, Some PAGE_READWRITE), st\<lparr>vm_kernel := k\<rparr>)
         | (_, k) \<Rightarrow> ((0, None), st\<lparr>vm_kernel := k\<rparr>)))"

section \<open>Blocks\<close>

definition round16 :: "nat \<Rightarrow> nat" where
  "round16 n = (n + 15) div 16 * 16"

lemma round16_bounds: "n \<le> round16 n" "16 dvd round16 n"
  by (simp_all add: round16_def)

lemma round16_word: "unat (s :: u64) = n + 15 \<Longrightarrow> unat (s AND NOT 15) = round16 n"
  using unat_and_not_mask [of s 4] by (simp add: mask_numeral round16_def)

text \<open>The heap lies in the address space, its base is aligned, and the cursor is aligned and inside.\<close>

definition heap_ok :: "heap \<Rightarrow> bool" where
  "heap_ok h \<longleftrightarrow> 0 < unat (hp_base h) \<and> 16 dvd unat (hp_base h) \<and> unat (hp_base h) + hp_len h < 2 ^ 64
     \<and> hp_next h \<le> hp_len h \<and> 16 dvd hp_next h"

definition heap_top :: "heap \<Rightarrow> nat" where
  "heap_top h = unat (hp_base h) + hp_next h"

text \<open>\<open>alloc\<close> in numbers, where its addition does not overflow.\<close>

lemma heap_alloc_eq:
  assumes "heap_ok h" "unat sz + 15 < 2 ^ 64"
  shows "heap_alloc sz zero (h, m) =
    (if hp_next h + round16 (unat sz) \<le> hp_len h
     then (Ok (of_nat (heap_top h)), h\<lparr>hp_next := hp_next h + round16 (unat sz)\<rparr>,
           if zero then write_bytes (of_nat (heap_top h)) 0 (round16 (unat sz)) m else m)
     else (Ok 0, h, m))"
proof -
  have a: "add_or_panic sz 15 = Ok (sz + 15)" and u: "unat (sz + 15) = unat sz + 15"
    using assms(2) by (simp_all add: add_or_panic_def unat_word_ariths)
  have l: "hp_len h < 2 ^ 64" using assms(1) by (simp add: heap_ok_def)
  show ?thesis using l by (auto simp: heap_alloc_def a round16_word [OF u, simplified] heap_top_def Let_def)
qed

lemma unat_heap_top: "heap_ok h \<Longrightarrow> unat (of_nat (heap_top h) :: u64) = heap_top h"
  by (simp add: heap_ok_def heap_top_def unsigned_of_nat take_bit_nat_eq_self del: of_nat_add)

lemma heap_alloc_step:
  assumes "heap_ok h" "heap_alloc sz zero (h, m) = (Ok p, h', m')"
  shows "heap_ok h'" "hp_base h' = hp_base h" "hp_len h' = hp_len h" "heap_top h \<le> heap_top h'"
    "p \<noteq> 0 \<Longrightarrow> unat p = heap_top h \<and> heap_top h' = heap_top h + round16 (unat sz)"
    "\<not> (heap_top h \<le> unat a \<and> unat a < heap_top h') \<Longrightarrow> m' a = m a"
    "p \<noteq> 0 \<Longrightarrow> zero \<Longrightarrow> unat p \<le> unat a \<Longrightarrow> unat a < unat p + unat sz \<Longrightarrow> m' a = 0"
proof -
  have sz: "unat sz + 15 < 2 ^ 64" using assms(2) by (auto simp: heap_alloc_def add_or_panic_def split: if_splits)
  note e = assms(2) [unfolded heap_alloc_eq [OF assms(1) sz]]
  note t = unat_heap_top [OF assms(1)]
  show "heap_ok h'" "hp_base h' = hp_base h" "hp_len h' = hp_len h" "heap_top h \<le> heap_top h'"
    using e assms(1) round16_bounds [of "unat sz"] by (auto simp: heap_ok_def heap_top_def split: if_splits)
  show "p \<noteq> 0 \<Longrightarrow> unat p = heap_top h \<and> heap_top h' = heap_top h + round16 (unat sz)"
    using e t by (auto simp: heap_top_def split: if_splits)
  have d: "unat (a - of_nat (heap_top h)) = unat a - heap_top h" if "heap_top h \<le> unat a"
    using that t by (simp add: unat_sub word_le_nat_alt)
  have d': "heap_top h \<le> unat a" if "unat (a - of_nat (heap_top h)) < round16 (unat sz)" "heap_top h + round16 (unat sz) < 2 ^ 64"
    using that t by (cases "heap_top h \<le> unat a") (auto simp: unat_sub_if' word_le_nat_alt)
  show "\<not> (heap_top h \<le> unat a \<and> unat a < heap_top h') \<Longrightarrow> m' a = m a"
    using e d d' assms(1) by (auto simp: write_bytes_def heap_top_def heap_ok_def split: if_splits)
  show "p \<noteq> 0 \<Longrightarrow> zero \<Longrightarrow> unat p \<le> unat a \<Longrightarrow> unat a < unat p + unat sz \<Longrightarrow> m' a = 0"
    using e d t round16_bounds(1) [of "unat sz"] by (auto simp: write_bytes_def split: if_splits)
qed

text \<open>A sequence of allocations under the lock.\<close>

primrec heap_allocs :: "(bool \<times> u64) list \<Rightarrow> heap \<times> memory \<Rightarrow> (heap_fault, u64 list) outcome \<times> heap \<times> memory" where
  "heap_allocs [] s = (Ok [], s)"
| "heap_allocs (r # rs) s =
     sbind (heap_alloc (snd r) (fst r) s) (\<lambda>p s. sbind (heap_allocs rs s) (\<lambda>ps s. (Ok (p # ps), s)))"

lemma heap_allocs_Cons:
  assumes "heap_allocs (r # rs) (h, m) = (Ok ps, h', m')"
  obtains p h1 m1 qs where "heap_alloc (snd r) (fst r) (h, m) = (Ok p, h1, m1)" "heap_allocs rs (h1, m1) = (Ok qs, h', m')" "ps = p # qs"
proof -
  obtain x h1 m1 where x: "heap_alloc (snd r) (fst r) (h, m) = (x, h1, m1)" by (rule prod_cases3)
  with assms that show thesis
    by (cases "heap_allocs rs (h1, m1)"; cases x) (auto simp: sbind_def split: outcome.splits)
qed

lemma heap_allocs_step:
  assumes "heap_ok h" "heap_allocs rs (h, m) = (Ok ps, h', m')"
  shows "heap_ok h' \<and> hp_base h' = hp_base h \<and> hp_len h' = hp_len h \<and> heap_top h \<le> heap_top h'
    \<and> (\<forall>a. \<not> (heap_top h \<le> unat a \<and> unat a < heap_top h') \<longrightarrow> m' a = m a)"
  using assms
proof (induction rs arbitrary: h m ps)
  case (Cons r rs)
  from Cons.prems(2) obtain p h1 m1 qs where s: "heap_alloc (snd r) (fst r) (h, m) = (Ok p, h1, m1)" "heap_allocs rs (h1, m1) = (Ok qs, h', m')"
    by (rule heap_allocs_Cons)
  note a = heap_alloc_step [OF Cons.prems(1) s(1)]
  from Cons.IH [OF a(1) s(2)] a(2,3,4,6) show ?case by auto
qed auto

text \<open>What a list of pointers for a list of requests has to satisfy, from the address \<open>lo\<close> on.\<close>

fun laid_out :: "nat \<Rightarrow> nat \<Rightarrow> memory \<Rightarrow> (bool \<times> u64) list \<Rightarrow> u64 list \<Rightarrow> bool" where
  "laid_out lo hi m [] [] \<longleftrightarrow> lo \<le> hi"
| "laid_out lo hi m ((z, sz) # rs) (p # ps) \<longleftrightarrow>
     (if p = 0 then laid_out lo hi m rs ps
      else lo \<le> unat p \<and> 16 dvd unat p \<and> (z \<longrightarrow> (\<forall>a. unat p \<le> unat a \<and> unat a < unat p + unat sz \<longrightarrow> m a = 0))
         \<and> laid_out (unat p + unat sz) hi m rs ps)"
| "laid_out lo hi m _ _ \<longleftrightarrow> False"

lemma laid_out_mono: "laid_out lo hi m rs ps \<Longrightarrow> lo' \<le> lo \<Longrightarrow> laid_out lo' hi m rs ps"
  by (induction lo hi m rs ps arbitrary: lo' rule: laid_out.induct) (auto split: if_splits)

lemma heap_allocs_laid_out:
  assumes "heap_ok h" "heap_allocs rs (h, m) = (Ok ps, h', m')"
  shows "laid_out (heap_top h) (heap_top h') m' rs ps"
  using assms
proof (induction rs arbitrary: h m ps)
  case (Cons r rs)
  from Cons.prems(2) obtain p h1 m1 qs where s: "heap_alloc (snd r) (fst r) (h, m) = (Ok p, h1, m1)" "heap_allocs rs (h1, m1) = (Ok qs, h', m')" "ps = p # qs"
    by (rule heap_allocs_Cons)
  obtain z sz where r: "r = (z, sz)" by (cases r)
  note a = heap_alloc_step [OF Cons.prems(1) s(1) [unfolded r fst_conv snd_conv]]
  note rest = Cons.IH [OF a(1) s(2)]
  show ?case
  proof (cases "p = 0")
    case True
    then show ?thesis using laid_out_mono [OF rest a(4)] by (simp add: r s(3))
  next
    case False
    note p = a(5) [OF False]
    have "m' x = 0" if "z" "unat p \<le> unat x" "unat x < unat p + unat sz" for x
    proof -
      have "unat x < heap_top h1" using p round16_bounds(1) [of "unat sz"] that by linarith
      then have "m' x = m1 x" using heap_allocs_step [OF a(1) s(2)] by auto
      then show ?thesis using a(7) [OF False that] by simp
    qed
    moreover have "laid_out (unat p + unat sz) (heap_top h') m' rs qs"
      by (rule laid_out_mono [OF rest]) (use p round16_bounds(1) [of "unat sz"] in simp)
    moreover have "16 dvd unat p" using Cons.prems(1) p by (auto simp: heap_ok_def heap_top_def)
    ultimately show ?thesis using False p by (simp add: r s(3))
  qed
qed simp

lemma laid_out_nth:
  "laid_out lo hi m rs ps \<Longrightarrow> length ps = length rs \<and> lo \<le> hi
     \<and> (\<forall>i < length rs. ps ! i \<noteq> 0 \<longrightarrow>
          lo \<le> unat (ps ! i) \<and> 16 dvd unat (ps ! i) \<and> unat (ps ! i) + unat (snd (rs ! i)) \<le> hi
          \<and> (fst (rs ! i) \<longrightarrow> (\<forall>a. unat (ps ! i) \<le> unat a \<and> unat a < unat (ps ! i) + unat (snd (rs ! i)) \<longrightarrow> m a = 0))
          \<and> (\<forall>j < i. ps ! j \<noteq> 0 \<longrightarrow> unat (ps ! j) + unat (snd (rs ! j)) \<le> unat (ps ! i)))"
proof (induction lo hi m rs ps rule: laid_out.induct)
  case (2 lo hi m z sz rs p ps)
  show ?case
  proof (cases "p = 0")
    case True
    with 2 show ?thesis by (auto simp: nth_Cons split: nat.splits)
  next
    case False
    with 2 show ?thesis by (auto simp: nth_Cons split: nat.splits)
  qed
qed auto

text \<open>A heap the manager has just allocated, for a region the host placed aligned and inside the address space.\<close>

lemma heap_new_ok:
  assumes "heap_new (mach_vm_manager H) sz k m = (Ok (h, m'), k')" "16 dvd unat (hp_base h)" "unat (hp_base h) + sz < 2 ^ 64"
  shows "heap_ok h \<and> hp_len h = sz \<and> hp_next h = 0"
proof -
  obtain r where r: "mm_allocate (mach_vm_manager H) k None sz PROT_RW = (Ok r, k')" and h: "h = \<lparr>hp_base = r_base r, hp_len = r_len r, hp_next = 0\<rparr>"
    using assms(1) by (auto simp: heap_new_def split: prod.splits outcome.splits)
  have "r_len r = sz" "0 < unat (r_base r)" using mach.allocate_len [OF r] mach.allocate_nonnull [OF r] by (simp_all add: unat_gt_0)
  then show ?thesis using assms(2,3) by (simp add: heap_ok_def h)
qed

lemma HeapAlloc_ready:
  "HeapAlloc M DEFAULT_HEAP_HANDLE flags sz \<lparr>hs_heap = Some h, hs_mem = m, hs_kernel = k\<rparr> =
     (let (x, h, m) = heap_alloc sz (flags AND HEAP_ZERO_MEMORY \<noteq> 0) (h, m) in (x, \<lparr>hs_heap = Some h, hs_mem = m, hs_kernel = k\<rparr>))"
  by (simp add: HeapAlloc_def with_default_heap_def)

section \<open>Properties\<close>

text \<open>
  C38: the blocks a sequence of allocations returns are 16-byte aligned, lie inside the unused part of the region the
  heap had, and each starts after the end of every earlier one, so no two overlap; a block asked for with the zero
  flag still reads as zero after the whole sequence, and no byte outside the newly used part changed.
\<close>

theorem heap_blocks_disjoint:
  assumes "heap_ok h" "heap_allocs rs (h, m) = (Ok ps, h', m')"
  shows "heap_ok h' \<and> length ps = length rs
    \<and> (\<forall>i < length rs. ps ! i \<noteq> 0 \<longrightarrow>
          heap_top h \<le> unat (ps ! i) \<and> 16 dvd unat (ps ! i)
          \<and> unat (ps ! i) + unat (snd (rs ! i)) \<le> unat (hp_base h) + hp_len h
          \<and> (fst (rs ! i) \<longrightarrow> (\<forall>a. unat (ps ! i) \<le> unat a \<and> unat a < unat (ps ! i) + unat (snd (rs ! i)) \<longrightarrow> m' a = 0))
          \<and> (\<forall>j < i. ps ! j \<noteq> 0 \<longrightarrow> unat (ps ! j) + unat (snd (rs ! j)) \<le> unat (ps ! i)))
    \<and> (\<forall>a. \<not> (heap_top h \<le> unat a \<and> unat a < heap_top h') \<longrightarrow> m' a = m a)"
proof -
  note s = heap_allocs_step [OF assms]
  then have "heap_top h' \<le> unat (hp_base h) + hp_len h" by (auto simp: heap_ok_def heap_top_def)
  with laid_out_nth [OF heap_allocs_laid_out [OF assms]] s show ?thesis by fastforce
qed

definition small_heap :: heap where
  "small_heap = \<lparr>hp_base = 0x10000, hp_len = 64, hp_next = 0\<rparr>"

lemma small_heap_ok: "heap_ok small_heap"
  by (simp add: heap_ok_def small_heap_def)

theorem heap_blocks_disjoint_witness:
  "\<exists>h' m'. heap_allocs [(True, 20), (False, 1), (True, 17), (False, 4)] (small_heap, \<lambda>_. 0xCC) = (Ok [0x10000, 0x10020, 0, 0x10030], h', m')
     \<and> heap_ok h' \<and> m' 0x10013 = 0 \<and> m' 0x10020 = 0xCC"
proof -
  let ?r = "heap_allocs [(True, 20), (False, 1), (True, 17), (False, 4)] (small_heap, \<lambda>_. 0xCC)"
  obtain h' m' where r: "?r = (Ok [0x10000, 0x10020, 0, 0x10030], h', m')"
    by (simp add: small_heap_def heap_alloc_def add_or_panic_def sbind_def)
  note t = heap_blocks_disjoint [OF small_heap_ok r]
  have "m' 0x10013 = 0" using t by auto
  moreover have "m' 0x10020 = 0xCC" using r by (auto simp: small_heap_def heap_alloc_def add_or_panic_def sbind_def write_bytes_def)
  ultimately show ?thesis using r t by blast
qed

text \<open>
  C39: \<open>HeapReAlloc\<close> on the most recent block. When the new size fits the old block's rounded size the new block
  starts right after the old one and holds its first bytes. When the block grows beyond that, which is what a
  reallocation is for, and the heap has room, source and destination of the copy overlap: the code calls
  \<open>copy_nonoverlapping\<close> with overlapping ranges, whose behaviour is undefined.
\<close>

theorem realloc_last_block:
  assumes "heap_ok h" "heap_alloc old zero (h, m) = (Ok p, h1, m1)" "p \<noteq> 0"
    "hp_next h1 + round16 (unat sz) \<le> hp_len h1" "unat sz + 15 < 2 ^ 64"
  shows "case HeapReAlloc M DEFAULT_HEAP_HANDLE flags p sz \<lparr>hs_heap = Some h1, hs_mem = m1, hs_kernel = k\<rparr> of
      (r, st) \<Rightarrow>
        if unat sz \<le> round16 (unat old)
        then r = Ok (p + of_nat (round16 (unat old))) \<and> (\<forall>i < unat sz. hs_mem st (p + of_nat (round16 (unat old)) + of_nat i) = m1 (p + of_nat i))
        else r = Err Overlapping_Copy"
proof -
  note a = heap_alloc_step [OF assms(1,2)]
  note e = heap_alloc_eq [OF a(1) assms(5)]
  let ?q = "of_nat (heap_top h1) :: u64"
  have q: "unat ?q = unat p + round16 (unat old)" using a(5) [OF assms(3)] unat_heap_top [OF a(1)] by simp
  have pq: "p + of_nat (round16 (unat old)) = ?q"
    unfolding word_unat_eq_iff q using q unsigned_less [where 'a = nat, of ?q] by (simp add: unat_word_ariths unsigned_of_nat take_bit_nat_eq_self)
  have q0: "?q \<noteq> 0" using q assms(3) by (metis add_is_0 unat_eq_zero unsigned_0)
  obtain m2 h2 where s: "heap_alloc sz (flags AND HEAP_ZERO_MEMORY \<noteq> 0) (h1, m1) = (Ok ?q, h2, m2)"
    using assms(4) by (simp add: e)
  have m2: "m2 (p + of_nat i) = m1 (p + of_nat i)" if "i < round16 (unat old)" for i
  proof (rule heap_alloc_step(6) [OF a(1) s])
    have "unat (p + of_nat i) = unat p + i"
      using that q unsigned_less [where 'a = nat, of ?q] by (simp add: unat_word_ariths unsigned_of_nat take_bit_nat_eq_self)
    then show "\<not> (heap_top h1 \<le> unat (p + of_nat i) \<and> unat (p + of_nat i) < heap_top h2)"
      using that q unat_heap_top [OF a(1)] by simp
  qed
  have i: "unat (of_nat i :: u64) = i" if "i < unat sz" for i
    using that unsigned_less [where 'a = nat, of sz] by (simp add: unsigned_of_nat take_bit_nat_eq_self)
  show ?thesis unfolding pq
    using s q0 assms(3) q m2 i
    by (auto simp: HeapReAlloc_def with_default_heap_def sbind_def copy_nonoverlapping_def split: if_splits)
qed

definition no_manager :: "unit memory_manager" where
  "no_manager = \<lparr>mm_allocate = (\<lambda>k hint sz prot. (Err (Host ''none'' 1), k)), mm_allocate_jit = (\<lambda>k sz. (Err (Host ''none'' 1), k)),
     mm_protect = (\<lambda>k a sz prot. (Ok (), k)), mm_flip_jit = (\<lambda>k a sz w. k)\<rparr>"

theorem realloc_last_block_witness:
  "\<exists>h1 m1. heap_alloc 8 False (small_heap, \<lambda>_. 0xCC) = (Ok 0x10000, h1, m1)
     \<and> fst (HeapReAlloc no_manager DEFAULT_HEAP_HANDLE 0 0x10000 24 \<lparr>hs_heap = Some h1, hs_mem = m1, hs_kernel = ()\<rparr>) = Err Overlapping_Copy"
proof -
  obtain h1 m1 where r: "heap_alloc 8 False (small_heap, \<lambda>_. 0xCC) = (Ok 0x10000, h1, m1)" and h1: "hp_next h1 = 16" "hp_len h1 = 64"
    by (simp add: small_heap_def heap_alloc_def add_or_panic_def)
  have "fst (HeapReAlloc no_manager DEFAULT_HEAP_HANDLE 0 0x10000 24 \<lparr>hs_heap = Some h1, hs_mem = m1, hs_kernel = ()\<rparr>) = Err Overlapping_Copy"
    using realloc_last_block [OF small_heap_ok r, of 24 no_manager 0 "()"] h1 by (simp add: round16_def split: prod.splits)
  with r show ?thesis by blast
qed

section \<open>The table of virtual allocations\<close>

lemma position_base_Some: "position_base addr rs = Some i \<Longrightarrow> i < length rs \<and> fst (rs ! i) = addr"
  by (induction rs arbitrary: i) (auto split: if_splits)

lemma mset_swap_remove:
  assumes "i < length xs"
  shows "add_mset (xs ! i) (mset (swap_remove i xs)) = mset xs"
proof -
  obtain ys y where xs: "xs = ys @ [y]" using assms by (cases xs rule: rev_cases) auto
  show ?thesis
  proof (cases "i < length ys")
    case True
    then show ?thesis by (simp add: swap_remove_def xs list_update_append nth_append mset_update)
  next
    case False
    then show ?thesis using assms by (simp add: swap_remove_def xs list_update_append nth_append)
  qed
qed

text \<open>
  Releasing an address unmaps exactly the length recorded for it and takes one record of it out of the table; the
  table is a multiset, since \<open>swap_remove\<close> moves the last record.
\<close>

lemma VirtualFree_releases:
  assumes "(r, st') = VirtualFree munmap address sz MEM_RELEASE st" "address \<in> fst ` set (vm_regions st)" "address \<noteq> 0"
  shows "\<exists>len. mset (vm_regions st) = add_mset (address, len) (mset (vm_regions st'))
    \<and> vm_kernel st' = snd (munmap (vm_kernel st) address len) \<and> (r = 1 \<longleftrightarrow> fst (munmap (vm_kernel st) address len) = 0)"
proof -
  have "position_base address rs \<noteq> None" if "address \<in> fst ` set rs" for rs
    using that by (induction rs) auto
  then obtain i where i: "position_base address (vm_regions st) = Some i" using assms(2) by blast
  note p = position_base_Some [OF i]
  then have "vm_regions st ! i = (address, snd (vm_regions st ! i))" by (metis prod.collapse)
  with mset_swap_remove [of i "vm_regions st"] p assms(1,3) i show ?thesis
    by (intro exI [of _ "snd (vm_regions st ! i)"]) (auto simp: VirtualFree_def MEM_RELEASE_def Let_def split: prod.splits)
qed

lemma VirtualAlloc_table:
  assumes "VirtualAlloc (mach_vm_manager H) address sz alloc_type protect st = (p, st')"
  shows "p = 0 \<and> vm_regions st' = vm_regions st \<or> p \<noteq> 0 \<and> vm_regions st' = vm_regions st @ [(p, unat sz)]"
proof (cases "sz = 0 \<or> alloc_type AND (MEM_RESERVE OR MEM_COMMIT) = 0")
  case True
  then show ?thesis using assms by (auto simp: VirtualAlloc_def split: if_splits)
next
  case False
  obtain x k where a: "mm_allocate (mach_vm_manager H) (vm_kernel st) (if address = 0 then None else Some address) (unat sz) (translate_protect protect) = (x, k)"
    by fastforce
  then show ?thesis using False assms mach.allocate_len mach.allocate_nonnull
    by (cases x) (fastforce simp: VirtualAlloc_def Let_def)+
qed

end
