(* ===== verification/Windows_State.thy ===== *)
theory Windows_State
  imports Prelude
begin

text \<open>
  The window tables behind \<open>user32\<close> (\<open>quantum-kernel32/src/windows_state.rs\<close>): window classes, windows with their
  message queues, and the pending quit code. A wide string of the guest is the list of units its pointer leads
  to, or \<open>None\<close> for the null pointer; a Rust string is its list of code points. The tables are hash maps, whose
  iteration order is not specified: a poll of all windows takes the order as an argument.
\<close>

section \<open>State\<close>

record pending_msg =
  pm_hwnd :: u64
  pm_message :: u32
  pm_wparam :: u64
  pm_lparam :: u64

record class_entry =
  ce_atom :: u16
  ce_wnd_proc :: u64

record window_entry =
  we_class_atom :: u16
  we_wnd_proc :: u64
  we_ns_window :: u64
  we_title :: "nat list"
  we_queue :: "pending_msg list"

record windows_state =
  ws_classes :: "nat list \<rightharpoonup> class_entry"
  ws_next_atom :: u16
  ws_windows :: "u64 \<rightharpoonup> window_entry"
  ws_next_hwnd :: u64
  ws_quit_code :: "int option"

definition state_new :: windows_state where
  "state_new = \<lparr>ws_classes = Map.empty, ws_next_atom = 0xC000, ws_windows = Map.empty,
     ws_next_hwnd = 0x4000000000020000, ws_quit_code = None\<rparr>"

section \<open>Operations\<close>

text \<open>\<open>String::from_utf16_lossy\<close>: surrogate pairs are joined, every other surrogate becomes U+FFFD.\<close>

fun from_utf16_lossy :: "u16 list \<Rightarrow> nat list" where
  "from_utf16_lossy [] = []"
| "from_utf16_lossy (u # us) =
     (if u < 0xD800 \<or> 0xDFFF < u then unat u # from_utf16_lossy us
      else if 0xDC00 \<le> u then 0xFFFD # from_utf16_lossy us
      else
        (case us of
           [] \<Rightarrow> [0xFFFD]
         | v # vs \<Rightarrow>
             if 0xDC00 \<le> v \<and> v \<le> 0xDFFF
             then (0x10000 + (unat u - 0xD800) * 0x400 + (unat v - 0xDC00)) # from_utf16_lossy vs
             else 0xFFFD # from_utf16_lossy us))"

definition decode_lpcwstr :: "u16 list option \<Rightarrow> nat list" where
  "decode_lpcwstr wide = (case wide of None \<Rightarrow> [] | Some units \<Rightarrow> from_utf16_lossy (takeWhile (\<lambda>c. c \<noteq> 0) units))"

definition register_class :: "u16 list option \<Rightarrow> u64 \<Rightarrow> windows_state \<Rightarrow> u16 \<times> windows_state" where
  "register_class name wnd_proc g =
     (let name_str = decode_lpcwstr name in
      case ws_classes g name_str of
        Some existing \<Rightarrow> (ce_atom existing, g)
      | None \<Rightarrow>
          let atom = ws_next_atom g in
          (atom, g\<lparr>ws_next_atom := max (ws_next_atom g + 1) 0xC000,
                   ws_classes := (ws_classes g)(name_str \<mapsto> \<lparr>ce_atom = atom, ce_wnd_proc = wnd_proc\<rparr>)\<rparr>))"

definition create_window :: "u16 list option \<Rightarrow> u16 list option \<Rightarrow> u64 \<Rightarrow> windows_state \<Rightarrow> u64 \<times> windows_state" where
  "create_window class title ns_window g =
     (let class_str = decode_lpcwstr class; title_str = decode_lpcwstr title;
          (class_atom, wnd_proc) = (case ws_classes g class_str of Some c \<Rightarrow> (ce_atom c, ce_wnd_proc c) | None \<Rightarrow> (0, 0));
          hwnd = ws_next_hwnd g
      in (hwnd, g\<lparr>ws_next_hwnd := ws_next_hwnd g + 0x10,
                  ws_windows := (ws_windows g)(hwnd \<mapsto>
                    \<lparr>we_class_atom = class_atom, we_wnd_proc = wnd_proc, we_ns_window = ns_window, we_title = title_str,
                     we_queue = []\<rparr>)\<rparr>))"

definition destroy_window :: "u64 \<Rightarrow> windows_state \<Rightarrow> u64 option \<times> windows_state" where
  "destroy_window hwnd g = (map_option we_ns_window (ws_windows g hwnd), g\<lparr>ws_windows := (ws_windows g)(hwnd := None)\<rparr>)"

definition wnd_proc_of :: "u64 \<Rightarrow> windows_state \<Rightarrow> u64" where
  "wnd_proc_of hwnd g = (case ws_windows g hwnd of Some e \<Rightarrow> we_wnd_proc e | None \<Rightarrow> 0)"

definition post_message :: "pending_msg \<Rightarrow> windows_state \<Rightarrow> bool \<times> windows_state" where
  "post_message msg g =
     (case ws_windows g (pm_hwnd msg) of
        Some w \<Rightarrow> (True, g\<lparr>ws_windows := (ws_windows g)(pm_hwnd msg \<mapsto> w\<lparr>we_queue := we_queue w @ [msg]\<rparr>)\<rparr>)
      | None \<Rightarrow> (False, g))"

text \<open>\<open>queue.pop_front()\<close> of one window.\<close>

definition pop_front :: "u64 \<Rightarrow> windows_state \<Rightarrow> pending_msg option \<times> windows_state" where
  "pop_front h g =
     (case ws_windows g h of
        Some w \<Rightarrow>
          (case we_queue w of
             [] \<Rightarrow> (None, g)
           | m # q \<Rightarrow> (Some m, g\<lparr>ws_windows := (ws_windows g)(h \<mapsto> w\<lparr>we_queue := q\<rparr>)\<rparr>))
      | None \<Rightarrow> (None, g))"

primrec pop_any :: "u64 list \<Rightarrow> windows_state \<Rightarrow> pending_msg option \<times> windows_state" where
  "pop_any [] g = (None, g)"
| "pop_any (h # hs) g = (case pop_front h g of (Some m, g) \<Rightarrow> (Some m, g) | (None, _) \<Rightarrow> pop_any hs g)"

definition pop_message :: "u64 list \<Rightarrow> u64 option \<Rightarrow> windows_state \<Rightarrow> pending_msg option \<times> windows_state" where
  "pop_message order hwnd_filter g = (case hwnd_filter of Some h \<Rightarrow> pop_front h g | None \<Rightarrow> pop_any order g)"

definition post_quit :: "int \<Rightarrow> windows_state \<Rightarrow> windows_state" where
  "post_quit exit_code g = g\<lparr>ws_quit_code := Some exit_code\<rparr>"

definition take_quit :: "windows_state \<Rightarrow> int option \<times> windows_state" where
  "take_quit g = (ws_quit_code g, g\<lparr>ws_quit_code := None\<rparr>)"

definition quit_pending :: "windows_state \<Rightarrow> int option" where "quit_pending g = ws_quit_code g"

definition live_window_count :: "windows_state \<Rightarrow> nat" where "live_window_count g = card (dom (ws_windows g))"

definition window_title :: "u64 \<Rightarrow> windows_state \<Rightarrow> nat list option" where
  "window_title hwnd g = map_option we_title (ws_windows g hwnd)"

definition ns_window_of :: "u64 \<Rightarrow> windows_state \<Rightarrow> u64" where
  "ns_window_of hwnd g = (case ws_windows g hwnd of Some e \<Rightarrow> we_ns_window e | None \<Rightarrow> 0)"

definition window_class_atom :: "u64 \<Rightarrow> windows_state \<Rightarrow> u16 option" where
  "window_class_atom hwnd g = map_option we_class_atom (ws_windows g hwnd)"

section \<open>Sequences of operations\<close>

datatype ws_op =
    Ws_Register "u16 list option" u64
  | Ws_Create "u16 list option" "u16 list option" u64
  | Ws_Destroy u64
  | Ws_Post pending_msg
  | Ws_Pop "u64 list" "u64 option"
  | Ws_PostQuit int
  | Ws_TakeQuit

text \<open>The message an operation hands out, if any, and the new state.\<close>

primrec ws_apply :: "ws_op \<Rightarrow> windows_state \<Rightarrow> pending_msg option \<times> windows_state" where
  "ws_apply (Ws_Register name wnd_proc) g = (None, snd (register_class name wnd_proc g))"
| "ws_apply (Ws_Create class title ns) g = (None, snd (create_window class title ns g))"
| "ws_apply (Ws_Destroy h) g = (None, snd (destroy_window h g))"
| "ws_apply (Ws_Post msg) g = (None, snd (post_message msg g))"
| "ws_apply (Ws_Pop order flt) g = pop_message order flt g"
| "ws_apply (Ws_PostQuit c) g = (None, post_quit c g)"
| "ws_apply Ws_TakeQuit g = (None, snd (take_quit g))"

primrec ws_run :: "ws_op list \<Rightarrow> windows_state \<Rightarrow> pending_msg list \<times> windows_state" where
  "ws_run [] g = ([], g)"
| "ws_run (op # ops) g =
     (let (m, g) = ws_apply op g; (ms, g) = ws_run ops g
      in (case m of Some x \<Rightarrow> x # ms | None \<Rightarrow> ms, g))"

definition queue_of :: "windows_state \<Rightarrow> u64 \<Rightarrow> pending_msg list" where
  "queue_of g h = (case ws_windows g h of Some w \<Rightarrow> we_queue w | None \<Rightarrow> [])"

primrec posted_to :: "u64 \<Rightarrow> ws_op list \<Rightarrow> pending_msg list" where
  "posted_to h [] = []"
| "posted_to h (op # ops) = (case op of Ws_Post m \<Rightarrow> if pm_hwnd m = h then m # posted_to h ops else posted_to h ops | _ \<Rightarrow> posted_to h ops)"

text \<open>
  Messages sit in the queue of the window they name, live windows are below the next handle, and \<open>n\<close> more windows
  can be created before the handles wrap around.
\<close>

definition ws_ok :: "nat \<Rightarrow> windows_state \<Rightarrow> bool" where
  "ws_ok n g \<longleftrightarrow> (\<forall>h. \<forall>m \<in> set (queue_of g h). pm_hwnd m = h) \<and> (\<forall>h \<in> dom (ws_windows g). h < ws_next_hwnd g)
     \<and> unat (ws_next_hwnd g) + 0x10 * n < 2 ^ 64"

lemma ws_ok_new: "n < 2 ^ 56 \<Longrightarrow> ws_ok n state_new"
  by (simp add: ws_ok_def state_new_def queue_of_def)

definition took :: "u64 \<Rightarrow> pending_msg \<Rightarrow> windows_state \<Rightarrow> windows_state \<Rightarrow> bool" where
  "took w m g g' \<longleftrightarrow> queue_of g w = m # queue_of g' w \<and> (\<forall>h. h \<noteq> w \<longrightarrow> queue_of g' h = queue_of g h)
     \<and> dom (ws_windows g') = dom (ws_windows g) \<and> ws_next_hwnd g' = ws_next_hwnd g"

text \<open>A poll takes the front of one queue or changes nothing.\<close>

lemma pop_front_queue:
  "pop_front w g = (None, g) \<or> (\<exists>m g'. pop_front w g = (Some m, g') \<and> took w m g g')"
proof -
  have "case pop_front w g of (None, g') \<Rightarrow> g' = g | (Some m, g') \<Rightarrow> took w m g g'"
    by (auto simp: pop_front_def took_def queue_of_def split: option.splits list.splits)
  then show ?thesis by (auto split: prod.splits option.splits)
qed

lemma pop_message_queue:
  "pop_message order flt g = (None, g) \<or> (\<exists>w m g'. pop_message order flt g = (Some m, g') \<and> took w m g g')"
proof (cases flt)
  case None
  have "pop_any order g = (None, g) \<or> (\<exists>w m g'. pop_any order g = (Some m, g') \<and> took w m g g')"
  proof (induction order)
    case (Cons h hs)
    then show ?case using pop_front_queue [of h g] by auto
  qed simp
  with None show ?thesis by (simp add: pop_message_def)
next
  case (Some h)
  then show ?thesis using pop_front_queue [of h g] by (auto simp: pop_message_def)
qed

section \<open>Queues keep every message in order\<close>

lemma ws_apply_ok:
  assumes "ws_ok (Suc n) g"
  shows "ws_ok n (snd (ws_apply op g))"
proof (cases op)
  case (Ws_Create cls title ns)
  have u: "unat (ws_next_hwnd g + 0x10) = unat (ws_next_hwnd g) + 0x10"
    using assms by (simp add: ws_ok_def unat_word_ariths)
  have "ws_next_hwnd g < ws_next_hwnd g + 0x10" by (simp add: word_less_nat_alt u)
  moreover from this have "h < ws_next_hwnd g + 0x10" if "h < ws_next_hwnd g" for h using that by order
  ultimately show ?thesis using assms u
    by (auto simp: Ws_Create ws_ok_def create_window_def queue_of_def Let_def split: prod.splits)
next
  case (Ws_Post m)
  then show ?thesis using assms
    by (auto simp: ws_ok_def post_message_def queue_of_def split: option.splits if_splits)
next
  case (Ws_Pop order flt)
  then show ?thesis using assms pop_message_queue [of order flt g]
    by (auto simp: ws_ok_def took_def) (metis list.set_intros(2), metis domI)
qed (use assms in \<open>auto simp: ws_ok_def register_class_def destroy_window_def post_quit_def take_quit_def queue_of_def Let_def split: option.splits\<close>)

lemma ws_apply_queue:
  assumes "ws_ok (Suc n) g" "h \<in> dom (ws_windows g)" "op \<noteq> Ws_Destroy h"
  shows "h \<in> dom (ws_windows (snd (ws_apply op g)))"
    and "filter (\<lambda>m. pm_hwnd m = h) (case fst (ws_apply op g) of Some m \<Rightarrow> [m] | None \<Rightarrow> []) @ queue_of (snd (ws_apply op g)) h
       = queue_of g h @ posted_to h [op]"
proof -
  have "h \<in> dom (ws_windows (snd (ws_apply op g)))
    \<and> filter (\<lambda>m. pm_hwnd m = h) (case fst (ws_apply op g) of Some m \<Rightarrow> [m] | None \<Rightarrow> []) @ queue_of (snd (ws_apply op g)) h
       = queue_of g h @ posted_to h [op]"
  proof (cases op)
    case (Ws_Create cls title ns)
    have "h \<noteq> ws_next_hwnd g" using assms by (auto simp: ws_ok_def)
    then show ?thesis using assms by (auto simp: Ws_Create create_window_def queue_of_def Let_def split: prod.splits)
  next
    case (Ws_Post m)
    then show ?thesis using assms by (auto simp: post_message_def queue_of_def split: option.splits)
  next
    case (Ws_Pop order flt)
    show ?thesis
    proof (cases "pop_message order flt g = (None, g)")
      case True
      then show ?thesis using assms by (simp add: Ws_Pop)
    next
      case False
      then obtain w m g' where p: "pop_message order flt g = (Some m, g')" "took w m g g'"
        using pop_message_queue [of order flt g] by metis
      then have "pm_hwnd m = w" using assms(1) by (auto simp: ws_ok_def took_def dest!: spec [of _ w])
      then show ?thesis using p assms(2) by (auto simp: Ws_Pop took_def)
    qed
  qed (use assms in \<open>auto simp: register_class_def destroy_window_def post_quit_def take_quit_def queue_of_def Let_def split: option.splits\<close>)
  then show "h \<in> dom (ws_windows (snd (ws_apply op g)))"
    and "filter (\<lambda>m. pm_hwnd m = h) (case fst (ws_apply op g) of Some m \<Rightarrow> [m] | None \<Rightarrow> []) @ queue_of (snd (ws_apply op g)) h
       = queue_of g h @ posted_to h [op]" by blast+
qed

section \<open>Properties\<close>

text \<open>
  C40: through any sequence of operations on the window tables in which the window \<open>h\<close> is not destroyed, the messages
  polled for \<open>h\<close> (by a filtered poll or by a poll of all windows in any iteration order), followed by those still queued, are those
  queued at the start followed by those posted to \<open>h\<close>: none is lost, duplicated, reordered or delivered to another window.
\<close>

theorem message_queue_fifo:
  assumes "ws_ok (length ops) g" "h \<in> dom (ws_windows g)" "Ws_Destroy h \<notin> set ops"
  shows "filter (\<lambda>m. pm_hwnd m = h) (fst (ws_run ops g)) @ queue_of (snd (ws_run ops g)) h = queue_of g h @ posted_to h ops"
  using assms
proof (induction ops arbitrary: g)
  case (Cons op ops)
  let ?g = "snd (ws_apply op g)"
  have ok: "ws_ok (Suc (length ops)) g" "op \<noteq> Ws_Destroy h" using Cons.prems by auto
  note s = ws_apply_queue [OF ok(1) Cons.prems(2) ok(2)]
  have ih: "filter (\<lambda>m. pm_hwnd m = h) (fst (ws_run ops ?g)) @ queue_of (snd (ws_run ops ?g)) h = queue_of ?g h @ posted_to h ops"
    using Cons.IH [OF ws_apply_ok [OF ok(1)] s(1)] Cons.prems(3) by simp
  have "posted_to h (op # ops) = posted_to h [op] @ posted_to h ops" by (auto split: ws_op.splits)
  then show ?case using s(2) ih by (auto simp: Let_def case_prod_beta split: option.splits)
qed simp

definition one_window :: windows_state where
  "one_window = snd (create_window None None 0 state_new)"

theorem message_queue_fifo_witness:
  "let h = 0x4000000000020000;
       a = \<lparr>pm_hwnd = h, pm_message = 0x100, pm_wparam = 0x41, pm_lparam = 0\<rparr>;
       b = \<lparr>pm_hwnd = h, pm_message = 0x200, pm_wparam = 0, pm_lparam = 0\<rparr>;
       ops = [Ws_Post a, Ws_Create None None 0, Ws_Post b, Ws_Pop [] (Some h)]
   in filter (\<lambda>m. pm_hwnd m = h) (fst (ws_run ops one_window)) @ queue_of (snd (ws_run ops one_window)) h = [a, b]"
proof -
  have ok: "ws_ok 4 one_window" "0x4000000000020000 \<in> dom (ws_windows one_window)" "queue_of one_window 0x4000000000020000 = []"
    using ws_apply_ok [OF ws_ok_new, of 4 "Ws_Create None None 0"]
    by (simp_all add: one_window_def create_window_def state_new_def queue_of_def Let_def)
  show ?thesis unfolding Let_def
    by (subst message_queue_fifo) (use ok in \<open>simp_all add: eval_nat_numeral\<close>)
qed

end
