(* ===== verification/Spec2Isabelle.thy ===== *)
theory Spec2Isabelle
  imports Decoder_Encode Resources Rep_Loop Chain_Correct Critical_Section Handles Heap Windows_State
begin

text \<open>
  A model of Quantum, a user-mode translator that runs 64-bit Windows programs on macOS for Apple silicon, and
  the theorems that make its core correct.

  \<^bold>\<open>The program.\<close> \<open>quantum-loader\<close> parses a PE file, maps it, relocates it and reads its directories.
  \<open>quantum-jit\<close> decodes x86 instructions, lifts each to AArch64 words and assembles them into blocks.
  \<open>quantum-runtime\<close> owns memory, the code cache and the map from guest addresses to translated blocks.
  \<open>quantum-cli\<close> puts them together: it loads the program and the DLLs beside it, wires their import
  tables and runs a loop that looks the current guest address up, translates on a miss, lets waiting
  exits branch directly to the block and calls it. \<open>quantum-kernel32\<close> provides the Windows API that
  imports resolve to.

  \<^bold>\<open>Conventions\<close> (\<open>Prelude\<close>, \<open>Quantum_Core\<close>). Machine integers are words; \<open>usize\<close> is \<open>nat\<close> with its bound
  where it matters. A call ends in \<open>Ok\<close>, \<open>Err\<close> or \<open>Panic\<close> (type \<open>outcome\<close>); plain arithmetic, indexing and
  \<open>debug_assert!\<close> panic as in a build with overflow checks. Functions with \<open>&mut\<close> arguments return the
  new state beside the outcome, also after an error. Strings are their UTF-8 bytes. Calls to the kernel
  (Mach memory, POSIX descriptors) are records of functions over a kernel state \<open>'k\<close>.

  \<^bold>\<open>The theories.\<close>
  \<^item> \<open>Pe\<close> (\<open>pe.rs\<close>): headers and section table; parsing inverts an encoder, never panics, and
    accepts exactly the files whose headers and section table the format allows.
  \<^item> \<open>Mem\<close> (\<open>mem.rs\<close>, \<open>sys.rs\<close>): regions and the memory manager; locale \<open>memory_manager_laws\<close>.
  \<^item> \<open>Image_Map\<close> (\<open>image.rs\<close>): mapping; the loaded image holds headers and sections exactly, and no raw copy
    leaves the file or the region; the locale \<open>rva_memory\<close> is the contract of the RVA accessors.
  \<^item> \<open>Reloc\<close> (\<open>reloc.rs\<close>), \<open>Imports\<close> (\<open>imports.rs\<close>, \<open>delay_imports.rs\<close>): relocation refines one patch per
    table entry and changes nothing else; import tables are read exactly as the bytes lay them out, descriptor walks terminate
    (locale \<open>descriptor_walk\<close>), wiring fills exactly the address slots.
  \<^item> \<open>Directories\<close> (\<open>exports.rs\<close>, \<open>tls.rs\<close>, \<open>exception.rs\<close>) and \<open>Resources\<close> (\<open>debug.rs\<close>, \<open>load_config.rs\<close>,
    \<open>resources.rs\<close>, \<open>peb.rs\<close>): the read-only directories; the binary search for the unwind entry of an
    address is the linear search.
  \<^item> \<open>Iform\<close>, \<open>Decoder\<close> (\<open>iform.rs\<close>, \<open>decoder.rs\<close>): instructions and the decoder; \<open>Decoder_Correct\<close> and
    \<open>Decoder_Encode\<close> show that it never panics, reads only the bytes of the instruction, accepts
    exactly the x86 encodings of an operand, and inverts an encoder for arithmetic instructions.
  \<^item> \<open>Emitter\<close>, \<open>Emitter_Correct\<close> (\<open>emitter.rs\<close>): the assembler; one pass with fixups gives the words that
    a two-pass assembler with known label positions gives.
  \<^item> \<open>Lifter\<close>, \<open>Lifter_Sse\<close>, \<open>Lifter_Inv\<close> (\<open>lifter.rs\<close>): the translation of every instruction the lifter
    supports, and that it keeps the emitter's invariant.
  \<^item> \<open>A64\<close>, \<open>A64_Sem\<close>, \<open>Guest\<close>, \<open>Lifter_Correct\<close>, \<open>Lifter_Gaps\<close>: a decoder and semantics for the AArch64 words
    the lifter uses, the guest machine read out of the host machine, the simulation theorem for the
    integer core, and the instructions where the translation deviates from the processor manuals.
  \<^item> \<open>Rep_Loop\<close> (\<open>lifter.rs\<close>): the loop emitted for \<open>REP MOVS\<close> and \<open>REP STOS\<close>, run by the program counter in the
    assembled buffer, ends for every count and does what the string instruction does.
  \<^item> \<open>Block\<close>, \<open>Block_Correct\<close> (\<open>block.rs\<close>): translation of basic blocks; the code of a block whose body is in the
    integer core, called with a context, does what the block does and returns the next guest address.
  \<^item> \<open>Runtime\<close> (\<open>codecache.rs\<close>, \<open>dispatcher.rs\<close>, \<open>guest_stack.rs\<close>, \<open>peb.rs\<close>, \<open>fd.rs\<close> and the two registries):
    the dispatcher refines a log of installed blocks under installation and chain patching.
  \<^item> \<open>Side_Modules\<close>, \<open>Driver\<close> (\<open>process.rs\<close> of \<open>quantum-cli\<close>): DLLs beside the program, their wiring, and the
    loop that runs guest code.
  \<^item> \<open>Chain\<close>, \<open>Chain_Correct\<close> (across \<open>block.rs\<close>, \<open>dispatcher.rs\<close>, \<open>process.rs\<close>): block chaining. The loop as a step
    relation keeps every exit of every block a placeholder or a branch to the hot entry of the right block;
    the processor run on the code cache by address then follows the guest through any number of blocks.
  \<^item> \<open>Critical_Section\<close> (\<open>sync.rs\<close> of \<open>quantum-kernel32\<close>): every interleaving of the atomic operations of any number
    of threads; mutual exclusion, and the schedule after which a thread inside the section is locked out of it.
  \<^item> \<open>Handles\<close> (\<open>handles.rs\<close>, \<open>threads.rs\<close>): kernel objects, waits and the thunks on them; the table refines a map
    from handles to objects (locale \<open>object_store\<close>), signals are not lost, closed handles are recycled.
  \<^item> \<open>Heap\<close> (\<open>heap.rs\<close>, \<open>vm.rs\<close>): the bump allocator and the virtual memory thunks over the memory manager; blocks
    are disjoint, and growing the last block copies between overlapping ranges.
  \<^item> \<open>Windows_State\<close> (\<open>windows_state.rs\<close>): window classes, windows and message queues, which keep every message
    in order.

  \<^bold>\<open>Fuel and bounds.\<close> Loops with a bound in the code (strings of 4096 bytes, 65536 thunks, 256 TLS callbacks,
  16 chained unwind records, six resource levels, ten million turns of the dispatcher loop) terminate by
  that bound. The descriptor walks are partial functions proved to return on every image the loader
  produces. Only the work list of \<open>load_side_dlls\<close> has fuel: it is bounded by nothing but the number of
  files. Block execution (\<open>exec_block\<close>) needs none, as every branch inside a block of the integer core goes
  forward; the one loop in lifted code, of the \<open>REP\<close> instructions, ends by induction on RCX.

  \<^bold>\<open>Where the theorems stop.\<close> The simulation of blocks covers the instructions of \<open>integer_core\<close>, and \<open>Rep_Loop\<close> the
  string instructions alone; floating point and system instructions are modelled as emitted code without a statement about its effect, and for
  \<open>ADD\<close>, the logic instructions and narrow operands the code is proved to deviate in flags or upper bits.
  Host code is taken to lie outside the memory it changes.

  In \<open>Critical_Section\<close> all threads see the atomic operations in one order. In \<open>Handles\<close> what other threads do to an
  object during a blocking wait is an argument (the wake-ups), as is every reading of the clock.

  \<^bold>\<open>Not modelled.\<close> The rest of \<open>quantum-kernel32\<close>, which forwards to host libraries, reads the host clock or
  returns constants. The signal handlers and \<open>setjmp\<close> of the exit trap, structured exception dispatch,
  the body of a guest thread, the command line, logging, window and graphics back ends, and sockets:
  they are made of calls into macOS. Allocation failure and stack overflow of the translator itself are
  outside the model.
\<close>

end
